(* ===== verification/Prelude.thy ===== *)
theory Prelude
  imports Main "HOL-Library.List_Lexorder" "HOL-Library.Char_ord"
begin

text \<open>
  Shared vocabulary of the development: how JavaScript strings, truthiness, optional values and
  error results are written, and the generic lemmas the component theories use.

  Conventions. A JavaScript string is a \<^typ>\<open>string\<close>, read as its sequence of code units
  below 256. An instant (\<open>Date\<close>, epoch milliseconds) is an \<^typ>\<open>int\<close>. \<open>null\<close> and
  \<open>undefined\<close> are \<^term>\<open>None\<close>. A thrown error is the \<^term>\<open>Inl\<close> side of a sum.
\<close>

section \<open>Collections of facts\<close>

named_theorems slot_rules \<open>facts about walking days and windows\<close>
named_theorems ledger_rules \<open>facts about stored bookings and their capacity\<close>
named_theorems travel_rules \<open>facts about drives, neighbours and verdicts\<close>

section \<open>JavaScript values\<close>

type_synonym instant = int

abbreviation minute_ms :: int where "minute_ms \<equiv> 60000"
abbreviation hour_ms :: int where "hour_ms \<equiv> 3600000"
abbreviation day_ms :: int where "day_ms \<equiv> 86400000"

text \<open>\<open>x ?? d\<close> and \<open>x || d\<close> on numbers; the second also replaces zero.\<close>

definition nullish :: "'a option \<Rightarrow> 'a \<Rightarrow> 'a" where
  "nullish x d = (case x of None \<Rightarrow> d | Some v \<Rightarrow> v)"

definition or_num :: "int option \<Rightarrow> int \<Rightarrow> int" where
  "or_num x d = (case x of None \<Rightarrow> d | Some v \<Rightarrow> if v = 0 then d else v)"

definition truthy_bool :: "bool option \<Rightarrow> bool" where
  "truthy_bool b = (b = Some True)"

definition truthy_str :: "string option \<Rightarrow> bool" where
  "truthy_str s = (case s of None \<Rightarrow> False | Some t \<Rightarrow> t \<noteq> [])"

definition truthy_num :: "int option \<Rightarrow> bool" where
  "truthy_num n = (case n of None \<Rightarrow> False | Some v \<Rightarrow> v \<noteq> 0)"

lemma nullish_simps [simp]: "nullish None d = d" "nullish (Some v) d = v"
  by (simp_all add: nullish_def)

lemma or_num_simps [simp]: "or_num None d = d" "or_num (Some v) d = (if v = 0 then d else v)"
  by (simp_all add: or_num_def)

lemma or_num_zero [simp]: "or_num x 0 = nullish x 0"
  by (cases x) auto

lemma truthy_simps [simp]:
  "truthy_bool None = False" "truthy_bool (Some b) = b"
  "truthy_str None = False" "truthy_str (Some s) = (s \<noteq> [])"
  "truthy_num None = False" "truthy_num (Some v) = (v \<noteq> 0)"
  by (simp_all add: truthy_bool_def truthy_str_def truthy_num_def)

section \<open>Strings\<close>

text \<open>The white space of \<open>String.prototype.trim\<close> and of \<open>\s\<close>, below code unit 256.\<close>

definition is_ws :: "char \<Rightarrow> bool" where
  "is_ws c = (of_char c \<in> {9, 10, 11, 12, 13, 32, 160 :: nat})"

definition js_trim :: "string \<Rightarrow> string" where
  "js_trim s = rev (dropWhile is_ws (rev (dropWhile is_ws s)))"

definition is_digit :: "char \<Rightarrow> bool" where
  "is_digit c = (48 \<le> (of_char c :: nat) \<and> (of_char c :: nat) \<le> 57)"

definition digit_val :: "char \<Rightarrow> int" where
  "digit_val c = int (of_char c) - 48"

fun digits_val :: "string \<Rightarrow> int \<Rightarrow> int" where
  "digits_val [] acc = acc"
| "digits_val (c # cs) acc = digits_val cs (10 * acc + digit_val c)"

definition num_of :: "string \<Rightarrow> int" where
  "num_of s = digits_val s 0"

lemma digit_val_bounds: "is_digit c \<Longrightarrow> 0 \<le> digit_val c \<and> digit_val c \<le> 9"
  by (auto simp: is_digit_def digit_val_def)

lemma digits_val_nonneg: "list_all is_digit s \<Longrightarrow> 0 \<le> acc \<Longrightarrow> 0 \<le> digits_val s acc"
proof (induction s arbitrary: acc)
  case Nil
  then show ?case by simp
next
  case (Cons c cs)
  then have "0 \<le> digit_val c" by (simp add: digit_val_bounds)
  with Cons show ?case by simp
qed

lemma num_of_nonneg: "list_all is_digit s \<Longrightarrow> 0 \<le> num_of s"
  by (simp add: num_of_def digits_val_nonneg)

section \<open>Results\<close>

text \<open>Running the next step only when the previous one did not throw.\<close>

definition and_then :: "'e + 'a \<Rightarrow> ('a \<Rightarrow> 'e + 'b) \<Rightarrow> 'e + 'b" where
  "and_then r f = (case r of Inl e \<Rightarrow> Inl e | Inr v \<Rightarrow> f v)"

lemma and_then_simps [simp]: "and_then (Inl e) f = Inl e" "and_then (Inr v) f = f v"
  by (simp_all add: and_then_def)

lemma and_then_Inr: "and_then r f = Inr y \<longleftrightarrow> (\<exists>x. r = Inr x \<and> f x = Inr y)"
  by (cases r) auto

section \<open>Lists\<close>

lemma sorted_wrt_filter_key:
  "sorted (map f xs) \<Longrightarrow> sorted (map f (filter P xs))"
  by (induction xs) auto

lemma sorted_distinct_strict:
  "sorted xs \<Longrightarrow> distinct xs \<Longrightarrow> sorted_wrt (<) (xs :: 'a :: linorder list)"
  by (simp add: strict_sorted_iff)

text \<open>The best element of a list under a strict preference, first one kept on ties.\<close>

fun best_by :: "('a \<Rightarrow> 'a \<Rightarrow> bool) \<Rightarrow> 'a option \<Rightarrow> 'a list \<Rightarrow> 'a option" where
  "best_by better best [] = best"
| "best_by better best (x # xs) =
     best_by better (case best of None \<Rightarrow> Some x | Some b \<Rightarrow> if better x b then Some x else Some b) xs"

lemma best_by_None: "best_by better best xs = None \<longleftrightarrow> best = None \<and> xs = []"
  by (induction xs arbitrary: best) (auto split: option.splits)

lemma best_by_mem: "best_by better best xs = Some y \<Longrightarrow> best = Some y \<or> y \<in> set xs"
proof (induction xs arbitrary: best)
  case Nil
  then show ?case by simp
next
  case (Cons x xs)
  let ?b = "case best of None \<Rightarrow> Some x | Some b \<Rightarrow> if better x b then Some x else Some b"
  from Cons.prems have "?b = Some y \<or> y \<in> set xs"
    using Cons.IH [of ?b] by simp
  then show ?case by (auto split: option.splits if_splits)
qed

lemma best_by_key:
  fixes k :: "'a \<Rightarrow> 'b :: linorder"
  assumes "best_by (\<lambda>x y. k x < k y) best xs = Some y"
  shows "(\<forall>x \<in> set xs. k y \<le> k x) \<and> (\<forall>b. best = Some b \<longrightarrow> k y \<le> k b)"
  using assms
proof (induction xs arbitrary: best)
  case Nil
  then show ?case by simp
next
  case (Cons x xs)
  let ?b = "case best of None \<Rightarrow> Some x | Some b \<Rightarrow> if k x < k b then Some x else Some b"
  from Cons.prems have "best_by (\<lambda>x y. k x < k y) ?b xs = Some y" by simp
  then have "(\<forall>x \<in> set xs. k y \<le> k x)" and b: "\<And>b. ?b = Some b \<Longrightarrow> k y \<le> k b"
    using Cons.IH by blast+
  moreover have "k y \<le> k x" and "\<And>c. best = Some c \<Longrightarrow> k y \<le> k c"
    using b by (cases best; fastforce split: if_splits)+
  ultimately show ?case by auto
qed

end
