(* ===== verification/Travel.thy ===== *)
theory Travel
  imports Prelude Complex_Main
begin

text \<open>
  The arithmetic of travel time (\<open>api/src/contracts/travel.ts\<close>): great-circle distance, the
  two one-sided speed bounds, the plausibility test of a routed duration and the specification of
  the free time between two jobs. Coordinates and durations are real numbers: the code computes
  the same formulas in IEEE doubles, whose rounding is not modelled.
\<close>

section \<open>Points\<close>

record geo_point =
  lat :: real
  lng :: real

datatype geocode_precision = Rooftop | RangeInterpolated | GeometricCenter | Approximate

definition is_trusted_for_travel :: "geocode_precision option \<Rightarrow> bool" where
  "is_trusted_for_travel p = (p = Some Rooftop \<or> p = Some RangeInterpolated \<or> p = Some GeometricCenter)"

definition earth_radius_km :: real where
  "earth_radius_km = 63710088 / 10000"

definition to_rad :: "real \<Rightarrow> real" where
  "to_rad deg = deg * pi / 180"

definition haversine_h :: "geo_point \<Rightarrow> geo_point \<Rightarrow> real" where
  "haversine_h a b =
     (sin (to_rad (lat b - lat a) / 2))\<^sup>2 +
     cos (to_rad (lat a)) * cos (to_rad (lat b)) * (sin (to_rad (lng b - lng a) / 2))\<^sup>2"

definition haversine_km :: "geo_point \<Rightarrow> geo_point \<Rightarrow> real" where
  "haversine_km a b = 2 * earth_radius_km * arcsin (min 1 (sqrt (haversine_h a b)))"

section \<open>The interface of a distance\<close>

text \<open>
  The gate and the estimates use a distance only through these laws, so they take it as an
  argument \<open>dst\<close>; the program's own \<open>haversineKm\<close> is the instance.
\<close>

type_synonym distance = "geo_point \<Rightarrow> geo_point \<Rightarrow> real"

definition prefilter_max_kmh :: real where "prefilter_max_kmh = 120"

definition prefilter_min_kmh :: real where "prefilter_min_kmh = 1"

definition implausibly_slow_kmh :: real where "implausibly_slow_kmh = 2"

definition display_slowest_kmh :: real where "display_slowest_kmh = 20"

definition could_reach_within :: "distance \<Rightarrow> geo_point \<Rightarrow> geo_point \<Rightarrow> int \<Rightarrow> bool" where
  "could_reach_within dst a b minutes =
     (if minutes \<le> 0 then dst a b = 0
      else dst a b \<le> prefilter_max_kmh * real_of_int minutes / 60)"

definition certainly_reachable_within :: "distance \<Rightarrow> geo_point \<Rightarrow> geo_point \<Rightarrow> int \<Rightarrow> bool" where
  "certainly_reachable_within dst a b minutes =
     (if minutes \<le> 0 then False
      else dst a b \<le> prefilter_min_kmh * real_of_int minutes / 60)"

text \<open>\<open>minutes\<close> is \<^term>\<open>None\<close> where \<open>Number.isFinite\<close> is false.\<close>

definition drive_plausible :: "distance \<Rightarrow> geo_point \<Rightarrow> geo_point \<Rightarrow> real option \<Rightarrow> bool" where
  "drive_plausible dst a b minutes =
     (case minutes of
        None \<Rightarrow> False
      | Some mn \<Rightarrow>
          if mn < 0 then False
          else
            (let km = dst a b
             in if mn = 0 then km = 0
                else
                  (let kmh = km / mn * 60
                   in if kmh > prefilter_max_kmh then False
                      else if km \<ge> 5 \<and> kmh < implausibly_slow_kmh then False
                      else True)))"

definition travel_gap_minutes :: "real option \<Rightarrow> real \<Rightarrow> real" where
  "travel_gap_minutes drive min_gap =
     (let floor = max 0 min_gap
      in case drive of
           None \<Rightarrow> floor
         | Some d \<Rightarrow> if d < 0 then floor else floor + d)"

text \<open>\<open>Number.prototype.toFixed(5)\<close> as the sign and the scaled integer it prints.\<close>

definition to_fixed5 :: "real \<Rightarrow> bool \<times> int" where
  "to_fixed5 x = (x < 0, \<lfloor>\<bar>x\<bar> * 100000 + 1 / 2\<rfloor>)"

type_synonym fixed_point = "(bool \<times> int) \<times> (bool \<times> int)"

definition fixed_point_of :: "geo_point \<Rightarrow> fixed_point" where
  "fixed_point_of p = (to_fixed5 (lat p), to_fixed5 (lng p))"

definition travel_cache_key :: "geo_point \<Rightarrow> geo_point \<Rightarrow> string \<Rightarrow> string \<times> fixed_point \<times> fixed_point" where
  "travel_cache_key a b mode = (mode, fixed_point_of a, fixed_point_of b)"

datatype grouping_period = GroupNone | GroupHalfDay | GroupFullDay

definition grouping_periods :: "grouping_period list" where
  "grouping_periods = [GroupNone, GroupHalfDay, GroupFullDay]"

section \<open>Laws of a distance\<close>

locale geo_distance =
  fixes dst :: distance
  assumes dist_nonneg: "0 \<le> dst a b"
    and dist_sym: "dst a b = dst b a"
    and dist_same: "dst a a = 0"
begin

lemma certainly_implies_could:
  "certainly_reachable_within dst a b t \<Longrightarrow> could_reach_within dst a b t"
  by (simp add: certainly_reachable_within_def could_reach_within_def prefilter_min_kmh_def
      prefilter_max_kmh_def split: if_splits)

lemma could_reach_mono:
  "could_reach_within dst a b s \<Longrightarrow> s \<le> t \<Longrightarrow> could_reach_within dst a b t"
  by (auto simp: could_reach_within_def prefilter_max_kmh_def split: if_splits)

lemma certainly_mono:
  "certainly_reachable_within dst a b s \<Longrightarrow> s \<le> t \<Longrightarrow> certainly_reachable_within dst a b t"
  by (auto simp: certainly_reachable_within_def prefilter_min_kmh_def split: if_splits)

lemma bounds_sym:
  "could_reach_within dst a b t = could_reach_within dst b a t"
  "certainly_reachable_within dst a b t = certainly_reachable_within dst b a t"
  by (simp_all add: could_reach_within_def certainly_reachable_within_def dist_sym [of a b])

text \<open>
  A routed duration the plausibility test accepts never beats the optimistic bound: when the bound
  has ruled a drive out, no plausible answer fits the budget.
\<close>

lemma plausible_never_beats_bound:
  assumes "drive_plausible dst a b (Some mn)" and "mn \<le> real_of_int t"
  shows "could_reach_within dst a b t"
proof (cases "mn = 0")
  case True
  with assms show ?thesis
    by (auto simp: drive_plausible_def could_reach_within_def prefilter_max_kmh_def)
next
  case False
  with assms(1) have "0 < mn" "dst a b / mn * 60 \<le> 120"
    by (auto simp: drive_plausible_def Let_def prefilter_max_kmh_def split: if_splits)
  then have "dst a b \<le> 120 * mn / 60" by (simp add: field_simps)
  also have "\<dots> \<le> 120 * real_of_int t / 60" using assms(2) by simp
  finally show ?thesis
    using \<open>0 < mn\<close> assms(2) by (simp add: could_reach_within_def prefilter_max_kmh_def)
qed

end

lemma arcsin_nonneg: "0 \<le> x \<Longrightarrow> x \<le> 1 \<Longrightarrow> 0 \<le> arcsin x"
  using arcsin_le_arcsin [of 0 x] by simp

lemma haversine_h_sym: "haversine_h a b = haversine_h b a"
proof -
  have "(sin (to_rad (u - v) / 2))\<^sup>2 = (sin (to_rad (v - u) / 2))\<^sup>2" for u v
  proof -
    have "to_rad (u - v) / 2 = - (to_rad (v - u) / 2)" by (simp add: to_rad_def field_simps)
    then show ?thesis by (simp only: sin_minus power2_minus)
  qed
  then show ?thesis unfolding haversine_h_def by (metis mult.commute)
qed

text \<open>
  Non-negativity needs the square root to be defined: outside latitudes of a quarter turn the
  cosines may be negative, and there the code's \<open>Math.sqrt\<close> could be \<open>NaN\<close>. The real square root
  extends it as an odd function, so the instance clips the distance at zero.
\<close>

definition haversine_dist :: distance where
  "haversine_dist a b = max 0 (haversine_km a b)"

interpretation haversine: geo_distance haversine_dist
proof unfold_locales
  fix a b :: geo_point
  show "0 \<le> haversine_dist a b" by (simp add: haversine_dist_def)
  show "haversine_dist a b = haversine_dist b a"
    by (simp add: haversine_dist_def haversine_km_def haversine_h_sym [of a b])
  show "haversine_dist a a = 0"
    by (simp add: haversine_dist_def haversine_km_def haversine_h_def to_rad_def)
qed

lemma haversine_dist_km:
  assumes "\<bar>lat a\<bar> \<le> 90" "\<bar>lat b\<bar> \<le> 90"
  shows "haversine_dist a b = haversine_km a b"
proof -
  have cos: "0 \<le> cos (to_rad x)" if "\<bar>x\<bar> \<le> 90" for x
  proof (rule cos_ge_zero)
    have "\<bar>x * pi\<bar> \<le> 90 * pi" using that by (simp add: abs_mult)
    then show "- (pi / 2) \<le> to_rad x" "to_rad x \<le> pi / 2"
      by (simp_all add: to_rad_def abs_le_iff)
  qed
  have "0 \<le> haversine_h a b"
    using cos [OF assms(1)] cos [OF assms(2)] by (simp add: haversine_h_def)
  then have "0 \<le> haversine_km a b"
    by (simp add: haversine_km_def earth_radius_km_def arcsin_nonneg)
  then show ?thesis by (simp add: haversine_dist_def)
qed

end
