(* ===== verification/TravelGate.thy ===== *)
theory TravelGate
  imports Travel
begin

text \<open>
  The travel gate (\<open>api/src/booking/travel/travel-gate.ts\<close>): the neighbours of a candidate slot,
  the verdict of each side by the two distance bounds, and the resolution of the undecided band by
  a drive lookup. The lookup is code elsewhere (a cache in front of a routing service): it is an
  argument, a function of a leg and of the world \<open>'s\<close> it runs in, so that what it is asked and in
  which order is visible. The clock is read from the same world.
\<close>

section \<open>Data\<close>

datatype travel_verdict = Clear | Unreachable | Undecided

datatype cause_class = PlatformCause | TenantCause | ConfigurationCause | MetricCause | NoCause

datatype degradation_cause =
    NoApiKey | ApiError | MalformedResponse | PlacesApiError | PlacesCapExhausted | CapExhausted
  | SharedItinerary | NoRoute | BudgetSpent | RouteDeadline | UnknownCause | SettledByBounds
  | Departed | NotCached | Estimated

fun classify_cause :: "degradation_cause \<Rightarrow> cause_class" where
  "classify_cause NoApiKey = PlatformCause"
| "classify_cause ApiError = PlatformCause"
| "classify_cause MalformedResponse = PlatformCause"
| "classify_cause PlacesApiError = PlatformCause"
| "classify_cause PlacesCapExhausted = TenantCause"
| "classify_cause CapExhausted = TenantCause"
| "classify_cause SharedItinerary = ConfigurationCause"
| "classify_cause NoRoute = MetricCause"
| "classify_cause BudgetSpent = MetricCause"
| "classify_cause RouteDeadline = MetricCause"
| "classify_cause UnknownCause = MetricCause"
| "classify_cause SettledByBounds = NoCause"
| "classify_cause Departed = NoCause"
| "classify_cause NotCached = NoCause"
| "classify_cause Estimated = NoCause"

record routable_leg =
  leg_from :: geo_point
  leg_to :: geo_point
  budget_min :: int
  depart_at :: instant

record side_outcome =
  so_verdict :: travel_verdict
  so_constraining :: bool
  so_leg :: "routable_leg option"

datatype neighbour_location = Known geo_point | Coarse geo_point | Locationless | Unresolved

datatype neighbour_status = NPending | NConfirmed

record travel_neighbour =
  n_booking :: "string option"
  n_start :: instant
  n_end :: instant
  n_location :: neighbour_location
  n_status :: "neighbour_status option"

record travel_candidate =
  c_start :: instant
  c_end :: instant
  c_point :: geo_point
  c_coarse :: bool

datatype side = Before | After

definition minutes_between :: "instant \<Rightarrow> instant \<Rightarrow> int" where
  "minutes_between from to = (to - from) div minute_ms"

section \<open>One side\<close>

fun location_point :: "neighbour_location \<Rightarrow> geo_point option" where
  "location_point (Known p) = Some p"
| "location_point (Coarse p) = Some p"
| "location_point Locationless = None"
| "location_point Unresolved = None"

definition is_known :: "neighbour_location \<Rightarrow> bool" where
  "is_known l = (case l of Known p \<Rightarrow> True | _ \<Rightarrow> False)"

definition gap_minutes :: "travel_candidate \<Rightarrow> travel_neighbour \<Rightarrow> side \<Rightarrow> int" where
  "gap_minutes c n sd =
     (case sd of
        Before \<Rightarrow> minutes_between (n_end n) (c_start c)
      | After \<Rightarrow> minutes_between (c_end c) (n_start n))"

definition capped_budget :: "int \<Rightarrow> int \<Rightarrow> int option \<Rightarrow> int" where
  "capped_budget gap min_gap max_travel =
     (let budget = gap - max 0 min_gap
      in case max_travel of
           None \<Rightarrow> budget
         | Some m \<Rightarrow> if m \<le> 0 then budget else min budget m)"

definition assess_side ::
    "distance \<Rightarrow> travel_candidate \<Rightarrow> travel_neighbour option \<Rightarrow> int \<Rightarrow> int option \<Rightarrow> side \<Rightarrow> side_outcome"
  where
  "assess_side dst c nb min_gap max_travel sd =
     (case nb of
        None \<Rightarrow> \<lparr>so_verdict = Clear, so_constraining = False, so_leg = None\<rparr>
      | Some n \<Rightarrow>
          (case n_location n of
             Locationless \<Rightarrow> \<lparr>so_verdict = Clear, so_constraining = False, so_leg = None\<rparr>
           | Unresolved \<Rightarrow> \<lparr>so_verdict = Undecided, so_constraining = True, so_leg = None\<rparr>
           | loc \<Rightarrow>
               (let p = (case location_point loc of Some q \<Rightarrow> q | None \<Rightarrow> c_point c);
                    budget = capped_budget (gap_minutes c n sd) min_gap max_travel;
                    from = (case sd of Before \<Rightarrow> p | After \<Rightarrow> c_point c);
                    to = (case sd of Before \<Rightarrow> c_point c | After \<Rightarrow> p);
                    both_placed = (\<not> c_coarse c \<and> is_known loc)
                in if \<not> could_reach_within dst from to budget
                   then \<lparr>so_verdict = Unreachable, so_constraining = True, so_leg = None\<rparr>
                   else if both_placed \<and> certainly_reachable_within dst from to budget
                   then \<lparr>so_verdict = Clear, so_constraining = True, so_leg = None\<rparr>
                   else \<lparr>so_verdict = Undecided, so_constraining = True,
                         so_leg =
                           (if both_placed
                            then Some \<lparr>leg_from = from, leg_to = to, budget_min = budget,
                                       depart_at = (case sd of Before \<Rightarrow> n_end n | After \<Rightarrow> c_end c)\<rparr>
                            else None)\<rparr>)))"

definition combine :: "travel_candidate \<Rightarrow> side_outcome list \<Rightarrow> travel_verdict" where
  "combine c outcomes =
     (let verdicts = map so_verdict outcomes
      in if Unreachable \<in> set verdicts then Unreachable
         else if Undecided \<in> set verdicts then Undecided
         else if c_coarse c then Undecided else Clear)"

section \<open>Neighbours\<close>

definition is_constraint :: "travel_neighbour \<Rightarrow> bool" where
  "is_constraint n = (n_location n \<noteq> Locationless)"

definition preceding_neighbour :: "travel_neighbour list \<Rightarrow> instant \<Rightarrow> travel_neighbour option" where
  "preceding_neighbour ns start =
     best_by (\<lambda>n best. n_end best < n_end n) None
       (filter (\<lambda>n. is_constraint n \<and> \<not> start < n_end n) ns)"

definition following_neighbour :: "travel_neighbour list \<Rightarrow> instant \<Rightarrow> travel_neighbour option" where
  "following_neighbour ns stop =
     best_by (\<lambda>n best. n_start n < n_start best) None
       (filter (\<lambda>n. is_constraint n \<and> \<not> n_start n < stop) ns)"

record base_departure =
  base_at :: instant
  base_location :: neighbour_location

definition base_neighbour :: "base_departure \<Rightarrow> travel_neighbour" where
  "base_neighbour b =
     \<lparr>n_booking = None, n_start = base_at b, n_end = base_at b, n_location = base_location b,
      n_status = None\<rparr>"

definition with_base_neighbour ::
    "travel_neighbour list \<Rightarrow> instant \<Rightarrow> base_departure option \<Rightarrow> instant \<Rightarrow> travel_neighbour list"
  where
  "with_base_neighbour ns start base day_start =
     (case base of
        None \<Rightarrow> ns
      | Some b \<Rightarrow>
          if start < base_at b then ns
          else if list_ex (\<lambda>n. is_constraint n \<and> day_start \<le> n_end n \<and> n_end n \<le> start) ns then ns
          else ns @ [base_neighbour b])"

definition first_job_of_day :: "travel_neighbour list \<Rightarrow> instant \<Rightarrow> instant \<Rightarrow> travel_neighbour option"
  where
  "first_job_of_day ns day_start day_end =
     best_by (\<lambda>n best. n_start n < n_start best) None
       (filter (\<lambda>n. is_constraint n \<and> \<not> (n_start n < day_start \<or> day_end \<le> n_start n)) ns)"

datatype first_job_selection =
    NoJob
  | Unplaced "string option"
  | Assessable "string option" travel_candidate "travel_neighbour list"

text \<open>
  The code drops the chosen object from the list by identity. The scan keeps the first of several
  earliest jobs, so the chosen object is the first element equal to it, the one
  \<^const>\<open>remove1\<close> removes.
\<close>

definition select_first_job :: "travel_neighbour list \<Rightarrow> instant \<Rightarrow> instant \<Rightarrow> first_job_selection" where
  "select_first_job ns day_start day_end =
     (case first_job_of_day ns day_start day_end of
        None \<Rightarrow> NoJob
      | Some job \<Rightarrow>
          (case location_point (n_location job) of
             None \<Rightarrow> Unplaced (n_booking job)
           | Some p \<Rightarrow>
               Assessable (n_booking job)
                 \<lparr>c_start = n_start job, c_end = n_end job, c_point = p,
                  c_coarse = \<not> is_known (n_location job)\<rparr>
                 (remove1 job ns)))"

record drive_estimate =
  est_km :: int
  fastest_min :: int
  slowest_min :: int

definition math_round :: "real \<Rightarrow> int" where
  "math_round x = \<lfloor>x + 1 / 2\<rfloor>"

definition estimate_drive :: "distance \<Rightarrow> geo_point \<Rightarrow> geo_point \<Rightarrow> drive_estimate" where
  "estimate_drive dst a b =
     (let km = dst a b
      in \<lparr>est_km = math_round km,
          fastest_min = math_round (km / prefilter_max_kmh * 60),
          slowest_min = math_round (km / display_slowest_kmh * 60)\<rparr>)"

section \<open>Lookups and their budget\<close>

record routed_leg =
  rl_minutes :: "real option"
  rl_cause :: "degradation_cause option"
  rl_estimated :: bool

type_synonym 's drive_lookup = "routable_leg \<Rightarrow> 's \<Rightarrow> routed_leg \<times> 's"

record route_budget =
  remaining :: int
  deadline :: instant

definition max_route_lookups_per_call :: int where "max_route_lookups_per_call = 10"

definition route_lookup_deadline_ms :: int where "route_lookup_deadline_ms = 8000"

definition new_route_budget :: "instant \<Rightarrow> route_budget" where
  "new_route_budget now =
     \<lparr>remaining = max_route_lookups_per_call, deadline = now + route_lookup_deadline_ms\<rparr>"

definition deadline_passed :: "instant \<Rightarrow> route_budget \<Rightarrow> bool" where
  "deadline_passed now b = (deadline b \<le> now)"

definition claim_route_count :: "route_budget \<Rightarrow> bool \<times> route_budget" where
  "claim_route_count b =
     (if remaining b \<le> 0 then (False, b) else (True, b\<lparr>remaining := remaining b - 1\<rparr>))"

type_synonym leg_key = "fixed_point \<times> fixed_point \<times> instant"

definition leg_key_of :: "routable_leg \<Rightarrow> leg_key" where
  "leg_key_of g = (fixed_point_of (leg_from g), fixed_point_of (leg_to g), depart_at g)"

type_synonym drive_records = "leg_key \<Rightarrow> routed_leg option"

definition recording_lookup :: "'s drive_lookup \<Rightarrow> ('s \<times> drive_records) drive_lookup" where
  "recording_lookup inner g w =
     (case inner g (fst w) of
        (answer, s) \<Rightarrow> (answer, (s, (snd w)(leg_key_of g \<mapsto> answer))))"

definition no_answer :: routed_leg where
  "no_answer = \<lparr>rl_minutes = None, rl_cause = None, rl_estimated = False\<rparr>"

definition replay_lookup :: "drive_records \<Rightarrow> 's drive_lookup" where
  "replay_lookup records g s = (nullish (records (leg_key_of g)) no_answer, s)"

section \<open>The routed assessment\<close>

record routed_assessment =
  ra_verdict :: travel_verdict
  fully_routed :: bool
  degraded_causes :: "degradation_cause list"
  had_constraining_leg :: bool

definition add_cause :: "degradation_cause list \<Rightarrow> degradation_cause \<Rightarrow> degradation_cause list" where
  "add_cause cs x = (if x \<in> set cs then cs else cs @ [x])"

text \<open>
  One turn of the loop: the outcome kept for this side, whether the side leaves the assessment
  fully routed, the cause it adds, and the world after it.
\<close>

definition resolve_outcome ::
    "('s \<Rightarrow> instant) \<Rightarrow> route_budget option \<Rightarrow> 's drive_lookup \<Rightarrow> side_outcome \<Rightarrow> 's \<Rightarrow>
     (side_outcome \<times> bool \<times> degradation_cause option) \<times> 's"
  where
  "resolve_outcome clock budget look out s =
     (case (if so_verdict out \<noteq> Undecided then None else so_leg out) of
        None \<Rightarrow>
          if so_constraining out \<and> so_verdict out \<noteq> Undecided
          then ((out, False, Some SettledByBounds), s)
          else ((out, True, None), s)
      | Some g \<Rightarrow>
          if (case budget of None \<Rightarrow> False | Some b \<Rightarrow> deadline_passed (clock s) b)
          then ((out, False, Some RouteDeadline), s)
          else
            (case look g s of
               (answer, s') \<Rightarrow>
                 (case rl_minutes answer of
                    None \<Rightarrow> ((out, False, Some (nullish (rl_cause answer) UnknownCause)), s')
                  | Some mn \<Rightarrow>
                      (let fits = mn \<le> real_of_int (budget_min g)
                       in if rl_estimated answer \<and> \<not> fits
                          then ((out, False, Some (nullish (rl_cause answer) Estimated)), s')
                          else ((\<lparr>so_verdict = (if fits then Clear else Unreachable),
                                   so_constraining = True, so_leg = None\<rparr>,
                                  \<not> rl_estimated answer, None), s')))))"

fun resolve_outcomes ::
    "('s \<Rightarrow> instant) \<Rightarrow> route_budget option \<Rightarrow> 's drive_lookup \<Rightarrow> side_outcome list \<Rightarrow>
     side_outcome list \<times> bool \<times> degradation_cause list \<Rightarrow> 's \<Rightarrow>
     (side_outcome list \<times> bool \<times> degradation_cause list) \<times> 's"
  where
  "resolve_outcomes clock budget look [] acc s = (acc, s)"
| "resolve_outcomes clock budget look (out # outs) (resolved, every, causes) s =
     (case resolve_outcome clock budget look out s of
        ((out', routed, cause), s') \<Rightarrow>
          resolve_outcomes clock budget look outs
            (resolved @ [out'], every \<and> routed,
             (case cause of None \<Rightarrow> causes | Some x \<Rightarrow> add_cause causes x)) s')"

definition side_outcomes ::
    "distance \<Rightarrow> travel_candidate \<Rightarrow> travel_neighbour list \<Rightarrow> int \<Rightarrow> int option \<Rightarrow> side_outcome list"
  where
  "side_outcomes dst c ns min_gap max_travel =
     [assess_side dst c (preceding_neighbour ns (c_start c)) min_gap max_travel Before,
      assess_side dst c (following_neighbour ns (c_end c)) min_gap max_travel After]"

definition assess_slot_routed ::
    "distance \<Rightarrow> ('s \<Rightarrow> instant) \<Rightarrow> route_budget option \<Rightarrow> 's drive_lookup \<Rightarrow> travel_candidate \<Rightarrow>
     travel_neighbour list \<Rightarrow> int \<Rightarrow> int option \<Rightarrow> 's \<Rightarrow> routed_assessment \<times> 's"
  where
  "assess_slot_routed dst clock budget look c ns min_gap max_travel s =
     (case resolve_outcomes clock budget look (side_outcomes dst c ns min_gap max_travel)
             ([], True, []) s of
        ((resolved, every, causes), s') \<Rightarrow>
          (let verdict = combine c resolved
           in (\<lparr>ra_verdict = verdict,
                fully_routed = (verdict = Clear \<and> every),
                degraded_causes = causes,
                had_constraining_leg = list_ex so_constraining resolved\<rparr>, s')))"

section \<open>Neighbours: what the scans find\<close>

definition neighbour_on :: "travel_candidate \<Rightarrow> travel_neighbour list \<Rightarrow> side \<Rightarrow> travel_neighbour option"
  where
  "neighbour_on c ns sd =
     (case sd of Before \<Rightarrow> preceding_neighbour ns (c_start c) | After \<Rightarrow> following_neighbour ns (c_end c))"

lemma best_by_rev_key:
  fixes k :: "'a \<Rightarrow> int"
  assumes "best_by (\<lambda>x y. k y < k x) best xs = Some y"
  shows "(\<forall>x \<in> set xs. k x \<le> k y) \<and> (\<forall>b. best = Some b \<longrightarrow> k b \<le> k y)"
  using best_by_key [of "\<lambda>x. - k x" best xs y] assms by simp

lemma preceding_mem:
  assumes "preceding_neighbour ns start = Some n"
  shows "n \<in> set ns \<and> is_constraint n \<and> n_end n \<le> start"
  using best_by_mem [OF assms [unfolded preceding_neighbour_def]] by auto

lemma preceding_latest:
  assumes "preceding_neighbour ns start = Some n"
    and "m \<in> set ns" "is_constraint m" "n_end m \<le> start"
  shows "n_end m \<le> n_end n"
  using best_by_rev_key [OF assms(1) [unfolded preceding_neighbour_def]] assms(2-) by auto

lemma preceding_None:
  "preceding_neighbour ns start = None \<longleftrightarrow>
     (\<forall>n \<in> set ns. is_constraint n \<longrightarrow> start < n_end n)"
  by (auto simp: preceding_neighbour_def best_by_None filter_empty_conv)

lemma following_mem:
  assumes "following_neighbour ns stop = Some n"
  shows "n \<in> set ns \<and> is_constraint n \<and> stop \<le> n_start n"
  using best_by_mem [OF assms [unfolded following_neighbour_def]] by auto

lemma following_earliest:
  assumes "following_neighbour ns stop = Some n"
    and "m \<in> set ns" "is_constraint m" "stop \<le> n_start m"
  shows "n_start n \<le> n_start m"
  using best_by_key [OF assms(1) [unfolded following_neighbour_def]] assms(2-) by auto

lemma following_None:
  "following_neighbour ns stop = None \<longleftrightarrow>
     (\<forall>n \<in> set ns. is_constraint n \<longrightarrow> n_start n < stop)"
  by (auto simp: following_neighbour_def best_by_None filter_empty_conv)

lemma best_by_append:
  "best_by f b (xs @ ys) = best_by f (best_by f b xs) ys"
  by (induction xs arbitrary: b) auto

section \<open>One side: what an outcome says\<close>

definition drive_of ::
    "travel_candidate \<Rightarrow> travel_neighbour \<Rightarrow> geo_point \<Rightarrow> int \<Rightarrow> int option \<Rightarrow> side \<Rightarrow> routable_leg"
  where
  "drive_of c n p min_gap max_travel sd =
     \<lparr>leg_from = (case sd of Before \<Rightarrow> p | After \<Rightarrow> c_point c),
      leg_to = (case sd of Before \<Rightarrow> c_point c | After \<Rightarrow> p),
      budget_min = capped_budget (gap_minutes c n sd) min_gap max_travel,
      depart_at = (case sd of Before \<Rightarrow> n_end n | After \<Rightarrow> c_end c)\<rparr>"

definition leg_possible :: "distance \<Rightarrow> routable_leg \<Rightarrow> bool" where
  "leg_possible dst g = could_reach_within dst (leg_from g) (leg_to g) (budget_min g)"

definition leg_certain :: "distance \<Rightarrow> routable_leg \<Rightarrow> bool" where
  "leg_certain dst g = certainly_reachable_within dst (leg_from g) (leg_to g) (budget_min g)"

lemmas side_defs = assess_side_def drive_of_def leg_possible_def leg_certain_def Let_def is_known_def

lemma assess_side_unreachable:
  assumes "so_verdict (assess_side dst c nb mg mt sd) = Unreachable"
  shows "\<exists>n p. nb = Some n \<and> location_point (n_location n) = Some p \<and>
           \<not> leg_possible dst (drive_of c n p mg mt sd)"
  using assms by (auto simp: side_defs split: option.splits neighbour_location.splits if_splits side.splits)

lemma assess_side_leg:
  assumes "so_leg (assess_side dst c nb mg mt sd) = Some g"
  shows "\<exists>n p. nb = Some n \<and> n_location n = Known p \<and> \<not> c_coarse c \<and>
           g = drive_of c n p mg mt sd \<and> leg_possible dst g \<and> \<not> leg_certain dst g \<and>
           assess_side dst c nb mg mt sd =
             \<lparr>so_verdict = Undecided, so_constraining = True, so_leg = Some g\<rparr>"
  using assms by (auto simp: side_defs split: option.splits neighbour_location.splits if_splits side.splits)

lemma assess_side_clear:
  assumes "so_verdict (assess_side dst c nb mg mt sd) = Clear" and "nb = Some n" and "is_constraint n"
  shows "so_constraining (assess_side dst c nb mg mt sd) \<and>
         (\<exists>p. n_location n = Known p \<and> \<not> c_coarse c \<and> leg_certain dst (drive_of c n p mg mt sd))"
  using assms
  by (auto simp: side_defs is_constraint_def split: neighbour_location.splits if_splits side.splits)

lemma assess_side_clear_no_leg:
  "so_verdict (assess_side dst c nb mg mt sd) \<noteq> Undecided \<Longrightarrow> so_leg (assess_side dst c nb mg mt sd) = None"
  by (auto simp: side_defs split: option.splits neighbour_location.splits if_splits side.splits)

lemma assess_side_constraining:
  "so_constraining (assess_side dst c nb mg mt sd) \<longleftrightarrow> (\<exists>n. nb = Some n \<and> is_constraint n)"
  by (auto simp: side_defs is_constraint_def split: option.splits neighbour_location.splits)

section \<open>One turn of the loop\<close>

definition answered :: "'s drive_lookup \<Rightarrow> routable_leg \<Rightarrow> 's \<Rightarrow> real \<Rightarrow> bool" where
  "answered look g s mn = (rl_minutes (fst (look g s)) = Some mn)"

definition measured :: "'s drive_lookup \<Rightarrow> routable_leg \<Rightarrow> 's \<Rightarrow> real \<Rightarrow> bool" where
  "measured look g s mn = (answered look g s mn \<and> \<not> rl_estimated (fst (look g s)))"

lemma resolve_unreachable:
  assumes "resolve_outcome clock bud look out s = ((out', routed, cause), s')"
    and "so_verdict out' = Unreachable"
  shows "so_verdict out = Unreachable \<or>
         (\<exists>g mn. so_leg out = Some g \<and> measured look g s mn \<and> real_of_int (budget_min g) < mn)"
  using assms
  by (auto simp: resolve_outcome_def measured_def answered_def Let_def split: option.splits if_splits prod.splits)

lemma resolve_clear:
  assumes "resolve_outcome clock bud look out s = ((out', routed, cause), s')"
    and "so_verdict out' = Clear"
  shows "so_verdict out = Clear \<or>
         (\<exists>g mn. so_leg out = Some g \<and> answered look g s mn \<and> mn \<le> real_of_int (budget_min g))"
  using assms
  by (auto simp: resolve_outcome_def answered_def Let_def split: option.splits if_splits prod.splits)

lemma resolve_routed:
  assumes "resolve_outcome clock bud look out s = ((out', True, cause), s')"
    and "so_verdict out' = Clear" and "so_constraining out"
  shows "\<exists>g mn. so_leg out = Some g \<and> measured look g s mn \<and> mn \<le> real_of_int (budget_min g)"
  using assms
  by (auto simp: resolve_outcome_def measured_def answered_def Let_def split: option.splits if_splits prod.splits)

lemma resolve_settled:
  assumes "so_verdict out \<noteq> Undecided"
  shows "\<exists>r x. resolve_outcome clock bud look out s = ((out, r, x), s)"
  using assms by (auto simp: resolve_outcome_def)

lemma resolve_outage:
  assumes "\<forall>g w. rl_minutes (fst (look g w)) = None"
  shows "\<exists>x s'. resolve_outcome clock bud look out s =
           ((out, so_verdict out = Undecided \<and> so_leg out = None \<or>
                  so_verdict out \<noteq> Undecided \<and> \<not> so_constraining out, x), s')"
  using assms by (auto simp: resolve_outcome_def split: option.splits prod.splits; metis fst_conv option.distinct(1))

lemma resolve_constraining:
  assumes "resolve_outcome clock bud look out s = ((out', routed, cause), s')"
    and "so_leg out \<noteq> None \<Longrightarrow> so_constraining out"
  shows "so_constraining out' = so_constraining out"
  using assms
  by (auto simp: resolve_outcome_def Let_def split: option.splits if_splits prod.splits)

lemma resolve_undecided_leg:
  assumes "so_verdict out = Undecided" "so_leg out = None"
  shows "resolve_outcome clock bud look out s = ((out, True, None), s)"
  using assms by (simp add: resolve_outcome_def)

section \<open>The assessment\<close>

abbreviation outcome_on where
  "outcome_on dst c ns mg mt sd \<equiv> assess_side dst c (neighbour_on c ns sd) mg mt sd"

text \<open>The two turns of the loop, laid out.\<close>

lemma assess_turns:
  "\<exists>o1 r1 x1 s1 o2 r2 x2 s2.
     resolve_outcome clock bud look (outcome_on dst c ns mg mt Before) s = ((o1, r1, x1), s1) \<and>
     resolve_outcome clock bud look (outcome_on dst c ns mg mt After) s1 = ((o2, r2, x2), s2) \<and>
     assess_slot_routed dst clock bud look c ns mg mt s =
       (\<lparr>ra_verdict = combine c [o1, o2], fully_routed = (combine c [o1, o2] = Clear \<and> r1 \<and> r2),
         degraded_causes =
           (let cs = (case x1 of None \<Rightarrow> [] | Some x \<Rightarrow> [x])
            in case x2 of None \<Rightarrow> cs | Some x \<Rightarrow> add_cause cs x),
         had_constraining_leg = (so_constraining o1 \<or> so_constraining o2)\<rparr>, s2)"
proof -
  obtain o1 r1 x1 s1 where
    1: "resolve_outcome clock bud look (outcome_on dst c ns mg mt Before) s = ((o1, r1, x1), s1)"
    by (metis prod.collapse)
  obtain o2 r2 x2 s2 where
    2: "resolve_outcome clock bud look (outcome_on dst c ns mg mt After) s1 = ((o2, r2, x2), s2)"
    by (metis prod.collapse)
  have "assess_slot_routed dst clock bud look c ns mg mt s =
      (\<lparr>ra_verdict = combine c [o1, o2], fully_routed = (combine c [o1, o2] = Clear \<and> r1 \<and> r2),
         degraded_causes =
           (let cs = (case x1 of None \<Rightarrow> [] | Some x \<Rightarrow> [x])
            in case x2 of None \<Rightarrow> cs | Some x \<Rightarrow> add_cause cs x),
         had_constraining_leg = (so_constraining o1 \<or> so_constraining o2)\<rparr>, s2)"
    using 1 2 by (simp add: assess_slot_routed_def side_outcomes_def neighbour_on_def Let_def
        add_cause_def split: option.split)
  with 1 2 show ?thesis by blast
qed

lemma combine_unreachable: "combine c outs = Unreachable \<longleftrightarrow> Unreachable \<in> so_verdict ` set outs"
  by (auto simp: combine_def Let_def)

lemma combine_clear:
  "combine c outs = Clear \<longleftrightarrow> \<not> c_coarse c \<and> (\<forall>out \<in> set outs. so_verdict out = Clear)"
proof -
  have "(\<forall>x \<in> S. x = Clear) \<longleftrightarrow> Unreachable \<notin> S \<and> Undecided \<notin> S" for S
    by (metis travel_verdict.distinct travel_verdict.exhaust)
  from this [of "set (map so_verdict outs)"] show ?thesis
    unfolding combine_def Let_def by auto
qed

text \<open>
  C30: A slot is refused as unreachable only on proof: on some side the nearest constraining job has
  a position and either no plausible speed covers the leg in its budget, or both ends are exactly
  known and a measured drive is longer than the budget.
\<close>

theorem refusal_needs_proof:
  assumes "ra_verdict (fst (assess_slot_routed dst clock bud look c ns mg mt s)) = Unreachable"
  shows "\<exists>sd n p. neighbour_on c ns sd = Some n \<and> location_point (n_location n) = Some p \<and>
           (let g = drive_of c n p mg mt sd
            in \<not> leg_possible dst g \<or>
               (n_location n = Known p \<and> \<not> c_coarse c \<and>
                (\<exists>w mn. measured look g w mn \<and> real_of_int (budget_min g) < mn)))"
proof -
  obtain o1 r1 x1 s1 o2 r2 x2 s2 where
    t: "resolve_outcome clock bud look (outcome_on dst c ns mg mt Before) s = ((o1, r1, x1), s1)"
       "resolve_outcome clock bud look (outcome_on dst c ns mg mt After) s1 = ((o2, r2, x2), s2)"
    and v: "combine c [o1, o2] = Unreachable"
    using assms assess_turns [of clock bud look dst c ns mg mt s] by fastforce
  have side: ?thesis
    if r: "resolve_outcome clock bud look (outcome_on dst c ns mg mt sd) w = ((out, q, x), w')"
      and u: "so_verdict out = Unreachable" for sd out q x w w'
    using resolve_unreachable [OF r u]
  proof
    assume "so_verdict (outcome_on dst c ns mg mt sd) = Unreachable"
    from assess_side_unreachable [OF this] show ?thesis unfolding Let_def by blast
  next
    assume "\<exists>g mn. so_leg (outcome_on dst c ns mg mt sd) = Some g \<and> measured look g w mn \<and>
              real_of_int (budget_min g) < mn"
    then obtain g mn where g: "so_leg (outcome_on dst c ns mg mt sd) = Some g"
      and m: "measured look g w mn" "real_of_int (budget_min g) < mn" by blast
    from assess_side_leg [OF g] obtain n p where n: "neighbour_on c ns sd = Some n"
      "n_location n = Known p" "\<not> c_coarse c" "g = drive_of c n p mg mt sd" by blast
    have "location_point (n_location n) = Some p" using n(2) by simp
    then show ?thesis unfolding Let_def using n m by blast
  qed
  from v have "so_verdict o1 = Unreachable \<or> so_verdict o2 = Unreachable"
    by (auto simp: combine_unreachable)
  then show ?thesis using side t by blast
qed

text \<open>
  C31: A slot is cleared only when its own position is exact and every neighbouring job has an exact
  position whose leg is either certainly drivable at the slowest plausible speed, or possible and
  answered by a route that fits the budget.
\<close>

theorem cleared_slot_is_safe:
  assumes "ra_verdict (fst (assess_slot_routed dst clock bud look c ns mg mt s)) = Clear"
  shows "\<not> c_coarse c \<and>
         (\<forall>sd n. neighbour_on c ns sd = Some n \<longrightarrow>
            (\<exists>p. n_location n = Known p \<and>
               (let g = drive_of c n p mg mt sd
                in leg_certain dst g \<or>
                   (leg_possible dst g \<and> (\<exists>w mn. answered look g w mn \<and> mn \<le> real_of_int (budget_min g))))))"
proof -
  obtain o1 r1 x1 s1 o2 r2 x2 s2 where
    t: "resolve_outcome clock bud look (outcome_on dst c ns mg mt Before) s = ((o1, r1, x1), s1)"
       "resolve_outcome clock bud look (outcome_on dst c ns mg mt After) s1 = ((o2, r2, x2), s2)"
    and v: "combine c [o1, o2] = Clear"
    using assms assess_turns [of clock bud look dst c ns mg mt s] by fastforce
  have cons: "is_constraint n" if "neighbour_on c ns sd = Some n" for sd n
    using that preceding_mem following_mem by (cases sd) (auto simp: neighbour_on_def)
  have side: "\<exists>p. n_location n = Known p \<and>
               (let g = drive_of c n p mg mt sd
                in leg_certain dst g \<or>
                   (leg_possible dst g \<and> (\<exists>w mn. answered look g w mn \<and> mn \<le> real_of_int (budget_min g))))"
    if n: "neighbour_on c ns sd = Some n"
      and r: "resolve_outcome clock bud look (outcome_on dst c ns mg mt sd) w = ((out, q, x), w')"
      and u: "so_verdict out = Clear" for sd n out q x w w'
    using resolve_clear [OF r u]
  proof
    assume "so_verdict (outcome_on dst c ns mg mt sd) = Clear"
    from assess_side_clear [OF this n cons [OF n]] show ?thesis unfolding Let_def by blast
  next
    assume "\<exists>g mn. so_leg (outcome_on dst c ns mg mt sd) = Some g \<and> answered look g w mn \<and>
              mn \<le> real_of_int (budget_min g)"
    then obtain g mn where g: "so_leg (outcome_on dst c ns mg mt sd) = Some g"
      and m: "answered look g w mn" "mn \<le> real_of_int (budget_min g)" by blast
    from assess_side_leg [OF g] n obtain p where p:
      "n_location n = Known p" "g = drive_of c n p mg mt sd" "leg_possible dst g" by auto
    show ?thesis unfolding Let_def using p m by blast
  qed
  have "so_verdict o1 = Clear" "so_verdict o2 = Clear" "\<not> c_coarse c"
    using v by (auto simp: combine_clear)
  then show ?thesis using side t by (metis (full_types) side.exhaust)
qed

text \<open>
  A verdict marked fully routed rests on a measured drive on every side that has a neighbour:
  the drive plus the minimum gap fits between the two jobs and stays under the tenant's longest
  allowed drive.
\<close>

theorem verified_slot_was_measured:
  assumes "fully_routed (fst (assess_slot_routed dst clock bud look c ns mg mt s))"
    and "neighbour_on c ns sd = Some n"
  shows "\<exists>p w mn. n_location n = Known p \<and> measured look (drive_of c n p mg mt sd) w mn \<and>
           mn + real_of_int (max 0 mg) \<le> real_of_int (gap_minutes c n sd) \<and>
           (\<forall>m. mt = Some m \<and> 0 < m \<longrightarrow> mn \<le> real_of_int m)"
proof -
  obtain o1 r1 x1 s1 o2 r2 x2 s2 where
    t: "resolve_outcome clock bud look (outcome_on dst c ns mg mt Before) s = ((o1, r1, x1), s1)"
       "resolve_outcome clock bud look (outcome_on dst c ns mg mt After) s1 = ((o2, r2, x2), s2)"
    and v: "combine c [o1, o2] = Clear" "r1" "r2"
    using assms assess_turns [of clock bud look dst c ns mg mt s] by fastforce
  have "is_constraint n"
    using assms(2) preceding_mem following_mem by (cases sd) (auto simp: neighbour_on_def)
  then have cons: "so_constraining (outcome_on dst c ns mg mt sd)"
    using assms(2) by (simp add: assess_side_constraining)
  have "\<exists>out x w w'. resolve_outcome clock bud look (outcome_on dst c ns mg mt sd) w = ((out, True, x), w') \<and>
          so_verdict out = Clear"
    using t v by (cases sd) (auto simp: combine_clear)
  then obtain out x w w' where
    r: "resolve_outcome clock bud look (outcome_on dst c ns mg mt sd) w = ((out, True, x), w')"
    and u: "so_verdict out = Clear" by blast
  obtain g mn where g: "so_leg (outcome_on dst c ns mg mt sd) = Some g"
    and m: "measured look g w mn" "mn \<le> real_of_int (budget_min g)"
    using resolve_routed [OF r u cons] by blast
  from assess_side_leg [OF g] assms(2) obtain p where p: "n_location n = Known p"
    "g = drive_of c n p mg mt sd" by auto
  have "mn \<le> real_of_int (capped_budget (gap_minutes c n sd) mg mt)"
    using m(2) p(2) by (simp add: drive_of_def)
  then have "mn + real_of_int (max 0 mg) \<le> real_of_int (gap_minutes c n sd) \<and>
           (\<forall>m. mt = Some m \<and> 0 < m \<longrightarrow> mn \<le> real_of_int m)"
    by (cases mt) (auto simp: capped_budget_def Let_def split: if_splits)
  with p m(1) show ?thesis by blast
qed

text \<open>
  A verdict that the distance bounds already reach is final: no routing answer, deadline or
  lookup budget changes it.
\<close>

theorem routing_settles_only_the_band:
  assumes "combine c (side_outcomes dst c ns mg mt) \<noteq> Undecided"
  shows "ra_verdict (fst (assess_slot_routed dst clock bud look c ns mg mt s)) =
           combine c (side_outcomes dst c ns mg mt)"
proof -
  let ?b = "outcome_on dst c ns mg mt Before" and ?a = "outcome_on dst c ns mg mt After"
  have sides: "side_outcomes dst c ns mg mt = [?b, ?a]"
    by (simp add: side_outcomes_def neighbour_on_def)
  obtain o1 r1 x1 s1 o2 r2 x2 s2 where
    t: "resolve_outcome clock bud look ?b s = ((o1, r1, x1), s1)"
       "resolve_outcome clock bud look ?a s1 = ((o2, r2, x2), s2)"
    and v: "ra_verdict (fst (assess_slot_routed dst clock bud look c ns mg mt s)) = combine c [o1, o2]"
    using assess_turns [of clock bud look dst c ns mg mt s] by fastforce
  have o1: "so_verdict ?b \<noteq> Undecided \<Longrightarrow> o1 = ?b"
    using resolve_settled [of ?b clock bud look s] t(1) by auto
  have o2: "so_verdict ?a \<noteq> Undecided \<Longrightarrow> o2 = ?a"
    using resolve_settled [of ?a clock bud look s1] t(2) by auto
  consider "combine c [?b, ?a] = Clear" | "combine c [?b, ?a] = Unreachable"
    using assms sides travel_verdict.exhaust by metis
  then show ?thesis
  proof cases
    case 1
    then have "so_verdict ?b = Clear" "so_verdict ?a = Clear" by (auto simp: combine_clear)
    then show ?thesis using o1 o2 v sides by simp
  next
    case 2
    then have "so_verdict ?b = Unreachable \<or> so_verdict ?a = Unreachable"
      by (auto simp: combine_unreachable)
    then have "combine c [o1, o2] = Unreachable" using o1 o2 by (auto simp: combine_unreachable)
    then show ?thesis using v sides 2 by simp
  qed
qed

text \<open>
  C38: When routing answers nothing, the verdict is exactly the one of the distance bounds, and the
  slot is marked fully routed only if it has no neighbour at all.
\<close>

theorem outage_falls_back_to_bounds:
  assumes "\<forall>g w. rl_minutes (fst (look g w)) = None"
  shows "ra_verdict (fst (assess_slot_routed dst clock bud look c ns mg mt s)) =
           combine c (side_outcomes dst c ns mg mt) \<and>
         (fully_routed (fst (assess_slot_routed dst clock bud look c ns mg mt s)) \<longrightarrow>
           preceding_neighbour ns (c_start c) = None \<and> following_neighbour ns (c_end c) = None)"
proof -
  let ?b = "outcome_on dst c ns mg mt Before" and ?a = "outcome_on dst c ns mg mt After"
  have sides: "side_outcomes dst c ns mg mt = [?b, ?a]"
    by (simp add: side_outcomes_def neighbour_on_def)
  obtain o1 r1 x1 s1 o2 r2 x2 s2 where
    t: "resolve_outcome clock bud look ?b s = ((o1, r1, x1), s1)"
       "resolve_outcome clock bud look ?a s1 = ((o2, r2, x2), s2)"
    and v: "assess_slot_routed dst clock bud look c ns mg mt s =
       (\<lparr>ra_verdict = combine c [o1, o2], fully_routed = (combine c [o1, o2] = Clear \<and> r1 \<and> r2),
         degraded_causes =
           (let cs = (case x1 of None \<Rightarrow> [] | Some x \<Rightarrow> [x])
            in case x2 of None \<Rightarrow> cs | Some x \<Rightarrow> add_cause cs x),
         had_constraining_leg = (so_constraining o1 \<or> so_constraining o2)\<rparr>, s2)"
    using assess_turns [of clock bud look dst c ns mg mt s] by blast
  have o1: "o1 = ?b" and r1: "r1 \<Longrightarrow> so_verdict ?b = Clear \<Longrightarrow> \<not> so_constraining ?b"
    using resolve_outage [OF assms, where out = ?b and s = s and clock = clock and bud = bud] t(1) by auto
  have o2: "o2 = ?a" and r2: "r2 \<Longrightarrow> so_verdict ?a = Clear \<Longrightarrow> \<not> so_constraining ?a"
    using resolve_outage [OF assms, where out = ?a and s = s1 and clock = clock and bud = bud] t(2) by auto
  have none: "neighbour_on c ns sd = None"
    if "\<not> so_constraining (outcome_on dst c ns mg mt sd)" for sd
    using that preceding_mem following_mem
    by (cases "neighbour_on c ns sd"; cases sd) (auto simp: assess_side_constraining neighbour_on_def)
  have "fully_routed (fst (assess_slot_routed dst clock bud look c ns mg mt s)) \<longrightarrow>
          neighbour_on c ns Before = None \<and> neighbour_on c ns After = None"
    using v o1 o2 r1 r2 none by (auto simp: combine_clear)
  then show ?thesis using v o1 o2 sides by (simp add: neighbour_on_def)
qed

text \<open>
  Jobs without a location never affect a verdict, the lookups spent on it or the state behind
  the lookups.
\<close>

theorem locationless_jobs_are_transparent:
  "assess_slot_routed dst clock bud look c (filter is_constraint ns) mg mt s =
     assess_slot_routed dst clock bud look c ns mg mt s"
proof -
  have "filter (\<lambda>n. is_constraint n \<and> P n) (filter is_constraint ns) =
          filter (\<lambda>n. is_constraint n \<and> P n) ns" for P
    by (induction ns) auto
  then show ?thesis
    by (simp add: assess_slot_routed_def side_outcomes_def preceding_neighbour_def
        following_neighbour_def)
qed

section \<open>Replaying a recorded pass\<close>

lemma recording_fst: "fst (recording_lookup look g w) = fst (look g (fst w))"
  by (simp add: recording_lookup_def split: prod.split)

text \<open>
  One recorded turn and its replay, from records that agree with the pass on this side's key.
\<close>

lemma replay_turn:
  assumes "resolve_outcome clock bud (recording_lookup look) out (s, recs) = ((out', r, x), (s', recs'))"
    and "\<And>g. so_leg out = Some g \<Longrightarrow> recs (leg_key_of g) = None \<and> final (leg_key_of g) = recs' (leg_key_of g)"
  shows "\<exists>y. resolve_outcome clock' None (replay_lookup final) out t = ((out', r, y), t)"
  using assms
  by (auto simp: resolve_outcome_def replay_lookup_def recording_lookup_def no_answer_def Let_def
      split: option.splits if_splits prod.splits)

lemma recording_frame:
  assumes "resolve_outcome clock bud (recording_lookup look) out (s, recs) = ((out', r, x), (s', recs'))"
    and "\<And>g. so_leg out = Some g \<Longrightarrow> leg_key_of g \<noteq> key"
  shows "recs' key = recs key"
  using assms
  by (auto simp: resolve_outcome_def recording_lookup_def Let_def
      split: option.splits if_splits prod.splits)

lemma side_keys_distinct:
  assumes "so_leg (outcome_on dst c ns mg mt Before) = Some g"
    and "so_leg (outcome_on dst c ns mg mt After) = Some h" and "c_start c < c_end c"
  shows "leg_key_of g \<noteq> leg_key_of h"
proof -
  from assess_side_leg [OF assms(1)] obtain n p where n: "preceding_neighbour ns (c_start c) = Some n"
    "g = drive_of c n p mg mt Before" by (auto simp: neighbour_on_def)
  from assess_side_leg [OF assms(2)] obtain m q where m: "h = drive_of c m q mg mt After" by blast
  have "depart_at g < depart_at h"
    using preceding_mem [OF n(1)] n(2) m assms(3) by (simp add: drive_of_def)
  then show ?thesis by (auto simp: leg_key_of_def)
qed

text \<open>
  The check inside the transaction, which replays the drives recorded before the lock without
  any lookup or deadline, reaches the verdict and the routing flags of the recorded pass on the same
  diary, whatever the clock says.
\<close>

theorem replay_reaches_the_same_verdict:
  fixes look :: "'s drive_lookup"
  assumes "c_start c < c_end c"
    and "assess_slot_routed dst clock bud (recording_lookup look) c ns mg mt (s, \<lambda>_. None) = (a, (s', records))"
  shows "ra_verdict (fst (assess_slot_routed dst clock' None (replay_lookup records) c ns mg mt t)) = ra_verdict a \<and>
         fully_routed (fst (assess_slot_routed dst clock' None (replay_lookup records) c ns mg mt t)) = fully_routed a \<and>
         had_constraining_leg (fst (assess_slot_routed dst clock' None (replay_lookup records) c ns mg mt t)) =
           had_constraining_leg a"
proof -
  let ?b = "outcome_on dst c ns mg mt Before" and ?a = "outcome_on dst c ns mg mt After"
  let ?look = "recording_lookup look"
  obtain o1 r1 x1 w1 o2 r2 x2 w2 where
    t1: "resolve_outcome clock bud ?look ?b (s, \<lambda>_. None) = ((o1, r1, x1), w1)"
    and t2: "resolve_outcome clock bud ?look ?a w1 = ((o2, r2, x2), w2)"
    and v: "assess_slot_routed dst clock bud ?look c ns mg mt (s, \<lambda>_. None) =
       (\<lparr>ra_verdict = combine c [o1, o2], fully_routed = (combine c [o1, o2] = Clear \<and> r1 \<and> r2),
         degraded_causes =
           (let cs = (case x1 of None \<Rightarrow> [] | Some x \<Rightarrow> [x])
            in case x2 of None \<Rightarrow> cs | Some x \<Rightarrow> add_cause cs x),
         had_constraining_leg = (so_constraining o1 \<or> so_constraining o2)\<rparr>, w2)"
    using assess_turns [of clock bud ?look dst c ns mg mt "(s, \<lambda>_. None)"] by blast
  obtain u1 m1 where w1: "w1 = (u1, m1)" by (cases w1)
  have w2: "w2 = (s', records)" using v assms(2) by simp
  have keep1: "records (leg_key_of g) = m1 (leg_key_of g)" if "so_leg ?b = Some g" for g
    by (rule recording_frame [OF t2 [unfolded w1 w2]])
      (use side_keys_distinct [OF that _ assms(1)] in metis)
  have new2: "m1 (leg_key_of h) = None" if "so_leg ?a = Some h" for h
    using recording_frame [OF t1 [unfolded w1], of "leg_key_of h"]
      side_keys_distinct [OF _ that assms(1)] by auto
  obtain y1 where p1: "resolve_outcome clock' None (replay_lookup records) ?b t = ((o1, r1, y1), t)"
    using replay_turn [OF t1 [unfolded w1], of records clock' t] keep1 by blast
  obtain y2 where p2: "resolve_outcome clock' None (replay_lookup records) ?a t = ((o2, r2, y2), t)"
    using replay_turn [OF t2 [unfolded w1 w2], of records clock' t] new2 by blast
  obtain q1 f1 z1 v1 q2 f2 z2 v2 where
    e: "resolve_outcome clock' None (replay_lookup records) ?b t = ((q1, f1, z1), v1)"
       "resolve_outcome clock' None (replay_lookup records) ?a v1 = ((q2, f2, z2), v2)"
    and u: "assess_slot_routed dst clock' None (replay_lookup records) c ns mg mt t =
       (\<lparr>ra_verdict = combine c [q1, q2], fully_routed = (combine c [q1, q2] = Clear \<and> f1 \<and> f2),
         degraded_causes =
           (let cs = (case z1 of None \<Rightarrow> [] | Some x \<Rightarrow> [x])
            in case z2 of None \<Rightarrow> cs | Some x \<Rightarrow> add_cause cs x),
         had_constraining_leg = (so_constraining q1 \<or> so_constraining q2)\<rparr>, v2)"
    using assess_turns [of clock' None "replay_lookup records" dst c ns mg mt t] by blast
  have "q1 = o1" "f1 = r1" "v1 = t" using e(1) p1 by simp_all
  moreover from this have "q2 = o2" "f2 = r2" using e(2) p2 by simp_all
  ultimately show ?thesis using u v assms(2) by auto
qed

section \<open>The premises as a predecessor\<close>

lemma is_constraint_base: "is_constraint (base_neighbour b) \<longleftrightarrow> base_location b \<noteq> Locationless"
  by (simp add: is_constraint_def base_neighbour_def)

text \<open>
  The synthetic premises neighbour never becomes the job after a slot: the successor of a slot
  is the one of the stored diary.
\<close>

theorem base_is_never_a_successor:
  assumes "c_start c < c_end c"
  shows "following_neighbour (with_base_neighbour ns (c_start c) base day_start) (c_end c) =
           following_neighbour ns (c_end c)"
  using assms
  by (auto simp: with_base_neighbour_def following_neighbour_def base_neighbour_def split: option.split)

text \<open>
  The premises precede a slot exactly when no job of the same local day does: a job that ends
  after the day began is kept as the predecessor, anything older is replaced by the premises.
\<close>

theorem base_precedes_an_empty_morning:
  assumes "base_location b \<noteq> Locationless" and "day_start \<le> base_at b" and "base_at b \<le> start"
  shows "preceding_neighbour (with_base_neighbour ns start (Some b) day_start) start =
           (case preceding_neighbour ns start of
              None \<Rightarrow> Some (base_neighbour b)
            | Some n \<Rightarrow> if day_start \<le> n_end n then Some n else Some (base_neighbour b))"
proof -
  have app: "preceding_neighbour (ns @ [base_neighbour b]) start =
      (case preceding_neighbour ns start of None \<Rightarrow> Some (base_neighbour b)
       | Some n \<Rightarrow> if n_end n < base_at b then Some (base_neighbour b) else Some n)"
    using assms by (simp add: preceding_neighbour_def best_by_append is_constraint_base)
      (simp add: base_neighbour_def split: option.split)
  show ?thesis
  proof (cases "preceding_neighbour ns start")
    case None
    then have "\<not> list_ex (\<lambda>n. is_constraint n \<and> day_start \<le> n_end n \<and> n_end n \<le> start) ns"
      by (auto simp: preceding_None list_ex_iff)
    then show ?thesis using None app assms(3) by (simp add: with_base_neighbour_def)
  next
    case (Some n)
    have "list_ex (\<lambda>n. is_constraint n \<and> day_start \<le> n_end n \<and> n_end n \<le> start) ns \<longleftrightarrow>
            day_start \<le> n_end n"
      using preceding_mem [OF Some] preceding_latest [OF Some] by (force simp: list_ex_iff)
    then show ?thesis using Some app assms by (simp add: with_base_neighbour_def)
  qed
qed

text \<open>
  The first job selected for a day is one of that day's constraining jobs, none of them starts
  earlier, it is judged at its own position and precision, and exactly that one job is removed from
  the neighbours it is judged against.
\<close>

theorem first_job_moves_out_of_its_own_way:
  assumes "select_first_job ns day_start day_end = Assessable bid c others"
  shows "\<exists>n. n \<in> set ns \<and> is_constraint n \<and> day_start \<le> n_start n \<and> n_start n < day_end \<and>
           location_point (n_location n) = Some (c_point c) \<and> c_coarse c = (n_location n = Coarse (c_point c)) \<and>
           length others + 1 = length ns \<and>
           (\<forall>m \<in> set ns. is_constraint m \<and> day_start \<le> n_start m \<and> n_start m < day_end \<longrightarrow> c_start c \<le> n_start m)"
proof -
  from assms obtain n where n: "first_job_of_day ns day_start day_end = Some n"
    and p: "location_point (n_location n) = Some (c_point c)"
    and c: "c_start c = n_start n" "c_coarse c = (\<not> is_known (n_location n))"
    and o: "others = remove1 n ns"
    by (auto simp: select_first_job_def split: option.splits)
  have mem: "n \<in> set ns" "is_constraint n" "day_start \<le> n_start n" "n_start n < day_end"
    using best_by_mem [OF n [unfolded first_job_of_day_def]] by auto
  have first: "n_start n \<le> n_start m"
    if "m \<in> set ns" "is_constraint m" "day_start \<le> n_start m" "n_start m < day_end" for m
    using best_by_key [OF n [unfolded first_job_of_day_def]] that by auto
  have coarse: "c_coarse c = (n_location n = Coarse (c_point c))"
    using p c(2) by (cases "n_location n") (auto simp: is_known_def)
  have "length others + 1 = length ns"
    using o mem(1) by (simp add: length_remove1) (metis Suc_pred length_pos_if_in_set)
  with mem first coarse p c(1) show ?thesis by (intro exI [of _ n]) auto
qed

section \<open>A small diary\<close>

text \<open>A job thirty kilometres away ends an hour before the candidate; the lookup answers \<open>mn\<close> minutes.\<close>

definition flat_km :: distance where
  "flat_km a b = \<bar>lat a - lat b\<bar> + \<bar>lng a - lng b\<bar>"

definition demo_candidate :: travel_candidate where
  "demo_candidate = \<lparr>c_start = 600 * minute_ms, c_end = 660 * minute_ms,
     c_point = \<lparr>lat = 0, lng = 0\<rparr>, c_coarse = False\<rparr>"

definition demo_job :: travel_neighbour where
  "demo_job = \<lparr>n_booking = None, n_start = 480 * minute_ms, n_end = 540 * minute_ms,
     n_location = Known \<lparr>lat = 30, lng = 0\<rparr>, n_status = None\<rparr>"

definition demo_look :: "real option \<Rightarrow> unit drive_lookup" where
  "demo_look mn g w = (\<lparr>rl_minutes = mn, rl_cause = None, rl_estimated = False\<rparr>, w)"

definition demo_assess :: "real option \<Rightarrow> routed_assessment \<times> unit" where
  "demo_assess mn =
     assess_slot_routed flat_km (\<lambda>_. 0) None (demo_look mn) demo_candidate [demo_job] 5 (Some 50) ()"

lemma demo_neighbour: "neighbour_on demo_candidate [demo_job] Before = Some demo_job"
  by (simp add: neighbour_on_def preceding_neighbour_def demo_candidate_def demo_job_def is_constraint_def)

lemma demo_no_successor: "neighbour_on demo_candidate [demo_job] After = None"
  by (simp add: neighbour_on_def following_neighbour_def demo_candidate_def demo_job_def is_constraint_def)

lemma demo_sides:
  "side_outcomes flat_km demo_candidate [demo_job] 5 (Some 50) =
     [\<lparr>so_verdict = Undecided, so_constraining = True,
       so_leg = Some \<lparr>leg_from = \<lparr>lat = 30, lng = 0\<rparr>, leg_to = \<lparr>lat = 0, lng = 0\<rparr>, budget_min = 50,
                      depart_at = 540 * minute_ms\<rparr>\<rparr>,
      \<lparr>so_verdict = Clear, so_constraining = False, so_leg = None\<rparr>]"
  using demo_neighbour demo_no_successor unfolding neighbour_on_def
  by (simp add: side_outcomes_def assess_side_def Let_def is_known_def gap_minutes_def
      minutes_between_def capped_budget_def demo_candidate_def demo_job_def
      could_reach_within_def certainly_reachable_within_def flat_km_def prefilter_max_kmh_def
      prefilter_min_kmh_def)

lemma demo_not_coarse: "\<not> c_coarse demo_candidate"
  by (simp add: demo_candidate_def)

lemma demo_assess_eq:
  "fst (demo_assess mn) =
     (case mn of
        None \<Rightarrow> \<lparr>ra_verdict = Undecided, fully_routed = False, degraded_causes = [UnknownCause],
                had_constraining_leg = True\<rparr>
      | Some m \<Rightarrow>
          if m \<le> 50
          then \<lparr>ra_verdict = Clear, fully_routed = True, degraded_causes = [], had_constraining_leg = True\<rparr>
          else \<lparr>ra_verdict = Unreachable, fully_routed = False, degraded_causes = [],
                had_constraining_leg = True\<rparr>)"
  by (simp add: demo_assess_def assess_slot_routed_def demo_sides resolve_outcome_def demo_look_def
      combine_def demo_not_coarse add_cause_def Let_def split: option.split)

theorem refusal_needs_proof_witness:
  "\<exists>sd n p. neighbour_on demo_candidate [demo_job] sd = Some n \<and> location_point (n_location n) = Some p"
proof -
  have "ra_verdict (fst (demo_assess (Some 90))) = Unreachable" by (simp add: demo_assess_eq)
  from refusal_needs_proof [OF this [unfolded demo_assess_def]] show ?thesis by blast
qed

theorem cleared_slot_is_safe_witness: "\<exists>p. n_location demo_job = Known p"
proof -
  have "ra_verdict (fst (demo_assess (Some 40))) = Clear" by (simp add: demo_assess_eq)
  from cleared_slot_is_safe [OF this [unfolded demo_assess_def]] demo_neighbour show ?thesis by blast
qed

theorem verified_slot_was_measured_witness:
  "\<exists>w mn. rl_minutes (fst (demo_look (Some 40)
        (drive_of demo_candidate demo_job \<lparr>lat = 30, lng = 0\<rparr> 5 (Some 50) Before) w)) = Some mn \<and> mn + 5 \<le> 60"
proof -
  have "fully_routed (fst (demo_assess (Some 40)))" by (simp add: demo_assess_eq)
  from verified_slot_was_measured [OF this [unfolded demo_assess_def] demo_neighbour]
  show ?thesis
    by (auto simp: measured_def answered_def gap_minutes_def minutes_between_def demo_job_def
        demo_candidate_def)
qed

theorem routing_settles_only_the_band_witness:
  "ra_verdict (fst (assess_slot_routed flat_km (\<lambda>_. 0) None (demo_look (Some 90)) demo_candidate [] 5 None ())) = Clear"
proof -
  have "combine demo_candidate (side_outcomes flat_km demo_candidate [] 5 None) = Clear"
    by (simp add: side_outcomes_def preceding_neighbour_def following_neighbour_def assess_side_def
        combine_def Let_def demo_candidate_def)
  then show ?thesis using routing_settles_only_the_band
    [of demo_candidate flat_km "[]" 5 None "\<lambda>_. 0" None "demo_look (Some 90)" "()"] by simp
qed

theorem outage_falls_back_to_bounds_witness: "ra_verdict (fst (demo_assess None)) = Undecided"
proof -
  have "\<forall>g w. rl_minutes (fst (demo_look None g w)) = None" by (simp add: demo_look_def)
  from outage_falls_back_to_bounds [OF this, of flat_km "\<lambda>_. 0" None demo_candidate "[demo_job]" 5 "Some 50" "()"]
  show ?thesis by (simp add: demo_assess_def demo_sides combine_def Let_def)
qed

theorem replay_reaches_the_same_verdict_witness:
  "\<exists>records. ra_verdict (fst (assess_slot_routed flat_km (\<lambda>_. 0) None (replay_lookup records)
      demo_candidate [demo_job] 5 (Some 50) ())) = Clear"
proof -
  obtain a s records where
    r: "assess_slot_routed flat_km (\<lambda>_. 0) None (recording_lookup (demo_look (Some 40)))
          demo_candidate [demo_job] 5 (Some 50) ((), \<lambda>_. None) = (a, (s, records))"
    by (metis prod.collapse)
  have "c_start demo_candidate < c_end demo_candidate" by (simp add: demo_candidate_def)
  from replay_reaches_the_same_verdict [OF this r, of "\<lambda>_. 0" "()"] have
    "ra_verdict (fst (assess_slot_routed flat_km (\<lambda>_. 0) None (replay_lookup records)
      demo_candidate [demo_job] 5 (Some 50) ())) = ra_verdict a" by blast
  moreover have "ra_verdict a = Clear"
    using r by (auto simp: assess_slot_routed_def demo_sides resolve_outcome_def demo_look_def
        recording_lookup_def combine_def demo_not_coarse Let_def)
  ultimately show ?thesis by auto
qed

theorem base_is_never_a_successor_witness:
  "following_neighbour (with_base_neighbour [demo_job] (c_start demo_candidate)
     (Some \<lparr>base_at = 0, base_location = Unresolved\<rparr>) 0) (c_end demo_candidate) = None"
proof -
  have "c_start demo_candidate < c_end demo_candidate" by (simp add: demo_candidate_def)
  from base_is_never_a_successor [OF this] show ?thesis
    using demo_no_successor by (simp add: neighbour_on_def)
qed

theorem base_precedes_an_empty_morning_witness:
  "preceding_neighbour (with_base_neighbour [demo_job] (600 * minute_ms)
     (Some \<lparr>base_at = 590 * minute_ms, base_location = Unresolved\<rparr>) (550 * minute_ms)) (600 * minute_ms) =
   Some (base_neighbour \<lparr>base_at = 590 * minute_ms, base_location = Unresolved\<rparr>)"
  using base_precedes_an_empty_morning
    [of "\<lparr>base_at = 590 * minute_ms, base_location = Unresolved\<rparr>" "550 * minute_ms" "600 * minute_ms" "[demo_job]"]
    demo_neighbour by (simp add: neighbour_on_def demo_candidate_def demo_job_def)

theorem first_job_moves_out_of_its_own_way_witness:
  "\<exists>n :: travel_neighbour. location_point (n_location n) = Some \<lparr>lat = 30, lng = 0\<rparr>"
proof -
  have "select_first_job [demo_job] 0 day_ms =
      Assessable None \<lparr>c_start = 480 * minute_ms, c_end = 540 * minute_ms, c_point = \<lparr>lat = 30, lng = 0\<rparr>,
        c_coarse = False\<rparr> []"
    by (simp add: select_first_job_def first_job_of_day_def demo_job_def is_constraint_def is_known_def)
  from first_job_moves_out_of_its_own_way [OF this] show ?thesis by auto
qed

end
