(* ===== verification/Zones.thy ===== *)
theory Zones
  imports Prelude
begin

text \<open>
  Local calendar time. The code takes it from the luxon package, which is not part of the
  repository, so a time zone is a value of the record \<open>zone\<close> whose fields are the luxon calls the
  code makes, and every definition that needs one takes it as an argument. The laws the proofs
  rely on are the assumptions of the locale \<open>calendar\<close>; they are interpreted on UTC,
  the zone the code falls back to (\<open>rule.timezone || 'UTC'\<close>), whose arithmetic is written out.
\<close>

section \<open>The luxon calls\<close>

text \<open>
  A \<open>DateTime\<close> in a zone is its instant. \<open>zlocal d h m\<close> is
  \<open>DateTime.fromObject({year, month, day, hour, minute}, {zone})\<close> with the date of \<open>d\<close>:
  the instant, and the hour and minute luxon reports for it (another hour than the one asked
  for inside a daylight-saving gap).
\<close>

record zone =
  zdate :: "instant \<Rightarrow> string"
  zweekday :: "instant \<Rightarrow> nat"
  zstart :: "instant \<Rightarrow> instant"
  zplus_days :: "nat \<Rightarrow> instant \<Rightarrow> instant"
  zminus_days :: "nat \<Rightarrow> instant \<Rightarrow> instant"
  zlocal :: "instant \<Rightarrow> int \<Rightarrow> int \<Rightarrow> (instant \<times> int \<times> int) option"
  zhour :: "instant \<Rightarrow> int"
  zminute :: "instant \<Rightarrow> int"

text \<open>The zone database: \<^term>\<open>None\<close> is a zone name luxon calls invalid.\<close>

type_synonym tzdb = "string \<Rightarrow> zone option"

section \<open>The laws\<close>

locale calendar =
  fixes z :: zone
  assumes start_le: "zstart z t \<le> t"
    and start_idem: "zstart z (zstart z t) = zstart z t"
    and start_mono: "s \<le> t \<Longrightarrow> zstart z s \<le> zstart z t"
    and plus_zero: "zplus_days z 0 t = t"
    and plus_later: "t < zplus_days z 1 t"
    and date_start: "zdate z (zstart z t) = zdate z t"
    and local_on_day: "zlocal z t h m = Some (u, h, m) \<Longrightarrow>
      zdate z u = zdate z t \<and> zweekday z u = zweekday z t \<and> zhour z u = h \<and> zminute z u = m"
begin

lemma start_same_date: "zstart z s = zstart z t \<Longrightarrow> zdate z s = zdate z t"
  by (metis date_start)

lemma start_of_earlier: "zstart z t \<le> s \<Longrightarrow> s \<le> t \<Longrightarrow> zstart z s = zstart z t"
  by (metis order_antisym start_idem start_mono)

end

text \<open>
  A zone whose days all start at midnight: walking day by day reaches every later day start, and
  a step is never shorter than twenty-two hours. Zones that move their clocks at midnight are
  calendars and not regular ones.
\<close>

locale regular_calendar = calendar +
  assumes reach: "zstart z s \<le> zstart z t \<Longrightarrow> \<exists>n. zstart z t = (zplus_days z 1 ^^ n) (zstart z s)"
    and step: "t + 22 * hour_ms \<le> zplus_days z 1 t"
    and start_near: "t - 26 * hour_ms \<le> zstart z t"
    and step_start: "zstart z (zplus_days z 1 (zstart z t)) = zplus_days z 1 (zstart z t)"
    and local_start: "zlocal z t h m = Some (u, h, m) \<Longrightarrow> zstart z u = zstart z t"
begin

lemma power_start: "zstart z ((zplus_days z 1 ^^ n) (zstart z t)) = (zplus_days z 1 ^^ n) (zstart z t)"
proof (induction n)
  case 0
  then show ?case by (simp add: start_idem)
next
  case (Suc n)
  then show ?case using step_start [of "(zplus_days z 1 ^^ n) (zstart z t)"] by simp
qed

lemma steps: "t + int n * (22 * hour_ms) \<le> (zplus_days z 1 ^^ n) t"
proof (induction n)
  case 0
  then show ?case by simp
next
  case (Suc n)
  have "(zplus_days z 1 ^^ n) t + 22 * hour_ms \<le> (zplus_days z 1 ^^ Suc n) t"
    using step by simp
  with Suc show ?case by (simp add: algebra_simps)
qed

end

section \<open>UTC\<close>

text \<open>Proleptic Gregorian calendar dates from day numbers (day 0 is 1970-01-01) and back.\<close>

definition civil_of_days :: "int \<Rightarrow> int \<times> int \<times> int" where
  "civil_of_days n =
     (let w = n + 719468; era = w div 146097; doe = w mod 146097;
          yoe = (doe - doe div 1460 + doe div 36524 - doe div 146096) div 365;
          doy = doe - (365 * yoe + yoe div 4 - yoe div 100);
          mp = (5 * doy + 2) div 153;
          d = doy - (153 * mp + 2) div 5 + 1;
          m = (if mp < 10 then mp + 3 else mp - 9);
          y = yoe + era * 400 + (if m \<le> 2 then 1 else 0)
      in (y, m, d))"

definition days_of_civil :: "int \<Rightarrow> int \<Rightarrow> int \<Rightarrow> int" where
  "days_of_civil y m d =
     (let y' = (if m \<le> 2 then y - 1 else y); era = y' div 400; yoe = y' mod 400;
          mp = (if m > 2 then m - 3 else m + 9);
          doy = (153 * mp + 2) div 5 + d - 1;
          doe = yoe * 365 + yoe div 4 - yoe div 100 + doy
      in era * 146097 + doe - 719468)"

definition digit_char :: "int \<Rightarrow> char" where
  "digit_char d = char_of (nat (48 + d))"

definition two_digits :: "int \<Rightarrow> string" where
  "two_digits n = [digit_char (n div 10 mod 10), digit_char (n mod 10)]"

definition iso_date :: "int \<times> int \<times> int \<Rightarrow> string" where
  "iso_date ymd = (case ymd of (y, m, d) \<Rightarrow>
     two_digits (y div 100) @ two_digits (y mod 100) @ ''-'' @ two_digits m @ ''-'' @ two_digits d)"

definition utc_date :: "instant \<Rightarrow> string" where
  "utc_date t = iso_date (civil_of_days (t div day_ms))"

definition utc_weekday :: "instant \<Rightarrow> nat" where
  "utc_weekday t = nat ((t div day_ms + 3) mod 7) + 1"

definition utc_start :: "instant \<Rightarrow> instant" where
  "utc_start t = t div day_ms * day_ms"

definition utc_plus_days :: "nat \<Rightarrow> instant \<Rightarrow> instant" where
  "utc_plus_days n t = t + int n * day_ms"

definition utc_minus_days :: "nat \<Rightarrow> instant \<Rightarrow> instant" where
  "utc_minus_days n t = t - int n * day_ms"

definition utc_local :: "instant \<Rightarrow> int \<Rightarrow> int \<Rightarrow> (instant \<times> int \<times> int) option" where
  "utc_local t h m =
     (if 0 \<le> h \<and> h < 24 \<and> 0 \<le> m \<and> m < 60
      then Some (t div day_ms * day_ms + h * hour_ms + m * minute_ms, h, m) else None)"

definition utc_hour :: "instant \<Rightarrow> int" where
  "utc_hour t = t mod day_ms div hour_ms"

definition utc_minute :: "instant \<Rightarrow> int" where
  "utc_minute t = t mod hour_ms div minute_ms"

definition utc :: zone where
  "utc = \<lparr>zdate = utc_date, zweekday = utc_weekday, zstart = utc_start,
          zplus_days = utc_plus_days, zminus_days = utc_minus_days, zlocal = utc_local, zhour = utc_hour, zminute = utc_minute\<rparr>"

lemmas utc_defs = utc_def utc_date_def utc_weekday_def utc_start_def utc_plus_days_def
  utc_minus_days_def utc_local_def utc_hour_def utc_minute_def

lemma utc_local_day:
  assumes "0 \<le> h" "h < 24" "0 \<le> m" "m < (60 :: int)"
  shows "(t div day_ms * day_ms + h * hour_ms + m * minute_ms) div day_ms = t div day_ms"
  by (rule int_div_pos_eq [where r = "h * hour_ms + m * minute_ms"]) (use assms in simp_all)

lemma utc_local_hour:
  assumes "0 \<le> h" "h < 24" "0 \<le> m" "m < (60 :: int)"
  shows "(t div day_ms * day_ms + h * hour_ms + m * minute_ms) mod day_ms div hour_ms = h"
    and "(t div day_ms * day_ms + h * hour_ms + m * minute_ms) mod hour_ms div minute_ms = m"
proof -
  let ?u = "t div day_ms * day_ms + h * hour_ms + m * minute_ms"
  have "?u mod day_ms = h * hour_ms + m * minute_ms"
    using utc_local_day [OF assms, of t] by (simp add: minus_div_mult_eq_mod [symmetric])
  moreover have "(h * hour_ms + m * minute_ms) div hour_ms = h"
    by (rule int_div_pos_eq [where r = "m * minute_ms"]) (use assms in simp_all)
  ultimately show "?u mod day_ms div hour_ms = h" by simp
  have "?u = m * minute_ms + (t div day_ms * 24 + h) * hour_ms" by simp
  then have "?u mod hour_ms = (m * minute_ms) mod hour_ms" by (metis mod_mult_self1)
  moreover have "(m * minute_ms) mod hour_ms = m * minute_ms"
    by (rule mod_pos_pos_trivial) (use assms in simp_all)
  ultimately show "?u mod hour_ms div minute_ms = m" by simp
qed

lemma utc_steps: "(zplus_days utc 1 ^^ n) t = t + int n * day_ms"
  by (induction n) (simp_all add: utc_defs)

interpretation utc: regular_calendar utc
proof unfold_locales
  fix s t :: int
  show "zstart utc t \<le> t" by (simp add: utc_defs)
  show "zstart utc (zstart utc t) = zstart utc t" by (simp add: utc_defs)
  show "s \<le> t \<Longrightarrow> zstart utc s \<le> zstart utc t"
    by (simp add: utc_defs zdiv_mono1)
  show "zplus_days utc 0 t = t" by (simp add: utc_defs)
  show "t < zplus_days utc 1 t" by (simp add: utc_defs)
  show "zdate utc (zstart utc t) = zdate utc t" by (simp add: utc_defs)
  show "t + 22 * hour_ms \<le> zplus_days utc 1 t" by (simp add: utc_defs)
  show "t - 26 * hour_ms \<le> zstart utc t"
    using pos_mod_bound [of day_ms t] minus_div_mult_eq_mod [of t day_ms] by (simp add: utc_defs)
  show "zstart utc (zplus_days utc 1 (zstart utc t)) = zplus_days utc 1 (zstart utc t)"
    by (simp add: utc_defs div_add_self2 distrib_right)
  show "\<exists>n. zstart utc t = (zplus_days utc 1 ^^ n) (zstart utc s)"
    if "zstart utc s \<le> zstart utc t"
  proof -
    from that have "s div day_ms \<le> t div day_ms" by (simp add: utc_defs)
    then have "zstart utc t = (zplus_days utc 1 ^^ nat (t div day_ms - s div day_ms)) (zstart utc s)"
      by (simp only: utc_steps) (simp add: utc_defs algebra_simps)
    then show ?thesis by blast
  qed
next
  fix t h m u
  assume "zlocal utc t h m = Some (u, h, m)"
  then have b: "0 \<le> h" "h < 24" "0 \<le> m" "m < 60"
    and u: "u = t div day_ms * day_ms + h * hour_ms + m * minute_ms"
    by (auto simp: utc_defs split: if_splits)
  show "zstart utc u = zstart utc t"
    unfolding u using utc_local_day [OF b, of t] by (simp only: utc_defs zone.simps)
  show "zdate utc u = zdate utc t \<and> zweekday utc u = zweekday utc t \<and> zhour utc u = h \<and> zminute utc u = m"
    unfolding u using utc_local_day [OF b, of t] utc_local_hour [OF b, of t]
    by (simp only: utc_defs zone.simps)
qed

end
