(* ===== verification/Availability.thy ===== *)
theory Availability
  imports Zones "HOL-Library.Product_Lexorder"
begin

text \<open>
  The availability rule of a bot (\<open>api/src/database/entities/AvailabilityRule.ts\<close>) and the
  day hours the slot engine derives from it (\<open>windowsForDay\<close> and its helpers in
  \<open>api/src/booking/booking-providers/slot-engine.ts\<close>): weekly hours, date overrides, the
  narrowest-override rule and the parsing of \<open>HH:MM\<close> windows.
\<close>

section \<open>The rule\<close>

record time_window =
  w_start :: string
  w_end :: string

datatype weekday = Mon | Tue | Wed | Thu | Fri | Sat | Sun

datatype availability_mode = AlwaysOpen | BusinessHours

record date_override =
  ov_date :: string
  ov_end :: "string option"
  ov_closed :: "bool option"
  ov_windows :: "time_window list option"

record availability_rule =
  ar_timezone :: string
  ar_mode :: availability_mode
  ar_weekly :: "(weekday \<Rightarrow> time_window list option) option"
  ar_overrides :: "date_override list option"
  ar_granularity :: "int option"

section \<open>Date overrides\<close>

fun is_iso_date :: "string \<Rightarrow> bool" where
  "is_iso_date [a, b, c, d, x, e, f, y, g, h] =
     (list_all is_digit [a, b, c, d, e, f, g, h] \<and> x = CHR ''-'' \<and> y = CHR ''-'')"
| "is_iso_date _ = False"

definition effective_end_date :: "date_override \<Rightarrow> string option" where
  "effective_end_date o' =
     (case ov_end o' of
        None \<Rightarrow> None
      | Some e \<Rightarrow>
          if ov_date o' = [] \<or> e = [] then None
          else if \<not> is_iso_date e \<or> e < ov_date o' then None
          else Some e)"

definition is_ranged_override :: "date_override \<Rightarrow> bool" where
  "is_ranged_override o' =
     (case effective_end_date o' of None \<Rightarrow> False | Some e \<Rightarrow> e > ov_date o')"

definition override_last_day :: "date_override \<Rightarrow> string" where
  "override_last_day o' = nullish (effective_end_date o') (ov_date o')"

definition is_relevant_on :: "date_override \<Rightarrow> string \<Rightarrow> bool" where
  "is_relevant_on o' today = (ov_date o' \<noteq> [] \<and> override_last_day o' \<ge> today)"

definition override_span_end :: "date_override \<Rightarrow> string option" where
  "override_span_end o' = (if is_ranged_override o' then effective_end_date o' else None)"

definition override_covers_date :: "date_override \<Rightarrow> string \<Rightarrow> bool" where
  "override_covers_date o' d =
     (if ov_date o' = [] then False
      else if ov_date o' = d then True
      else (case effective_end_date o' of
              None \<Rightarrow> False
            | Some e \<Rightarrow> d > ov_date o' \<and> d \<le> e))"

text \<open>
  \<open>Date.parse(`${d}T00:00:00Z`)\<close>: \<^term>\<open>None\<close> is \<open>NaN\<close>. A day past the end of its
  month rolls over, as \<open>MakeDay\<close> does.
\<close>

definition date_parse_midnight :: "string \<Rightarrow> int option" where
  "date_parse_midnight d =
     (if is_iso_date d then
        (let y = num_of (take 4 d); m = num_of (take 2 (drop 5 d)); dd = num_of (drop 8 d)
         in if 1 \<le> m \<and> m \<le> 12 \<and> 1 \<le> dd \<and> dd \<le> 31
            then Some (days_of_civil y m dd * day_ms) else None)
      else None)"

definition override_span :: "date_override \<Rightarrow> int option" where
  "override_span o' =
     (case effective_end_date o' of
        None \<Rightarrow> Some 0
      | Some e \<Rightarrow> (case (date_parse_midnight e, date_parse_midnight (ov_date o')) of
                     (Some a, Some b) \<Rightarrow> Some (a - b)
                   | _ \<Rightarrow> None))"

text \<open>
  The loop of \<open>pickOverrideForDate\<close>. Its state is \<open>best\<close> with its span; no best yet is
  the initial \<open>bestSpan = Infinity\<close>. A \<open>NaN\<close> span compares false both times.
\<close>

definition override_better :: "date_override \<Rightarrow> int \<Rightarrow> (date_override \<times> int) option \<Rightarrow> bool" where
  "override_better o' span best =
     (case best of
        None \<Rightarrow> True
      | Some (b, bspan) \<Rightarrow>
          span < bspan \<or>
          (span = bspan \<and> truthy_bool (ov_closed o') \<and> \<not> truthy_bool (ov_closed b)))"

fun pick_override_loop ::
  "string \<Rightarrow> (date_override \<times> int) option \<Rightarrow> date_override list \<Rightarrow> (date_override \<times> int) option" where
  "pick_override_loop d best [] = best"
| "pick_override_loop d best (o' # os) =
     pick_override_loop d
       (if \<not> override_covers_date o' d then best
        else (case override_span o' of
                None \<Rightarrow> best
              | Some span \<Rightarrow> if override_better o' span best then Some (o', span) else best)) os"

definition pick_override_for_date :: "date_override list option \<Rightarrow> string \<Rightarrow> date_override option" where
  "pick_override_for_date ovs d = map_option fst (pick_override_loop d None (nullish ovs []))"

section \<open>Windows\<close>

definition check_hhmm :: "int \<Rightarrow> int \<Rightarrow> (int \<times> int) option" where
  "check_hhmm h m =
     (if h < 0 \<or> h > 24 \<or> m < 0 \<or> m > 59 \<or> (h = 24 \<and> m \<noteq> 0) then None else Some (h, m))"

definition parse_hhmm :: "string \<Rightarrow> (int \<times> int) option" where
  "parse_hhmm s =
     (case js_trim s of
        [a, c, d, e] \<Rightarrow>
          if is_digit a \<and> c = CHR '':'' \<and> is_digit d \<and> is_digit e
          then check_hhmm (num_of [a]) (num_of [d, e]) else None
      | [a, b, c, d, e] \<Rightarrow>
          if is_digit a \<and> is_digit b \<and> c = CHR '':'' \<and> is_digit d \<and> is_digit e
          then check_hhmm (num_of [a, b]) (num_of [d, e]) else None
      | _ \<Rightarrow> None)"

definition window_minutes :: "time_window \<Rightarrow> (int \<times> int) option" where
  "window_minutes w =
     (case (parse_hhmm (w_start w), parse_hhmm (w_end w)) of
        (Some (sh, sm), Some (eh, em)) \<Rightarrow>
          (let start = sh * 60 + sm; end = eh * 60 + em
           in if end > start then Some (start, end) else None)
      | _ \<Rightarrow> None)"

definition all_day :: "time_window list" where
  "all_day = [\<lparr>w_start = ''00:00'', w_end = ''24:00''\<rparr>]"

definition weekday_keys :: "weekday list" where
  "weekday_keys = [Mon, Tue, Wed, Thu, Fri, Sat, Sun]"

definition base_windows_for_day :: "zone \<Rightarrow> availability_rule \<Rightarrow> instant \<Rightarrow> time_window list" where
  "base_windows_for_day z rule day =
     (if ar_mode rule = AlwaysOpen then all_day
      else (case ar_weekly rule of
              None \<Rightarrow> []
            | Some weekly \<Rightarrow> nullish (weekly (weekday_keys ! (zweekday z day - 1))) []))"

definition windows_for_day :: "zone \<Rightarrow> availability_rule \<Rightarrow> instant \<Rightarrow> time_window list" where
  "windows_for_day z rule day =
     (case pick_override_for_date (ar_overrides rule) (zdate z day) of
        Some ov \<Rightarrow>
          if truthy_bool (ov_closed ov) then []
          else if is_ranged_override ov \<and> base_windows_for_day z rule day = [] then []
          else nullish (ov_windows ov) []
      | None \<Rightarrow> base_windows_for_day z rule day)"

definition day_has_hours :: "zone \<Rightarrow> availability_rule \<Rightarrow> instant \<Rightarrow> bool" where
  "day_has_hours z rule day = list_ex (\<lambda>w. window_minutes w \<noteq> None) (windows_for_day z rule day)"

section \<open>Facts about overrides\<close>

text \<open>The preference of the loop is the lexicographic order of span and openness.\<close>

definition override_key :: "date_override \<times> int \<Rightarrow> int \<times> int" where
  "override_key c = (snd c, if truthy_bool (ov_closed (fst c)) then 0 else 1)"

definition override_candidates :: "string \<Rightarrow> date_override list \<Rightarrow> (date_override \<times> int) list" where
  "override_candidates d os =
     List.map_filter
       (\<lambda>o'. if override_covers_date o' d then map_option (Pair o') (override_span o') else None) os"

lemma override_candidates_simps [simp]:
  "override_candidates d [] = []"
  "override_candidates d (o' # os) =
     (if override_covers_date o' d
      then (case override_span o' of None \<Rightarrow> [] | Some s \<Rightarrow> [(o', s)]) else [])
     @ override_candidates d os"
  by (simp_all add: override_candidates_def map_filter_simps split: option.splits)

lemma override_better_key:
  "override_better o' span (Some b) \<longleftrightarrow> override_key (o', span) < override_key b"
  by (cases b) (auto simp: override_better_def override_key_def)

lemma override_better_step:
  "(if override_better o' span best then Some (o', span) else best) =
     (case best of None \<Rightarrow> Some (o', span)
      | Some b \<Rightarrow> if override_key (o', span) < override_key b then Some (o', span) else Some b)"
  by (cases best) (simp_all add: override_better_key, simp add: override_better_def)

lemma pick_override_loop_best:
  "pick_override_loop d best os =
     best_by (\<lambda>x y. override_key x < override_key y) best (override_candidates d os)"
  by (induction os arbitrary: best) (auto simp: override_better_step split: option.splits)

lemma override_candidates_iff:
  "c \<in> set (override_candidates d os) \<longleftrightarrow>
     fst c \<in> set os \<and> override_covers_date (fst c) d \<and> override_span (fst c) = Some (snd c)"
  unfolding override_candidates_def map_filter_def
  by (cases c) (force split: option.splits if_splits)

lemma pick_override_candidate:
  assumes "pick_override_for_date (Some os) d = Some o'"
  shows "\<exists>s. (o', s) \<in> set (override_candidates d os) \<and>
           (\<forall>c \<in> set (override_candidates d os). override_key (o', s) \<le> override_key c)"
proof -
  from assms obtain s where
    b: "best_by (\<lambda>x y. override_key x < override_key y) None (override_candidates d os) = Some (o', s)"
    by (auto simp: pick_override_for_date_def pick_override_loop_best)
  show ?thesis
    using best_by_mem [OF b] best_by_key [OF b] by auto
qed

lemma pick_override_None:
  "pick_override_for_date (Some os) d = None \<longleftrightarrow> override_candidates d os = []"
  by (simp add: pick_override_for_date_def pick_override_loop_best best_by_None)

lemma override_covers_malformed_end:
  assumes "ov_end o' = Some e" "\<not> is_iso_date e" "override_covers_date o' d"
  shows "d = ov_date o'"
  using assms by (auto simp: override_covers_date_def effective_end_date_def split: if_splits)

lemma effective_end_SomeD:
  assumes "effective_end_date o' = Some e"
  shows "is_iso_date e" "ov_date o' \<le> e" "ov_date o' \<noteq> []"
  using assms by (auto simp: effective_end_date_def split: option.splits if_splits)

lemma override_covers_interval:
  "override_covers_date o' d \<longleftrightarrow>
     ov_date o' \<noteq> [] \<and> ov_date o' \<le> d \<and> d \<le> override_last_day o'"
  by (auto simp: override_covers_date_def override_last_day_def split: option.splits
      dest: effective_end_SomeD)

lemma covers_relevant: "override_covers_date o' d \<Longrightarrow> is_relevant_on o' d"
  by (simp add: override_covers_interval is_relevant_on_def)

section \<open>Facts about windows\<close>

lemma check_hhmm_bounds:
  "check_hhmm h m = Some (h', m') \<Longrightarrow>
     h' = h \<and> m' = m \<and> 0 \<le> h \<and> 0 \<le> m \<and> m \<le> 59 \<and> h * 60 + m \<le> 1440"
  by (auto simp: check_hhmm_def split: if_splits)

lemma parse_hhmm_bounds:
  assumes "parse_hhmm s = Some (h, m)"
  shows "0 \<le> h" "0 \<le> m" "m \<le> 59" "h * 60 + m \<le> 1440"
  using assms by (auto simp: parse_hhmm_def split: list.splits if_splits dest: check_hhmm_bounds)

lemma parse_hhmm_minutes:
  "parse_hhmm s = Some (h, m) \<Longrightarrow> 0 \<le> h * 60 + m \<and> h * 60 + m \<le> 1440"
  using parse_hhmm_bounds [of s h m] by simp

lemma window_minutes_bounds [slot_rules]:
  assumes "window_minutes w = Some (s, e)"
  shows "0 \<le> s" "s < e" "e \<le> 1440"
  using assms
  by (auto simp: window_minutes_def Let_def split: option.splits prod.splits if_splits
      dest!: parse_hhmm_minutes)

lemma all_day_minutes: "map window_minutes all_day = [Some (0, 1440)]"
  by (simp add: all_day_def window_minutes_def parse_hhmm_def js_trim_def is_ws_def is_digit_def
      num_of_def digit_val_def check_hhmm_def)

text \<open>Reading back a printed time of day.\<close>

definition show_hhmm :: "int \<Rightarrow> int \<Rightarrow> string" where
  "show_hhmm h m = two_digits h @ '':'' @ two_digits m"

lemma digit_char_props:
  assumes "0 \<le> d" "d \<le> 9"
  shows "is_digit (digit_char d)" "digit_val (digit_char d) = d" "\<not> is_ws (digit_char d)"
  using assms by (auto simp: is_digit_def digit_val_def digit_char_def is_ws_def nat_le_iff)

lemma js_trim_id:
  "s \<noteq> [] \<Longrightarrow> \<not> is_ws (hd s) \<Longrightarrow> \<not> is_ws (last s) \<Longrightarrow> js_trim s = s"
proof -
  assume s: "s \<noteq> []" "\<not> is_ws (hd s)" "\<not> is_ws (last s)"
  from s(1,2) have "dropWhile is_ws s = s" by (cases s) simp_all
  moreover from s(1,3) have "dropWhile is_ws (rev s) = rev s"
    by (cases "rev s") (simp_all add: last_rev [of "rev s", simplified])
  ultimately show ?thesis by (simp add: js_trim_def)
qed

lemma two_digits_read:
  assumes "0 \<le> n" "n \<le> 99"
  shows "num_of (two_digits n) = n" "list_all is_digit (two_digits n)"
proof -
  have d: "0 \<le> n div 10 mod 10" "n div 10 mod 10 \<le> 9" "0 \<le> n mod 10" "n mod 10 \<le> 9"
    by simp_all
  have "n div 10 mod 10 = n div 10"
    using assms by (intro mod_pos_pos_trivial) simp_all
  then show "num_of (two_digits n) = n"
    using d by (simp add: two_digits_def num_of_def digit_char_props)
  show "list_all is_digit (two_digits n)"
    using d by (simp add: two_digits_def digit_char_props)
qed

lemma digit_not_ws: "is_digit c \<Longrightarrow> \<not> is_ws c"
  by (auto simp: is_digit_def is_ws_def)

lemma two_digits_ends:
  "two_digits n = [digit_char (n div 10 mod 10), digit_char (n mod 10)]"
  by (simp add: two_digits_def)

lemma parse_show_hhmm:
  assumes "0 \<le> h" "h \<le> 24" "0 \<le> m" "m \<le> 59" "h = 24 \<longrightarrow> m = 0"
  shows "parse_hhmm (show_hhmm h m) = Some (h, m)"
proof -
  obtain a b where h: "two_digits h = [a, b]" by (simp add: two_digits_def)
  obtain c d where m: "two_digits m = [c, d]" by (simp add: two_digits_def)
  have dig: "is_digit a" "is_digit b" "is_digit c" "is_digit d"
    and val: "num_of [a, b] = h" "num_of [c, d] = m"
    using two_digits_read [of h] two_digits_read [of m] assms h m by simp_all
  have "js_trim (show_hhmm h m) = [a, b, CHR '':'', c, d]"
    using dig by (subst js_trim_id) (simp_all add: show_hhmm_def h m digit_not_ws)
  then show ?thesis
    using assms dig val by (simp add: parse_hhmm_def check_hhmm_def)
qed

section \<open>Facts about day hours\<close>

lemma windows_closed:
  "pick_override_for_date (ar_overrides rule) (zdate z day) = Some ov \<Longrightarrow>
     truthy_bool (ov_closed ov) \<Longrightarrow> windows_for_day z rule day = []"
  by (simp add: windows_for_day_def)

lemma day_has_hours_iff:
  "day_has_hours z rule day \<longleftrightarrow>
     (\<exists>w \<in> set (windows_for_day z rule day). \<exists>s e. window_minutes w = Some (s, e))"
  by (auto simp: day_has_hours_def list_ex_iff)

lemma windows_same_day:
  "zdate z s = zdate z t \<Longrightarrow> zweekday z s = zweekday z t \<Longrightarrow>
     windows_for_day z rule s = windows_for_day z rule t"
proof -
  assume "zdate z s = zdate z t" and "zweekday z s = zweekday z t"
  moreover from this have "base_windows_for_day z rule s = base_windows_for_day z rule t"
    unfolding base_windows_for_day_def by metis
  ultimately show ?thesis by (simp add: windows_for_day_def split: option.split)
qed

lemma windows_granularity:
  "windows_for_day z (rule\<lparr>ar_granularity := g\<rparr>) day = windows_for_day z rule day"
proof -
  have "base_windows_for_day z (rule\<lparr>ar_granularity := g\<rparr>) day = base_windows_for_day z rule day"
    by (simp add: base_windows_for_day_def)
  then show ?thesis by (simp add: windows_for_day_def split: option.split)
qed

section \<open>Properties\<close>

text \<open>
  narrowest wins: the override chosen for a date is one of the rows, covers the date, spans no
  more than any other covering row, and is a closure whenever a closure of the same span covers the
  date.
\<close>

theorem pick_override_narrowest:
  assumes "pick_override_for_date (Some os) d = Some o'"
  shows "o' \<in> set os \<and> override_covers_date o' d \<and>
    (\<exists>s. override_span o' = Some s \<and>
       (\<forall>p \<in> set os. \<forall>t. override_covers_date p d \<and> override_span p = Some t \<longrightarrow>
          s \<le> t \<and> (s = t \<and> truthy_bool (ov_closed p) \<longrightarrow> truthy_bool (ov_closed o'))))"
proof -
  from assms obtain s where s: "(o', s) \<in> set (override_candidates d os)"
    and best: "\<And>c. c \<in> set (override_candidates d os) \<Longrightarrow> override_key (o', s) \<le> override_key c"
    using pick_override_candidate by blast
  have "s \<le> t \<and> (s = t \<and> truthy_bool (ov_closed p) \<longrightarrow> truthy_bool (ov_closed o'))"
    if "p \<in> set os" "override_covers_date p d" "override_span p = Some t" for p t
    using best [of "(p, t)"] that
    by (auto simp: override_candidates_iff override_key_def split: if_splits)
  with s show ?thesis by (auto simp: override_candidates_iff)
qed

definition demo_overrides :: "date_override list" where
  "demo_overrides =
     [\<lparr>ov_date = ''2026-08-01'', ov_end = Some ''2026-08-14'', ov_closed = Some True, ov_windows = None\<rparr>,
      \<lparr>ov_date = ''2026-08-05'', ov_end = None, ov_closed = None,
       ov_windows = Some [\<lparr>w_start = ''09:00'', w_end = ''12:00''\<rparr>]\<rparr>]"

lemma demo_pick:
  "pick_override_for_date (Some demo_overrides) ''2026-08-05'' = Some (demo_overrides ! 1)"
  by code_simp

theorem pick_override_narrowest_witness:
  "demo_overrides ! 1 \<in> set demo_overrides \<and> override_covers_date (demo_overrides ! 1) ''2026-08-05''"
  using pick_override_narrowest [OF demo_pick] by blast

text \<open>
  whether a date is closed does not depend on the order in which the owner added the rows: two
  lists with the same rows choose overrides with the same closed flag, or both choose none.
\<close>

theorem override_closed_order_independent:
  assumes "set os = set os'"
  shows "map_option (\<lambda>o'. truthy_bool (ov_closed o')) (pick_override_for_date (Some os) d) =
         map_option (\<lambda>o'. truthy_bool (ov_closed o')) (pick_override_for_date (Some os') d)"
proof -
  have same: "set (override_candidates d os) = set (override_candidates d os')"
    using assms by (auto simp: override_candidates_iff)
  show ?thesis
  proof (cases "pick_override_for_date (Some os) d")
    case None
    then have "pick_override_for_date (Some os') d = None"
      using same by (simp add: pick_override_None)
    with None show ?thesis by simp
  next
    case (Some a)
    then obtain b where b: "pick_override_for_date (Some os') d = Some b"
      using same pick_override_None [of os d] pick_override_None [of os' d]
      by (cases "pick_override_for_date (Some os') d") auto
    obtain s where s: "(a, s) \<in> set (override_candidates d os)"
      "\<forall>c \<in> set (override_candidates d os). override_key (a, s) \<le> override_key c"
      using pick_override_candidate [OF Some] by blast
    obtain t where t: "(b, t) \<in> set (override_candidates d os')"
      "\<forall>c \<in> set (override_candidates d os'). override_key (b, t) \<le> override_key c"
      using pick_override_candidate [OF b] by blast
    have "override_key (a, s) \<le> override_key (b, t)" using s(2) t(1) same by blast
    moreover have "override_key (b, t) \<le> override_key (a, s)" using t(2) s(1) same by blast
    ultimately have "override_key (a, s) = override_key (b, t)" by (rule order_antisym)
    with Some b show ?thesis by (auto simp: override_key_def split: if_splits)
  qed
qed

theorem override_closed_order_independent_witness:
  "map_option (\<lambda>o'. truthy_bool (ov_closed o')) (pick_override_for_date (Some (rev demo_overrides)) ''2026-08-05'') =
   Some False"
proof -
  have "\<not> truthy_bool (ov_closed (demo_overrides ! 1))" by (simp add: demo_overrides_def)
  with override_closed_order_independent [OF set_rev, of demo_overrides "''2026-08-05''"] demo_pick
  show ?thesis by simp
qed

text \<open>
  hours on a day come from the base pattern or from naming that very date: when a day has any
  window although the weekly pattern gives none, the override that applies is a single-day row (its
  own date is the day) and is not a closure. A ranged hours row therefore opens nothing new, and a
  malformed end date never stretches a row past its own date.
\<close>

theorem day_opened_by_base_or_own_date:
  assumes "windows_for_day z rule day \<noteq> []" and "base_windows_for_day z rule day = []"
  shows "\<exists>o' os. ar_overrides rule = Some os \<and> o' \<in> set os \<and> \<not> truthy_bool (ov_closed o') \<and>
           ov_date o' = zdate z day \<and> windows_for_day z rule day = nullish (ov_windows o') []"
proof -
  from assms obtain o' where o': "pick_override_for_date (ar_overrides rule) (zdate z day) = Some o'"
    and f: "\<not> truthy_bool (ov_closed o')" "\<not> is_ranged_override o'"
      "windows_for_day z rule day = nullish (ov_windows o') []"
    by (auto simp: windows_for_day_def split: option.splits if_splits)
  from o' obtain os where os: "ar_overrides rule = Some os"
    by (cases "ar_overrides rule") (auto simp: pick_override_for_date_def)
  with o' have mem: "o' \<in> set os" "override_covers_date o' (zdate z day)"
    using pick_override_candidate [of os "zdate z day" o'] by (auto simp: override_candidates_iff)
  have "ov_date o' = zdate z day"
    using mem(2) f(2) by (auto simp: override_covers_date_def is_ranged_override_def split: option.splits if_splits)
  with os mem f show ?thesis by blast
qed

definition demo_closed_rule :: availability_rule where
  "demo_closed_rule =
     \<lparr>ar_timezone = ''UTC'', ar_mode = BusinessHours, ar_weekly = None,
      ar_overrides = Some demo_overrides, ar_granularity = Some 30\<rparr>"

theorem day_opened_by_base_or_own_date_witness:
  "\<exists>o' os. ar_overrides demo_closed_rule = Some os \<and> o' \<in> set os \<and> \<not> truthy_bool (ov_closed o') \<and>
     ov_date o' = zdate utc (20670 * day_ms) \<and>
     windows_for_day utc demo_closed_rule (20670 * day_ms) = nullish (ov_windows o') []"
proof (rule day_opened_by_base_or_own_date)
  show "windows_for_day utc demo_closed_rule (20670 * day_ms) \<noteq> []" by code_simp
  show "base_windows_for_day utc demo_closed_rule (20670 * day_ms) = []" by code_simp
qed

text \<open>
  C40: printing a time of day and parsing it back gives the same hour and minute, for every time of
  day including the end-of-day marker 24:00.
\<close>

theorem hhmm_roundtrip:
  assumes "0 \<le> h" "h \<le> 24" "0 \<le> m" "m \<le> 59" "h = 24 \<longrightarrow> m = 0"
  shows "parse_hhmm (show_hhmm h m) = Some (h, m)"
  by (rule parse_show_hhmm [OF assms])

theorem hhmm_roundtrip_witness: "parse_hhmm (show_hhmm 9 5) = Some (9, 5)"
  by (rule hhmm_roundtrip) simp_all

end
