(* ===== verification/Grouping.thy ===== *)
theory Grouping
  imports Availability TravelGate "HOL-Library.Multiset"
begin

text \<open>
  Geographic grouping (\<open>api/src/booking/travel/\<close>): the half-day periods
  (\<open>half-day.ts\<close>), the marginal cost of a candidate (\<open>insertion-scorer.ts\<close>), the metered
  leg lookup of a scoring pass (\<open>score-offer.ts\<close>), the order the scores give
  (\<open>slot-ordering.ts\<close>) and its application to a slot list (\<open>apply-grouping.ts\<close>). Grouping
  may prefer a slot and may never refuse one: the theorems below say so of the code.
\<close>

section \<open>Half-day periods\<close>

datatype half_day_period = Morning | Afternoon

record day_periods =
  dp_boundary :: instant
  dp_start :: instant
  dp_end :: instant

definition minutes_of :: "string \<Rightarrow> int option" where
  "minutes_of s =
     (case s of
        [a, c, d, e] \<Rightarrow>
          if is_digit a \<and> c = CHR '':'' \<and> is_digit d \<and> is_digit e
          then (let h = num_of [a]; m = num_of [d, e] in if h > 23 \<or> m > 59 then None else Some (h * 60 + m))
          else None
      | [a, b, c, d, e] \<Rightarrow>
          if is_digit a \<and> is_digit b \<and> c = CHR '':'' \<and> is_digit d \<and> is_digit e
          then (let h = num_of [a, b]; m = num_of [d, e] in if h > 23 \<or> m > 59 then None else Some (h * 60 + m))
          else None
      | _ \<Rightarrow> None)"

text \<open>\<open>localDay\<close> is any instant of the day; \<open>instantAt\<close> counts minutes from its start.\<close>

definition instant_at :: "zone \<Rightarrow> instant \<Rightarrow> int \<Rightarrow> instant" where
  "instant_at z local_day minutes = zstart z local_day + minutes * minute_ms"

definition window_edges :: "time_window list \<Rightarrow> (int \<times> int) list" where
  "window_edges ws =
     sort_key fst
       (filter (\<lambda>(s, e). s < e)
          (List.map_filter
             (\<lambda>w. case (minutes_of (w_start w), minutes_of (w_end w)) of
                    (Some s, Some e) \<Rightarrow> Some (s, e) | _ \<Rightarrow> None) ws))"

definition resolve_day_periods :: "zone \<Rightarrow> instant \<Rightarrow> time_window list \<Rightarrow> bool \<Rightarrow> day_periods option" where
  "resolve_day_periods z local_day ws always_open =
     (if always_open then None
      else (let edges = window_edges ws
            in if edges = [] then None
               else (let first = fst (hd edges); closing = snd (last edges)
                     in Some \<lparr>dp_boundary = instant_at z local_day ((first + closing + 1) div 2),
                              dp_start = instant_at z local_day first,
                              dp_end = instant_at z local_day closing\<rparr>)))"

definition period_of :: "instant \<Rightarrow> instant \<Rightarrow> day_periods \<Rightarrow> half_day_period option" where
  "period_of start stop ps =
     (if stop \<le> dp_boundary ps then Some Morning
      else if dp_boundary ps \<le> start then Some Afternoon
      else None)"

section \<open>The insertion scorer\<close>

record route_node =
  rn_start :: instant
  rn_end :: instant
  rn_point :: geo_point

datatype neutral_reason = Unanchored | StraddlesBoundary | PositionNotTrusted | LegUnmeasured | NoPeriods

record scored_candidate =
  sc_start :: instant
  sc_cost :: "real option"
  sc_reason :: "neutral_reason option"
  sc_period :: "half_day_period option"

datatype leg_purpose = Adjacent | Baseline

text \<open>
  A leg lookup runs in a world \<open>'s\<close>. It answers minutes or nothing, or throws (\<^term>\<open>Inl ()\<close>).
\<close>

type_synonym 's leg_lookup =
  "geo_point \<Rightarrow> geo_point \<Rightarrow> instant \<Rightarrow> leg_purpose \<Rightarrow> 's \<Rightarrow> (unit + real option) \<times> 's"

record score_candidate =
  cd_start :: instant
  cd_end :: instant
  cd_point :: "geo_point option"

record departure =
  nb_point :: geo_point
  nb_depart :: instant

record score_input =
  si_candidates :: "score_candidate list"
  si_anchors :: "route_node list"
  si_periods :: "day_periods option"
  si_whole_day :: bool
  si_base :: "departure option"
  si_leg_budget :: int
  si_deadline :: instant

record scoring_context =
  sx_periods :: "day_periods option"
  sx_morning :: "route_node list"
  sx_afternoon :: "route_node list"
  sx_all_day :: "route_node list"
  sx_earliest :: "route_node option"

definition neutral_at :: "instant \<Rightarrow> neutral_reason \<Rightarrow> half_day_period option \<Rightarrow> scored_candidate" where
  "neutral_at start r p = \<lparr>sc_start = start, sc_cost = None, sc_reason = Some r, sc_period = p\<rparr>"

definition anchor_period :: "day_periods option \<Rightarrow> route_node \<Rightarrow> half_day_period option" where
  "anchor_period ps a = (case ps of None \<Rightarrow> Some Morning | Some p \<Rightarrow> period_of (rn_start a) (rn_end a) p)"

definition bucket_anchors :: "route_node list \<Rightarrow> day_periods option \<Rightarrow> half_day_period \<Rightarrow> route_node list" where
  "bucket_anchors anchors ps p = sort_key rn_start (filter (\<lambda>a. anchor_period ps a = Some p) anchors)"

definition scoring_context_of :: "score_input \<Rightarrow> scoring_context" where
  "scoring_context_of inp =
     (let am = bucket_anchors (si_anchors inp) (si_periods inp) Morning;
          pm = bucket_anchors (si_anchors inp) (si_periods inp) Afternoon;
          all_day = sort_key rn_start (am @ pm)
      in \<lparr>sx_periods = si_periods inp, sx_morning = am, sx_afternoon = pm, sx_all_day = all_day,
          sx_earliest = (case all_day of [] \<Rightarrow> None | a # _ \<Rightarrow> Some a)\<rparr>)"

definition context_anchors :: "score_input \<Rightarrow> scoring_context \<Rightarrow> half_day_period option \<Rightarrow> route_node list" where
  "context_anchors inp ctx p =
     (if si_whole_day inp then sx_all_day ctx
      else (case p of Some Morning \<Rightarrow> sx_morning ctx | Some Afternoon \<Rightarrow> sx_afternoon ctx | None \<Rightarrow> []))"

definition candidate_neighbours ::
    "score_input \<Rightarrow> scoring_context \<Rightarrow> score_candidate \<Rightarrow> half_day_period option \<Rightarrow>
     departure option \<times> route_node option"
  where
  "candidate_neighbours inp ctx c p =
     (let anchors = context_anchors inp ctx p;
          prev_anchor = find (\<lambda>a. rn_end a \<le> cd_start c) (rev anchors);
          next_anchor = find (\<lambda>a. cd_end c \<le> rn_start a) anchors;
          day_first = (case sx_earliest ctx of None \<Rightarrow> True | Some a \<Rightarrow> cd_start c < rn_start a)
      in ((case prev_anchor of
             Some a \<Rightarrow> Some \<lparr>nb_point = rn_point a, nb_depart = rn_end a\<rparr>
           | None \<Rightarrow> if day_first then si_base inp else None),
          next_anchor))"

definition legs_needed :: "departure option \<Rightarrow> route_node option \<Rightarrow> int" where
  "legs_needed prv nxt =
     (if prv \<noteq> None then 1 else 0) + (if nxt \<noteq> None then 1 else 0) +
     (if prv \<noteq> None \<and> nxt \<noteq> None then 1 else 0)"

text \<open>One of the three legs: no leg costs zero, a throw ends the candidate.\<close>

definition ask_leg ::
    "'s leg_lookup \<Rightarrow> (geo_point \<times> geo_point \<times> instant \<times> leg_purpose) option \<Rightarrow> 's \<Rightarrow>
     (unit + real option) \<times> 's"
  where
  "ask_leg look leg s =
     (case leg of None \<Rightarrow> (Inr (Some 0), s) | Some (a, b, t, p) \<Rightarrow> look a b t p s)"

definition measure_candidate ::
    "'s leg_lookup \<Rightarrow> score_candidate \<Rightarrow> geo_point \<Rightarrow> departure option \<Rightarrow> route_node option \<Rightarrow>
     half_day_period option \<Rightarrow> int \<Rightarrow> 's \<Rightarrow> (scored_candidate \<times> int) \<times> 's"
  where
  "measure_candidate look c pt prv nxt p used s =
     (let failed = neutral_at (cd_start c) LegUnmeasured p
      in case ask_leg look (map_option (\<lambda>d. (nb_point d, pt, nb_depart d, Adjacent)) prv) s of
        (Inl _, s1) \<Rightarrow> ((failed, used), s1)
      | (Inr to_c, s1) \<Rightarrow>
          (case ask_leg look (map_option (\<lambda>a. (pt, rn_point a, cd_end c, Adjacent)) nxt) s1 of
             (Inl _, s2) \<Rightarrow> ((failed, used), s2)
           | (Inr from_c, s2) \<Rightarrow>
               (case ask_leg look
                       (case (prv, nxt) of
                          (Some d, Some a) \<Rightarrow> Some (nb_point d, rn_point a, nb_depart d, Baseline)
                        | _ \<Rightarrow> None) s2 of
                  (Inl _, s3) \<Rightarrow> ((failed, used), s3)
                | (Inr base, s3) \<Rightarrow>
                    ((case (to_c, from_c, base) of
                        (Some x, Some y, Some b) \<Rightarrow>
                          \<lparr>sc_start = cd_start c, sc_cost = Some (x + y - b), sc_reason = None, sc_period = p\<rparr>
                      | _ \<Rightarrow> failed,
                      used + legs_needed prv nxt), s3))))"

definition score_one_candidate ::
    "('s \<Rightarrow> instant) \<Rightarrow> 's leg_lookup \<Rightarrow> score_input \<Rightarrow> scoring_context \<Rightarrow> score_candidate \<Rightarrow> int \<Rightarrow> 's \<Rightarrow>
     (scored_candidate \<times> int) \<times> 's"
  where
  "score_one_candidate clock look inp ctx c used s =
     (case cd_point c of
        None \<Rightarrow> ((neutral_at (cd_start c) PositionNotTrusted None, used), s)
      | Some pt \<Rightarrow>
          (let p = (case sx_periods ctx of None \<Rightarrow> None | Some ps \<Rightarrow> period_of (cd_start c) (cd_end c) ps)
           in if sx_periods ctx \<noteq> None \<and> p = None
              then ((neutral_at (cd_start c) StraddlesBoundary None, used), s)
              else
                (case candidate_neighbours inp ctx c p of
                   (prv, nxt) \<Rightarrow>
                     if prv = None \<and> nxt = None
                     then ((neutral_at (cd_start c) Unanchored p, used), s)
                     else if used + legs_needed prv nxt > si_leg_budget inp \<or> clock s > si_deadline inp
                     then ((neutral_at (cd_start c) LegUnmeasured p, used), s)
                     else measure_candidate look c pt prv nxt p used s)))"

fun score_loop ::
    "('s \<Rightarrow> instant) \<Rightarrow> 's leg_lookup \<Rightarrow> score_input \<Rightarrow> scoring_context \<Rightarrow> score_candidate list \<Rightarrow> int \<Rightarrow> 's \<Rightarrow>
     scored_candidate list \<times> 's"
  where
  "score_loop clock look inp ctx [] used s = ([], s)"
| "score_loop clock look inp ctx (c # cs) used s =
     (case score_one_candidate clock look inp ctx c used s of
        ((r, used'), s') \<Rightarrow>
          (case score_loop clock look inp ctx cs used' s' of (rs, s'') \<Rightarrow> (r # rs, s'')))"

definition score_candidates ::
    "('s \<Rightarrow> instant) \<Rightarrow> 's leg_lookup \<Rightarrow> score_input \<Rightarrow> 's \<Rightarrow> scored_candidate list \<times> 's"
  where
  "score_candidates clock look inp s =
     (if si_periods inp = None \<and> \<not> si_whole_day inp
      then (map (\<lambda>c. neutral_at (cd_start c) NoPeriods None) (si_candidates inp), s)
      else score_loop clock look inp (scoring_context_of inp) (si_candidates inp) 0 s)"

section \<open>The metered lookup of one scoring pass\<close>

definition grouping_deadline_ms :: int where "grouping_deadline_ms = 2000"

definition grouping_leg_budget :: int where "grouping_leg_budget = 24"

definition grouping_paid_leg_budget :: int where "grouping_paid_leg_budget = 4"

type_synonym memo_key = "geo_point \<times> geo_point \<times> instant"

record 's scoring_pass =
  pass_memo :: "memo_key \<Rightarrow> real option option"
  legs_read :: int
  elements_spent :: int
  adjacent_misses :: int
  estimated_legs :: int
  pass_world :: 's

text \<open>
  \<open>cached\<close> and \<open>paying\<close> are the two lookups \<open>driveLookupFor\<close> returns. Beside the answer, the
  first says whether it would have had to spend (\<open>onWouldSpend\<close>), the second whether it billed an
  element (\<open>onBilled\<close>).
\<close>

type_synonym 's flagged_lookup = "geo_point \<Rightarrow> geo_point \<Rightarrow> instant \<Rightarrow> 's \<Rightarrow> (real option \<times> bool) \<times> 's"

definition metered ::
    "distance \<Rightarrow> ('s \<Rightarrow> instant) \<Rightarrow> instant \<Rightarrow> 's flagged_lookup \<Rightarrow> 's flagged_lookup \<Rightarrow>
     's scoring_pass leg_lookup"
  where
  "metered dst clock stop cached paying a b t purpose m =
     (case (if purpose = Baseline then pass_memo m (a, b, t) else None) of
        Some v \<Rightarrow> (Inr v, m)
      | None \<Rightarrow>
          if legs_read m \<ge> grouping_leg_budget \<or> clock (pass_world m) > stop then (Inr None, m)
          else
            (let m1 = m\<lparr>legs_read := legs_read m + 1\<rparr>;
                 may_buy = (purpose = Baseline \<and> elements_spent m < grouping_paid_leg_budget)
             in case (if may_buy then paying else cached) a b t (pass_world m1) of
                  ((answer, flag), w) \<Rightarrow>
                    (let m2 = m1\<lparr>pass_world := w,
                                 elements_spent := elements_spent m1 + (if may_buy \<and> flag then 1 else 0),
                                 adjacent_misses := adjacent_misses m1 + (if \<not> may_buy \<and> flag then 1 else 0),
                                 pass_memo := (if purpose = Baseline
                                               then (pass_memo m1)((a, b, t) \<mapsto> answer)
                                               else pass_memo m1)\<rparr>
                     in if answer \<noteq> None then (Inr answer, m2)
                        else if purpose \<noteq> Adjacent then (Inr None, m2)
                        else (Inr (Some (real_of_int (slowest_min (estimate_drive dst a b)))),
                              m2\<lparr>estimated_legs := estimated_legs m2 + 1\<rparr>))))"

section \<open>The order of the scores\<close>

definition scorer_version :: string where "scorer_version = ''lp4-1''"

definition counterfactual_order :: "scored_candidate list \<Rightarrow> instant list \<Rightarrow> instant list" where
  "counterfactual_order scored requestable =
     map sc_start (sort_key (\<lambda>s. (the (sc_cost s), sc_start s)) (filter (\<lambda>s. sc_cost s \<noteq> None) scored)) @
     map sc_start (sort_key sc_start (filter (\<lambda>s. sc_cost s = None) scored)) @
     sort requestable"

definition has_cheaper_alternative :: "scored_candidate list \<Rightarrow> instant \<Rightarrow> real \<Rightarrow> bool" where
  "has_cheaper_alternative scored first_offered min_saving =
     (case find (\<lambda>s. sc_start s = first_offered) scored of
        None \<Rightarrow> False
      | Some offered \<Rightarrow>
          (case sc_cost offered of
             None \<Rightarrow> False
           | Some cost \<Rightarrow>
               list_ex (\<lambda>s. case sc_cost s of None \<Rightarrow> False | Some x \<Rightarrow> cost - x \<ge> min_saving) scored))"

section \<open>Applying the order\<close>

text \<open>
  A slot is its start instant and the rest of the object. \<open>keyOf\<close> maps a start to the ISO string
  of its instant; a string no date parses is its own key.
\<close>

datatype grouping_reason = ClusteredWithNearbyJob | NoPreference

record offer_scoring =
  os_order :: "instant list"
  os_costs :: "instant \<Rightarrow> real option"

record applied_grouping =
  ap_reason :: grouping_reason
  ap_customer_reason :: bool
  ap_saved :: real

record 'a grouped_slots =
  gs_slots :: "(instant \<times> 'a) list"
  gs_previous :: "instant list option"
  gs_applied :: "applied_grouping option"

definition min_saving_to_explain :: real where "min_saving_to_explain = 10"

text \<open>
  The position a start is ranked at. \<open>new Map(order.map((start, i) => [start, i]))\<close> keeps the last
  position of a repeated start; a start without a rank goes behind every ranked one.
\<close>

fun rank_of :: "instant list \<Rightarrow> nat \<Rightarrow> instant \<Rightarrow> nat option" where
  "rank_of [] i t = None"
| "rank_of (u # us) i t =
     (case rank_of us (Suc i) t of Some r \<Rightarrow> Some r | None \<Rightarrow> if u = t then Some i else None)"

definition rank_key :: "instant list \<Rightarrow> instant \<Rightarrow> nat" where
  "rank_key order t = (case rank_of order 0 t of Some i \<Rightarrow> i | None \<Rightarrow> length order)"

fun take_one :: "'a \<Rightarrow> 'a list \<Rightarrow> 'a list option" where
  "take_one x [] = None"
| "take_one x (y # ys) = (if x = y then Some ys else map_option (Cons y) (take_one x ys))"

fun is_permutation :: "'a list \<Rightarrow> 'a list \<Rightarrow> bool" where
  "is_permutation before [] = (before = [])"
| "is_permutation before (x # xs) =
     (case take_one x before of None \<Rightarrow> False | Some rest \<Rightarrow> is_permutation rest xs)"

definition apply_grouping ::
    "(instant \<times> 'a) list \<Rightarrow> offer_scoring option \<Rightarrow> bool \<Rightarrow> bool \<Rightarrow> 'a grouped_slots"
  where
  "apply_grouping slots scoring enabled single_day =
     (let untouched = (\<lambda>xs. \<lparr>gs_slots = xs, gs_previous = None, gs_applied = None\<rparr>)
      in case scoring of
        None \<Rightarrow> untouched slots
      | Some sc \<Rightarrow>
          if \<not> enabled \<or> \<not> single_day \<or> length slots < 2 then untouched slots
          else
            (let reordered = sort_key (\<lambda>s. rank_key (os_order sc) (fst s)) slots
             in if \<not> is_permutation slots reordered then untouched slots
                else if map fst reordered = map fst slots then untouched reordered
                else
                  (let preferred = os_costs sc (fst (hd reordered));
                       displaced = os_costs sc (fst (hd slots));
                       saved = (case (preferred, displaced) of (Some x, Some y) \<Rightarrow> y - x | _ \<Rightarrow> 0)
                   in \<lparr>gs_slots = reordered, gs_previous = Some (map fst slots),
                       gs_applied = Some
                         \<lparr>ap_reason = (if saved \<ge> min_saving_to_explain then ClusteredWithNearbyJob
                                       else NoPreference),
                          ap_customer_reason = (saved \<ge> min_saving_to_explain),
                          ap_saved = saved\<rparr>\<rparr>)))"

section \<open>Periods\<close>

lemma window_edges_mem: "(s, e) \<in> set (window_edges ws) \<Longrightarrow> s < e"
  by (auto simp: window_edges_def)

lemma window_edges_sorted: "sorted (map fst (window_edges ws))"
  by (simp add: window_edges_def)

text \<open>
  The two half days of an opening span are a non-empty morning and an afternoon, and a job
  belongs to neither exactly when it straddles their boundary.
\<close>

theorem half_days_split_the_opening_span:
  assumes "resolve_day_periods z d ws always_open = Some ps"
  shows "dp_start ps < dp_boundary ps \<and> dp_boundary ps \<le> dp_end ps \<and>
         (\<forall>start stop. start < stop \<longrightarrow>
            (period_of start stop ps = None \<longleftrightarrow> start < dp_boundary ps \<and> dp_boundary ps < stop))"
proof -
  let ?es = "window_edges ws"
  from assms have ne: "?es \<noteq> []"
    and ps: "ps = \<lparr>dp_boundary = instant_at z d ((fst (hd ?es) + snd (last ?es) + 1) div 2),
      dp_start = instant_at z d (fst (hd ?es)), dp_end = instant_at z d (snd (last ?es))\<rparr>"
    by (auto simp: resolve_day_periods_def Let_def split: if_splits)
  have "fst (hd ?es) \<le> fst (last ?es)"
    using window_edges_sorted [of ws] ne
    by (metis (no_types, lifting) hd_map last_map list.map_disc_iff last_in_set list.exhaust_sel
        order_refl sorted_simps(2) set_ConsD)
  moreover have "fst (last ?es) < snd (last ?es)"
    using window_edges_mem last_in_set [OF ne] by (metis prod.collapse)
  ultimately have "fst (hd ?es) < snd (last ?es)" by simp
  then show ?thesis unfolding ps by (auto simp: instant_at_def period_of_def)
qed

section \<open>Every candidate is answered, in its place\<close>

lemma neutral_at_start [simp]: "sc_start (neutral_at t r p) = t"
  by (simp add: neutral_at_def)

lemma measure_candidate_start:
  "sc_start (fst (fst (measure_candidate look c pt prv nxt p used s))) = cd_start c"
  by (auto simp: measure_candidate_def Let_def split: prod.splits sum.splits option.splits)

lemma score_one_start:
  "sc_start (fst (fst (score_one_candidate clock look inp ctx c used s))) = cd_start c"
  by (auto simp: score_one_candidate_def Let_def measure_candidate_start split: option.splits prod.splits)

lemma score_loop_starts:
  "map sc_start (fst (score_loop clock look inp ctx cs used s)) = map cd_start cs"
proof (induction cs arbitrary: used s)
  case Nil
  then show ?case by simp
next
  case (Cons c cs)
  show ?case
    using Cons.IH score_one_start [of clock look inp ctx c used s]
    by (simp split: prod.split) (metis fst_conv)
qed

text \<open>
  Scoring returns one result for every candidate, in the order given, whatever the lookups
  answer.
\<close>

theorem scoring_keeps_every_candidate_in_place:
  "map sc_start (fst (score_candidates clock look inp s)) = map cd_start (si_candidates inp)"
  by (simp add: score_candidates_def score_loop_starts)

section \<open>What a pass may ask and spend\<close>

text \<open>A lookup that counts how often it is asked.\<close>

definition counting :: "'s leg_lookup \<Rightarrow> ('s \<times> int) leg_lookup" where
  "counting look a b t p w = (case look a b t p (fst w) of (r, s) \<Rightarrow> (r, (s, snd w + 1)))"

lemma ask_leg_counting:
  assumes "\<forall>a b t p s. \<exists>r. fst (look a b t p s) = Inr r"
  shows "\<exists>r w'. ask_leg (counting look) leg w = (Inr r, w') \<and>
           snd w' = snd w + (if leg = None then 0 else 1)"
proof (cases leg)
  case None
  then show ?thesis by (simp add: ask_leg_def)
next
  case (Some g)
  obtain a b t p where g: "g = (a, b, t, p)" by (cases g)
  obtain r where "fst (look a b t p (fst w)) = Inr r" using assms by blast
  then show ?thesis
    using Some g by (cases "look a b t p (fst w)") (auto simp: ask_leg_def counting_def)
qed

lemma measure_candidate_counting:
  assumes "\<forall>a b t p s. \<exists>r. fst (look a b t p s) = Inr r"
    and "measure_candidate (counting look) c pt prv nxt p used w = ((r, used'), w')"
  shows "used' = used + legs_needed prv nxt \<and> snd w' = snd w + legs_needed prv nxt"
proof -
  let ?l1 = "map_option (\<lambda>d. (nb_point d, pt, nb_depart d, Adjacent)) prv"
  let ?l2 = "map_option (\<lambda>a. (pt, rn_point a, cd_end c, Adjacent)) nxt"
  let ?l3 = "case (prv, nxt) of (Some d, Some a) \<Rightarrow> Some (nb_point d, rn_point a, nb_depart d, Baseline)
             | _ \<Rightarrow> None"
  obtain r1 w1 where 1: "ask_leg (counting look) ?l1 w = (Inr r1, w1)"
    "snd w1 = snd w + (if ?l1 = None then 0 else 1)" using ask_leg_counting [OF assms(1)] by blast
  obtain r2 w2 where 2: "ask_leg (counting look) ?l2 w1 = (Inr r2, w2)"
    "snd w2 = snd w1 + (if ?l2 = None then 0 else 1)" using ask_leg_counting [OF assms(1)] by blast
  obtain r3 w3 where 3: "ask_leg (counting look) ?l3 w2 = (Inr r3, w3)"
    "snd w3 = snd w2 + (if ?l3 = None then 0 else 1)" using ask_leg_counting [OF assms(1)] by blast
  have "used' = used + legs_needed prv nxt \<and> w' = w3"
    using assms(2) 1(1) 2(1) 3(1) by (auto simp: measure_candidate_def Let_def)
  moreover have "snd w3 = snd w + legs_needed prv nxt"
    using 1(2) 2(2) 3(2) by (cases prv; cases nxt) (simp_all add: legs_needed_def)
  ultimately show ?thesis by blast
qed

lemma legs_needed_nonneg: "0 \<le> legs_needed prv nxt"
  by (simp add: legs_needed_def)

lemma legs_needed_pos: "\<not> (prv = None \<and> nxt = None) \<Longrightarrow> 1 \<le> legs_needed prv nxt"
  by (auto simp: legs_needed_def)

lemma score_one_counting:
  assumes "\<forall>a b t p s. \<exists>r. fst (look a b t p s) = Inr r"
    and "score_one_candidate clock (counting look) inp ctx c used w = ((r, used'), w')"
    and "used \<le> max 0 (si_leg_budget inp)" and "snd w = used"
  shows "used' \<le> max 0 (si_leg_budget inp) \<and> snd w' = used'"
proof -
  have "(used' = used \<and> w' = w) \<or>
        (\<exists>pt prv nxt p. measure_candidate (counting look) c pt prv nxt p used w = ((r, used'), w') \<and>
           used + legs_needed prv nxt \<le> si_leg_budget inp)"
    using assms(2) unfolding score_one_candidate_def Let_def
    by (simp add: not_less split: option.splits prod.splits if_splits; blast?)
  then show ?thesis
    using assms(3,4) measure_candidate_counting [OF assms(1)] by fastforce
qed

text \<open>
  A scoring of candidates whose lookups answer never asks for more legs than its budget.
\<close>

theorem scoring_stays_within_its_leg_budget:
  assumes "\<forall>a b t p s. \<exists>r. fst (look a b t p s) = Inr r"
  shows "snd (snd (score_candidates clock (counting look) inp (s, 0))) \<le> max 0 (si_leg_budget inp)"
proof -
  have "snd (snd (score_loop clock (counting look) inp ctx cs used w)) \<le> max 0 (si_leg_budget inp)"
    if "used \<le> max 0 (si_leg_budget inp)" "snd w = used" for ctx cs used w
    using that
  proof (induction cs arbitrary: used w)
    case Nil
    then show ?case by simp
  next
    case (Cons c cs)
    obtain r used' w' where
      e: "score_one_candidate clock (counting look) inp ctx c used w = ((r, used'), w')"
      by (metis prod.collapse)
    have "used' \<le> max 0 (si_leg_budget inp) \<and> snd w' = used'"
      using score_one_counting [OF assms e Cons.prems] .
    then show ?case using Cons.IH [of used' w'] e by (simp split: prod.split) (metis snd_conv)
  qed
  then show ?thesis by (simp add: score_candidates_def)
qed

text \<open>An invariant of the world a lookup keeps, a whole scoring keeps.\<close>

definition keeps :: "('s \<Rightarrow> bool) \<Rightarrow> 's leg_lookup \<Rightarrow> bool" where
  "keeps I look \<longleftrightarrow> (\<forall>a b t p s. I s \<longrightarrow> I (snd (look a b t p s)))"

lemma ask_leg_keeps: "keeps I look \<Longrightarrow> I s \<Longrightarrow> ask_leg look leg s = (r, s') \<Longrightarrow> I s'"
  unfolding keeps_def ask_leg_def by (auto split: option.splits prod.splits) (metis snd_conv)

lemma measure_candidate_keeps:
  assumes "keeps I look" "I s"
  shows "I (snd (measure_candidate look c pt prv nxt p used s))"
  using assms ask_leg_keeps [OF assms(1)] unfolding measure_candidate_def Let_def
  by (auto split: prod.splits sum.splits; meson)

lemma score_one_keeps:
  assumes "keeps I look" "I s"
  shows "I (snd (score_one_candidate clock look inp ctx c used s))"
  using assms measure_candidate_keeps [OF assms]
  by (auto simp: score_one_candidate_def Let_def split: option.splits prod.splits)

lemma score_loop_keeps: "keeps I look \<Longrightarrow> I s \<Longrightarrow> I (snd (score_loop clock look inp ctx cs used s))"
proof (induction cs arbitrary: used s)
  case Nil
  then show ?case by simp
next
  case (Cons c cs)
  obtain r u s' where e: "score_one_candidate clock look inp ctx c used s = ((r, u), s')"
    by (metis prod.collapse)
  then have "I s'" using score_one_keeps [OF Cons.prems, of clock inp ctx c used] by simp
  then show ?case using Cons.IH [OF Cons.prems(1)] e by (simp split: prod.split) (metis snd_conv)
qed

lemma score_candidates_keeps: "keeps I look \<Longrightarrow> I s \<Longrightarrow> I (snd (score_candidates clock look inp s))"
  by (simp add: score_candidates_def score_loop_keeps)

definition pass_ok :: "'s scoring_pass \<Rightarrow> bool" where
  "pass_ok m \<longleftrightarrow> 0 \<le> elements_spent m \<and> elements_spent m \<le> grouping_paid_leg_budget \<and>
     elements_spent m \<le> legs_read m \<and> legs_read m \<le> grouping_leg_budget"

definition fresh_pass :: "'s \<Rightarrow> 's scoring_pass" where
  "fresh_pass w = \<lparr>pass_memo = (\<lambda>_. None), legs_read = 0, elements_spent = 0, adjacent_misses = 0,
     estimated_legs = 0, pass_world = w\<rparr>"

lemma metered_keeps_ok: "keeps pass_ok (metered dst clock stop cached paying)"
  unfolding keeps_def
proof (intro allI impI)
  fix a b t p and m :: "'a scoring_pass"
  assume ok: "pass_ok m"
  show "pass_ok (snd (metered dst clock stop cached paying a b t p m))"
    using ok by (auto simp: metered_def pass_ok_def Let_def grouping_leg_budget_def
        grouping_paid_leg_budget_def split: option.splits prod.splits)
qed

fun score_days ::
    "('s \<Rightarrow> instant) \<Rightarrow> 's leg_lookup \<Rightarrow> score_input list \<Rightarrow> 's \<Rightarrow> scored_candidate list list \<times> 's" where
  "score_days clock look [] s = ([], s)"
| "score_days clock look (inp # inps) s =
     (case score_candidates clock look inp s of
        (r, s') \<Rightarrow> (case score_days clock look inps s' of (rs, s'') \<Rightarrow> (r # rs, s'')))"

lemma score_days_keeps: "keeps I look \<Longrightarrow> I s \<Longrightarrow> I (snd (score_days clock look inps s))"
proof (induction inps arbitrary: s)
  case Nil
  then show ?case by simp
next
  case (Cons inp inps)
  have "I (snd (score_candidates clock look inp s))"
    using score_candidates_keeps [OF Cons.prems] .
  then show ?case using Cons.IH [OF Cons.prems(1)]
    by (auto split: prod.split) (metis snd_conv)
qed

text \<open>
  C36: Over all days of an offer the metered lookup buys at most four route elements and reads at
  most twenty-four legs.
\<close>

theorem scoring_pass_spends_at_most_four_legs:
  fixes w :: 's
  shows "elements_spent (snd (score_days clk (metered dst clock stop cached paying) inps (fresh_pass w)))
           \<le> grouping_paid_leg_budget \<and>
         legs_read (snd (score_days clk (metered dst clock stop cached paying) inps (fresh_pass w)))
           \<le> grouping_leg_budget"
proof -
  have "pass_ok (fresh_pass w)"
    by (simp add: pass_ok_def fresh_pass_def grouping_paid_leg_budget_def grouping_leg_budget_def)
  from score_days_keeps [OF metered_keeps_ok this] show ?thesis by (simp add: pass_ok_def)
qed

section \<open>The order\<close>

lemma map_sort_key: "map k (sort_key k xs) = sort (map k xs)"
  by (rule properties_for_sort [symmetric]) (simp_all add: mset_map)

lemma sort_cong_mset: "mset xs = mset ys \<Longrightarrow> sort xs = sort (ys :: 'a :: linorder list)"
  by (metis mset_sort properties_for_sort sorted_sort)

lemma counterfactual_order_mset:
  "mset (counterfactual_order scored requestable) = mset (map sc_start scored @ requestable)"
proof -
  have "mset (filter (\<lambda>s. sc_cost s \<noteq> None) scored) + mset (filter (\<lambda>s. sc_cost s = None) scored) = mset scored"
    by (induction scored) auto
  then have "image_mset sc_start (mset (filter (\<lambda>s. sc_cost s \<noteq> None) scored)) +
      image_mset sc_start (mset (filter (\<lambda>s. sc_cost s = None) scored)) = image_mset sc_start (mset scored)"
    by (metis image_mset_union)
  then show ?thesis
    by (simp add: counterfactual_order_def mset_map add.assoc del: mset_filter)
qed

lemma counterfactual_order_distinct:
  "distinct (counterfactual_order scored requestable) = distinct (map sc_start scored @ requestable)"
  using mset_eq_imp_distinct_iff [OF counterfactual_order_mset] .

text \<open>
  The order steering would have offered depends only on which slots were scored and at what
  cost, not on the order they were scored in.
\<close>

theorem counterfactual_order_is_deterministic:
  assumes "mset scored = mset scored'" and "mset requestable = mset requestable'"
  shows "counterfactual_order scored requestable = counterfactual_order scored' requestable'"
proof -
  let ?k = "\<lambda>s. (the (sc_cost s), sc_start s)"
  let ?p = "\<lambda>s :: scored_candidate. sc_cost s \<noteq> None" and ?n = "\<lambda>s :: scored_candidate. sc_cost s = None"
  have priced: "map sc_start (sort_key ?k xs) = map snd (sort (map ?k xs))" for xs
  proof -
    have "map sc_start (sort_key ?k xs) = map snd (map ?k (sort_key ?k xs))" by (simp add: comp_def)
    also have "\<dots> = map snd (sort (map ?k xs))" by (simp only: map_sort_key)
    finally show ?thesis .
  qed
  have "mset (filter ?p scored) = mset (filter ?p scored')" "mset (filter ?n scored) = mset (filter ?n scored')"
    using assms(1) by (simp_all only: mset_filter)
  then have m: "mset (map ?k (filter ?p scored)) = mset (map ?k (filter ?p scored'))"
    "mset (map sc_start (filter ?n scored)) = mset (map sc_start (filter ?n scored'))"
    by (simp_all only: mset_map)
  show ?thesis
    unfolding counterfactual_order_def priced
    using sort_cong_mset [OF m(1)] sort_cong_mset [OF m(2)] sort_cong_mset [OF assms(2)]
    by (simp only: map_sort_key)
qed

lemma take_one_None: "take_one x ys = None \<longleftrightarrow> x \<notin> set ys"
  by (induction ys) auto

lemma take_one_mset: "take_one x ys = Some zs \<Longrightarrow> mset ys = add_mset x (mset zs)"
  by (induction ys arbitrary: zs) (auto split: if_splits)

lemma is_permutation_mset: "is_permutation before after \<longleftrightarrow> mset before = mset after"
proof (induction after arbitrary: before)
  case Nil
  then show ?case by simp
next
  case (Cons x xs)
  show ?case
  proof (cases "take_one x before")
    case None
    then have "x \<notin> set before" by (simp add: take_one_None)
    then have "mset before \<noteq> mset (x # xs)" by (metis list.set_intros(1) mset_eq_setD)
    then show ?thesis using None by simp
  next
    case (Some rest)
    then show ?thesis using Cons.IH [of rest] take_one_mset [OF Some] by simp
  qed
qed

lemma sort_key_is_permutation: "is_permutation xs (sort_key k xs)"
  by (simp add: is_permutation_mset)

text \<open>
  Grouping never adds, drops or alters a slot; it reports that it acted exactly when the order
  changed, and it acts only when it is enabled and all slots are of one day.
\<close>

theorem grouping_only_reorders:
  "mset (gs_slots (apply_grouping slots scoring enabled single_day)) = mset slots \<and>
   (gs_applied (apply_grouping slots scoring enabled single_day) = None \<longleftrightarrow>
      map fst (gs_slots (apply_grouping slots scoring enabled single_day)) = map fst slots) \<and>
   (gs_applied (apply_grouping slots scoring enabled single_day) \<noteq> None \<longrightarrow> enabled \<and> single_day)"
  by (auto simp: apply_grouping_def Let_def sort_key_is_permutation split: option.split)

lemma rank_of_nth: "rank_of us i t = Some r \<Longrightarrow> i \<le> r \<and> r < i + length us \<and> us ! (r - i) = t"
proof (induction us arbitrary: i r)
  case Nil
  then show ?case by simp
next
  case (Cons u us)
  show ?case
  proof (cases "rank_of us (Suc i) t")
    case None
    then show ?thesis using Cons.prems by (auto split: if_splits)
  next
    case (Some q)
    then have "q = r" using Cons.prems by simp
    then have "Suc i \<le> r \<and> r < Suc i + length us \<and> us ! (r - Suc i) = t"
      using Cons.IH Some by blast
    moreover from this have "(u # us) ! (r - i) = us ! (r - Suc i)"
      by (metis Suc_diff_le diff_Suc_Suc nth_Cons_Suc)
    ultimately show ?thesis by simp
  qed
qed

lemma nth_map_append: "i < length ps \<Longrightarrow> i < length (map f ps @ rest) \<and> (map f ps @ rest) ! i = f (ps ! i)"
  by (simp add: nth_append)

lemma rank_of_mem: "t \<in> set us \<Longrightarrow> \<exists>r. rank_of us i t = Some r"
proof (induction us arbitrary: i)
  case Nil
  then show ?case by simp
next
  case (Cons u us)
  show ?case
  proof (cases "rank_of us (Suc i) t")
    case None
    then have "u = t" using Cons by (metis option.distinct(1) set_ConsD)
    then show ?thesis using None by simp
  next
    case (Some r)
    then show ?thesis by simp
  qed
qed

lemma rank_key_mem: "t \<in> set us \<Longrightarrow> rank_key us t < length us \<and> us ! rank_key us t = t"
  using rank_of_mem [of t us 0] rank_of_nth [of us 0 t] by (auto simp: rank_key_def)

definition cost_of :: "scored_candidate list \<Rightarrow> instant \<Rightarrow> real option" where
  "cost_of scored t =
     (case find (\<lambda>s. sc_start s = t) scored of None \<Rightarrow> None | Some s \<Rightarrow> sc_cost s)"

lemma cost_of_mem:
  assumes "distinct (map sc_start scored)" and "cost_of scored t = Some x"
  shows "\<exists>s \<in> set scored. sc_start s = t \<and> sc_cost s = Some x"
  using assms(2) by (auto simp: cost_of_def find_Some_iff split: option.splits)

text \<open>A cheaper priced start never comes after a dearer one.\<close>

lemma order_respects_cost:
  assumes dist: "distinct (counterfactual_order scored requestable)"
    and a: "s \<in> set scored" "sc_cost s = Some x" and b: "u \<in> set scored" "sc_cost u = Some y"
    and le: "rank_key (counterfactual_order scored requestable) (sc_start s) \<le>
             rank_key (counterfactual_order scored requestable) (sc_start u)"
  shows "x \<le> y"
proof -
  let ?o = "counterfactual_order scored requestable"
  let ?ps = "sort_key (\<lambda>s. (the (sc_cost s), sc_start s)) (filter (\<lambda>s. sc_cost s \<noteq> None) scored)"
  obtain rest where o: "?o = map sc_start ?ps @ rest" unfolding counterfactual_order_def by blast
  have idx: "\<exists>i < length ?ps. ?ps ! i = v \<and> rank_key ?o (sc_start v) = i"
    if "v \<in> set scored" "sc_cost v \<noteq> None" for v
  proof -
    have "v \<in> set ?ps" using that by simp
    then obtain i where i: "i < length ?ps" "?ps ! i = v" unfolding in_set_conv_nth by blast
    have at: "i < length ?o" "?o ! i = sc_start v"
      using nth_map_append [OF i(1), of sc_start rest] unfolding o i(2) by blast+
    then have "rank_key ?o (sc_start v) < length ?o \<and> ?o ! rank_key ?o (sc_start v) = sc_start v"
      using rank_key_mem nth_mem by metis
    then have "rank_key ?o (sc_start v) = i" using at dist by (metis nth_eq_iff_index_eq)
    then show ?thesis using i by blast
  qed
  have "sc_cost s \<noteq> None" "sc_cost u \<noteq> None" using a(2) b(2) by simp_all
  then obtain i j where i: "i < length ?ps" "?ps ! i = s" "rank_key ?o (sc_start s) = i"
    and j: "j < length ?ps" "?ps ! j = u" "rank_key ?o (sc_start u) = j"
    using idx [OF a(1)] idx [OF b(1)] by blast
  have "sorted (map (\<lambda>s. (the (sc_cost s), sc_start s)) ?ps)" by simp
  then have "(the (sc_cost s), sc_start s) \<le> (the (sc_cost u), sc_start u)"
    using sorted_nth_mono [of "map (\<lambda>s. (the (sc_cost s), sc_start s)) ?ps" i j] i j le
    by (simp del: sorted_sort_key length_sort)
  then show ?thesis using a(2) b(2) by auto
qed

lemma hd_sort_key_least: "xs \<noteq> [] \<Longrightarrow> x \<in> set xs \<Longrightarrow> k (hd (sort_key k xs)) \<le> k x"
proof -
  assume "xs \<noteq> []" "x \<in> set xs"
  then have "x \<in> set (sort_key k xs)" and "sorted (map k (sort_key k xs))" by simp_all
  then show ?thesis by (cases "sort_key k xs") auto
qed

text \<open>
  When the slots of an offer are reordered by the recorded scores, the slot now first costs at
  most as many driving minutes as the one it displaced: the reported saving is never negative.
\<close>

theorem steering_never_costs_the_owner:
  assumes "distinct (map sc_start scored @ requestable)"
    and "os_order sc = counterfactual_order scored requestable" and "os_costs sc = cost_of scored"
    and "gs_applied (apply_grouping slots (Some sc) enabled single_day) = Some ap"
  shows "0 \<le> ap_saved ap"
proof -
  let ?r = "sort_key (\<lambda>s. rank_key (os_order sc) (fst s)) slots"
  from assms(4) have ne: "slots \<noteq> []"
    and saved: "ap_saved ap = (case (os_costs sc (fst (hd ?r)), os_costs sc (fst (hd slots))) of
      (Some x, Some y) \<Rightarrow> y - x | _ \<Rightarrow> 0)"
    by (auto simp: apply_grouping_def Let_def split: if_splits)
  show ?thesis
  proof (cases "os_costs sc (fst (hd ?r))")
    case None
    then show ?thesis using saved by simp
  next
    case x: (Some x)
    show ?thesis
    proof (cases "os_costs sc (fst (hd slots))")
      case None
      then show ?thesis using saved x by simp
    next
      case y: (Some y)
      have d: "distinct (counterfactual_order scored requestable)"
        using assms(1) by (simp only: counterfactual_order_distinct)
      obtain s u where s: "s \<in> set scored" "sc_start s = fst (hd ?r)" "sc_cost s = Some x"
        and u: "u \<in> set scored" "sc_start u = fst (hd slots)" "sc_cost u = Some y"
        using cost_of_mem assms(1,3) x y by (metis distinct_append)
      have "rank_key (os_order sc) (fst (hd ?r)) \<le> rank_key (os_order sc) (fst (hd slots))"
        using hd_sort_key_least [OF ne, of "hd slots" "\<lambda>s. rank_key (os_order sc) (fst s)"] ne by simp
      then have "x \<le> y" using order_respects_cost [OF d s(1,3) u(1,3)] s(2) u(2) assms(2) by simp
      then show ?thesis using saved x y by simp
    qed
  qed
qed

section \<open>Concrete days and slots\<close>

definition demo_window :: "string \<Rightarrow> string \<Rightarrow> time_window" where
  "demo_window a b = \<lparr>w_start = a, w_end = b\<rparr>"

definition demo_periods :: day_periods where
  "demo_periods = \<lparr>dp_boundary = 780 * minute_ms, dp_start = 480 * minute_ms, dp_end = 1080 * minute_ms\<rparr>"

lemma demo_day:
  "resolve_day_periods utc 0 [demo_window ''08:00'' ''10:00'', demo_window ''14:00'' ''18:00''] False =
     Some demo_periods"
  by code_simp

theorem half_days_split_the_opening_span_witness: "dp_start demo_periods < dp_boundary demo_periods"
  using half_days_split_the_opening_span [OF demo_day] by blast

text \<open>
  Two divergences of \<open>half-day.ts\<close> from its own comments. The last closing instant is the end of
  the window that starts last, not the latest end; and an end of \<open>24:00\<close>, which the slot
  engine accepts, drops the window and with it the day.
\<close>

theorem nested_window_moves_the_day_end:
  "resolve_day_periods utc 0 [demo_window ''08:00'' ''18:00'', demo_window ''09:00'' ''10:00''] False =
     Some \<lparr>dp_boundary = 540 * minute_ms, dp_start = 480 * minute_ms, dp_end = 600 * minute_ms\<rparr>"
  by code_simp

theorem window_to_midnight_has_no_half_days:
  "window_minutes (demo_window ''09:00'' ''24:00'') = Some (540, 1440) \<and>
   resolve_day_periods utc 0 [demo_window ''09:00'' ''24:00''] False = None"
  by code_simp

definition demo_leg :: "unit leg_lookup" where
  "demo_leg a b t p s = (Inr (Some 7), s)"

definition demo_score_input :: score_input where
  "demo_score_input =
     \<lparr>si_candidates = [\<lparr>cd_start = 600 * minute_ms, cd_end = 660 * minute_ms, cd_point = Some \<lparr>lat = 0, lng = 0\<rparr>\<rparr>],
      si_anchors = [\<lparr>rn_start = 480 * minute_ms, rn_end = 540 * minute_ms, rn_point = \<lparr>lat = 30, lng = 0\<rparr>\<rparr>],
      si_periods = Some demo_periods, si_whole_day = False, si_base = None, si_leg_budget = 24,
      si_deadline = 1000\<rparr>"

theorem scoring_stays_within_its_leg_budget_witness:
  "snd (snd (score_candidates (\<lambda>_. 0) (counting demo_leg) demo_score_input ((), 0))) \<le> 24"
proof -
  have "\<forall>a b t p s. \<exists>r. fst (demo_leg a b t p s) = Inr r" by (simp add: demo_leg_def)
  from scoring_stays_within_its_leg_budget [OF this, of "\<lambda>_. 0" demo_score_input "()"]
  show ?thesis by (simp add: demo_score_input_def)
qed

definition demo_scored :: "instant \<Rightarrow> real \<Rightarrow> scored_candidate" where
  "demo_scored t x = \<lparr>sc_start = t, sc_cost = Some x, sc_reason = None, sc_period = Some Morning\<rparr>"

theorem counterfactual_order_is_deterministic_witness:
  "counterfactual_order [demo_scored 1 20, demo_scored 2 5] [4, 3] =
   counterfactual_order [demo_scored 2 5, demo_scored 1 20] [3, 4]"
  by (rule counterfactual_order_is_deterministic) (simp_all add: add_mset_commute)

definition demo_scoring :: offer_scoring where
  "demo_scoring = \<lparr>os_order = counterfactual_order [demo_scored 1 20, demo_scored 2 5] [],
     os_costs = cost_of [demo_scored 1 20, demo_scored 2 5]\<rparr>"

lemma demo_applied:
  "gs_applied (apply_grouping [(1, ()), (2, ())] (Some demo_scoring) True True) =
     Some \<lparr>ap_reason = ClusteredWithNearbyJob, ap_customer_reason = True, ap_saved = 15\<rparr>"
  by (simp add: apply_grouping_def demo_scoring_def counterfactual_order_def demo_scored_def
      rank_key_def cost_of_def min_saving_to_explain_def Let_def)

theorem grouping_only_reorders_witness:
  "mset (gs_slots (apply_grouping [(1, ()), (2, ())] (Some demo_scoring) True True)) = mset [(1, ()), (2, ())]"
  using grouping_only_reorders [of "[(1, ()), (2, ())]" "Some demo_scoring" True True] by blast

theorem steering_never_costs_the_owner_witness:
  "0 \<le> ap_saved \<lparr>ap_reason = ClusteredWithNearbyJob, ap_customer_reason = True, ap_saved = 15\<rparr>"
  by (rule steering_never_costs_the_owner [OF _ _ _ demo_applied, of "[demo_scored 1 20, demo_scored 2 5]" "[]"])
    (simp_all add: demo_scoring_def demo_scored_def)

end
