(* ===== verification/SlotEngine.thy ===== *)
theory SlotEngine
  imports Availability
begin

text \<open>
  The slot engine (\<open>api/src/booking/booking-providers/slot-engine.ts\<close>): the concrete bookable
  slots of a service in a query range, the reason an empty range is empty, and the business-hours
  test. Slots are kept as instants; the code prints them as UTC ISO strings, whose order is the
  order of the instants. \<open>rangeStart\<close> and \<open>rangeEnd\<close> are the instants luxon reads from the ISO
  strings, \<^term>\<open>None\<close> when it calls them invalid.
\<close>

section \<open>Input\<close>

record interval =
  iv_start :: instant
  iv_end :: instant

record slot_service =
  ss_duration :: int
  ss_buffer_before :: "int option"
  ss_buffer_after :: "int option"
  ss_min_notice :: "int option"
  ss_max_horizon :: "int option"
  ss_max_per_day :: "int option"

record business_caps =
  bc_max_per_day :: "int option"
  bc_max_minutes :: "int option"

record slot_input =
  si_rule :: availability_rule
  si_service :: slot_service
  si_range_start :: "instant option"
  si_range_end :: "instant option"
  si_now :: instant
  si_busy :: "interval list option"
  si_business :: "business_caps option"
  si_ledger :: "interval list option"
  si_service_ledger :: "interval list option"

section \<open>Times of day\<close>

text \<open>A wall-clock time that exists: luxon reports back the hour and minute asked for.\<close>

definition local_time :: "zone \<Rightarrow> instant \<Rightarrow> int \<Rightarrow> int \<Rightarrow> instant option" where
  "local_time z day hour minute =
     (case zlocal z day hour minute of
        None \<Rightarrow> None
      | Some (t, h, m) \<Rightarrow> if h \<noteq> hour \<or> m \<noteq> minute then None else Some t)"

definition overlaps_busy :: "instant \<Rightarrow> instant \<Rightarrow> interval list \<Rightarrow> bool" where
  "overlaps_busy s e busy = list_ex (\<lambda>b. s < iv_end b \<and> e > iv_start b) busy"

definition day_key_of :: "zone \<Rightarrow> instant \<Rightarrow> string" where
  "day_key_of z ms = zdate z ms"

section \<open>Bounds\<close>

record slot_bounds =
  sb_zone :: zone
  sb_busy :: "interval list"
  sb_granularity :: int
  sb_duration :: int
  sb_buffer_before :: int
  sb_buffer_after :: int
  sb_range_start :: instant
  sb_range_end :: instant
  sb_earliest :: instant
  sb_horizon :: instant
  sb_first_day :: instant
  sb_last_day :: instant

definition bookable_window :: "slot_service \<Rightarrow> instant \<Rightarrow> instant \<times> instant" where
  "bookable_window svc now =
     (now + or_num (ss_min_notice svc) 0 * minute_ms, now + or_num (ss_max_horizon svc) 0 * day_ms)"

definition rule_zone_name :: "availability_rule \<Rightarrow> string" where
  "rule_zone_name rule = (if ar_timezone rule = [] then ''UTC'' else ar_timezone rule)"

text \<open>
  \<^term>\<open>None\<close> for an invalid or empty range, and also for a zone luxon does not know: every
  \<open>DateTime\<close> in it is invalid, so the day loop's comparison is false and nothing is offered.
\<close>

definition resolve_slot_bounds :: "tzdb \<Rightarrow> slot_input \<Rightarrow> slot_bounds option" where
  "resolve_slot_bounds tz inp =
     (case (si_range_start inp, si_range_end inp, tz (rule_zone_name (si_rule inp))) of
        (Some rs, Some re, Some z) \<Rightarrow>
          if re \<le> rs then None
          else
            (let (earliest_ms, horizon) = bookable_window (si_service inp) (si_now inp);
                 earliest = max rs earliest_ms
             in Some \<lparr>sb_zone = z,
                      sb_busy = nullish (si_busy inp) [],
                      sb_granularity = max 1 (or_num (ar_granularity (si_rule inp)) 30),
                      sb_duration = ss_duration (si_service inp),
                      sb_buffer_before = or_num (ss_buffer_before (si_service inp)) 0 * minute_ms,
                      sb_buffer_after = or_num (ss_buffer_after (si_service inp)) 0 * minute_ms,
                      sb_range_start = rs,
                      sb_range_end = re,
                      sb_earliest = earliest,
                      sb_horizon = horizon,
                      sb_first_day = zstart z (max rs earliest),
                      sb_last_day = zstart z (min re horizon)\<rparr>)
      | _ \<Rightarrow> None)"

section \<open>Daily caps\<close>

text \<open>
  Usage is kept per local day. The minutes of an entry are \<open>(end - start) / 60000\<close>; they are kept
  here in milliseconds, so that no rounding enters, and the cap is scaled the same way.
\<close>

record day_caps =
  dc_max_per_day :: int
  dc_max_minutes :: int
  dc_service_max :: int
  dc_usage :: "string \<Rightarrow> nat \<times> int"
  dc_service_usage :: "string \<Rightarrow> nat"

fun count_usage :: "zone \<Rightarrow> interval list \<Rightarrow> (string \<Rightarrow> nat \<times> int) \<Rightarrow> (string \<Rightarrow> nat \<times> int)" where
  "count_usage z [] u = u"
| "count_usage z (b # bs) u =
     (let key = day_key_of z (iv_start b)
      in count_usage z bs
           (u(key := (fst (u key) + 1, snd (u key) + max 0 (iv_end b - iv_start b)))))"

fun count_service_usage :: "zone \<Rightarrow> interval list \<Rightarrow> (string \<Rightarrow> nat) \<Rightarrow> (string \<Rightarrow> nat)" where
  "count_service_usage z [] u = u"
| "count_service_usage z (b # bs) u =
     (let key = day_key_of z (iv_start b) in count_service_usage z bs (u(key := u key + 1)))"

definition resolve_day_caps :: "slot_input \<Rightarrow> zone \<Rightarrow> day_caps" where
  "resolve_day_caps inp z =
     (let max_per_day = (case si_business inp of None \<Rightarrow> 0 | Some b \<Rightarrow> nullish (bc_max_per_day b) 0);
          max_minutes = (case si_business inp of None \<Rightarrow> 0 | Some b \<Rightarrow> nullish (bc_max_minutes b) 0);
          service_max = nullish (ss_max_per_day (si_service inp)) 0
      in \<lparr>dc_max_per_day = max_per_day,
          dc_max_minutes = max_minutes,
          dc_service_max = service_max,
          dc_usage = (if max_per_day > 0 \<or> max_minutes > 0
                      then count_usage z (nullish (si_ledger inp) []) (\<lambda>_. (0, 0))
                      else (\<lambda>_. (0, 0))),
          dc_service_usage = (if service_max > 0
                      then count_service_usage z (nullish (si_service_ledger inp) []) (\<lambda>_. 0)
                      else (\<lambda>_. 0))\<rparr>)"

definition day_at_cap :: "string \<Rightarrow> int \<Rightarrow> day_caps \<Rightarrow> bool" where
  "day_at_cap key duration caps =
     (let used = dc_usage caps key
      in if dc_max_per_day caps > 0 \<and> int (fst used) \<ge> dc_max_per_day caps then True
         else if dc_max_minutes caps > 0 \<and>
                 snd used + duration * minute_ms > dc_max_minutes caps * minute_ms then True
         else if dc_service_max caps > 0 \<and>
                 int (dc_service_usage caps key) \<ge> dc_service_max caps then True
         else False)"

section \<open>The walk\<close>

record slot =
  slot_start :: instant
  slot_end :: instant

text \<open>The minutes of the day tried in one window: \<open>for (m = start; m + duration <= end; m += g)\<close>.\<close>

function window_starts :: "int \<Rightarrow> int \<Rightarrow> int \<Rightarrow> int \<Rightarrow> int list" where
  "window_starts m duration end g =
     (if m + duration \<le> end \<and> 0 < g then m # window_starts (m + g) duration end g else [])"
  by pat_completeness auto
termination
  by (relation "measure (\<lambda>(m, d, e, g). nat (e - d - m + 1))") auto

declare window_starts.simps [simp del]

text \<open>The body of the inner loop up to the \<open>seen\<close> test: the slot a start minute gives, if any.\<close>

definition try_start :: "slot_bounds \<Rightarrow> instant \<Rightarrow> int \<Rightarrow> slot option" where
  "try_start b day m =
     (case local_time (sb_zone b) day (m div 60) (m mod 60) of
        None \<Rightarrow> None
      | Some s \<Rightarrow>
          (let e = s + sb_duration b * minute_ms
           in if s < sb_earliest b then None
              else if s > sb_horizon b then None
              else if s < sb_range_start b \<or> s \<ge> sb_range_end b then None
              else if overlaps_busy (s - sb_buffer_before b) (e + sb_buffer_after b) (sb_busy b)
              then None
              else Some \<lparr>slot_start = s, slot_end = e\<rparr>))"

type_synonym walk_state = "instant list \<times> slot list"

definition push_slot :: "slot_bounds \<Rightarrow> instant \<Rightarrow> int \<Rightarrow> walk_state \<Rightarrow> walk_state" where
  "push_slot b day m st =
     (case try_start b day m of
        None \<Rightarrow> st
      | Some sl \<Rightarrow>
          if slot_start sl \<in> set (fst st) then st
          else (slot_start sl # fst st, snd st @ [sl]))"

fun collect_day_slots ::
  "instant \<Rightarrow> time_window list \<Rightarrow> slot_bounds \<Rightarrow> walk_state \<Rightarrow> walk_state" where
  "collect_day_slots day [] b st = st"
| "collect_day_slots day (w # ws) b st =
     (case window_minutes w of
        None \<Rightarrow> collect_day_slots day ws b st
      | Some (s, e) \<Rightarrow>
          collect_day_slots day ws b
            (fold (push_slot b day) (window_starts s (sb_duration b) e (sb_granularity b)) st))"

fun walk_days ::
  "nat \<Rightarrow> instant \<Rightarrow> slot_input \<Rightarrow> slot_bounds \<Rightarrow> day_caps \<Rightarrow> walk_state \<Rightarrow> walk_state" where
  "walk_days 0 day inp b caps st = st"
| "walk_days (Suc guard) day inp b caps st =
     (if day \<le> sb_last_day b then
        walk_days guard (zplus_days (sb_zone b) 1 day) inp b caps
          (if day_at_cap (zdate (sb_zone b) day) (sb_duration b) caps then st
           else collect_day_slots day (windows_for_day (sb_zone b) (si_rule inp) day) b st)
      else st)"

definition compute_slots :: "tzdb \<Rightarrow> slot_input \<Rightarrow> slot list" where
  "compute_slots tz inp =
     (case resolve_slot_bounds tz inp of
        None \<Rightarrow> []
      | Some b \<Rightarrow>
          sort_key slot_start
            (snd (walk_days 400 (sb_first_day b) inp b (resolve_day_caps inp (sb_zone b)) ([], []))))"

section \<open>Why a range is empty\<close>

datatype empty_reason = Past | TooSoon | TooFar | ServiceDayFull | Closed

record diagnosis =
  dg_reason :: empty_reason
  dg_boundary :: instant

definition no_horizon_days :: int where
  "no_horizon_days = 3650"

fun shut_days :: "nat \<Rightarrow> zone \<Rightarrow> availability_rule \<Rightarrow> instant \<Rightarrow> instant \<Rightarrow> bool \<Rightarrow> bool" where
  "shut_days 0 z rule day stop any_day = any_day"
| "shut_days (Suc guard) z rule day stop any_day =
     (if day < stop then
        (if day_has_hours z rule day then False
         else shut_days guard z rule (zplus_days z 1 day) stop True)
      else any_day)"

definition range_is_shut :: "tzdb \<Rightarrow> slot_input \<Rightarrow> bool" where
  "range_is_shut tz inp =
     (case (si_range_start inp, si_range_end inp, tz (rule_zone_name (si_rule inp))) of
        (Some rs, Some re, Some z) \<Rightarrow>
          (let start = zstart z rs
           in if re \<le> start then False else shut_days 400 z (si_rule inp) start re False)
      | _ \<Rightarrow> False)"

fun week_loop :: "nat \<Rightarrow> zone \<Rightarrow> availability_rule \<Rightarrow> instant \<Rightarrow> bool" where
  "week_loop 0 z rule day = False"
| "week_loop (Suc n) z rule day =
     (if day_has_hours z rule day then True else week_loop n z rule (zplus_days z 1 day))"

definition week_from_has_hours :: "zone \<Rightarrow> availability_rule \<Rightarrow> instant \<Rightarrow> bool" where
  "week_from_has_hours z rule from = week_loop 7 z rule (zstart z from)"

definition window_reason :: "slot_input \<Rightarrow> slot list \<Rightarrow> diagnosis option" where
  "window_reason inp slots =
     (if slots = [] then None
      else
        (let (earliest, latest) = bookable_window (si_service inp) (si_now inp)
         in if list_all (\<lambda>s. slot_start s < si_now inp) slots
            then Some \<lparr>dg_reason = Past, dg_boundary = earliest\<rparr>
            else if list_all (\<lambda>s. slot_start s < earliest) slots
            then Some \<lparr>dg_reason = TooSoon, dg_boundary = earliest\<rparr>
            else if list_all (\<lambda>s. slot_start s > latest) slots
            then Some \<lparr>dg_reason = TooFar, dg_boundary = latest\<rparr>
            else None))"

text \<open>The same range with notice and horizon lifted, and the clock at the start of the range.\<close>

definition without_window :: "slot_input \<Rightarrow> slot_input" where
  "without_window inp =
     inp\<lparr>si_now := nullish (si_range_start inp) 0,
         si_service := (si_service inp)\<lparr>ss_min_notice := Some 0,
                                        ss_max_horizon := Some no_horizon_days\<rparr>\<rparr>"

definition without_service_cap :: "slot_input \<Rightarrow> slot_input" where
  "without_service_cap inp =
     inp\<lparr>si_service := (si_service inp)\<lparr>ss_max_per_day := Some 0\<rparr>\<rparr>"

definition closed_reason :: "tzdb \<Rightarrow> slot_input \<Rightarrow> diagnosis option" where
  "closed_reason tz inp =
     (if range_is_shut tz inp then
        (case (si_range_end inp, tz (rule_zone_name (si_rule inp))) of
           (Some re, Some z) \<Rightarrow>
             if week_from_has_hours z (si_rule inp) re
             then Some \<lparr>dg_reason = Closed, dg_boundary = re\<rparr> else None
         | _ \<Rightarrow> None)
      else None)"

definition diagnose_empty_range :: "tzdb \<Rightarrow> slot_input \<Rightarrow> diagnosis option" where
  "diagnose_empty_range tz inp =
     (let would_be = compute_slots tz (without_window inp)
      in case window_reason inp would_be of
           Some d \<Rightarrow> Some d
         | None \<Rightarrow>
             if would_be \<noteq> [] then None
             else if nullish (ss_max_per_day (si_service inp)) 0 > 0 then
               (if compute_slots tz (without_service_cap inp) \<noteq> []
                then Some \<lparr>dg_reason = ServiceDayFull, dg_boundary = nullish (si_range_end inp) 0\<rparr>
                else (case window_reason inp
                             (compute_slots tz (without_window (without_service_cap inp))) of
                        Some d \<Rightarrow> Some d
                      | None \<Rightarrow> closed_reason tz inp))
             else closed_reason tz inp)"

section \<open>Business hours\<close>

definition in_window :: "int \<Rightarrow> time_window \<Rightarrow> bool" where
  "in_window m w =
     (case window_minutes w of None \<Rightarrow> False | Some (s, e) \<Rightarrow> m \<ge> s \<and> m < e)"

definition is_within_business_hours :: "tzdb \<Rightarrow> availability_rule \<Rightarrow> instant \<Rightarrow> bool" where
  "is_within_business_hours tz rule at =
     (case tz (rule_zone_name rule) of
        None \<Rightarrow> False
      | Some z \<Rightarrow>
          list_ex (in_window (zhour z at * 60 + zminute z at))
            (windows_for_day z (rule\<lparr>ar_granularity := Some 0\<rparr>) at))"

section \<open>What the walk collects\<close>

fun walked_days :: "nat \<Rightarrow> zone \<Rightarrow> instant \<Rightarrow> instant \<Rightarrow> instant list" where
  "walked_days 0 z day stop = []"
| "walked_days (Suc guard) z day stop =
     (if day \<le> stop then day # walked_days guard z (zplus_days z 1 day) stop else [])"

lemma window_starts_iff [slot_rules]:
  "m' \<in> set (window_starts m d e g) \<longleftrightarrow> 0 < g \<and> (\<exists>k. m' = m + int k * g \<and> m' + d \<le> e)"
proof (induction m d e g rule: window_starts.induct)
  case (1 m d e g)
  show ?case
  proof (cases "m + d \<le> e \<and> 0 < g")
    case False
    have "e < m + int k * g + d" if "0 < g" "e < m + d" for k
    proof -
      from that(1) have "0 \<le> int k * g" by simp
      with that(2) show ?thesis by linarith
    qed
    then have "\<not> (0 < g \<and> (\<exists>k. m' = m + int k * g \<and> m' + d \<le> e))"
      using False by (metis not_le)
    moreover have "window_starts m d e g = []"
      using False by (subst window_starts.simps) auto
    ultimately show ?thesis by simp
  next
    case True
    have shift: "(\<exists>k. m' = m + int k * g \<and> m' + d \<le> e) \<longleftrightarrow>
        m' = m \<or> (\<exists>k. m' = m + g + int k * g \<and> m' + d \<le> e)" (is "?l \<longleftrightarrow> ?r")
    proof
      assume ?l
      then obtain k where k: "m' = m + int k * g" "m' + d \<le> e" by blast
      show ?r by (cases k) (use k in \<open>auto simp: algebra_simps\<close>)
    next
      assume ?r
      then show ?l
      proof
        assume "m' = m"
        with True show ?l by (intro exI [of _ 0]) simp
      next
        assume "\<exists>k. m' = m + g + int k * g \<and> m' + d \<le> e"
        then obtain k where "m' = m + g + int k * g" "m' + d \<le> e" by blast
        then show ?l by (intro exI [of _ "Suc k"]) (simp add: algebra_simps)
      qed
    qed
    have "m' \<in> set (window_starts m d e g) \<longleftrightarrow> m' = m \<or> m' \<in> set (window_starts (m + g) d e g)"
      by (subst window_starts.simps) (use True in simp)
    with True "1.IH" shift show ?thesis by blast
  qed
qed

lemma window_starts_bex:
  "(\<exists>m' \<in> set (window_starts m d e g). P m') \<longleftrightarrow>
     0 < g \<and> (\<exists>k. m + int k * g + d \<le> e \<and> P (m + int k * g))"
  by (auto simp: window_starts_iff)

definition walk_ok :: "slot_bounds \<Rightarrow> walk_state \<Rightarrow> bool" where
  "walk_ok b st \<longleftrightarrow>
     set (fst st) = slot_start ` set (snd st) \<and> distinct (map slot_start (snd st)) \<and>
     (\<forall>sl \<in> set (snd st). slot_end sl = slot_start sl + sb_duration b * minute_ms)"

definition day_tries :: "slot_bounds \<Rightarrow> time_window list \<Rightarrow> instant \<Rightarrow> slot set" where
  "day_tries b ws day =
     {sl. \<exists>w \<in> set ws. \<exists>s e. window_minutes w = Some (s, e) \<and>
        (\<exists>m \<in> set (window_starts s (sb_duration b) e (sb_granularity b)). try_start b day m = Some sl)}"

lemma walk_ok_empty: "walk_ok b ([], [])"
  by (simp add: walk_ok_def)

lemma try_start_SomeD:
  assumes "try_start b day m = Some sl"
  shows "local_time (sb_zone b) day (m div 60) (m mod 60) = Some (slot_start sl)"
    and "slot_end sl = slot_start sl + sb_duration b * minute_ms"
    and "sb_earliest b \<le> slot_start sl" "slot_start sl \<le> sb_horizon b"
    and "sb_range_start b \<le> slot_start sl" "slot_start sl < sb_range_end b"
    and "\<not> overlaps_busy (slot_start sl - sb_buffer_before b) (slot_end sl + sb_buffer_after b) (sb_busy b)"
  using assms by (auto simp: try_start_def Let_def split: option.splits if_splits)

lemma slot_eqI:
  "slot_start a = slot_start b \<Longrightarrow> slot_end a = slot_end b \<Longrightarrow> a = (b :: slot)"
  by (cases a; cases b) simp

lemma push_slot_ok:
  assumes "walk_ok b st"
  shows "walk_ok b (push_slot b day m st)"
    and "set (snd (push_slot b day m st)) = set (snd st) \<union> set_option (try_start b day m)"
proof -
  show "walk_ok b (push_slot b day m st)"
    using assms
    by (auto simp: push_slot_def walk_ok_def try_start_SomeD(2) split: option.split)
  show "set (snd (push_slot b day m st)) = set (snd st) \<union> set_option (try_start b day m)"
  proof (cases "try_start b day m")
    case None
    then show ?thesis by (simp add: push_slot_def)
  next
    case (Some sl)
    have "sl \<in> set (snd st)" if seen: "slot_start sl \<in> set (fst st)"
    proof -
      from seen assms obtain sl' where "sl' \<in> set (snd st)" "slot_start sl' = slot_start sl"
        "slot_end sl' = slot_start sl' + sb_duration b * minute_ms"
        by (auto simp: walk_ok_def)
      then show ?thesis using try_start_SomeD(2) [OF Some] slot_eqI by metis
    qed
    with Some show ?thesis by (auto simp: push_slot_def)
  qed
qed

lemma fold_push_ok:
  "walk_ok b st \<Longrightarrow>
     walk_ok b (fold (push_slot b day) ms st) \<and>
     set (snd (fold (push_slot b day) ms st)) =
       set (snd st) \<union> (\<Union>m \<in> set ms. set_option (try_start b day m))"
  by (induction ms arbitrary: st) (simp_all add: push_slot_ok Un_assoc)

lemma collect_day_slots_ok:
  "walk_ok b st \<Longrightarrow>
     walk_ok b (collect_day_slots day ws b st) \<and>
     set (snd (collect_day_slots day ws b st)) = set (snd st) \<union> day_tries b ws day"
proof (induction ws arbitrary: st)
  case Nil
  then show ?case by (simp add: day_tries_def)
next
  case (Cons w ws)
  show ?case
  proof (cases "window_minutes w")
    case None
    with Cons show ?thesis by (auto simp: day_tries_def)
  next
    case (Some se)
    obtain s e where se: "se = (s, e)" by (cases se)
    let ?st = "fold (push_slot b day) (window_starts s (sb_duration b) e (sb_granularity b)) st"
    from fold_push_ok [OF Cons.prems] have f: "walk_ok b ?st"
      "set (snd ?st) = set (snd st) \<union>
         (\<Union>m \<in> set (window_starts s (sb_duration b) e (sb_granularity b)). set_option (try_start b day m))"
      by blast+
    have "day_tries b (w # ws) day = day_tries b ws day \<union>
        (\<Union>m \<in> set (window_starts s (sb_duration b) e (sb_granularity b)). set_option (try_start b day m))"
      using Some se by (auto simp: day_tries_def)
    with Cons.IH [OF f(1)] f Some se show ?thesis by (simp add: Un_ac)
  qed
qed

lemma walk_days_ok:
  "walk_ok b st \<Longrightarrow>
     walk_ok b (walk_days g day inp b caps st) \<and>
     set (snd (walk_days g day inp b caps st)) = set (snd st) \<union>
       (\<Union>d \<in> {d \<in> set (walked_days g (sb_zone b) day (sb_last_day b)).
                 \<not> day_at_cap (zdate (sb_zone b) d) (sb_duration b) caps}.
          day_tries b (windows_for_day (sb_zone b) (si_rule inp) d) d)"
proof (induction g arbitrary: day st)
  case 0
  then show ?case by simp
next
  case (Suc g)
  let ?st = "if day_at_cap (zdate (sb_zone b) day) (sb_duration b) caps then st
     else collect_day_slots day (windows_for_day (sb_zone b) (si_rule inp) day) b st"
  have st: "walk_ok b ?st"
    "set (snd ?st) = set (snd st) \<union> (if day_at_cap (zdate (sb_zone b) day) (sb_duration b) caps then {}
       else day_tries b (windows_for_day (sb_zone b) (si_rule inp) day) day)"
    using Suc.prems collect_day_slots_ok by auto
  show ?case
    using Suc.prems Suc.IH [OF st(1)] st(2) by auto
qed

section \<open>The slots, characterised\<close>

lemma resolve_SomeD:
  assumes "resolve_slot_bounds tz inp = Some b"
  shows "tz (rule_zone_name (si_rule inp)) = Some (sb_zone b)"
    and "si_range_start inp = Some (sb_range_start b)" "si_range_end inp = Some (sb_range_end b)"
    and "sb_range_start b < sb_range_end b"
    and "1 \<le> sb_granularity b" "sb_duration b = ss_duration (si_service inp)"
    and "sb_earliest b = max (sb_range_start b) (fst (bookable_window (si_service inp) (si_now inp)))"
    and "sb_horizon b = snd (bookable_window (si_service inp) (si_now inp))"
    and "sb_first_day b = zstart (sb_zone b) (sb_earliest b)"
    and "sb_last_day b = zstart (sb_zone b) (min (sb_range_end b) (sb_horizon b))"
    and "sb_busy b = nullish (si_busy inp) []"
    and "sb_buffer_before b = nullish (ss_buffer_before (si_service inp)) 0 * minute_ms"
    and "sb_buffer_after b = nullish (ss_buffer_after (si_service inp)) 0 * minute_ms"
    and "sb_granularity b = max 1 (or_num (ar_granularity (si_rule inp)) 30)"
  using assms
  by (auto simp: resolve_slot_bounds_def Let_def split: option.splits prod.splits if_splits)

lemma compute_slots_walk:
  assumes "resolve_slot_bounds tz inp = Some b"
  shows "compute_slots tz inp =
    sort_key slot_start
      (snd (walk_days 400 (sb_first_day b) inp b (resolve_day_caps inp (sb_zone b)) ([], [])))"
  using assms by (simp add: compute_slots_def)

lemma compute_slots_mem:
  assumes "resolve_slot_bounds tz inp = Some b"
  shows "sl \<in> set (compute_slots tz inp) \<longleftrightarrow>
    (\<exists>d \<in> set (walked_days 400 (sb_zone b) (sb_first_day b) (sb_last_day b)).
       \<not> day_at_cap (zdate (sb_zone b) d) (sb_duration b) (resolve_day_caps inp (sb_zone b)) \<and>
       sl \<in> day_tries b (windows_for_day (sb_zone b) (si_rule inp) d) d)"
  using walk_days_ok [OF walk_ok_empty, of b 400 "sb_first_day b" inp "resolve_day_caps inp (sb_zone b)"]
  by (auto simp: compute_slots_walk [OF assms])

lemma compute_slots_None: "resolve_slot_bounds tz inp = None \<Longrightarrow> compute_slots tz inp = []"
  by (simp add: compute_slots_def)

lemma sort_key_strict:
  assumes "distinct (map f xs)"
  shows "sorted_wrt (<) (map f (sort_key (f :: 'a \<Rightarrow> 'b :: linorder) xs))"
  by (simp add: strict_sorted_iff) (use assms in \<open>simp add: distinct_map\<close>)

lemma compute_slots_strict:
  "sorted_wrt (<) (map slot_start (compute_slots tz inp))"
proof (cases "resolve_slot_bounds tz inp")
  case None
  then show ?thesis by (simp add: compute_slots_None)
next
  case (Some b)
  have "walk_ok b (walk_days 400 (sb_first_day b) inp b (resolve_day_caps inp (sb_zone b)) ([], []))"
    using walk_days_ok [OF walk_ok_empty] by blast
  then show ?thesis
    by (simp add: compute_slots_walk [OF Some] walk_ok_def sort_key_strict)
qed

lemma day_tries_try:
  "sl \<in> day_tries b ws d \<Longrightarrow> \<exists>m. try_start b d m = Some sl"
  by (auto simp: day_tries_def)

text \<open>What every offered slot satisfies, whatever the zone does.\<close>

lemma compute_slots_bounds:
  assumes "sl \<in> set (compute_slots tz inp)"
  obtains b where "resolve_slot_bounds tz inp = Some b"
    and "sb_earliest b \<le> slot_start sl" "slot_start sl \<le> sb_horizon b"
    and "sb_range_start b \<le> slot_start sl" "slot_start sl < sb_range_end b"
    and "slot_end sl = slot_start sl + ss_duration (si_service inp) * minute_ms"
    and "\<not> overlaps_busy (slot_start sl - sb_buffer_before b) (slot_end sl + sb_buffer_after b) (sb_busy b)"
proof (cases "resolve_slot_bounds tz inp")
  case None
  with assms show ?thesis by (simp add: compute_slots_None)
next
  case (Some b)
  from assms obtain d m where t: "try_start b d m = Some sl"
    by (auto simp: compute_slots_mem [OF Some] day_tries_def)
  show ?thesis
    using that [OF Some] try_start_SomeD [OF t] resolve_SomeD(6) [OF Some] by simp
qed

section \<open>Walking a regular calendar\<close>

lemma walked_days_power:
  "d \<in> set (walked_days g z day stop) \<longleftrightarrow>
     (\<exists>n < g. d = (zplus_days z 1 ^^ n) day \<and> (\<forall>k \<le> n. (zplus_days z 1 ^^ k) day \<le> stop))"
proof (induction g arbitrary: day)
  case 0
  then show ?case by simp
next
  case (Suc g)
  have shift: "(zplus_days z 1 ^^ k) (zplus_days z 1 day) = (zplus_days z 1 ^^ Suc k) day" for k
    by (simp add: funpow_swap1)
  show ?case
  proof (cases "day \<le> stop")
    case False
    then show ?thesis by (auto dest: spec [of _ 0])
  next
    case True
    have "(\<exists>n < Suc g. d = (zplus_days z 1 ^^ n) day \<and> (\<forall>k \<le> n. (zplus_days z 1 ^^ k) day \<le> stop)) \<longleftrightarrow>
        d = day \<or> (\<exists>n < g. d = (zplus_days z 1 ^^ Suc n) day \<and>
                      (\<forall>k \<le> n. (zplus_days z 1 ^^ Suc k) day \<le> stop))" (is "?l \<longleftrightarrow> ?r")
    proof
      assume ?l
      then obtain n where n: "n < Suc g" "d = (zplus_days z 1 ^^ n) day"
        "\<And>k. k \<le> n \<Longrightarrow> (zplus_days z 1 ^^ k) day \<le> stop" by blast
      show ?r
      proof (cases n)
        case 0
        with n show ?thesis by simp
      next
        case (Suc n')
        with n show ?thesis by (metis Suc_le_mono Suc_less_eq)
      qed
    next
      assume ?r
      then show ?l
      proof
        assume "d = day"
        with True show ?l by (intro exI [of _ 0]) simp
      next
        assume "\<exists>n < g. d = (zplus_days z 1 ^^ Suc n) day \<and> (\<forall>k \<le> n. (zplus_days z 1 ^^ Suc k) day \<le> stop)"
        then obtain n where n: "n < g" "d = (zplus_days z 1 ^^ Suc n) day"
          "\<And>k. k \<le> n \<Longrightarrow> (zplus_days z 1 ^^ Suc k) day \<le> stop" by blast
        have "(zplus_days z 1 ^^ k) day \<le> stop" if "k \<le> Suc n" for k
          using that n(3) True by (cases k) simp_all
        with n show ?l by (intro exI [of _ "Suc n"]) simp
      qed
    qed
    with True show ?thesis by (simp only: walked_days.simps if_True list.set Suc.IH shift insert_iff)
        
  qed
qed

context regular_calendar
begin

lemma power_mono: "k \<le> n \<Longrightarrow> (zplus_days z 1 ^^ k) t \<le> (zplus_days z 1 ^^ n) t"
proof (induction n)
  case 0
  then show ?case by simp
next
  case (Suc n)
  then show ?case
    using plus_later [of "(zplus_days z 1 ^^ n) t"] by (cases "k = Suc n") (auto intro: order_trans less_imp_le)
qed

text \<open>
  A day reached from a later start within a later bound is reached from an earlier start too,
  provided the range is short enough for the guard of 400 days.
\<close>

lemma walked_from_earlier:
  assumes d: "d \<in> set (walked_days 400 z (zstart z t) stop)"
    and "s \<le> t" "stop \<le> stop'" "stop' - s \<le> 360 * day_ms"
  shows "d \<in> set (walked_days 400 z (zstart z s) stop')"
proof -
  from d obtain n where n: "d = (zplus_days z 1 ^^ n) (zstart z t)" "d \<le> stop"
    by (auto simp: walked_days_power)
  obtain k where k: "zstart z t = (zplus_days z 1 ^^ k) (zstart z s)"
    using reach start_mono [OF \<open>s \<le> t\<close>] by blast
  have dk: "d = (zplus_days z 1 ^^ (n + k)) (zstart z s)"
    using n(1) k by (simp add: funpow_add)
  have "zstart z s + int (n + k) * (22 * hour_ms) \<le> d"
    unfolding dk by (rule steps)
  with n(2) assms start_near [of s] have "int (n + k) * (22 * hour_ms) \<le> 360 * day_ms + 26 * hour_ms"
    by linarith
  then have "n + k < 400" by simp
  moreover have "(zplus_days z 1 ^^ j) (zstart z s) \<le> stop'" if "j \<le> n + k" for j
    using power_mono [OF that, of "zstart z s"] n(2) assms(3) dk by simp
  ultimately show ?thesis unfolding walked_days_power using dk by blast
qed

end

section \<open>Caps and diagnoses\<close>

lemma count_usage_count:
  "fst (count_usage z bs u key) = fst (u key) + length (filter (\<lambda>b. zdate z (iv_start b) = key) bs)"
  by (induction bs arbitrary: u) (auto simp: Let_def day_key_of_def)

lemma count_usage_ms:
  "snd (count_usage z bs u key) = snd (u key) +
     (\<Sum>b \<leftarrow> filter (\<lambda>b. zdate z (iv_start b) = key) bs. max 0 (iv_end b - iv_start b))"
  by (induction bs arbitrary: u) (auto simp: Let_def day_key_of_def)

lemma count_service_usage_count:
  "count_service_usage z bs u key = u key + length (filter (\<lambda>b. zdate z (iv_start b) = key) bs)"
  by (induction bs arbitrary: u) (auto simp: Let_def day_key_of_def)

definition on_day :: "zone \<Rightarrow> string \<Rightarrow> interval list option \<Rightarrow> interval list" where
  "on_day z key ivs = filter (\<lambda>b. zdate z (iv_start b) = key) (nullish ivs [])"

lemma day_not_at_cap:
  assumes "\<not> day_at_cap key d (resolve_day_caps inp z)"
  shows "si_business inp = Some bc \<Longrightarrow> bc_max_per_day bc = Some n \<Longrightarrow> 0 < n \<Longrightarrow>
           int (length (on_day z key (si_ledger inp))) < n"
    and "si_business inp = Some bc \<Longrightarrow> bc_max_minutes bc = Some n \<Longrightarrow> 0 < n \<Longrightarrow>
           (\<Sum>b \<leftarrow> on_day z key (si_ledger inp). max 0 (iv_end b - iv_start b)) + d * minute_ms \<le> n * minute_ms"
    and "ss_max_per_day (si_service inp) = Some n \<Longrightarrow> 0 < n \<Longrightarrow>
           int (length (on_day z key (si_service_ledger inp))) < n"
  using assms
  by (auto simp: day_at_cap_def resolve_day_caps_def Let_def on_day_def count_usage_count
      count_usage_ms count_service_usage_count split: if_splits)

lemma not_overlaps_busy:
  "\<not> overlaps_busy s e busy \<longleftrightarrow> (\<forall>b \<in> set busy. iv_end b \<le> s \<or> e \<le> iv_start b)"
  by (auto simp: overlaps_busy_def list_ex_iff not_less)

text \<open>Lifting notice and horizon can only add slots, on a regular calendar and a short range.\<close>

lemma lifting_window_adds:
  assumes "tz (rule_zone_name (si_rule inp)) = Some z" and reg: "regular_calendar z"
    and rs: "si_range_start inp = Some rs" and re: "si_range_end inp = Some re"
    and short: "re - rs \<le> 360 * day_ms"
  shows "set (compute_slots tz inp) \<subseteq> set (compute_slots tz (without_window inp))"
proof
  note cal = regular_calendar.axioms(1) [OF reg]
  fix sl assume sl: "sl \<in> set (compute_slots tz inp)"
  then obtain b where b: "resolve_slot_bounds tz inp = Some b"
    by (cases "resolve_slot_bounds tz inp") (auto simp: compute_slots_None)
  note B = resolve_SomeD [OF b]
  have zb [simp]: "sb_zone b = z" and rsb [simp]: "sb_range_start b = rs" and reb [simp]: "sb_range_end b = re"
    using B(1-3) assms by simp_all
  obtain b' where b': "resolve_slot_bounds tz (without_window inp) = Some b'"
    using assms B(4) by (simp add: resolve_slot_bounds_def without_window_def Let_def bookable_window_def)
  have same: "sb_zone b' = z" "sb_range_start b' = rs" "sb_range_end b' = re"
    "sb_granularity b' = sb_granularity b" "sb_duration b' = sb_duration b"
    "sb_busy b' = sb_busy b" "sb_buffer_before b' = sb_buffer_before b" "sb_buffer_after b' = sb_buffer_after b"
    "sb_earliest b' = rs" "sb_horizon b' = rs + no_horizon_days * day_ms"
    "sb_first_day b' = zstart z rs" "sb_last_day b' = zstart z re"
    using resolve_SomeD [OF b'] B assms
    by (simp_all add: without_window_def bookable_window_def no_horizon_days_def)
  from sl obtain d where d: "d \<in> set (walked_days 400 z (zstart z (sb_earliest b)) (sb_last_day b))"
    and cap: "\<not> day_at_cap (zdate z d) (sb_duration b) (resolve_day_caps inp z)"
    and t: "sl \<in> day_tries b (windows_for_day z (si_rule inp) d) d"
    by (auto simp: compute_slots_mem [OF b] B(9))
  have "d \<in> set (walked_days 400 z (zstart z rs) (zstart z re))"
    by (rule regular_calendar.walked_from_earlier [OF reg d])
      (use B(7,10) short calendar.start_mono [OF cal] calendar.start_le [OF cal, of re] in \<open>auto intro: order_trans\<close>)
  moreover have "resolve_day_caps (without_window inp) z = resolve_day_caps inp z"
    by (simp add: resolve_day_caps_def without_window_def Let_def)
  moreover have "sl \<in> day_tries b' (windows_for_day z (si_rule inp) d) d"
  proof -
    have "try_start b' d m = Some sl" if m: "try_start b d m = Some sl" for m
      using try_start_SomeD [OF m] short same
      by (cases sl) (simp add: try_start_def no_horizon_days_def)
    with t show ?thesis unfolding day_tries_def same by blast
  qed
  moreover have "si_rule (without_window inp) = si_rule inp" by (simp add: without_window_def)
  ultimately show "sl \<in> set (compute_slots tz (without_window inp))"
    using cap same by (simp add: compute_slots_mem [OF b']) blast
qed

lemma window_reason_excludes:
  assumes "window_reason inp slots = Some d" and "0 \<le> nullish (ss_min_notice (si_service inp)) 0"
    and "sl \<in> set slots"
  shows "slot_start sl < fst (bookable_window (si_service inp) (si_now inp)) \<or>
         snd (bookable_window (si_service inp) (si_now inp)) < slot_start sl"
  using assms
  by (fastforce simp: window_reason_def bookable_window_def Let_def list_all_iff split: if_splits)

lemma compute_slots_in_window:
  assumes "sl \<in> set (compute_slots tz inp)"
  shows "fst (bookable_window (si_service inp) (si_now inp)) \<le> slot_start sl"
    and "slot_start sl \<le> snd (bookable_window (si_service inp) (si_now inp))"
  using assms by (auto elim!: compute_slots_bounds dest: resolve_SomeD(7,8))

lemma diagnosed_would_be:
  assumes "diagnose_empty_range tz inp = Some d"
  shows "(\<exists>d. window_reason inp (compute_slots tz (without_window inp)) = Some d) \<or>
         compute_slots tz (without_window inp) = []"
  using assms by (auto simp: diagnose_empty_range_def Let_def split: option.splits if_splits)

section \<open>A concrete diary\<close>

text \<open>Open on Thursdays from nine to eleven; 1970-01-01 is a Thursday.\<close>

definition demo_rule :: availability_rule where
  "demo_rule =
     \<lparr>ar_timezone = ''UTC'', ar_mode = BusinessHours,
      ar_weekly = Some (\<lambda>d. if d = Thu then Some [\<lparr>w_start = ''09:00'', w_end = ''11:00''\<rparr>] else None),
      ar_overrides = Some [], ar_granularity = Some 60\<rparr>"

definition demo_service :: slot_service where
  "demo_service =
     \<lparr>ss_duration = 60, ss_buffer_before = None, ss_buffer_after = None, ss_min_notice = None,
      ss_max_horizon = Some 60, ss_max_per_day = Some 2\<rparr>"

definition demo_input :: slot_input where
  "demo_input =
     \<lparr>si_rule = demo_rule, si_service = demo_service,
      si_range_start = Some 0, si_range_end = Some (2 * day_ms), si_now = 0,
      si_busy = Some [\<lparr>iv_start = 9 * hour_ms, iv_end = 10 * hour_ms\<rparr>],
      si_business = Some \<lparr>bc_max_per_day = Some 3, bc_max_minutes = Some 600\<rparr>,
      si_ledger = Some [\<lparr>iv_start = 9 * hour_ms, iv_end = 10 * hour_ms\<rparr>],
      si_service_ledger = Some [\<lparr>iv_start = 9 * hour_ms, iv_end = 10 * hour_ms\<rparr>]\<rparr>"

definition demo_tz :: tzdb where
  "demo_tz name = (if name = ''UTC'' then Some utc else None)"

definition demo_slot :: slot where
  "demo_slot = \<lparr>slot_start = 10 * hour_ms, slot_end = 11 * hour_ms\<rparr>"

lemma demo_slots: "compute_slots demo_tz demo_input = [demo_slot]"
  by code_simp

lemma demo_slot_offered: "demo_slot \<in> set (compute_slots demo_tz demo_input)"
  by (simp add: demo_slots)

lemma demo_resolves: "\<exists>b. resolve_slot_bounds demo_tz demo_input = Some b"
  using demo_slot_offered by (auto elim: compute_slots_bounds)

lemma demo_zone: "demo_tz (rule_zone_name (si_rule demo_input)) = Some utc"
  by (simp add: demo_tz_def demo_input_def demo_rule_def rule_zone_name_def)

section \<open>Properties\<close>

text \<open>
  C2: the engine offers exactly the slots it should: a slot is in the result if and only if some
  walked local day that is not at a cap has an opening window with a step of the granularity whose
  wall-clock time exists, whose job fits the window, whose instant is inside the notice and horizon
  window and the query range, and whose buffered span meets no busy interval. (Soundness and
  completeness of the two nested loops, of the \<open>seen\<close> set and of the sort.)
\<close>

theorem compute_slots_exact:
  assumes "resolve_slot_bounds tz inp = Some b"
  shows "sl \<in> set (compute_slots tz inp) \<longleftrightarrow>
    (\<exists>d w s e k.
       d \<in> set (walked_days 400 (sb_zone b) (sb_first_day b) (sb_last_day b)) \<and>
       \<not> day_at_cap (zdate (sb_zone b) d) (sb_duration b) (resolve_day_caps inp (sb_zone b)) \<and>
       w \<in> set (windows_for_day (sb_zone b) (si_rule inp) d) \<and>
       window_minutes w = Some (s, e) \<and>
       s + int k * sb_granularity b + sb_duration b \<le> e \<and>
       local_time (sb_zone b) d ((s + int k * sb_granularity b) div 60)
                                ((s + int k * sb_granularity b) mod 60) = Some (slot_start sl) \<and>
       slot_end sl = slot_start sl + sb_duration b * minute_ms \<and>
       sb_earliest b \<le> slot_start sl \<and> slot_start sl \<le> sb_horizon b \<and>
       sb_range_start b \<le> slot_start sl \<and> slot_start sl < sb_range_end b \<and>
       (\<forall>iv \<in> set (sb_busy b). iv_end iv \<le> slot_start sl - sb_buffer_before b \<or>
                                slot_end sl + sb_buffer_after b \<le> iv_start iv))"
    (is "_ \<longleftrightarrow> ?spec")
proof -
  have try_iff: "try_start b d m = Some sl \<longleftrightarrow>
      local_time (sb_zone b) d (m div 60) (m mod 60) = Some (slot_start sl) \<and>
      slot_end sl = slot_start sl + sb_duration b * minute_ms \<and>
      sb_earliest b \<le> slot_start sl \<and> slot_start sl \<le> sb_horizon b \<and>
      sb_range_start b \<le> slot_start sl \<and> slot_start sl < sb_range_end b \<and>
      (\<forall>iv \<in> set (sb_busy b). iv_end iv \<le> slot_start sl - sb_buffer_before b \<or>
                               slot_end sl + sb_buffer_after b \<le> iv_start iv)" for d m
    unfolding not_overlaps_busy [symmetric]
    by (cases sl) (auto simp: try_start_def Let_def split: option.splits)
  have "0 < sb_granularity b" using resolve_SomeD(5) [OF assms] by simp
  then show ?thesis
    unfolding compute_slots_mem [OF assms] day_tries_def mem_Collect_eq window_starts_bex try_iff
    by blast
qed

theorem compute_slots_exact_witness:
  "\<exists>b d w s e. resolve_slot_bounds demo_tz demo_input = Some b \<and>
     d \<in> set (walked_days 400 (sb_zone b) (sb_first_day b) (sb_last_day b)) \<and>
     w \<in> set (windows_for_day (sb_zone b) demo_rule d) \<and> window_minutes w = Some (s, e)"
proof -
  obtain b where b: "resolve_slot_bounds demo_tz demo_input = Some b"
    using demo_resolves by blast
  have "si_rule demo_input = demo_rule" by (simp add: demo_input_def)
  with b compute_slots_exact [OF b, of demo_slot] demo_slot_offered show ?thesis by auto
qed

text \<open>
  No offered slot is before \<open>now\<close> plus the minimum notice, past the horizon, outside the query
  range or touching a busy interval once the service's buffers are added, and every slot is exactly
  one service duration long. This holds for any zone, regular or not.
\<close>

theorem compute_slots_safe:
  assumes "sl \<in> set (compute_slots tz inp)"
  shows "si_now inp + nullish (ss_min_notice (si_service inp)) 0 * minute_ms \<le> slot_start sl \<and>
    slot_start sl \<le> si_now inp + nullish (ss_max_horizon (si_service inp)) 0 * day_ms \<and>
    si_range_start inp \<noteq> None \<and> the (si_range_start inp) \<le> slot_start sl \<and>
    si_range_end inp \<noteq> None \<and> slot_start sl < the (si_range_end inp) \<and>
    slot_end sl = slot_start sl + ss_duration (si_service inp) * minute_ms \<and>
    (\<forall>iv \<in> set (nullish (si_busy inp) []).
       iv_end iv \<le> slot_start sl - nullish (ss_buffer_before (si_service inp)) 0 * minute_ms \<or>
       slot_end sl + nullish (ss_buffer_after (si_service inp)) 0 * minute_ms \<le> iv_start iv)"
proof -
  from assms obtain b where b: "resolve_slot_bounds tz inp = Some b"
    and f: "sb_range_start b \<le> slot_start sl" "slot_start sl < sb_range_end b"
      "slot_end sl = slot_start sl + ss_duration (si_service inp) * minute_ms"
      "\<not> overlaps_busy (slot_start sl - sb_buffer_before b) (slot_end sl + sb_buffer_after b) (sb_busy b)"
    by (rule compute_slots_bounds)
  note B = resolve_SomeD [OF b]
  show ?thesis
    using compute_slots_in_window [OF assms] f B(2,3,11-13)
    by (simp add: bookable_window_def not_overlaps_busy)
qed

theorem compute_slots_safe_witness:
  "si_now demo_input \<le> slot_start demo_slot \<and> slot_start demo_slot < 2 * day_ms \<and>
   9 * hour_ms + hour_ms \<le> slot_start demo_slot"
  using compute_slots_safe [OF demo_slot_offered]
  by (simp add: demo_input_def demo_service_def demo_slot_def)

text \<open>the slots come out in strictly increasing order of their start, so no start is offered twice.\<close>

theorem compute_slots_ordered:
  "sorted_wrt (\<lambda>a b. slot_start a < slot_start b) (compute_slots tz inp)"
  using compute_slots_strict [of tz inp] by (simp add: sorted_wrt_map)

text \<open>
  a slot is never offered on a local day that already holds as many bookings as the business
  cap allows, whose booked minutes leave no room for this job, or that is at the service's own cap.
\<close>

theorem compute_slots_respect_caps:
  assumes "sl \<in> set (compute_slots tz inp)"
    and "tz (rule_zone_name (si_rule inp)) = Some z" and "calendar z"
    and "si_business inp = Some \<lparr>bc_max_per_day = Some n, bc_max_minutes = Some m\<rparr>" "0 < n" "0 < m"
    and "ss_max_per_day (si_service inp) = Some k" "0 < k"
  shows "int (length (on_day z (zdate z (slot_start sl)) (si_ledger inp))) < n \<and>
    (\<Sum>iv \<leftarrow> on_day z (zdate z (slot_start sl)) (si_ledger inp). max 0 (iv_end iv - iv_start iv))
      + ss_duration (si_service inp) * minute_ms \<le> m * minute_ms \<and>
    int (length (on_day z (zdate z (slot_start sl)) (si_service_ledger inp))) < k"
proof -
  from assms(1) obtain b where b: "resolve_slot_bounds tz inp = Some b"
    by (rule compute_slots_bounds)
  have z: "sb_zone b = z" using resolve_SomeD(1) [OF b] assms(2) by simp
  from assms(1) obtain d h where cap: "\<not> day_at_cap (zdate z d) (sb_duration b) (resolve_day_caps inp z)"
    and t: "try_start b d h = Some sl"
    by (auto simp: compute_slots_mem [OF b] z dest: day_tries_try)
  from try_start_SomeD(1) [OF t] have "zlocal z d (h div 60) (h mod 60) = Some (slot_start sl, h div 60, h mod 60)"
    by (auto simp: local_time_def z split: option.splits prod.splits if_splits)
  then have "zdate z (slot_start sl) = zdate z d"
    using calendar.local_on_day [OF assms(3)] by blast
  with day_not_at_cap [OF cap] assms resolve_SomeD(6) [OF b] show ?thesis by simp
qed

theorem compute_slots_respect_caps_witness:
  "int (length (on_day utc (zdate utc (slot_start demo_slot)) (si_ledger demo_input))) < 3"
proof -
  have "ss_max_per_day (si_service demo_input) = Some 2"
    "si_business demo_input = Some \<lparr>bc_max_per_day = Some 3, bc_max_minutes = Some 600\<rparr>"
    by (simp_all add: demo_input_def demo_service_def)
  then show ?thesis
    using compute_slots_respect_caps [OF demo_slot_offered demo_zone utc.calendar_axioms] by simp
qed

text \<open>
  every offered start is inside the business hours that analytics tests: the walk over windows
  and \<open>isWithinBusinessHours\<close> agree, for any service of positive length.
\<close>

theorem compute_slots_within_business_hours:
  assumes "sl \<in> set (compute_slots tz inp)"
    and "tz (rule_zone_name (si_rule inp)) = Some z" and "calendar z"
    and "0 < ss_duration (si_service inp)"
  shows "is_within_business_hours tz (si_rule inp) (slot_start sl)"
proof -
  from assms(1) obtain b where b: "resolve_slot_bounds tz inp = Some b"
    by (rule compute_slots_bounds)
  have z: "sb_zone b = z" using resolve_SomeD(1) [OF b] assms(2) by simp
  from assms(1) obtain d w s e m where w: "w \<in> set (windows_for_day z (si_rule inp) d)"
    and se: "window_minutes w = Some (s, e)" and t: "try_start b d m = Some sl"
    and m: "m \<in> set (window_starts s (sb_duration b) e (sb_granularity b))"
    by (auto simp: compute_slots_mem [OF b] z day_tries_def)
  from try_start_SomeD(1) [OF t] have loc: "zlocal z d (m div 60) (m mod 60) = Some (slot_start sl, m div 60, m mod 60)"
    by (auto simp: local_time_def z split: option.splits prod.splits if_splits)
  note on_day = calendar.local_on_day [OF assms(3) loc]
  have "windows_for_day z (si_rule inp\<lparr>ar_granularity := Some 0\<rparr>) (slot_start sl) =
      windows_for_day z (si_rule inp) d"
    using windows_same_day [of z "slot_start sl" d] on_day
    by (simp add: windows_granularity)
  moreover from m have "s \<le> m" "m < e"
    using assms(4) resolve_SomeD(6) [OF b] by (auto simp: window_starts_iff)
  ultimately show ?thesis
    using assms(2) on_day w se
    by (auto simp: is_within_business_hours_def in_window_def list_ex_iff intro!: bexI [of _ w])
qed

theorem compute_slots_within_business_hours_witness:
  "is_within_business_hours demo_tz (si_rule demo_input) (slot_start demo_slot)"
  by (rule compute_slots_within_business_hours [OF demo_slot_offered demo_zone utc.calendar_axioms])
    (simp add: demo_input_def demo_service_def)

text \<open>
  a diagnosis is never given for a range that has something to offer: when
  \<open>diagnoseEmptyRange\<close> names a reason, \<open>computeSlots\<close> returns nothing. It holds for a range of up
  to 360 days on a calendar whose days start at midnight; the engine walks at most 400 days.
\<close>

theorem diagnosis_only_of_empty_range:
  assumes "diagnose_empty_range tz inp = Some d"
    and "tz (rule_zone_name (si_rule inp)) = Some z" and "regular_calendar z"
    and "si_range_start inp = Some rs" and "si_range_end inp = Some re" and "re - rs \<le> 360 * day_ms"
    and "0 \<le> nullish (ss_min_notice (si_service inp)) 0"
  shows "compute_slots tz inp = []"
proof (rule ccontr)
  assume "compute_slots tz inp \<noteq> []"
  then obtain sl where sl: "sl \<in> set (compute_slots tz inp)"
    using hd_in_set by blast
  with lifting_window_adds [of tz inp z rs re] assms(2-6)
  have w: "sl \<in> set (compute_slots tz (without_window inp))" by blast
  with diagnosed_would_be [OF assms(1)] obtain d' where
    "window_reason inp (compute_slots tz (without_window inp)) = Some d'" by auto
  from window_reason_excludes [OF this assms(7) w] compute_slots_in_window [OF sl]
  show False by simp
qed

definition demo_too_soon :: slot_input where
  "demo_too_soon = demo_input\<lparr>si_service := demo_service\<lparr>ss_min_notice := Some 2880\<rparr>\<rparr>"

theorem diagnosis_only_of_empty_range_witness:
  "diagnose_empty_range demo_tz demo_too_soon = Some \<lparr>dg_reason = TooSoon, dg_boundary = 2 * day_ms\<rparr> \<and>
   compute_slots demo_tz demo_too_soon = []"
proof -
  have d: "diagnose_empty_range demo_tz demo_too_soon =
      Some \<lparr>dg_reason = TooSoon, dg_boundary = 2 * day_ms\<rparr>"
    by code_simp
  moreover have "demo_tz (rule_zone_name (si_rule demo_too_soon)) = Some utc"
    by (simp add: demo_too_soon_def demo_input_def demo_rule_def rule_zone_name_def demo_tz_def)
  moreover have "si_range_start demo_too_soon = Some 0" "si_range_end demo_too_soon = Some (2 * day_ms)"
    "0 \<le> nullish (ss_min_notice (si_service demo_too_soon)) 0"
    by (simp_all add: demo_too_soon_def demo_input_def demo_service_def)
  ultimately show ?thesis
    using diagnosis_only_of_empty_range [OF d _ utc.regular_calendar_axioms] by simp
qed

end
