(* ===== verification/BookingDates.thy ===== *)
theory BookingDates
  imports SlotEngine
begin

text \<open>
  Date ranges, clock windows and the policy refusals of a requested time
  (\<open>booking-providers/booking-dates.ts\<close> and \<open>requestWindowRefusal\<close> of \<open>internal.provider.ts\<close>).
  Reading a string as a date is luxon's \<open>DateTime.fromISO\<close> and \<open>fromSQL\<close> in the business zone, a
  parameter; \<^term>\<open>None\<close> is an invalid \<open>DateTime\<close>.
\<close>

section \<open>Ranges\<close>

type_synonym date_parser = "string \<Rightarrow> instant option"

text \<open>\<^term>\<open>None\<close> is the \<open>INVALID_RANGE\<close> error.\<close>

definition normalize_date_range :: "date_parser \<Rightarrow> zone \<Rightarrow> string \<Rightarrow> string \<Rightarrow> (instant \<times> instant) option" where
  "normalize_date_range from_iso z start_date end_date =
     (case from_iso start_date of
        None \<Rightarrow> None
      | Some start \<Rightarrow>
          (let given = from_iso end_date;
               stop = (if is_iso_date end_date then map_option (zplus_days z 1) given else given)
           in Some (start, case stop of
                             None \<Rightarrow> zplus_days z 1 start
                           | Some t \<Rightarrow> if t \<le> start then zplus_days z 1 start else t)))"

definition parse_booking_start :: "date_parser \<Rightarrow> date_parser \<Rightarrow> string \<Rightarrow> instant option" where
  "parse_booking_start from_iso from_sql input =
     (case from_iso input of Some t \<Rightarrow> Some t | None \<Rightarrow> from_sql input)"

text \<open>Without a known zone the date is cut from the UTC string of the boundary.\<close>

definition retry_range :: "empty_reason \<Rightarrow> instant \<Rightarrow> zone option \<Rightarrow> instant \<Rightarrow> string \<times> string" where
  "retry_range reason boundary zone now =
     (case zone of
        None \<Rightarrow> (utc_date boundary, utc_date boundary)
      | Some z \<Rightarrow>
          if reason = TooFar
          then (zdate z (max (zminus_days z 6 boundary) now), zdate z boundary)
          else (zdate z boundary, zdate z (zplus_days z 6 boundary)))"

section \<open>A window of the clock\<close>

record clock_window =
  cw_from :: string
  cw_to :: string

definition clock_of :: "zone \<Rightarrow> instant \<Rightarrow> string" where
  "clock_of z t = two_digits (zhour z t) @ '':'' @ two_digits (zminute z t)"

definition slots_in_clock_window :: "zone \<Rightarrow> slot list \<Rightarrow> clock_window \<Rightarrow> slot list" where
  "slots_in_clock_window z slots w =
     filter (\<lambda>s. cw_from w \<le> clock_of z (slot_start s) \<and> clock_of z (slot_start s) < cw_to w) slots"

definition offerable_slots_for_window :: "zone \<Rightarrow> slot list \<Rightarrow> clock_window option \<Rightarrow> slot list \<times> bool" where
  "offerable_slots_for_window z slots window =
     (case window of
        None \<Rightarrow> (slots, True)
      | Some w \<Rightarrow>
          (let inside = slots_in_clock_window z slots w;
               matched = inside \<noteq> []
           in (if matched then inside else slots, matched)))"

section \<open>Requested times the policy refuses\<close>

datatype refusal_reason = RefPast | RefTooSoon | RefTooFar | RefClosed | RefOutsideHours | RefNoneLeft

record window_refusal =
  wr_reason :: refusal_reason
  wr_start :: string
  wr_end :: string

definition refuse :: "refusal_reason \<Rightarrow> string \<times> string \<Rightarrow> window_refusal" where
  "refuse reason span = \<lparr>wr_reason = reason, wr_start = fst span, wr_end = snd span\<rparr>"

text \<open>The input of the engine for one range, without diary and caps.\<close>

definition policy_input :: "availability_rule \<Rightarrow> slot_service \<Rightarrow> int \<Rightarrow> instant \<Rightarrow> instant \<times> instant \<Rightarrow> slot_input" where
  "policy_input rule svc duration now span =
     \<lparr>si_rule = rule, si_service = svc\<lparr>ss_duration := duration\<rparr>,
      si_range_start = Some (fst span), si_range_end = Some (snd span), si_now = now,
      si_busy = None, si_business = None, si_ledger = None, si_service_ledger = None\<rparr>"

text \<open>The hour is outside a day that has hours: is any start of that day left?\<close>

definition outside_hours_refusal ::
    "date_parser \<Rightarrow> tzdb \<Rightarrow> zone \<Rightarrow> availability_rule \<Rightarrow> slot_service \<Rightarrow> instant \<Rightarrow> int \<Rightarrow> instant \<Rightarrow> window_refusal option"
  where
  "outside_hours_refusal from_iso tz z rule svc start duration now =
     (let date = zdate z (zstart z start)
      in case normalize_date_range from_iso z date date of
           None \<Rightarrow> None
         | Some span \<Rightarrow>
             (let inp = policy_input rule svc duration now span
              in if compute_slots tz inp \<noteq> [] then Some (refuse RefOutsideHours (date, date))
                 else (case diagnose_empty_range tz inp of
                         Some gone \<Rightarrow>
                           Some (refuse RefNoneLeft (retry_range (dg_reason gone) (dg_boundary gone) (Some z) now))
                       | None \<Rightarrow>
                           Some (refuse RefNoneLeft
                             (retry_range Closed (zplus_days z 1 (zstart z start)) (Some z) now)))))"

text \<open>
  \<open>requestWindowRefusal\<close>. A zone luxon does not know gives no day to judge. The date of the last
  step was printed by luxon, so the parser reads it.
\<close>

definition request_window_refusal ::
    "date_parser \<Rightarrow> tzdb \<Rightarrow> availability_rule \<Rightarrow> slot_service \<Rightarrow> instant \<Rightarrow> int \<Rightarrow> instant \<Rightarrow> window_refusal option"
  where
  "request_window_refusal from_iso tz rule svc start duration now =
     (let earliest = fst (bookable_window svc now);
          zone = tz (ar_timezone rule)
      in if start < now then Some (refuse RefPast (retry_range Past earliest zone now))
         else if start < earliest then Some (refuse RefTooSoon (retry_range TooSoon earliest zone now))
         else (case zone of
                 None \<Rightarrow> None
               | Some z \<Rightarrow>
                   (let next_day = zplus_days z 1 (zstart z start)
                    in if \<not> day_has_hours z rule (zstart z start) then
                         (if week_from_has_hours z rule next_day
                          then Some (refuse RefClosed (retry_range Closed next_day (Some z) now)) else None)
                       else if is_within_business_hours tz rule start then None
                       else outside_hours_refusal from_iso tz z rule svc start duration now)))"

section \<open>What a refusal and its absence mean\<close>

lemma no_refusal_window:
  assumes "request_window_refusal from_iso tz rule svc start duration now = None"
  shows "now \<le> start" "fst (bookable_window svc now) \<le> start"
  using assms by (auto simp: request_window_refusal_def Let_def split: if_splits)

lemma outside_hours_always_refused:
  assumes "normalize_date_range from_iso z (zdate z (zstart z start)) (zdate z (zstart z start)) = Some span"
  shows "outside_hours_refusal from_iso tz z rule svc start duration now \<noteq> None"
  using assms by (auto simp: outside_hours_refusal_def Let_def split: option.split)

text \<open>A date luxon printed is a date it reads: the range of one day exists.\<close>

lemma printed_day_has_range:
  assumes "from_iso (zdate z (zstart z start)) = Some t"
  shows "\<exists>span. normalize_date_range from_iso z (zdate z (zstart z start)) (zdate z (zstart z start)) = Some span"
  using assms by (simp add: normalize_date_range_def Let_def)

lemma no_refusal_hours:
  assumes "request_window_refusal from_iso tz rule svc start duration now = None"
    and "tz (ar_timezone rule) = Some z" "\<forall>t. from_iso (zdate z t) \<noteq> None"
  shows "is_within_business_hours tz rule start \<or>
         (\<not> day_has_hours z rule (zstart z start) \<and>
          \<not> week_from_has_hours z rule (zplus_days z 1 (zstart z start)))"
proof -
  obtain t where "from_iso (zdate z (zstart z start)) = Some t" using assms(3) by blast
  then obtain span where
    "normalize_date_range from_iso z (zdate z (zstart z start)) (zdate z (zstart z start)) = Some span"
    using printed_day_has_range by blast
  then have "outside_hours_refusal from_iso tz z rule svc start duration now \<noteq> None"
    by (rule outside_hours_always_refused)
  with assms(1,2) show ?thesis
    by (auto simp: request_window_refusal_def Let_def split: if_splits)
qed

lemma normalize_date_range_ordered:
  assumes "calendar z" "normalize_date_range from_iso z a b = Some (start, stop)"
  shows "start < stop"
  using assms calendar.plus_later [OF assms(1)]
  by (auto simp: normalize_date_range_def Let_def split: option.splits if_splits)

definition demo_afternoon :: clock_window where
  "demo_afternoon = \<lparr>cw_from = ''12:00'', cw_to = ''17:00''\<rparr>"

text \<open>
  a clock window never hides every offer: the slots kept are some of the given ones in their
  order, they all start inside the window when it is reported as matched, and when it is not, every
  given slot is kept.
\<close>

theorem clock_window_never_hides_every_slot:
  assumes "offerable_slots_for_window z slots (Some w) = (kept, matched)"
  shows "kept = filter (\<lambda>s. s \<in> set kept) slots \<and> (slots \<noteq> [] \<longrightarrow> kept \<noteq> []) \<and>
         (if matched
          then \<forall>s \<in> set kept. cw_from w \<le> clock_of z (slot_start s) \<and> clock_of z (slot_start s) < cw_to w
          else kept = slots \<and>
               (\<forall>s \<in> set slots. \<not> (cw_from w \<le> clock_of z (slot_start s) \<and> clock_of z (slot_start s) < cw_to w)))"
  using assms
  by (auto simp: offerable_slots_for_window_def slots_in_clock_window_def Let_def filter_empty_conv
      intro!: filter_cong [OF refl] split: if_splits)

theorem clock_window_never_hides_every_slot_witness:
  "fst (offerable_slots_for_window utc [demo_slot] (Some demo_afternoon)) \<noteq> []"
  using clock_window_never_hides_every_slot [of utc "[demo_slot]" demo_afternoon
      "fst (offerable_slots_for_window utc [demo_slot] (Some demo_afternoon))"
      "snd (offerable_slots_for_window utc [demo_slot] (Some demo_afternoon))"]
  by simp

end
