(* ===== verification/ChangePolicy.thy ===== *)
theory ChangePolicy
  imports Prelude
begin

text \<open>
  The customer reschedule and cancel policy of a service
  (\<open>api/src/booking/customer-change-policy.ts\<close>): the mode in force at an instant, who it binds,
  and the sentences the cutoff is spoken with. Also the inheritance of a service's timing fields
  (\<open>service-timing.ts\<close>) and its variable duration (\<open>service-duration.ts\<close>), both in
  \<open>api/src/booking/booking-providers/\<close>.
\<close>

section \<open>Numbers in templates\<close>

text \<open>The decimal numeral a template literal prints for a whole number.\<close>

fun nat_digits :: "nat \<Rightarrow> string" where
  "nat_digits n =
     (if n < 10 then [char_of (48 + n)] else nat_digits (n div 10) @ [char_of (48 + n mod 10)])"

definition show_int :: "int \<Rightarrow> string" where
  "show_int i = (if i < 0 then ''-'' @ nat_digits (nat (- i)) else nat_digits (nat i))"

declare nat_digits.simps [simp del]

section \<open>Modes\<close>

datatype change_mode = AutoChange | RequestChange | NotAllowed

definition customer_change_modes :: "change_mode list" where
  "customer_change_modes = [AutoChange, RequestChange, NotAllowed]"

definition default_customer_change_mode :: change_mode where
  "default_customer_change_mode = RequestChange"

datatype change_caller = Agent | InternalN8n | SchedulerAdmin | PublicManage "string option"

text \<open>\<open>start\<close> is \<^term>\<open>None\<close> where the stored date is not one.\<close>

definition resolve_customer_change ::
    "change_mode \<Rightarrow> instant option \<Rightarrow> int option \<Rightarrow> instant \<Rightarrow> change_mode"
  where
  "resolve_customer_change policy start until_min now =
     (if policy = NotAllowed then NotAllowed
      else (case until_min of
              None \<Rightarrow> policy
            | Some u \<Rightarrow>
                (case start of
                   None \<Rightarrow> policy
                 | Some s \<Rightarrow> if now > s - u * minute_ms then NotAllowed else policy)))"

fun subject_to_customer_change_policy :: "change_caller \<Rightarrow> bool" where
  "subject_to_customer_change_policy Agent = True"
| "subject_to_customer_change_policy InternalN8n = True"
| "subject_to_customer_change_policy SchedulerAdmin = False"
| "subject_to_customer_change_policy (PublicManage b) = True"

definition format_change_cutoff :: "int option \<Rightarrow> string option" where
  "format_change_cutoff until_min =
     (case until_min of
        None \<Rightarrow> None
      | Some u \<Rightarrow>
          if u = 0 then Some ''until start''
          else if u mod 1440 = 0 then Some (''until '' @ show_int (u div 1440) @ ''d before'')
          else if u mod 60 = 0 then Some (''until '' @ show_int (u div 60) @ ''h before'')
          else Some (''until '' @ show_int u @ ''min before''))"

definition spoken_change_cutoff :: "int option \<Rightarrow> string option" where
  "spoken_change_cutoff until_min =
     (case until_min of
        None \<Rightarrow> None
      | Some u \<Rightarrow>
          if u = 0 then Some ''after the appointment has started''
          else if u mod 1440 = 0 then
            (let days = u div 1440
             in Some (if days = 1 then ''1 day before the appointment''
                      else show_int days @ '' days before the appointment''))
          else if u mod 60 = 0 then
            (let hours = u div 60
             in Some (if hours = 1 then ''1 hour before the appointment''
                      else show_int hours @ '' hours before the appointment''))
          else Some (show_int u @ '' minutes before the appointment''))"

fun mode_name :: "change_mode \<Rightarrow> string" where
  "mode_name AutoChange = ''auto''"
| "mode_name RequestChange = ''request''"
| "mode_name NotAllowed = ''not_allowed''"

definition catalog_change_clause :: "string \<Rightarrow> change_mode option \<Rightarrow> int option \<Rightarrow> string" where
  "catalog_change_clause label mode until_min =
     (let resolved = nullish mode default_customer_change_mode;
          cutoff = (if resolved = NotAllowed then None else format_change_cutoff until_min)
      in case cutoff of
           Some c \<Rightarrow> label @ '': '' @ mode_name resolved @ '' '' @ c
         | None \<Rightarrow> label @ '': '' @ mode_name resolved)"

section \<open>The service and its inherited timing\<close>

datatype duration_mode = FixedDuration | RangeDuration | AiDuration

datatype booking_mode = AutoBooking | RequestBooking

record service_type =
  sv_id :: nat
  sv_duration :: int
  sv_duration_mode :: duration_mode
  sv_min_duration :: "int option"
  sv_max_duration :: "int option"
  sv_buffer_before :: "int option"
  sv_buffer_after :: "int option"
  sv_min_notice :: "int option"
  sv_max_horizon :: "int option"
  sv_max_per_day :: "int option"
  sv_booking_mode :: booking_mode
  sv_reschedule_mode :: "change_mode option"
  sv_reschedule_until :: "int option"
  sv_cancel_mode :: "change_mode option"
  sv_cancel_until :: "int option"

record business_rules =
  br_max_per_day :: int
  br_max_minutes :: int
  br_min_gap :: int
  br_buffer_before :: "int option"
  br_buffer_after :: "int option"
  br_min_notice :: "int option"
  br_max_horizon :: "int option"
  br_paused :: bool

text \<open>The settings row as stored; an absent row is one with nothing set.\<close>

record settings_row =
  sr_max_per_day :: "int option"
  sr_max_minutes :: "int option"
  sr_min_gap :: "int option"
  sr_buffer_before :: "int option"
  sr_buffer_after :: "int option"
  sr_min_notice :: "int option"
  sr_max_horizon :: "int option"
  sr_paused :: "bool option"

definition ceiling_of :: "int option \<Rightarrow> int" where
  "ceiling_of v = (case v of Some x \<Rightarrow> if x > 0 then x else 0 | None \<Rightarrow> 0)"

definition load_business_rules :: "settings_row option \<Rightarrow> business_rules" where
  "load_business_rules row =
     (case row of
        None \<Rightarrow> \<lparr>br_max_per_day = 0, br_max_minutes = 0, br_min_gap = 0, br_buffer_before = None,
                 br_buffer_after = None, br_min_notice = None, br_max_horizon = None, br_paused = False\<rparr>
      | Some r \<Rightarrow> \<lparr>br_max_per_day = ceiling_of (sr_max_per_day r), br_max_minutes = ceiling_of (sr_max_minutes r),
                   br_min_gap = ceiling_of (sr_min_gap r), br_buffer_before = sr_buffer_before r,
                   br_buffer_after = sr_buffer_after r, br_min_notice = sr_min_notice r,
                   br_max_horizon = sr_max_horizon r, br_paused = truthy_bool (sr_paused r)\<rparr>)"

definition platform_buffer_before :: int where "platform_buffer_before = 0"
definition platform_buffer_after :: int where "platform_buffer_after = 0"
definition platform_min_notice :: int where "platform_min_notice = 0"
definition platform_max_horizon :: int where "platform_max_horizon = 60"

definition pick_timing :: "int option \<Rightarrow> int option \<Rightarrow> int \<Rightarrow> int" where
  "pick_timing svc biz platform =
     (case svc of Some x \<Rightarrow> x | None \<Rightarrow> (case biz of Some y \<Rightarrow> y | None \<Rightarrow> platform))"

definition resolve_service_timing :: "service_type \<Rightarrow> business_rules \<Rightarrow> service_type" where
  "resolve_service_timing sv r =
     sv\<lparr>sv_buffer_before := Some (pick_timing (sv_buffer_before sv) (br_buffer_before r) platform_buffer_before),
        sv_buffer_after := Some (pick_timing (sv_buffer_after sv) (br_buffer_after r) platform_buffer_after),
        sv_min_notice := Some (pick_timing (sv_min_notice sv) (br_min_notice r) platform_min_notice),
        sv_max_horizon := Some (pick_timing (sv_max_horizon sv) (br_max_horizon r) platform_max_horizon)\<rparr>"

section \<open>Variable duration\<close>

definition has_valid_range :: "service_type \<Rightarrow> bool" where
  "has_valid_range sv =
     (if sv_duration_mode sv \<noteq> RangeDuration \<and> sv_duration_mode sv \<noteq> AiDuration then False
      else (case (sv_min_duration sv, sv_max_duration sv) of
              (Some mn, Some mx) \<Rightarrow> mn \<noteq> 0 \<and> mx \<noteq> 0 \<and> mn > 0 \<and> mx > 0 \<and> mn \<le> mx
            | _ \<Rightarrow> False))"

text \<open>
  What \<open>parseRequestedDuration\<close> makes of the tool argument: a finite number, given as a number or
  as a string that \<open>Number\<close> reads (parameter \<open>to_number\<close>), or nothing.
\<close>

datatype tool_value = NumArg int | StrArg string | OtherArg

definition parse_requested_duration :: "(string \<Rightarrow> int option) \<Rightarrow> tool_value \<Rightarrow> int option" where
  "parse_requested_duration to_number v =
     (case v of
        NumArg n \<Rightarrow> Some n
      | StrArg s \<Rightarrow> if js_trim s \<noteq> [] then to_number (js_trim s) else None
      | OtherArg \<Rightarrow> None)"

datatype duration_error = DurationOutOfRange | DurationRequired int int

definition resolve_duration :: "service_type \<Rightarrow> int option \<Rightarrow> duration_error + int" where
  "resolve_duration sv requested =
     (if \<not> has_valid_range sv then Inr (sv_duration sv)
      else
        (let mn = nullish (sv_min_duration sv) 0; mx = nullish (sv_max_duration sv) 0;
             effective = nullish requested mn
         in if effective < mn \<or> effective > mx then Inl DurationOutOfRange else Inr effective))"

definition duration_unresolved :: "service_type \<Rightarrow> int option \<Rightarrow> bool" where
  "duration_unresolved sv requested = (has_valid_range sv \<and> requested = None)"

definition assert_duration_chosen :: "service_type \<Rightarrow> int option \<Rightarrow> duration_error option" where
  "assert_duration_chosen sv requested =
     (if \<not> duration_unresolved sv requested then None
      else Some (DurationRequired (nullish (sv_min_duration sv) 0) (nullish (sv_max_duration sv) 0)))"

definition effective_duration_for_availability :: "service_type \<Rightarrow> int option \<Rightarrow> int" where
  "effective_duration_for_availability sv requested =
     (if \<not> has_valid_range sv then sv_duration sv
      else
        (let mn = nullish (sv_min_duration sv) 0; mx = nullish (sv_max_duration sv) 0
         in case requested of
              Some r \<Rightarrow> if mn \<le> r \<and> r \<le> mx then r else mn
            | None \<Rightarrow> mn))"

section \<open>What the policy guarantees\<close>

lemma change_never_promoted:
  "resolve_customer_change p s u now = p \<or> resolve_customer_change p s u now = NotAllowed"
  by (auto simp: resolve_customer_change_def split: option.split)

text \<open>
  Once a customer may not change a booking, no later moment allows it again under the same
  policy.
\<close>

theorem change_window_only_closes:
  assumes "resolve_customer_change p s u now = NotAllowed" and "now \<le> later"
  shows "resolve_customer_change p s u later = NotAllowed"
  using assms by (auto simp: resolve_customer_change_def split: option.splits if_splits)

theorem change_window_only_closes_witness:
  "resolve_customer_change AutoChange (Some 7200000) (Some 60) 7200000 = NotAllowed"
proof -
  have "resolve_customer_change AutoChange (Some 7200000) (Some 60) 3600001 = NotAllowed" by code_simp
  from change_window_only_closes [OF this, of 7200000] show ?thesis by simp
qed

text \<open>
  Availability and create agree on the length: whenever create accepts a chosen length, the slot
  list was computed with that length, and a slot shown for an unknown length fits the shortest job.
\<close>

text \<open>
  A length that booking accepts is the length availability was computed for, and for a service
  with a valid range it lies inside that range.
\<close>

theorem offered_length_is_the_booked_length:
  assumes "resolve_duration sv requested = Inr d"
  shows "effective_duration_for_availability sv requested = d \<and>
         (has_valid_range sv \<longrightarrow>
            (\<exists>mn mx. sv_min_duration sv = Some mn \<and> sv_max_duration sv = Some mx \<and> 0 < mn \<and> mn \<le> d \<and> d \<le> mx))"
  using assms
  by (auto simp: resolve_duration_def effective_duration_for_availability_def has_valid_range_def Let_def
      split: if_splits option.splits)

definition demo_range_service :: service_type where
  "demo_range_service = \<lparr>sv_id = 1, sv_duration = 60, sv_duration_mode = RangeDuration,
     sv_min_duration = Some 30, sv_max_duration = Some 90, sv_buffer_before = None, sv_buffer_after = Some 10,
     sv_min_notice = None, sv_max_horizon = None, sv_max_per_day = Some 2, sv_booking_mode = AutoBooking,
     sv_reschedule_mode = None, sv_reschedule_until = None, sv_cancel_mode = None, sv_cancel_until = None\<rparr>"

theorem offered_length_is_the_booked_length_witness:
  "effective_duration_for_availability demo_range_service (Some 45) = 45"
proof -
  have "resolve_duration demo_range_service (Some 45) = Inr 45" by code_simp
  from offered_length_is_the_booked_length [OF this] show ?thesis by blast
qed

lemma resolved_service_complete:
  "\<exists>a b n h. sv_buffer_before (resolve_service_timing sv r) = Some a \<and>
     sv_buffer_after (resolve_service_timing sv r) = Some b \<and>
     sv_min_notice (resolve_service_timing sv r) = Some n \<and>
     sv_max_horizon (resolve_service_timing sv r) = Some h"
  by (simp add: resolve_service_timing_def)

lemma resolve_service_timing_idem:
  "resolve_service_timing (resolve_service_timing sv r) r' = resolve_service_timing sv r"
  by (simp add: resolve_service_timing_def pick_timing_def)

end
