(* ===== verification/Ledger.thy ===== *)
theory Ledger
  imports BookingDates ChangePolicy
begin

text \<open>
  The booking ledger: the rows of \<open>chatbot_bookings\<close> with the constraints its migrations declare,
  the capacity gates (\<open>booking-providers/capacity.ts\<close>), the busy loaders (\<open>busy.ts\<close>), the
  duplicate rule (\<open>dedup.ts\<close>) and the write operations of \<open>internal.provider.ts\<close>. A ledger is the
  list of rows; each operation takes the ledger its pre-lock reads saw and the one its transaction
  runs on, because the two may differ.
\<close>

section \<open>Rows\<close>

datatype booking_status = Pending | Confirmed | Cancelled | RequestCreated

datatype request_kind = NewRequest | RescheduleRequest | CancelRequest

datatype request_resolution = Accepted | Declined

datatype travel_check = TravelOk | TravelDegraded | TravelCaptured | TravelOverridden

datatype location_source = Pin | Geocoded

record booking =
  bk_id :: nat
  bk_tenant :: nat
  bk_bot :: nat
  bk_service :: "nat option"
  bk_session :: "nat option"
  bk_status :: booking_status
  bk_start :: instant
  bk_end :: instant
  bk_from :: instant
  bk_to :: instant
  bk_key :: string
  bk_related :: "nat option"
  bk_kind :: request_kind
  bk_resolution :: "request_resolution option"
  bk_duration :: "int option"
  bk_sequence :: int
  bk_travel :: "travel_check option"
  bk_idem :: "string option"
  bk_created :: instant
  bk_address :: "string option"
  bk_place :: "string option"
  bk_source :: "location_source option"

type_synonym ledger = "booking list"

definition held :: "booking \<Rightarrow> bool" where
  "held b = (bk_status b = Pending \<or> bk_status b = Confirmed)"

text \<open>\<open>tstzrange(a, b, '[)') && tstzrange(c, d, '[)')\<close>; an empty range overlaps nothing.\<close>

definition ranges_overlap :: "instant \<Rightarrow> instant \<Rightarrow> instant \<Rightarrow> instant \<Rightarrow> bool" where
  "ranges_overlap a b c d = (a < b \<and> c < d \<and> a < d \<and> c < b)"

definition open_change :: "booking \<Rightarrow> bool" where
  "open_change b = (bk_status b = RequestCreated \<and> bk_kind b \<noteq> NewRequest \<and> bk_related b \<noteq> None)"

section \<open>The constraints of the table\<close>

datatype pg_error = ExclusionViolation | UniqueViolation | CheckViolation

definition check_ok :: "booking \<Rightarrow> bool" where
  "check_ok b = (bk_start b < bk_end b \<and> bk_from b \<le> bk_to b \<and>
     (bk_kind b = NewRequest \<longleftrightarrow> bk_related b = None))"

definition unique_clash :: "booking \<Rightarrow> booking \<Rightarrow> bool" where
  "unique_clash b c =
     ((bk_idem b \<noteq> None \<and> bk_idem b = bk_idem c \<and> bk_tenant b = bk_tenant c \<and> bk_bot b = bk_bot c) \<or>
      (open_change b \<and> open_change c \<and> bk_related b = bk_related c))"

definition slot_clash :: "booking \<Rightarrow> booking \<Rightarrow> bool" where
  "slot_clash b c =
     (held b \<and> held c \<and> bk_key b = bk_key c \<and> ranges_overlap (bk_from b) (bk_to b) (bk_from c) (bk_to c))"

definition row_error :: "booking \<Rightarrow> ledger \<Rightarrow> pg_error option" where
  "row_error b others =
     (if \<not> check_ok b then Some CheckViolation
      else if list_ex (unique_clash b) others then Some UniqueViolation
      else if list_ex (slot_clash b) others then Some ExclusionViolation
      else None)"

definition insert_row :: "booking \<Rightarrow> ledger \<Rightarrow> pg_error + ledger" where
  "insert_row b db = (case row_error b db of Some e \<Rightarrow> Inl e | None \<Rightarrow> Inr (db @ [b]))"

definition find_row :: "nat \<Rightarrow> ledger \<Rightarrow> booking option" where
  "find_row i db = find (\<lambda>b. bk_id b = i) db"

text \<open>
  \<open>UPDATE \<dots> WHERE id = i AND guard RETURNING\<close>: no row, a violated constraint, or the new row.
\<close>

definition update_row ::
    "nat \<Rightarrow> (booking \<Rightarrow> bool) \<Rightarrow> (booking \<Rightarrow> booking) \<Rightarrow> ledger \<Rightarrow> pg_error + booking option \<times> ledger"
  where
  "update_row i cond f db =
     (case find_row i db of
        None \<Rightarrow> Inr (None, db)
      | Some b \<Rightarrow>
          if \<not> cond b then Inr (None, db)
          else (case row_error (f b) (filter (\<lambda>c. bk_id c \<noteq> i) db) of
                  Some e \<Rightarrow> Inl e
                | None \<Rightarrow> Inr (Some (f b), map (\<lambda>c. if bk_id c = i then f b else c) db)))"

section \<open>Errors and results\<close>

datatype booking_error =
    BookingNotFound | CapacityReached | SlotUnavailable | NotARequest | RequestExpired
  | RequestWouldDuplicate nat | RequestAlreadyHandled | BookingNotReschedulable
  | BookingNotCancellable | ChangeNotAllowed | ChangeRequestOpen nat | OriginalNotConfirmed
  | TemporarilyUnavailable | InvalidStartTime | DurationError duration_error
  | AddressBindingChanged | TravelTimeConflict | GateError nat | DatabaseError pg_error
  | InvalidRange | RequestOnlyService | BookingsPaused | CalendarSyncDisabled | CalendarNotConnected
  | RequestOutsideWindow window_refusal | RequestBeforeCheck string

datatype create_result = Booked nat | Requested nat | DuplicateOf nat

section \<open>Capacity\<close>

text \<open>The half-open local day of an instant; \<^term>\<open>None\<close> where the zone is unknown to luxon.\<close>

definition day_window :: "tzdb \<Rightarrow> string \<Rightarrow> instant \<Rightarrow> (instant \<times> instant) option" where
  "day_window tz name t =
     (case tz name of None \<Rightarrow> None | Some z \<Rightarrow> Some (zstart z t, zstart z (zplus_days z 1 t)))"

definition in_day :: "(instant \<times> instant) option \<Rightarrow> instant \<Rightarrow> bool" where
  "in_day w t = (case w of None \<Rightarrow> False | Some (a, b) \<Rightarrow> a \<le> t \<and> t < b)"

definition not_excluded :: "nat option \<Rightarrow> booking \<Rightarrow> bool" where
  "not_excluded ex b = (case ex of None \<Rightarrow> True | Some i \<Rightarrow> bk_id b \<noteq> i)"

definition service_day_rows ::
    "(instant \<times> instant) option \<Rightarrow> nat \<Rightarrow> nat option \<Rightarrow> ledger \<Rightarrow> ledger" where
  "service_day_rows w sid ex db =
     filter (\<lambda>b. bk_service b = Some sid \<and> held b \<and> in_day w (bk_start b) \<and> not_excluded ex b) db"

definition enforce_service_day_capacity ::
    "tzdb \<Rightarrow> string \<Rightarrow> service_type \<Rightarrow> instant \<Rightarrow> nat option \<Rightarrow> ledger \<Rightarrow> booking_error option" where
  "enforce_service_day_capacity tz name sv start ex db =
     (case sv_max_per_day sv of
        None \<Rightarrow> None
      | Some mx \<Rightarrow>
          if mx \<le> 0 then None
          else if int (length (service_day_rows (day_window tz name start) (sv_id sv) ex db)) \<ge> mx
          then Some CapacityReached else None)"

record write_window =
  ww_start :: instant
  ww_end :: instant
  ww_from :: instant
  ww_to :: instant

definition bot_day_rows :: "(instant \<times> instant) option \<Rightarrow> nat \<Rightarrow> nat option \<Rightarrow> ledger \<Rightarrow> ledger" where
  "bot_day_rows w agent ex db =
     filter (\<lambda>b. bk_bot b = agent \<and> held b \<and> in_day w (bk_start b) \<and> not_excluded ex b) db"

text \<open>\<open>COALESCE(SUM(EXTRACT(EPOCH FROM (end_utc - start_utc)) / 60), 0)::int\<close>, rounded half up.\<close>

definition booked_minutes :: "ledger \<Rightarrow> int" where
  "booked_minutes rows = (sum_list (map (\<lambda>b. bk_end b - bk_start b) rows) + 30000) div minute_ms"

definition gap_clash :: "string \<Rightarrow> write_window \<Rightarrow> int \<Rightarrow> nat option \<Rightarrow> booking \<Rightarrow> bool" where
  "gap_clash key w gap ex b =
     (bk_key b = key \<and> held b \<and>
      ranges_overlap (bk_from b) (bk_to b) (ww_from w - gap * minute_ms) (ww_to w + gap * minute_ms) \<and>
      not_excluded ex b)"

definition enforce_business_capacity ::
    "tzdb \<Rightarrow> string \<Rightarrow> nat \<Rightarrow> string \<Rightarrow> business_rules \<Rightarrow> write_window \<Rightarrow> nat option \<Rightarrow> ledger \<Rightarrow>
     booking_error option"
  where
  "enforce_business_capacity tz name agent key r w ex db =
     (let rows = bot_day_rows (day_window tz name (ww_start w)) agent ex db
      in if br_max_per_day r \<noteq> 0 \<and> int (length rows) \<ge> br_max_per_day r then Some CapacityReached
         else if br_max_minutes r \<noteq> 0 \<and>
                 booked_minutes rows * minute_ms + max 0 (ww_end w - ww_start w) > br_max_minutes r * minute_ms
         then Some CapacityReached
         else if br_min_gap r \<noteq> 0 \<and> list_ex (gap_clash key w (br_min_gap r) ex) db
         then Some CapacityReached
         else None)"

section \<open>Busy intervals\<close>

definition load_busy :: "string \<Rightarrow> instant \<Rightarrow> instant \<Rightarrow> nat option \<Rightarrow> ledger \<Rightarrow> interval list" where
  "load_busy key from to ex db =
     map (\<lambda>b. \<lparr>iv_start = bk_from b, iv_end = bk_to b\<rparr>)
       (filter (\<lambda>b. bk_key b = key \<and> held b \<and> ranges_overlap (bk_from b) (bk_to b) from to \<and> not_excluded ex b) db)"

definition load_day_ledger ::
    "nat \<Rightarrow> instant \<Rightarrow> instant \<Rightarrow> nat option \<Rightarrow> nat option \<Rightarrow> ledger \<Rightarrow> interval list" where
  "load_day_ledger agent from to ex service db =
     map (\<lambda>b. \<lparr>iv_start = bk_start b, iv_end = bk_end b\<rparr>)
       (filter (\<lambda>b. bk_bot b = agent \<and> held b \<and> from \<le> bk_start b \<and> bk_start b < to \<and> not_excluded ex b \<and>
                    (case service of None \<Rightarrow> True | Some s \<Rightarrow> bk_service b = Some s)) db)"

text \<open>
  The connected calendar: no provider, or the busy intervals of a range, or a failure
  (\<^term>\<open>Some None\<close>).
\<close>

type_synonym external_calendar = "(instant \<Rightarrow> instant \<Rightarrow> interval list option) option"

definition pad_interval :: "int \<Rightarrow> interval \<Rightarrow> interval" where
  "pad_interval gap iv = \<lparr>iv_start = iv_start iv - gap, iv_end = iv_end iv + gap\<rparr>"

definition same_second :: "instant \<times> instant \<Rightarrow> interval \<Rightarrow> bool" where
  "same_second x iv =
     (iv_start iv div 1000 = fst x div 1000 \<and> iv_end iv div 1000 = snd x div 1000)"

definition load_all_busy ::
    "external_calendar \<Rightarrow> int \<Rightarrow> string \<Rightarrow> instant \<Rightarrow> instant \<Rightarrow> nat option \<Rightarrow> (instant \<times> instant) option \<Rightarrow>
     ledger \<Rightarrow> booking_error + interval list"
  where
  "load_all_busy ext min_gap key from to ex ex_interval db =
     (let gap = (if min_gap > 0 then min_gap * minute_ms else 0);
          internal = load_busy key from to ex db;
          pad = (\<lambda>xs. if min_gap > 0 then map (pad_interval gap) xs else xs)
      in case ext of
           None \<Rightarrow> Inr (pad internal)
         | Some provider \<Rightarrow>
             (case provider (from - gap) (to + gap) of
                None \<Rightarrow> Inl TemporarilyUnavailable
              | Some outside \<Rightarrow>
                  (let kept = (case ex_interval of
                                 None \<Rightarrow> outside
                               | Some x \<Rightarrow> filter (\<lambda>iv. \<not> same_second x iv) outside)
                   in Inr (pad internal @ pad kept))))"

section \<open>Duplicates\<close>

definition booking_dedup_window_ms :: int where "booking_dedup_window_ms = 5 * 60 * 1000"

definition created_within_dedup_window :: "instant \<Rightarrow> booking \<Rightarrow> bool" where
  "created_within_dedup_window now b = (now - booking_dedup_window_ms < bk_created b)"

text \<open>\<open>token\<close> is \<open>addressToken\<close>, a hash of the picked place or else of the typed text.\<close>

type_synonym address_token = "string option \<Rightarrow> string option \<Rightarrow> string"

definition dedup_identity ::
    "address_token \<Rightarrow> bool \<Rightarrow> string option \<Rightarrow> string option \<Rightarrow> bool \<Rightarrow> string" where
  "dedup_identity token required address place picked =
     (if \<not> required then ''noaddr'' else token address (if picked then place else None))"

definition row_dedup_identity :: "address_token \<Rightarrow> booking \<Rightarrow> bool \<Rightarrow> string" where
  "row_dedup_identity token b required =
     dedup_identity token required (bk_address b) (bk_place b) (bk_source b = Some Pin)"

definition call_dedup_identity :: "address_token \<Rightarrow> bool \<Rightarrow> string option \<Rightarrow> string option \<Rightarrow> string" where
  "call_dedup_identity token required address place = dedup_identity token required address place True"

definition existing_by_key :: "nat \<Rightarrow> nat \<Rightarrow> string \<Rightarrow> instant \<Rightarrow> ledger \<Rightarrow> booking option" where
  "existing_by_key tenant agent idem now db =
     find (\<lambda>b. bk_tenant b = tenant \<and> bk_bot b = agent \<and> bk_idem b = Some idem \<and>
               created_within_dedup_window now b) db"

text \<open>The most recently created match, the first of several created at one instant.\<close>

definition recent_match :: "nat \<Rightarrow> nat \<Rightarrow> nat \<Rightarrow> nat \<Rightarrow> instant \<Rightarrow> instant \<Rightarrow> ledger \<Rightarrow> booking option" where
  "recent_match tenant agent session service start now db =
     best_by (\<lambda>x y. bk_created y < bk_created x) None
       (filter (\<lambda>b. bk_tenant b = tenant \<and> bk_bot b = agent \<and> bk_session b = Some session \<and>
                    bk_service b = Some service \<and> bk_start b = start \<and> created_within_dedup_window now b) db)"

section \<open>Environment and callers\<close>

text \<open>
  What a call resolves before it writes: the rule of the agent with its zone, the itinerary key, the
  business rules, the services by id and the sole bookable one, the connected calendar, the clock,
  and the visitor behind a session.
\<close>

record env =
  ev_tz :: tzdb
  ev_rule :: availability_rule
  ev_tenant :: nat
  ev_bot :: nat
  ev_key :: string
  ev_rules :: business_rules
  ev_services :: "nat \<Rightarrow> service_type option"
  ev_default_service :: "service_type option"
  ev_external :: external_calendar
  ev_now :: instant
  ev_visitor :: "nat \<Rightarrow> string option"
  ev_session_agent :: "nat \<Rightarrow> nat"
  ev_token :: address_token
  ev_from_iso :: date_parser
  ev_calendar :: bool
  ev_sync :: bool

record caller =
  ca_session :: nat
  ca_admin :: bool
  ca_subject :: bool

definition zone_name :: "env \<Rightarrow> string" where
  "zone_name e = ar_timezone (ev_rule e)"

definition can_auto_confirm :: "env \<Rightarrow> bool" where
  "can_auto_confirm e = (ev_calendar e \<and> ev_sync e)"

definition service_for_booking :: "env \<Rightarrow> booking \<Rightarrow> booking_error + service_type" where
  "service_for_booking e b =
     (case (case bk_service b of None \<Rightarrow> None | Some i \<Rightarrow> ev_services e i) of
        Some sv \<Rightarrow> Inr (resolve_service_timing sv (ev_rules e))
      | None \<Rightarrow>
          (case ev_default_service e of
             Some sv \<Rightarrow> Inr (resolve_service_timing sv (ev_rules e))
           | None \<Rightarrow> Inl (GateError 0)))"

definition caller_owns_booking :: "env \<Rightarrow> caller \<Rightarrow> booking \<Rightarrow> bool" where
  "caller_owns_booking e c b =
     (case bk_session b of
        None \<Rightarrow> False
      | Some s \<Rightarrow>
          if s = ca_session c then True
          else (case ev_visitor e (ca_session c) of
                  None \<Rightarrow> False
                | Some v \<Rightarrow> v \<noteq> [] \<and> ev_visitor e s = Some v))"

definition load_owned :: "env \<Rightarrow> caller \<Rightarrow> nat \<Rightarrow> ledger \<Rightarrow> booking_error + booking" where
  "load_owned e c i db =
     (case find_row i db of
        None \<Rightarrow> Inl BookingNotFound
      | Some b \<Rightarrow>
          if bk_tenant b \<noteq> ev_tenant e \<or> bk_bot b \<noteq> ev_bot e then Inl BookingNotFound
          else if \<not> ca_admin c \<and> \<not> caller_owns_booking e c b then Inl BookingNotFound
          else Inr b)"

section \<open>Is the time still offered\<close>

definition slot_service_of :: "service_type \<Rightarrow> int \<Rightarrow> slot_service" where
  "slot_service_of sv duration =
     \<lparr>ss_duration = duration, ss_buffer_before = sv_buffer_before sv,
      ss_buffer_after = sv_buffer_after sv, ss_min_notice = sv_min_notice sv,
      ss_max_horizon = sv_max_horizon sv, ss_max_per_day = sv_max_per_day sv\<rparr>"

definition slot_input_at :: "env \<Rightarrow> service_type \<Rightarrow> int \<Rightarrow> instant \<Rightarrow> interval list \<Rightarrow> slot_input" where
  "slot_input_at e sv duration start busy =
     \<lparr>si_rule = ev_rule e, si_service = slot_service_of sv duration,
      si_range_start = Some start, si_range_end = Some (start + 1000), si_now = ev_now e,
      si_busy = Some busy, si_business = None, si_ledger = None, si_service_ledger = None\<rparr>"

definition offered_at :: "env \<Rightarrow> service_type \<Rightarrow> int \<Rightarrow> instant \<Rightarrow> interval list \<Rightarrow> bool" where
  "offered_at e sv duration start busy =
     list_ex (\<lambda>s. slot_start s = start) (compute_slots (ev_tz e) (slot_input_at e sv duration start busy))"

definition blocked_window :: "service_type \<Rightarrow> instant \<Rightarrow> instant \<Rightarrow> write_window" where
  "blocked_window sv start stop =
     \<lparr>ww_start = start, ww_end = stop,
      ww_from = start - nullish (sv_buffer_before sv) 0 * minute_ms,
      ww_to = stop + nullish (sv_buffer_after sv) 0 * minute_ms\<rparr>"

text \<open>The busy diary a day either side, and the offer recomputed on it.\<close>

definition assert_slot_offered ::
    "env \<Rightarrow> service_type \<Rightarrow> int \<Rightarrow> instant \<Rightarrow> instant \<Rightarrow> nat option \<Rightarrow> (instant \<times> instant) option \<Rightarrow> ledger \<Rightarrow>
     booking_error option"
  where
  "assert_slot_offered e sv duration start stop ex ex_interval db =
     (case load_all_busy (ev_external e) (br_min_gap (ev_rules e)) (ev_key e)
             (start - 24 * hour_ms) (stop + 24 * hour_ms) ex ex_interval db of
        Inl err \<Rightarrow> Some err
      | Inr busy \<Rightarrow> if offered_at e sv duration start busy then None else Some SlotUnavailable)"

definition refusal_at :: "env \<Rightarrow> service_type \<Rightarrow> instant \<Rightarrow> int \<Rightarrow> window_refusal option" where
  "refusal_at e sv start duration =
     request_window_refusal (ev_from_iso e) (ev_tz e) (ev_rule e) (slot_service_of sv (sv_duration sv)) start duration
       (ev_now e)"

section \<open>Create\<close>

text \<open>
  The verdict of the travel gate before the lock, as \<open>travelGateForCreate\<close> returns it: inactive,
  cleared with the value to stamp, downgraded to a request, or refused.
\<close>

datatype travel_gate = GateInactive | GateCleared travel_check | GateRequest | GateRefused booking_error

record create_call =
  cc_id :: nat
  cc_idem :: string
  cc_session :: nat
  cc_service :: service_type
  cc_start :: "instant option"
  cc_requested :: "int option"
  cc_address :: "string option"
  cc_place :: "string option"
  cc_needs_address :: bool
  cc_intake_gate :: "booking_error option"
  cc_contact_gate :: "booking_error option"
  cc_request_gate :: "booking_error option"
  cc_travel :: travel_gate
  cc_travel_assert :: "ledger \<Rightarrow> booking_error option"
  cc_request_travel :: "travel_check option"
  cc_placed :: "string option \<times> location_source option"
  cc_contact_address :: "string option"
  cc_binding_moved :: bool

definition new_row ::
    "env \<Rightarrow> create_call \<Rightarrow> booking_status \<Rightarrow> write_window \<Rightarrow> int \<Rightarrow> travel_check option \<Rightarrow> booking" where
  "new_row e c st w duration tc =
     \<lparr>bk_id = cc_id c, bk_tenant = ev_tenant e, bk_bot = ev_bot e,
      bk_service = Some (sv_id (cc_service c)), bk_session = Some (cc_session c), bk_status = st,
      bk_start = ww_start w, bk_end = ww_end w, bk_from = ww_from w, bk_to = ww_to w,
      bk_key = ev_key e, bk_related = None, bk_kind = NewRequest, bk_resolution = None,
      bk_duration = Some duration, bk_sequence = 0, bk_travel = tc, bk_idem = Some (cc_idem c),
      bk_created = ev_now e, bk_address = cc_contact_address c, bk_place = fst (cc_placed c),
      bk_source = snd (cc_placed c)\<rparr>"

datatype tx_failure = TxBooking booking_error | TxDatabase pg_error | TxAddressMoved

text \<open>The transaction of \<open>createBooking\<close>, under the advisory lock of the itinerary.\<close>

definition create_tx ::
    "env \<Rightarrow> create_call \<Rightarrow> write_window \<Rightarrow> int \<Rightarrow> travel_check option \<Rightarrow> ledger \<Rightarrow> tx_failure + ledger" where
  "create_tx e c w duration tc db =
     (case enforce_service_day_capacity (ev_tz e) (zone_name e) (cc_service c) (ww_start w) None db of
        Some err \<Rightarrow> Inl (TxBooking err)
      | None \<Rightarrow>
     (case enforce_business_capacity (ev_tz e) (zone_name e) (ev_bot e) (ev_key e) (ev_rules e) w None db of
        Some err \<Rightarrow> Inl (TxBooking err)
      | None \<Rightarrow>
     (case (if tc = None then None else cc_travel_assert c db) of
        Some err \<Rightarrow> Inl (TxBooking err)
      | None \<Rightarrow>
          if cc_binding_moved c then Inl TxAddressMoved
          else (case insert_row (new_row e c Confirmed w duration tc) db of
                  Inl err \<Rightarrow> Inl (TxDatabase err)
                | Inr db' \<Rightarrow> Inr db'))))"

definition recover_failed_create :: "env \<Rightarrow> create_call \<Rightarrow> tx_failure \<Rightarrow> ledger \<Rightarrow> booking_error + create_result"
  where
  "recover_failed_create e c f db =
     (case f of
        TxAddressMoved \<Rightarrow> Inl AddressBindingChanged
      | TxBooking err \<Rightarrow> Inl err
      | TxDatabase ExclusionViolation \<Rightarrow> Inl SlotUnavailable
      | TxDatabase UniqueViolation \<Rightarrow>
          (case existing_by_key (ev_tenant e) (ev_bot e) (cc_idem c) (ev_now e) db of
             Some b \<Rightarrow> Inr (DuplicateOf (bk_id b))
           | None \<Rightarrow> Inl SlotUnavailable)
      | TxDatabase CheckViolation \<Rightarrow> Inl (DatabaseError CheckViolation))"

definition plain_window :: "instant \<Rightarrow> instant \<Rightarrow> write_window" where
  "plain_window start stop = \<lparr>ww_start = start, ww_end = stop, ww_from = start, ww_to = stop\<rparr>"

definition create_request ::
    "env \<Rightarrow> create_call \<Rightarrow> instant \<Rightarrow> int \<Rightarrow> travel_check option \<Rightarrow> ledger \<Rightarrow>
     (booking_error + create_result) \<times> ledger"
  where
  "create_request e c start duration tc db =
     (case cc_request_gate c of
        Some err \<Rightarrow> (Inl err, db)
      | None \<Rightarrow>
          if cc_binding_moved c then (Inl AddressBindingChanged, db)
          else
            (case insert_row (new_row e c RequestCreated
                     (plain_window start (start + duration * minute_ms)) duration tc) db of
               Inr db' \<Rightarrow> (Inr (Requested (cc_id c)), db')
             | Inl UniqueViolation \<Rightarrow>
                 (case existing_by_key (ev_tenant e) (ev_bot e) (cc_idem c) (ev_now e) db of
                    Some b \<Rightarrow> (Inr (DuplicateOf (bk_id b)), db)
                  | None \<Rightarrow> (Inl (DatabaseError UniqueViolation), db))
             | Inl err \<Rightarrow> (Inl (DatabaseError err), db)))"

definition matching_duplicate :: "env \<Rightarrow> create_call \<Rightarrow> instant \<Rightarrow> ledger \<Rightarrow> booking option" where
  "matching_duplicate e c start db =
     (case recent_match (ev_tenant e) (ev_bot e) (cc_session c) (sv_id (cc_service c)) start (ev_now e) db of
        None \<Rightarrow> None
      | Some b \<Rightarrow>
          if bk_status b = Cancelled then None
          else if row_dedup_identity (ev_token e) b (cc_needs_address c) \<noteq>
                  call_dedup_identity (ev_token e) (cc_needs_address c) (cc_address c) (cc_place c)
          then None else Some b)"

text \<open>
  \<open>createBooking\<close>: everything before the lock reads the ledger \<open>db\<close>, the transaction runs on
  \<open>now\<close>. The gates of other components enter as the values of the call record.
\<close>

definition create_booking :: "env \<Rightarrow> create_call \<Rightarrow> ledger \<Rightarrow> ledger \<Rightarrow> (booking_error + create_result) \<times> ledger"
  where
  "create_booking e c db now =
     (case existing_by_key (ev_tenant e) (ev_bot e) (cc_idem c) (ev_now e) db of
        Some b \<Rightarrow> (Inr (DuplicateOf (bk_id b)), now)
      | None \<Rightarrow>
     (case cc_start c of
        None \<Rightarrow> (Inl InvalidStartTime, now)
      | Some start \<Rightarrow>
     (case assert_duration_chosen (cc_service c) (cc_requested c) of
        Some err \<Rightarrow> (Inl (DurationError err), now)
      | None \<Rightarrow>
     (case resolve_duration (cc_service c) (cc_requested c) of
        Inl err \<Rightarrow> (Inl (DurationError err), now)
      | Inr duration \<Rightarrow>
     (case matching_duplicate e c start db of
        Some b \<Rightarrow> (Inr (DuplicateOf (bk_id b)), now)
      | None \<Rightarrow>
     (case cc_intake_gate c of
        Some err \<Rightarrow> (Inl err, now)
      | None \<Rightarrow>
          if sv_booking_mode (cc_service c) = RequestBooking \<or> \<not> (can_auto_confirm e \<and> \<not> br_paused (ev_rules e))
          then create_request e c start duration (cc_request_travel c) now
          else
     (case cc_contact_gate c of
        Some err \<Rightarrow> (Inl err, now)
      | None \<Rightarrow>
     (let w = blocked_window (cc_service c) start (start + duration * minute_ms)
      in case assert_slot_offered e (cc_service c) duration start (ww_end w) None None db of
        Some err \<Rightarrow> (Inl err, now)
      | None \<Rightarrow>
     (case cc_travel c of
        GateRefused err \<Rightarrow> (Inl err, now)
      | GateRequest \<Rightarrow> create_request e c start duration (Some TravelCaptured) now
      | gate \<Rightarrow>
          (let tc = (case gate of GateCleared t \<Rightarrow> Some t | _ \<Rightarrow> None)
           in case create_tx e c w duration tc now of
                Inr now' \<Rightarrow> (Inr (Booked (cc_id c)), now')
              | Inl f \<Rightarrow> (recover_failed_create e c f now, now)))))))))))"

section \<open>Cancel and decline\<close>

definition close_open_change_requests :: "env \<Rightarrow> nat \<Rightarrow> request_resolution \<Rightarrow> ledger \<Rightarrow> ledger" where
  "close_open_change_requests e original res db =
     map (\<lambda>b. if bk_related b = Some original \<and> bk_tenant b = ev_tenant e \<and> bk_status b = RequestCreated \<and>
               (bk_kind b = RescheduleRequest \<or> bk_kind b = CancelRequest)
             then b\<lparr>bk_status := Cancelled, bk_resolution := Some res\<rparr> else b) db"

definition close_change_request_row :: "env \<Rightarrow> nat \<Rightarrow> request_resolution \<Rightarrow> ledger \<Rightarrow> pg_error + bool \<times> ledger"
  where
  "close_change_request_row e i res db =
     (case update_row i (\<lambda>b. bk_tenant b = ev_tenant e \<and> bk_status b = RequestCreated)
             (\<lambda>b. b\<lparr>bk_status := Cancelled, bk_resolution := Some res\<rparr>) db of
        Inl err \<Rightarrow> Inl err
      | Inr (r, db') \<Rightarrow> Inr (r \<noteq> None, db'))"

datatype change_result = Done | ChangeRequested nat

text \<open>
  \<open>createChangeRequest\<close>: the open request for the original is reused, else one is inserted; an
  insert that loses the race returns the winner.
\<close>

definition change_row ::
    "env \<Rightarrow> caller \<Rightarrow> booking \<Rightarrow> request_kind \<Rightarrow> instant \<Rightarrow> instant \<Rightarrow> string option \<Rightarrow> nat \<Rightarrow> booking" where
  "change_row e ca original kind start stop address i =
     \<lparr>bk_id = i, bk_tenant = ev_tenant e, bk_bot = ev_bot e, bk_service = bk_service original,
      bk_session = Some (nullish (bk_session original) (ca_session ca)), bk_status = RequestCreated,
      bk_start = start, bk_end = stop, bk_from = start, bk_to = stop, bk_key = bk_key original,
      bk_related = Some (bk_id original), bk_kind = kind, bk_resolution = None,
      bk_duration = bk_duration original, bk_sequence = 0, bk_travel = None, bk_idem = None,
      bk_created = ev_now e,
      bk_address = (case address of None \<Rightarrow> bk_address original | Some a \<Rightarrow> Some a),
      bk_place = None, bk_source = None\<rparr>"

definition open_request_for :: "nat \<Rightarrow> ledger \<Rightarrow> booking option" where
  "open_request_for original db =
     find (\<lambda>b. bk_related b = Some original \<and> bk_status b = RequestCreated) db"

definition reuse_open_change_request ::
    "env \<Rightarrow> booking \<Rightarrow> request_kind \<Rightarrow> instant \<Rightarrow> instant \<Rightarrow> string option \<Rightarrow> ledger \<Rightarrow>
     (booking_error + change_result) \<times> ledger"
  where
  "reuse_open_change_request e existing kind start stop address db =
     (if bk_kind existing \<noteq> kind then (Inl (ChangeRequestOpen (bk_id existing)), db)
      else if kind = RescheduleRequest then
        (case update_row (bk_id existing)
                (\<lambda>b. bk_tenant b = ev_tenant e \<and> bk_status b = RequestCreated)
                (\<lambda>b. b\<lparr>bk_start := start, bk_end := stop, bk_from := start, bk_to := stop,
                       bk_address := (case address of None \<Rightarrow> bk_address b | Some a \<Rightarrow> Some a)\<rparr>) db of
           Inl err \<Rightarrow> (Inl (DatabaseError err), db)
         | Inr (_, db') \<Rightarrow> (Inr (ChangeRequested (bk_id existing)), db'))
      else (Inr (ChangeRequested (bk_id existing)), db))"

definition create_change_request ::
    "env \<Rightarrow> caller \<Rightarrow> booking \<Rightarrow> request_kind \<Rightarrow> instant \<Rightarrow> instant \<Rightarrow> string option \<Rightarrow> nat \<Rightarrow> ledger \<Rightarrow> ledger \<Rightarrow>
     (booking_error + change_result) \<times> ledger"
  where
  "create_change_request e ca original kind start stop address i db now =
     (case open_request_for (bk_id original) db of
        Some existing \<Rightarrow> reuse_open_change_request e existing kind start stop address now
      | None \<Rightarrow>
          (case insert_row (change_row e ca original kind start stop address i) now of
             Inr now' \<Rightarrow> (Inr (ChangeRequested i), now')
           | Inl UniqueViolation \<Rightarrow>
               (case open_request_for (bk_id original) now of
                  Some raced \<Rightarrow>
                    if bk_kind raced \<noteq> kind then (Inl (ChangeRequestOpen (bk_id raced)), now)
                    else (Inr (ChangeRequested (bk_id raced)), now)
                | None \<Rightarrow> (Inl (DatabaseError UniqueViolation), now))
           | Inl err \<Rightarrow> (Inl (DatabaseError err), now)))"

definition cancel_booking ::
    "env \<Rightarrow> caller \<Rightarrow> nat \<Rightarrow> bool \<Rightarrow> nat \<Rightarrow> ledger \<Rightarrow> ledger \<Rightarrow> (booking_error + change_result) \<times> ledger"
  where
  "cancel_booking e ca i keep_requests new_id db now =
     (case load_owned e ca i db of
        Inl err \<Rightarrow> (Inl err, now)
      | Inr b \<Rightarrow>
          if bk_status b = Cancelled then (Inr Done, now)
          else if bk_status b \<noteq> Confirmed then (Inl BookingNotCancellable, now)
          else
     (case service_for_booking e b of
        Inl err \<Rightarrow> (Inl err, now)
      | Inr sv \<Rightarrow>
          (let decision = (if ca_subject ca
                           then resolve_customer_change (nullish (sv_cancel_mode sv) default_customer_change_mode)
                                  (Some (bk_start b)) (sv_cancel_until sv) (ev_now e)
                           else AutoChange)
           in if decision = NotAllowed then (Inl ChangeNotAllowed, now)
              else if decision = RequestChange
              then create_change_request e ca b CancelRequest (bk_start b) (bk_end b) None new_id db now
              else
                (case update_row i (\<lambda>c. bk_tenant c = ev_tenant e \<and> bk_status c = Confirmed)
                        (\<lambda>c. c\<lparr>bk_status := Cancelled, bk_sequence := bk_sequence c + 1\<rparr>) now of
                   Inl err \<Rightarrow> (Inl (DatabaseError err), now)
                 | Inr (None, now') \<Rightarrow> (Inr Done, now')
                 | Inr (Some _, now') \<Rightarrow>
                     (Inr Done, if keep_requests then now' else close_open_change_requests e i Declined now')))))"

definition decline_request ::
    "env \<Rightarrow> caller \<Rightarrow> nat \<Rightarrow> ledger \<Rightarrow> ledger \<Rightarrow> (booking_error + change_result) \<times> ledger" where
  "decline_request e ca i db now =
     (case load_owned e ca i db of
        Inl err \<Rightarrow> (Inl err, now)
      | Inr b \<Rightarrow>
          if bk_status b = Cancelled then (Inr Done, now)
          else if bk_status b \<noteq> RequestCreated then (Inl NotARequest, now)
          else if bk_kind b \<noteq> NewRequest \<and> bk_related b \<noteq> None then
            (case close_change_request_row e i Declined now of
               Inl err \<Rightarrow> (Inl (DatabaseError err), now)
             | Inr (_, now') \<Rightarrow> (Inr Done, now'))
          else
            (case update_row i (\<lambda>c. bk_tenant c = ev_tenant e \<and> bk_status c = RequestCreated)
                    (\<lambda>c. c\<lparr>bk_status := Cancelled\<rparr>) now of
               Inl err \<Rightarrow> (Inl (DatabaseError err), now)
             | Inr (_, now') \<Rightarrow> (Inr Done, now')))"

section \<open>Reschedule\<close>

record reschedule_call =
  rs_start :: "instant option"
  rs_duration :: "int option"
  rs_ex_interval :: "(instant \<times> instant) option"
  rs_keep_requests :: bool
  rs_address :: "string option"
  rs_address_gate :: "booking_error option"
  rs_placed :: "string option \<times> location_source option"
  rs_new_id :: nat
  rs_area_gate :: "booking_error option"
  rs_travel :: "booking_error + travel_check option"
  rs_travel_assert :: "ledger \<Rightarrow> booking_error option"
  rs_exposure :: "ledger \<Rightarrow> booking_error + nat list"

definition reschedule_tx ::
    "env \<Rightarrow> reschedule_call \<Rightarrow> booking \<Rightarrow> service_type \<Rightarrow> write_window \<Rightarrow> travel_check option \<Rightarrow> ledger \<Rightarrow>
     booking_error + ledger"
  where
  "reschedule_tx e r b sv w tc db =
     (let i = bk_id b;
          day = (\<lambda>t. map_option (\<lambda>z. zdate z t) (ev_tz e (zone_name e)))
      in case (if day (bk_start b) \<noteq> day (ww_start w)
               then enforce_service_day_capacity (ev_tz e) (zone_name e) sv (ww_start w) (Some i) db
               else None) of
           Some err \<Rightarrow> Inl err
         | None \<Rightarrow>
        (case enforce_business_capacity (ev_tz e) (zone_name e) (ev_bot e) (ev_key e) (ev_rules e) w (Some i) db of
           Some err \<Rightarrow> Inl err
         | None \<Rightarrow>
        (case rs_travel_assert r db of
           Some err \<Rightarrow> Inl err
         | None \<Rightarrow>
        (case update_row i (\<lambda>c. bk_tenant c = ev_tenant e \<and> bk_status c = Confirmed)
                (\<lambda>c. c\<lparr>bk_start := ww_start w, bk_end := ww_end w, bk_from := ww_from w, bk_to := ww_to w,
                       bk_key := ev_key e, bk_travel := tc,
                       bk_duration := (case rs_duration r of None \<Rightarrow> bk_duration c | Some d \<Rightarrow> Some d),
                       bk_sequence := bk_sequence c + 1,
                       bk_address := (case rs_address r of None \<Rightarrow> bk_address c | Some a \<Rightarrow> Some a),
                       bk_place := (if rs_address r = None then bk_place c else fst (rs_placed r)),
                       bk_source := (if rs_address r = None then bk_source c else snd (rs_placed r))\<rparr>) db of
           Inl ExclusionViolation \<Rightarrow> Inl SlotUnavailable
         | Inl err \<Rightarrow> Inl (DatabaseError err)
         | Inr (None, _) \<Rightarrow> Inl BookingNotReschedulable
         | Inr (Some _, db') \<Rightarrow> Inr db'))))"

text \<open>
  The end of that transaction: the bookings the move leaves first in their day are judged on the
  moved diary. They refuse the whole move, or an owner's move restamps them.
\<close>

definition restamp_row :: "env \<Rightarrow> nat list \<Rightarrow> booking \<Rightarrow> booking" where
  "restamp_row e ids b =
     (if bk_id b \<in> set ids \<and> bk_tenant b = ev_tenant e then b\<lparr>bk_travel := Some TravelOverridden\<rparr> else b)"

definition assert_exposure :: "env \<Rightarrow> reschedule_call \<Rightarrow> ledger \<Rightarrow> booking_error + ledger" where
  "assert_exposure e r db =
     (case rs_exposure r db of Inl err \<Rightarrow> Inl err | Inr ids \<Rightarrow> Inr (map (restamp_row e ids) db))"

text \<open>
  \<open>rescheduleAsChangeRequest\<close>: nothing when the move may go ahead here, else the refusal or the
  captured request.
\<close>

definition reschedule_as_change_request ::
    "env \<Rightarrow> caller \<Rightarrow> booking \<Rightarrow> service_type \<Rightarrow> reschedule_call \<Rightarrow> instant \<Rightarrow> instant \<Rightarrow> ledger \<Rightarrow> ledger \<Rightarrow>
     ((booking_error + change_result) \<times> ledger) option"
  where
  "reschedule_as_change_request e ca b sv r start stop db now =
     (if \<not> ca_subject ca then None
      else
        (case resolve_customer_change (nullish (sv_reschedule_mode sv) default_customer_change_mode)
                (Some (bk_start b)) (sv_reschedule_until sv) (ev_now e) of
           NotAllowed \<Rightarrow> Some (Inl ChangeNotAllowed, now)
         | AutoChange \<Rightarrow> None
         | RequestChange \<Rightarrow>
             (case (if sv_booking_mode sv = RequestBooking \<or> start = bk_start b then None
                    else if can_auto_confirm e \<and> \<not> br_paused (ev_rules e)
                    then refusal_at e sv start ((stop - start) div minute_ms) else None) of
                Some w \<Rightarrow> Some (Inl (RequestOutsideWindow w), now)
              | None \<Rightarrow>
                  Some (create_change_request e ca b RescheduleRequest start stop (rs_address r)
                          (rs_new_id r) db now))))"

text \<open>From the service area on: the offer, the travel gate, the transaction.\<close>

definition reschedule_move ::
    "env \<Rightarrow> booking \<Rightarrow> service_type \<Rightarrow> reschedule_call \<Rightarrow> int \<Rightarrow> instant \<Rightarrow> instant \<Rightarrow> ledger \<Rightarrow> ledger \<Rightarrow>
     booking_error + ledger"
  where
  "reschedule_move e b sv r duration start stop db now =
     (case rs_area_gate r of
        Some err \<Rightarrow> Inl err
      | None \<Rightarrow>
     (case assert_slot_offered e sv duration start stop (Some (bk_id b))
             (Some (nullish (rs_ex_interval r) (bk_start b, bk_end b))) db of
        Some err \<Rightarrow> Inl err
      | None \<Rightarrow>
     (case rs_travel r of
        Inl err \<Rightarrow> Inl err
      | Inr tc \<Rightarrow>
          (case reschedule_tx e r b sv (blocked_window sv start stop) tc now of
             Inl err \<Rightarrow> Inl err
           | Inr now' \<Rightarrow> assert_exposure e r now'))))"

definition reschedule_booking ::
    "env \<Rightarrow> caller \<Rightarrow> nat \<Rightarrow> reschedule_call \<Rightarrow> ledger \<Rightarrow> ledger \<Rightarrow> (booking_error + change_result) \<times> ledger"
  where
  "reschedule_booking e ca i r db now =
     (case load_owned e ca i db of
        Inl err \<Rightarrow> (Inl err, now)
      | Inr b \<Rightarrow>
          if bk_status b \<noteq> Confirmed then (Inl BookingNotReschedulable, now)
          else
     (case service_for_booking e b of
        Inl err \<Rightarrow> (Inl err, now)
      | Inr sv \<Rightarrow>
     (case rs_start r of
        None \<Rightarrow> (Inl InvalidStartTime, now)
      | Some start \<Rightarrow>
     (case rs_address_gate r of
        Some err \<Rightarrow> (Inl err, now)
      | None \<Rightarrow>
          (let duration = (case rs_duration r of Some d \<Rightarrow> d | None \<Rightarrow> nullish (bk_duration b) (sv_duration sv));
               stop = start + duration * minute_ms
           in case reschedule_as_change_request e ca b sv r start stop db now of
                Some answer \<Rightarrow> answer
              | None \<Rightarrow>
                  (case reschedule_move e b sv r duration start stop db now of
                     Inl err \<Rightarrow> (Inl err, now)
                   | Inr now' \<Rightarrow>
                       (Inr Done, if rs_keep_requests r then now'
                                  else close_open_change_requests e i Declined now')))))))"

section \<open>Accept\<close>

definition live_duplicate_for :: "env \<Rightarrow> booking \<Rightarrow> ledger \<Rightarrow> booking option" where
  "live_duplicate_for e r db =
     (case (bk_service r, bk_session r) of
        (Some sid, Some session) \<Rightarrow>
          (let same_customer =
                 (\<lambda>s. s = session \<or>
                      (case ev_visitor e session of
                         None \<Rightarrow> False
                       | Some v \<Rightarrow> v \<noteq> [] \<and> ev_visitor e s = Some v \<and> ev_session_agent e s = bk_bot r))
           in best_by (\<lambda>x y. bk_start x < bk_start y) None
                (filter (\<lambda>b. bk_bot b = bk_bot r \<and> bk_service b = Some sid \<and>
                             (case bk_session b of None \<Rightarrow> False | Some s \<Rightarrow> same_customer s) \<and>
                             bk_status b = Confirmed \<and> ev_now e < bk_end b) db))
      | _ \<Rightarrow> None)"

definition accept_tx :: "env \<Rightarrow> nat \<Rightarrow> service_type \<Rightarrow> write_window \<Rightarrow> ledger \<Rightarrow> booking_error + ledger" where
  "accept_tx e i sv w db =
     (case enforce_service_day_capacity (ev_tz e) (zone_name e) sv (ww_start w) (Some i) db of
        Some err \<Rightarrow> Inl err
      | None \<Rightarrow>
     (case enforce_business_capacity (ev_tz e) (zone_name e) (ev_bot e) (ev_key e) (ev_rules e) w (Some i) db of
        Some err \<Rightarrow> Inl err
      | None \<Rightarrow>
     (case update_row i (\<lambda>c. bk_tenant c = ev_tenant e \<and> bk_status c = RequestCreated)
             (\<lambda>c. c\<lparr>bk_status := Confirmed, bk_key := ev_key e, bk_from := ww_from w, bk_to := ww_to w,
                    bk_travel := (if bk_travel c = Some TravelCaptured then Some TravelOverridden
                                  else bk_travel c)\<rparr>) db of
        Inl ExclusionViolation \<Rightarrow> Inl SlotUnavailable
      | Inl err \<Rightarrow> Inl (DatabaseError err)
      | Inr (None, _) \<Rightarrow> Inl RequestAlreadyHandled
      | Inr (Some _, db') \<Rightarrow> Inr db')))"

definition stored_minutes :: "booking \<Rightarrow> int" where
  "stored_minutes b = nullish (bk_duration b) ((bk_end b - bk_start b + 30000) div minute_ms)"

text \<open>
  Accepting a change request runs the owner's own reschedule or cancel under the change-request
  lock; \<open>r\<close> carries the gates of that nested reschedule. The request is closed afterwards.
\<close>

definition finish_accept :: "env \<Rightarrow> booking \<Rightarrow> nat \<Rightarrow> ledger \<Rightarrow> (booking_error + nat) \<times> ledger" where
  "finish_accept e req related db =
     (case close_change_request_row e (bk_id req) Accepted db of
        Inl err \<Rightarrow> (Inl (DatabaseError err), db)
      | Inr (_, db') \<Rightarrow> (Inr related, db'))"

definition owner_of :: "caller \<Rightarrow> caller" where
  "owner_of ca = ca\<lparr>ca_admin := True, ca_subject := False\<rparr>"

definition accept_move ::
    "env \<Rightarrow> caller \<Rightarrow> booking \<Rightarrow> booking \<Rightarrow> reschedule_call \<Rightarrow> ledger \<Rightarrow> (booking_error + nat) \<times> ledger" where
  "accept_move e ca req original r now =
     (if bk_status original \<noteq> Confirmed then
        (case close_change_request_row e (bk_id req) Declined now of
           Inl err \<Rightarrow> (Inl (DatabaseError err), now)
         | Inr (_, now') \<Rightarrow> (Inl OriginalNotConfirmed, now'))
      else
        (let moved_address = (bk_address req \<noteq> bk_address original)
         in if bk_start original = bk_start req \<and> bk_end original = bk_end req \<and> \<not> moved_address
            then finish_accept e req (bk_id original) now
            else
              (case reschedule_booking e (owner_of ca) (bk_id original)
                      (r\<lparr>rs_start := Some (bk_start req),
                         rs_duration := Some ((bk_end req - bk_start req + 30000) div minute_ms),
                         rs_keep_requests := True,
                         rs_address := (if moved_address \<and> truthy_str (bk_address req) then bk_address req else None)\<rparr>) now now of
                 (Inl err, now') \<Rightarrow> (Inl err, now')
               | (Inr _, now') \<Rightarrow> finish_accept e req (bk_id original) now')))"

definition accept_cancel ::
    "env \<Rightarrow> caller \<Rightarrow> booking \<Rightarrow> booking \<Rightarrow> nat \<Rightarrow> ledger \<Rightarrow> (booking_error + nat) \<times> ledger" where
  "accept_cancel e ca req original new_id now =
     (if bk_status original \<noteq> Cancelled then
        (case cancel_booking e (owner_of ca) (bk_id original) True new_id now now of
           (Inl err, now') \<Rightarrow> (Inl err, now')
         | (Inr _, now') \<Rightarrow> finish_accept e req (bk_id original) now')
      else finish_accept e req (bk_id original) now)"

definition accept_change_request ::
    "env \<Rightarrow> caller \<Rightarrow> booking \<Rightarrow> reschedule_call \<Rightarrow> ledger \<Rightarrow> (booking_error + nat) \<times> ledger" where
  "accept_change_request e ca req r now =
     (case bk_related req of
        None \<Rightarrow> (Inl NotARequest, now)
      | Some related \<Rightarrow>
     (case find_row (bk_id req) now of
        None \<Rightarrow> (Inl RequestAlreadyHandled, now)
      | Some fresh \<Rightarrow>
          if bk_status fresh \<noteq> RequestCreated then (Inl RequestAlreadyHandled, now)
          else
            (case load_owned e ca related now of
               Inl err \<Rightarrow> (Inl err, now)
             | Inr original \<Rightarrow>
                 if bk_kind req = RescheduleRequest then accept_move e ca req original r now
                 else accept_cancel e ca req original (rs_new_id r) now)))"

definition accept_request ::
    "env \<Rightarrow> caller \<Rightarrow> nat \<Rightarrow> bool \<Rightarrow> reschedule_call \<Rightarrow> ledger \<Rightarrow> ledger \<Rightarrow> (booking_error + nat) \<times> ledger" where
  "accept_request e ca i allow_duplicate r db now =
     (case load_owned e ca i db of
        Inl err \<Rightarrow> (Inl err, now)
      | Inr b \<Rightarrow>
          if bk_status b \<noteq> RequestCreated then (Inl NotARequest, now)
          else if bk_kind b \<noteq> NewRequest then accept_change_request e ca b r now
          else if bk_start b \<le> ev_now e then (Inl RequestExpired, now)
          else
     (case service_for_booking e b of
        Inl err \<Rightarrow> (Inl err, now)
      | Inr sv \<Rightarrow>
     (case assert_slot_offered e sv (stored_minutes b) (bk_start b) (bk_end b) (Some i) None db of
        Some err \<Rightarrow> (Inl err, now)
      | None \<Rightarrow>
     (case (if allow_duplicate then None else live_duplicate_for e b db) of
        Some d \<Rightarrow> (Inl (RequestWouldDuplicate (bk_id d)), now)
      | None \<Rightarrow>
          (case accept_tx e i sv (blocked_window sv (bk_start b) (bk_end b)) now of
             Inl err \<Rightarrow> (Inl err, now)
           | Inr now' \<Rightarrow> (Inr i, now'))))))"

section \<open>A diary changes identity\<close>

text \<open>
  \<open>rekeyBotBookings\<close>: each future held row is moved on its own; a row whose move would overlap
  stays on its old key.
\<close>

fun rekey_rows :: "nat list \<Rightarrow> string \<Rightarrow> ledger \<Rightarrow> ledger" where
  "rekey_rows [] key db = db"
| "rekey_rows (i # is) key db =
     (case update_row i (\<lambda>_. True) (\<lambda>b. b\<lparr>bk_key := key\<rparr>) db of
        Inl ExclusionViolation \<Rightarrow> rekey_rows is key db
      | Inl _ \<Rightarrow> db
      | Inr (_, db') \<Rightarrow> rekey_rows is key db')"

definition rekey_bot_bookings :: "nat \<Rightarrow> string \<Rightarrow> instant \<Rightarrow> ledger \<Rightarrow> ledger" where
  "rekey_bot_bookings agent key now db =
     rekey_rows
       (map bk_id (filter (\<lambda>b. bk_bot b = agent \<and> held b \<and> bk_from b < bk_to b \<and>
                              now < bk_to b \<and> bk_key b \<noteq> key) db)) key db"

end
