(* ===== verification/Requests.thy ===== *)
theory Requests
  imports Ledger
begin

text \<open>
  Availability and captured requests: \<open>checkAvailability\<close> with the gates before it and the holds
  it reports, and \<open>requestAppointment\<close> with the policy it enforces on a service that books by
  itself (\<open>internal.provider.ts\<close>). The travel filter is a parameter of the availability check.
\<close>

section \<open>Availability\<close>

record availability_query =
  av_start :: string
  av_end :: string
  av_service :: service_type
  av_duration :: "int option"
  av_exclude :: "nat option"
  av_phone_gate :: "booking_error option"
  av_address_gate :: "booking_error option"
  av_clock :: "clock_window option"
  av_travel :: "slot list \<Rightarrow> slot list"

definition assert_availability_offerable :: "env \<Rightarrow> caller \<Rightarrow> availability_query \<Rightarrow> booking_error option" where
  "assert_availability_offerable e ca q =
     (if sv_booking_mode (av_service q) = RequestBooking then Some RequestOnlyService
      else
        (case (if \<not> ca_admin ca \<and> av_exclude q = None
               then (case av_phone_gate q of Some err \<Rightarrow> Some err | None \<Rightarrow> av_address_gate q) else None) of
           Some err \<Rightarrow> Some err
         | None \<Rightarrow>
             if \<not> ca_admin ca \<and> br_paused (ev_rules e) then Some BookingsPaused
             else if can_auto_confirm e then None
             else if ev_calendar e then Some CalendarSyncDisabled else Some CalendarNotConnected))"

text \<open>The span of the booking being moved; a row of another tenant excludes nothing.\<close>

definition excluded_interval :: "env \<Rightarrow> nat option \<Rightarrow> ledger \<Rightarrow> (instant \<times> instant) option" where
  "excluded_interval e ex db =
     (case ex of
        None \<Rightarrow> None
      | Some i \<Rightarrow>
          (case find_row i db of
             None \<Rightarrow> None
           | Some b \<Rightarrow> if bk_tenant b = ev_tenant e then Some (bk_start b, bk_end b) else None))"

text \<open>The input of the engine: the day ledgers are loaded only where a ceiling is set.\<close>

definition engine_input ::
    "env \<Rightarrow> service_type \<Rightarrow> int \<Rightarrow> instant \<times> instant \<Rightarrow> nat option \<Rightarrow> interval list \<Rightarrow> ledger \<Rightarrow> slot_input" where
  "engine_input e sv duration span ex busy db =
     (let r = ev_rules e; cap = nullish (sv_max_per_day sv) 0
      in \<lparr>si_rule = ev_rule e, si_service = slot_service_of sv duration,
          si_range_start = Some (fst span), si_range_end = Some (snd span), si_now = ev_now e,
          si_busy = Some busy,
          si_business = Some \<lparr>bc_max_per_day = Some (br_max_per_day r), bc_max_minutes = Some (br_max_minutes r)\<rparr>,
          si_ledger = (if br_max_per_day r \<noteq> 0 \<or> br_max_minutes r \<noteq> 0
                       then Some (load_day_ledger (ev_bot e) (fst span) (snd span) ex None db) else None),
          si_service_ledger = (if cap > 0
                       then Some (load_day_ledger (ev_bot e) (fst span) (snd span) ex (Some (sv_id sv)) db) else None)\<rparr>)"

text \<open>\<open>liveBookingsForCaller\<close>: this chat and the earlier chats of the same visitor with the agent.\<close>

definition same_visitor :: "env \<Rightarrow> caller \<Rightarrow> nat \<Rightarrow> bool" where
  "same_visitor e ca s =
     (s = ca_session ca \<or>
      (case ev_visitor e (ca_session ca) of
         None \<Rightarrow> False
       | Some v \<Rightarrow> v \<noteq> [] \<and> ev_visitor e s = Some v \<and> ev_session_agent e s = ev_bot e))"

definition live_bookings_for_caller :: "env \<Rightarrow> caller \<Rightarrow> ledger \<Rightarrow> ledger" where
  "live_bookings_for_caller e ca db =
     sort_key (\<lambda>b. - bk_created b)
       (filter (\<lambda>b. bk_tenant b = ev_tenant e \<and> bk_bot b = ev_bot e \<and>
                    (case bk_session b of None \<Rightarrow> False | Some s \<Rightarrow> same_visitor e ca s) \<and>
                    ev_now e < bk_end b \<and>
                    (bk_status b = Confirmed \<or> bk_status b = Pending \<or> bk_status b = RequestCreated)) db)"

record availability_holds =
  ah_held :: "nat list"
  ah_fixed :: "(nat \<times> string option) list"

definition live_availability_holds ::
    "env \<Rightarrow> ledger \<Rightarrow> service_type \<Rightarrow> instant \<times> instant \<Rightarrow> availability_holds" where
  "live_availability_holds e live sv span =
     (let same = filter (\<lambda>b. held b \<and> bk_service b = Some (sv_id sv)) live;
          policy = nullish (sv_reschedule_mode sv) default_customer_change_mode;
          fixed = filter (\<lambda>b. resolve_customer_change policy (Some (bk_start b)) (sv_reschedule_until sv) (ev_now e)
                                = NotAllowed) same;
          cutoff = (if policy \<noteq> NotAllowed then spoken_change_cutoff (sv_reschedule_until sv) else None)
      in \<lparr>ah_held = map bk_id (filter (\<lambda>b. fst span \<le> bk_start b \<and> bk_start b < snd span) same),
          ah_fixed = map (\<lambda>b. (bk_id b, cutoff)) fixed\<rparr>)"

record availability_result =
  av_slots :: "slot list"
  av_empty :: "diagnosis option"
  av_matched :: bool
  av_holds :: availability_holds

definition check_availability ::
    "env \<Rightarrow> caller \<Rightarrow> zone \<Rightarrow> availability_query \<Rightarrow> ledger \<Rightarrow> booking_error + availability_result" where
  "check_availability e ca z q db =
     (case assert_availability_offerable e ca q of
        Some err \<Rightarrow> Inl err
      | None \<Rightarrow>
     (case normalize_date_range (ev_from_iso e) z (av_start q) (av_end q) of
        None \<Rightarrow> Inl InvalidRange
      | Some span \<Rightarrow>
     (case load_all_busy (ev_external e) (br_min_gap (ev_rules e)) (ev_key e) (fst span) (snd span)
             (av_exclude q) (excluded_interval e (av_exclude q) db) db of
        Inl err \<Rightarrow> Inl err
      | Inr busy \<Rightarrow>
          (let duration = effective_duration_for_availability (av_service q) (av_duration q);
               inp = engine_input e (av_service q) duration span (av_exclude q) busy db;
               slots = compute_slots (ev_tz e) inp;
               (offerable, matched) = offerable_slots_for_window z slots (av_clock q)
           in Inr \<lparr>av_slots = av_travel q offerable,
                   av_empty = (if slots = [] then diagnose_empty_range (ev_tz e) inp else None),
                   av_matched = matched,
                   av_holds = live_availability_holds e (live_bookings_for_caller e ca db) (av_service q) span\<rparr>))))"

section \<open>Captured requests\<close>

text \<open>
  The documented reasons for a request nobody checked: a price on request, an open choice of
  length, an address outside the area, and a store that cannot answer whether the day was checked.
\<close>

datatype area_match = AreaInside | AreaOutside | AreaUnknown

record request_probe =
  rp_price_on_request :: bool
  rp_area :: "area_match option"
  rp_checked :: "bool option"

definition request_needs_check_first :: "service_type \<Rightarrow> int option \<Rightarrow> request_probe \<Rightarrow> bool" where
  "request_needs_check_first sv requested p =
     (if rp_price_on_request p then False
      else if sv_duration_mode sv = RangeDuration \<and> requested = None then False
      else if rp_area p = Some AreaOutside \<or> rp_area p = Some AreaUnknown then False
      else rp_checked p = Some False)"

text \<open>
  The policy of a service that books by itself, in the order of the code: past and notice, horizon,
  closed day, daily cap, opening hours, and the check that must come first.
\<close>

definition request_policy ::
    "env \<Rightarrow> service_type \<Rightarrow> instant \<Rightarrow> int \<Rightarrow> int option \<Rightarrow> request_probe \<Rightarrow> ledger \<Rightarrow> booking_error option" where
  "request_policy e sv start duration requested p db =
     (let latest = snd (bookable_window (slot_service_of sv duration) (ev_now e));
          zone = ev_tz e (zone_name e);
          refusal = refusal_at e sv start duration;
          reason = map_option wr_reason refusal
      in if reason = Some RefPast \<or> reason = Some RefTooSoon then map_option RequestOutsideWindow refusal
         else if start > latest
         then Some (RequestOutsideWindow (refuse RefTooFar (retry_range TooFar latest zone (ev_now e))))
         else if reason = Some RefClosed then map_option RequestOutsideWindow refusal
         else (case enforce_service_day_capacity (ev_tz e) (zone_name e) sv start None db of
                 Some err \<Rightarrow> Some err
               | None \<Rightarrow>
                   if refusal \<noteq> None then map_option RequestOutsideWindow refusal
                   else if request_needs_check_first sv requested p
                   then Some (RequestBeforeCheck (case zone of None \<Rightarrow> ''Invalid DateTime'' | Some z \<Rightarrow> zdate z (zstart z start)))
                   else None))"

definition request_appointment ::
    "env \<Rightarrow> create_call \<Rightarrow> request_probe \<Rightarrow> ledger \<Rightarrow> ledger \<Rightarrow> (booking_error + create_result) \<times> ledger" where
  "request_appointment e c p db now =
     (case existing_by_key (ev_tenant e) (ev_bot e) (cc_idem c) (ev_now e) db of
        Some b \<Rightarrow> (Inr (DuplicateOf (bk_id b)), now)
      | None \<Rightarrow>
     (case cc_start c of
        None \<Rightarrow> (Inl InvalidStartTime, now)
      | Some start \<Rightarrow>
     (case resolve_duration (cc_service c) (cc_requested c) of
        Inl err \<Rightarrow> (Inl (DurationError err), now)
      | Inr duration \<Rightarrow>
     (case (if sv_booking_mode (cc_service c) \<noteq> RequestBooking \<and> can_auto_confirm e \<and> \<not> br_paused (ev_rules e)
            then request_policy e (cc_service c) start duration (cc_requested c) p db else None) of
        Some err \<Rightarrow> (Inl err, now)
      | None \<Rightarrow>
     (case matching_duplicate e c start db of
        Some b \<Rightarrow> (Inr (DuplicateOf (bk_id b)), now)
      | None \<Rightarrow> create_request e c start duration (cc_request_travel c) now)))))"

section \<open>What is offered can be booked\<close>

lemma walked_first: "d \<le> stop \<Longrightarrow> d \<in> set (walked_days 400 z d stop)"
  unfolding walked_days_power by (rule exI [of _ 0]) simp

text \<open>
  The slots of two inputs that differ in range, diary and caps: a slot of the first is one of the
  second when it lies in the second range, the second has no cap and no busy interval meets it.
\<close>

lemma slot_in_other_range:
  assumes "regular_calendar z" and "sl \<in> set (compute_slots tz inp)"
    and same: "si_rule inp' = si_rule inp" "si_service inp' = si_service inp" "si_now inp' = si_now inp"
    and zone: "tz (rule_zone_name (si_rule inp)) = Some z"
    and span: "si_range_start inp' = Some (slot_start sl)" "si_range_end inp' = Some (slot_start sl + 1000)"
    and caps: "si_business inp' = None" "si_service_ledger inp' = None"
    and free: "\<not> overlaps_busy (slot_start sl - nullish (ss_buffer_before (si_service inp)) 0 * minute_ms)
                (slot_end sl + nullish (ss_buffer_after (si_service inp)) 0 * minute_ms) (nullish (si_busy inp') [])"
  shows "sl \<in> set (compute_slots tz inp')"
proof -
  obtain b where b: "resolve_slot_bounds tz inp = Some b" and early: "sb_earliest b \<le> slot_start sl"
    and late: "slot_start sl \<le> sb_horizon b"
    using assms(2) by (rule compute_slots_bounds)
  obtain b' where b': "resolve_slot_bounds tz inp' = Some b'"
    using zone same span
    by (cases "bookable_window (si_service inp) (si_now inp)") (auto simp: resolve_slot_bounds_def Let_def)
  note B = resolve_SomeD [OF b] and B' = resolve_SomeD [OF b']
  have z: "sb_zone b = z" "sb_zone b' = z" using B(1) B'(1) zone same by simp_all
  have shape: "sb_duration b' = sb_duration b" "sb_granularity b' = sb_granularity b"
    "sb_buffer_before b' = sb_buffer_before b" "sb_buffer_after b' = sb_buffer_after b" "sb_horizon b' = sb_horizon b"
    using B(6,8,12-14) B'(6,8,12-14) same by simp_all
  have range': "sb_range_start b' = slot_start sl" "sb_range_end b' = slot_start sl + 1000"
    using B'(2,3) span by simp_all
  have early': "sb_earliest b' = slot_start sl" using B(7) B'(7) early range' same by simp
  obtain d w s e m where d: "d \<in> set (walked_days 400 z (sb_first_day b) (sb_last_day b))"
    and w: "w \<in> set (windows_for_day z (si_rule inp) d)" "window_minutes w = Some (s, e)"
    and m: "m \<in> set (window_starts s (sb_duration b) e (sb_granularity b))" and t: "try_start b d m = Some sl"
    using assms(2) by (auto simp: compute_slots_mem [OF b] z day_tries_def)
  note T = try_start_SomeD [OF t]
  have loc: "zlocal z d (m div 60) (m mod 60) = Some (slot_start sl, m div 60, m mod 60)"
    using T(1) z by (auto simp: local_time_def split: option.splits prod.splits if_splits)
  have "zstart z d = d"
    using d B(9) z regular_calendar.power_start [OF assms(1)] by (auto simp: walked_days_power)
  then have day: "zstart z (slot_start sl) = d" using regular_calendar.local_start [OF assms(1) loc] by simp
  have "d \<le> zstart z (min (slot_start sl + 1000) (sb_horizon b))"
    unfolding day [symmetric]
    by (rule calendar.start_mono [OF regular_calendar.axioms(1) [OF assms(1)]]) (use late in simp)
  then have "d \<in> set (walked_days 400 z (sb_first_day b') (sb_last_day b'))"
    using B'(9,10) z early' range' shape(5) day walked_first [of d _ z] by simp
  moreover have "\<not> day_at_cap (zdate z d) (sb_duration b') (resolve_day_caps inp' z)"
    using caps by (simp add: day_at_cap_def resolve_day_caps_def Let_def)
  moreover have try': "try_start b' d m = Some sl"
  proof -
    have "\<not> overlaps_busy (slot_start sl - sb_buffer_before b') (slot_end sl + sb_buffer_after b') (sb_busy b')"
      using free B'(11-13) same by simp
    moreover have "slot_start sl + sb_duration b' * minute_ms = slot_end sl" using T(2) shape(1) by simp
    moreover have "local_time (sb_zone b') d (m div 60) (m mod 60) = Some (slot_start sl)" using T(1) z by simp
    ultimately show ?thesis using early' range' late shape(5) by (simp add: try_start_def Let_def)
  qed
  moreover have "sl \<in> day_tries b' (windows_for_day z (si_rule inp') d) d"
    unfolding day_tries_def mem_Collect_eq same(1) shape(1,2) using w m try' by blast
  ultimately show ?thesis unfolding compute_slots_mem [OF b'] z by blast
qed

text \<open>The padded busy list, and a busy interval of a wider range that meets an inner span.\<close>

lemma load_all_busy_internal:
  "load_all_busy None gap key from to ex x db =
     Inr (map (pad_interval (max 0 gap * minute_ms)) (load_busy key from to ex db))"
proof (cases "0 < gap")
  case True
  then show ?thesis by (simp add: load_all_busy_def Let_def max_def)
next
  case False
  have "pad_interval 0 = id" by (simp add: pad_interval_def fun_eq_iff)
  then show ?thesis using False by (simp add: load_all_busy_def Let_def max_def)
qed

lemma overlap_reloaded:
  assumes "iv \<in> set (map (pad_interval g) (load_busy key from' to' ex db))"
    and "a < iv_end iv" "iv_start iv < b" and "from + g \<le> a" "b + g \<le> to" "from < to"
  shows "iv \<in> set (map (pad_interval g) (load_busy key from to ex db))"
  using assms by (auto simp: load_busy_def pad_interval_def ranges_overlap_def)

lemma check_availability_InrD:
  assumes "check_availability e ca z q db = Inr res" "\<forall>xs. set (av_travel q xs) \<subseteq> set xs"
    and "sl \<in> set (av_slots res)" "ev_external e = None"
  obtains span where "normalize_date_range (ev_from_iso e) z (av_start q) (av_end q) = Some span"
    and "sl \<in> set (compute_slots (ev_tz e) (engine_input e (av_service q)
           (effective_duration_for_availability (av_service q) (av_duration q)) span (av_exclude q)
           (map (pad_interval (max 0 (br_min_gap (ev_rules e)) * minute_ms))
              (load_busy (ev_key e) (fst span) (snd span) (av_exclude q) db)) db))"
proof -
  have sub: "set (fst (offerable_slots_for_window z xs w)) \<subseteq> set xs" for xs w
    by (auto simp: offerable_slots_for_window_def slots_in_clock_window_def Let_def split: option.split)
  obtain span where span: "normalize_date_range (ev_from_iso e) z (av_start q) (av_end q) = Some span"
    and slots: "av_slots res = av_travel q (fst (offerable_slots_for_window z
        (compute_slots (ev_tz e) (engine_input e (av_service q)
           (effective_duration_for_availability (av_service q) (av_duration q)) span (av_exclude q)
           (map (pad_interval (max 0 (br_min_gap (ev_rules e)) * minute_ms))
              (load_busy (ev_key e) (fst span) (snd span) (av_exclude q) db)) db)) (av_clock q)))"
    using assms(1) unfolding check_availability_def assms(4) load_all_busy_internal Let_def
    by (auto split: option.splits prod.splits)
  have "sl \<in> set (av_travel q (fst (offerable_slots_for_window z
        (compute_slots (ev_tz e) (engine_input e (av_service q)
           (effective_duration_for_availability (av_service q) (av_duration q)) span (av_exclude q)
           (map (pad_interval (max 0 (br_min_gap (ev_rules e)) * minute_ms))
              (load_busy (ev_key e) (fst span) (snd span) (av_exclude q) db)) db)) (av_clock q))))"
    using assms(3) unfolding slots .
  from subsetD [OF order_trans [OF spec [OF assms(2)] sub] this] show thesis by (rule that [OF span])
qed



section \<open>A desk open around the clock\<close>

definition demo_open_rule :: availability_rule where
  "demo_open_rule = \<lparr>ar_timezone = ''UTC'', ar_mode = AlwaysOpen, ar_weekly = None, ar_overrides = None,
     ar_granularity = Some 60\<rparr>"

definition demo_day_service :: service_type where
  "demo_day_service = \<lparr>sv_id = 7, sv_duration = 60, sv_duration_mode = FixedDuration,
     sv_min_duration = None, sv_max_duration = None, sv_buffer_before = None, sv_buffer_after = Some 10,
     sv_min_notice = None, sv_max_horizon = None, sv_max_per_day = Some 2, sv_booking_mode = AutoBooking,
     sv_reschedule_mode = None, sv_reschedule_until = None, sv_cancel_mode = None, sv_cancel_until = None\<rparr>"

definition demo_rules :: business_rules where
  "demo_rules = (load_business_rules None)\<lparr>br_min_gap := 15\<rparr>"

definition demo_services :: "nat \<Rightarrow> service_type option" where
  "demo_services i = (if i = 7 then Some demo_day_service else None)"

definition demo_token :: address_token where
  "demo_token address place = (case place of Some p \<Rightarrow> ''p'' @ p | None \<Rightarrow> (case address of Some a \<Rightarrow> ''t'' @ a | None \<Rightarrow> []))"

definition nobody :: "nat \<Rightarrow> string option" where "nobody i = None"

definition demo_desk :: env where
  "demo_desk = \<lparr>ev_tz = demo_tz, ev_rule = demo_open_rule, ev_tenant = 1, ev_bot = 3,
     ev_key = ''agent:3'', ev_rules = demo_rules, ev_services = demo_services, ev_default_service = None, ev_external = None,
     ev_now = 0, ev_visitor = nobody, ev_session_agent = id, ev_token = demo_token,
     ev_from_iso = date_parse_midnight, ev_calendar = True, ev_sync = True\<rparr>"

definition demo_customer :: caller where
  "demo_customer = \<lparr>ca_session = 5, ca_admin = False, ca_subject = True\<rparr>"

definition demo_query :: availability_query where
  "demo_query = \<lparr>av_start = ''1970-01-01'', av_end = ''1970-01-01'',
     av_service = resolve_service_timing demo_day_service demo_rules, av_duration = None, av_exclude = None,
     av_phone_gate = None, av_address_gate = None, av_clock = None, av_travel = (\<lambda>xs. xs)\<rparr>"

definition demo_ten :: slot where
  "demo_ten = \<lparr>slot_start = 10 * hour_ms, slot_end = 11 * hour_ms\<rparr>"


section \<open>A captured request respects the owner's policy\<close>

lemma request_appointment_capturedD:
  assumes "request_appointment e c p db now = (Inr (Requested i), now')"
  obtains start d where "cc_start c = Some start" "resolve_duration (cc_service c) (cc_requested c) = Inr d"
    and "create_request e c start d (cc_request_travel c) now = (Inr (Requested i), now')"
    and "sv_booking_mode (cc_service c) \<noteq> RequestBooking \<Longrightarrow> can_auto_confirm e \<Longrightarrow> \<not> br_paused (ev_rules e) \<Longrightarrow>
           request_policy e (cc_service c) start d (cc_requested c) p db = None"
  using assms unfolding request_appointment_def
  by (auto split: option.splits sum.splits if_splits)

lemma request_policy_NoneD:
  assumes "request_policy e sv start d req p db = None"
  shows "refusal_at e sv start d = None"
    and "start \<le> snd (bookable_window (slot_service_of sv d) (ev_now e))"
    and "enforce_service_day_capacity (ev_tz e) (zone_name e) sv start None db = None"
    and "\<not> request_needs_check_first sv req p"
  using assms by (auto simp: request_policy_def Let_def split: if_splits option.splits)

text \<open>
  C29: a request captured for a service that books by itself, while it can, lies inside the notice
  and the horizon of the service on a day below the service's daily cap, and inside the opening
  hours, unless that day and the seven days after it have none.
\<close>

theorem captured_request_respects_the_policy:
  assumes "request_appointment e c p db now = (Inr (Requested i), now')"
    and "sv_booking_mode (cc_service c) = AutoBooking" "can_auto_confirm e" "\<not> br_paused (ev_rules e)"
    and "ev_tz e (zone_name e) = Some z" "\<forall>t. ev_from_iso e (zdate z t) \<noteq> None"
  shows "\<exists>start. cc_start c = Some start \<and>
    ev_now e \<le> start \<and> ev_now e + nullish (sv_min_notice (cc_service c)) 0 * minute_ms \<le> start \<and>
    start \<le> ev_now e + nullish (sv_max_horizon (cc_service c)) 0 * day_ms \<and>
    (\<forall>mx. sv_max_per_day (cc_service c) = Some mx \<and> 0 < mx \<longrightarrow>
       int (length (service_day_rows (day_window (ev_tz e) (zone_name e) start) (sv_id (cc_service c)) None db)) < mx) \<and>
    (is_within_business_hours (ev_tz e) (ev_rule e) start \<or>
       \<not> day_has_hours z (ev_rule e) (zstart z start) \<and>
       \<not> week_from_has_hours z (ev_rule e) (zplus_days z 1 (zstart z start)))"
proof -
  from assms(1) obtain start d where s: "cc_start c = Some start"
    and "sv_booking_mode (cc_service c) \<noteq> RequestBooking \<Longrightarrow> can_auto_confirm e \<Longrightarrow> \<not> br_paused (ev_rules e) \<Longrightarrow>
           request_policy e (cc_service c) start d (cc_requested c) p db = None"
    by (rule request_appointment_capturedD) blast
  then have "request_policy e (cc_service c) start d (cc_requested c) p db = None" using assms(2-4) by simp
  note P = request_policy_NoneD [OF this]
  note R = P(1) [unfolded refusal_at_def]
  have "\<forall>mx. sv_max_per_day (cc_service c) = Some mx \<and> 0 < mx \<longrightarrow>
       int (length (service_day_rows (day_window (ev_tz e) (zone_name e) start) (sv_id (cc_service c)) None db)) < mx"
    using P(3) by (auto simp: enforce_service_day_capacity_def split: if_splits)
  then show ?thesis
    using s no_refusal_window [OF R] no_refusal_hours [OF R _ assms(6)] assms(5) P(2)
    by (simp add: bookable_window_def slot_service_of_def zone_name_def)
qed

definition demo_request :: create_call where
  "demo_request = \<lparr>cc_id = 1, cc_idem = ''r'', cc_session = 5,
     cc_service = resolve_service_timing demo_day_service demo_rules, cc_start = Some (10 * hour_ms),
     cc_requested = None, cc_address = None, cc_place = None, cc_needs_address = False, cc_intake_gate = None,
     cc_contact_gate = None, cc_request_gate = None, cc_travel = GateInactive,
     cc_travel_assert = (\<lambda>db. None), cc_request_travel = None, cc_placed = (None, None), cc_contact_address = None,
     cc_binding_moved = False\<rparr>"

definition demo_probe :: request_probe where
  "demo_probe = \<lparr>rp_price_on_request = False, rp_area = None, rp_checked = Some True\<rparr>"

definition demo_any_iso :: env where
  "demo_any_iso = demo_desk\<lparr>ev_from_iso := (\<lambda>s. Some (nullish (date_parse_midnight s) 0))\<rparr>"

theorem captured_request_respects_the_policy_witness:
  "fst (request_appointment demo_any_iso demo_request demo_probe [] []) = Inr (Requested 1) \<and>
   is_within_business_hours demo_tz demo_open_rule (10 * hour_ms)"
proof -
  have r: "fst (request_appointment demo_any_iso demo_request demo_probe [] []) = Inr (Requested 1)" by code_simp
  moreover obtain n where "request_appointment demo_any_iso demo_request demo_probe [] [] = (Inr (Requested 1), n)"
    using r by (metis prod.collapse)
  note captured_request_respects_the_policy [OF this, of utc]
  then have "\<exists>start. cc_start demo_request = Some start \<and>
      (is_within_business_hours demo_tz demo_open_rule start \<or>
       \<not> day_has_hours utc demo_open_rule (zstart utc start))"
    by (auto simp: demo_request_def demo_any_iso_def demo_desk_def can_auto_confirm_def demo_tz_def zone_name_def
        demo_open_rule_def demo_rules_def load_business_rules_def resolve_service_timing_def demo_day_service_def)
  moreover have "day_has_hours utc demo_open_rule (zstart utc (10 * hour_ms))" by code_simp
  ultimately show ?thesis by (simp add: demo_request_def)
qed

end
