(* ===== verification/LedgerSafety.thy ===== *)
theory LedgerSafety
  imports Requests
begin

text \<open>
  What the booking ledger guarantees. Every operation of \<open>Ledger\<close> is reduced to a few
  primitive changes of the table; the invariants are proved once for each primitive change and
  then hold of every sequence of operations, whatever older ledgers their pre-lock reads saw.
\<close>

section \<open>Rows of a ledger\<close>

lemma find_row_Some: "find_row i db = Some b \<Longrightarrow> b \<in> set db \<and> bk_id b = i"
  by (auto simp: find_row_def find_Some_iff)

lemma find_row_None: "find_row i db = None \<longleftrightarrow> i \<notin> bk_id ` set db"
  by (auto simp: find_row_def find_None_iff)

lemma find_row_distinct:
  assumes "distinct (map bk_id db)" "b \<in> set db"
  shows "find_row (bk_id b) db = Some b"
proof -
  obtain c where c: "find_row (bk_id b) db = Some c"
    using assms(2) find_row_None [of "bk_id b" db] by fastforce
  then have "c \<in> set db" "bk_id c = bk_id b" using find_row_Some by blast+
  then have "c = b" using assms by (metis distinct_map inj_onD)
  then show ?thesis using c by simp
qed

lemma ranges_overlap_sym: "ranges_overlap a b c d = ranges_overlap c d a b"
  by (auto simp: ranges_overlap_def)

lemma slot_clash_sym: "slot_clash b c = slot_clash c b"
  by (auto simp: slot_clash_def ranges_overlap_def)

lemma unique_clash_sym: "unique_clash b c = unique_clash c b"
  by (auto simp: unique_clash_def)

definition ledger_ok :: "ledger \<Rightarrow> bool" where
  "ledger_ok db \<longleftrightarrow>
     distinct (map bk_id db) \<and> (\<forall>b \<in> set db. check_ok b) \<and>
     (\<forall>b \<in> set db. \<forall>c \<in> set db. bk_id b \<noteq> bk_id c \<longrightarrow> \<not> slot_clash b c \<and> \<not> unique_clash b c)"

lemma row_error_None:
  "row_error b others = None \<longleftrightarrow>
     check_ok b \<and> (\<forall>c \<in> set others. \<not> unique_clash b c \<and> \<not> slot_clash b c)"
  by (auto simp: row_error_def list_ex_iff)

lemma insert_row_Inr: "insert_row b db = Inr db' \<longleftrightarrow> row_error b db = None \<and> db' = db @ [b]"
  by (auto simp: insert_row_def split: option.splits)

lemma insert_row_ok:
  assumes "ledger_ok db" "insert_row b db = Inr db'" "bk_id b \<notin> bk_id ` set db"
  shows "ledger_ok db'"
  using assms slot_clash_sym unique_clash_sym
  unfolding ledger_ok_def insert_row_Inr row_error_None by auto

lemma update_row_cases:
  assumes "update_row i P f db = Inr (r, db')"
  shows "(r = None \<and> db' = db) \<or>
         (\<exists>b. find_row i db = Some b \<and> P b \<and> r = Some (f b) \<and>
            row_error (f b) (filter (\<lambda>c. bk_id c \<noteq> i) db) = None \<and>
            db' = map (\<lambda>c. if bk_id c = i then f b else c) db)"
  using assms by (auto simp: update_row_def split: option.splits if_splits)

text \<open>The row after an update, and every other row as it was.\<close>

lemma update_row_rows:
  assumes "distinct (map bk_id db)" "update_row i P f db = Inr (r, db')" "\<And>b. bk_id (f b) = bk_id b"
  shows "distinct (map bk_id db') \<and>
         (\<forall>c \<in> set db'. (c \<in> set db) \<or> (\<exists>b \<in> set db. bk_id b = i \<and> P b \<and> c = f b)) \<and>
         (\<forall>c \<in> set db'. bk_id c \<noteq> i \<longrightarrow> c \<in> set db)"
  using update_row_cases [OF assms(2)]
proof
  assume "r = None \<and> db' = db"
  then show ?thesis using assms(1) by simp
next
  assume "\<exists>b. find_row i db = Some b \<and> P b \<and> r = Some (f b) \<and>
            row_error (f b) (filter (\<lambda>c. bk_id c \<noteq> i) db) = None \<and>
            db' = map (\<lambda>c. if bk_id c = i then f b else c) db"
  then obtain b where b: "find_row i db = Some b" "P b"
    "db' = map (\<lambda>c. if bk_id c = i then f b else c) db" by blast
  have row: "b \<in> set db" "bk_id b = i" using find_row_Some b(1) by blast+
  then have "map bk_id db' = map bk_id db"
    unfolding b(3) using assms(3) by (auto simp: comp_def)
  then have "distinct (map bk_id db')" using assms(1) by (simp only:)
  moreover have "(c \<in> set db) \<or> (\<exists>b \<in> set db. bk_id b = i \<and> P b \<and> c = f b)"
    "bk_id c \<noteq> i \<Longrightarrow> c \<in> set db" if "c \<in> set db'" for c
    using that row b(2) assms(3) unfolding b(3) by auto
  ultimately show ?thesis by blast
qed

lemma update_row_ok:
  assumes "ledger_ok db" "update_row i P f db = Inr (r, db')" "\<And>b. bk_id (f b) = bk_id b"
  shows "ledger_ok db'"
  using update_row_cases [OF assms(2)]
proof
  assume "r = None \<and> db' = db"
  then show ?thesis using assms(1) by simp
next
  assume "\<exists>b. find_row i db = Some b \<and> P b \<and> r = Some (f b) \<and>
            row_error (f b) (filter (\<lambda>c. bk_id c \<noteq> i) db) = None \<and>
            db' = map (\<lambda>c. if bk_id c = i then f b else c) db"
  then obtain b where b: "find_row i db = Some b"
    "row_error (f b) (filter (\<lambda>c. bk_id c \<noteq> i) db) = None"
    "db' = map (\<lambda>c. if bk_id c = i then f b else c) db" by blast
  have id: "bk_id b = i" using find_row_Some b(1) by blast
  have new: "check_ok (f b)"
    "\<And>c. c \<in> set db \<Longrightarrow> bk_id c \<noteq> i \<Longrightarrow> \<not> unique_clash (f b) c \<and> \<not> slot_clash (f b) c"
    using b(2) by (auto simp: row_error_None)
  have mem: "c \<in> set db' \<Longrightarrow> c = f b \<or> (c \<in> set db \<and> bk_id c \<noteq> i)" for c
    unfolding b(3) by auto
  have "distinct (map bk_id db')"
    using update_row_rows [OF _ assms(2,3)] assms(1) by (simp add: ledger_ok_def)
  moreover have "check_ok c" if "c \<in> set db'" for c
    using mem [OF that] new(1) assms(1) by (auto simp: ledger_ok_def)
  moreover have "\<not> slot_clash c d \<and> \<not> unique_clash c d"
    if "c \<in> set db'" "d \<in> set db'" "bk_id c \<noteq> bk_id d" for c d
    using mem [OF that(1)] mem [OF that(2)] that(3) new(2) assms(1,3) id
      slot_clash_sym unique_clash_sym unfolding ledger_ok_def by metis
  ultimately show ?thesis unfolding ledger_ok_def by blast
qed

section \<open>Primitive changes\<close>

text \<open>
  The configuration the calls share: business rules by agent, services by id, the agent that owns
  a service, the zone of each agent. \<open>w_serial\<close> restricts the changes to those whose booking was
  read as it still is when the transaction runs.
\<close>

record world =
  wd_rules :: "nat \<Rightarrow> business_rules"
  wd_services :: "nat \<Rightarrow> service_type option"
  wd_owner :: "nat \<Rightarrow> nat"
  wd_tz :: tzdb
  wd_zone :: "nat \<Rightarrow> string"
  wd_serial :: bool

definition fits :: "world \<Rightarrow> env \<Rightarrow> bool" where
  "fits W e \<longleftrightarrow> ev_rules e = wd_rules W (ev_bot e) \<and> ev_services e = wd_services W \<and>
     ev_tz e = wd_tz W \<and> zone_name e = wd_zone W (ev_bot e)"

definition world_ok :: "world \<Rightarrow> bool" where
  "world_ok W \<longleftrightarrow> (\<forall>i sv. wd_services W i = Some sv \<longrightarrow> sv_id sv = i)"

definition owned_row :: "world \<Rightarrow> booking \<Rightarrow> bool" where
  "owned_row W b \<longleftrightarrow> (\<forall>s. bk_service b = Some s \<longrightarrow> wd_owner W s = bk_bot b)"

definition cap_of :: "world \<Rightarrow> nat \<Rightarrow> int option" where
  "cap_of W s = (case wd_services W s of None \<Rightarrow> None | Some sv \<Rightarrow> sv_max_per_day sv)"

text \<open>A row read earlier is still there with the same owner and service.\<close>

definition still_there :: "booking \<Rightarrow> ledger \<Rightarrow> bool" where
  "still_there b now \<longleftrightarrow>
     (\<exists>c \<in> set now. bk_id c = bk_id b \<and> bk_bot c = bk_bot b \<and> bk_service c = bk_service b)"

definition unmoved :: "world \<Rightarrow> booking \<Rightarrow> ledger \<Rightarrow> bool" where
  "unmoved W b now \<longleftrightarrow> (wd_serial W \<longrightarrow> (\<forall>c \<in> set now. bk_id c = bk_id b \<longrightarrow> bk_start c = bk_start b))"

definition keeps_identity :: "(booking \<Rightarrow> booking) \<Rightarrow> bool" where
  "keeps_identity f \<longleftrightarrow>
     (\<forall>b. bk_id (f b) = bk_id b \<and> bk_bot (f b) = bk_bot b \<and> bk_service (f b) = bk_service b)"

inductive prim :: "world \<Rightarrow> ledger \<Rightarrow> ledger \<Rightarrow> bool" for W where
  prim_request:
    "insert_row b now = Inr now' \<Longrightarrow> \<not> held b \<Longrightarrow> bk_id b \<notin> bk_id ` set now \<Longrightarrow> owned_row W b \<Longrightarrow>
     prim W now now'"
| prim_create:
    "create_tx e c w d tc now = Inr now' \<Longrightarrow> fits W e \<Longrightarrow> cc_id c \<notin> bk_id ` set now \<Longrightarrow>
     wd_owner W (sv_id (cc_service c)) = ev_bot e \<Longrightarrow>
     cap_of W (sv_id (cc_service c)) = sv_max_per_day (cc_service c) \<Longrightarrow> prim W now now'"
| prim_unheld:
    "update_row i P f now = Inr (r, now') \<Longrightarrow> keeps_identity f \<Longrightarrow> (\<forall>b. P b \<longrightarrow> \<not> held (f b)) \<Longrightarrow>
     prim W now now'"
| prim_close: "prim W now (close_open_change_requests e i res now)"
| prim_restamp: "prim W now (map (restamp_row e ids) now)"
| prim_reschedule:
    "reschedule_tx e rc b sv w tc now = Inr now' \<Longrightarrow> fits W e \<Longrightarrow> still_there b now \<Longrightarrow>
     bk_bot b = ev_bot e \<Longrightarrow> service_for_booking e b = Inr sv \<Longrightarrow> unmoved W b now \<Longrightarrow> prim W now now'"
| prim_accept:
    "accept_tx e (bk_id b) sv w now = Inr now' \<Longrightarrow> fits W e \<Longrightarrow> still_there b now \<Longrightarrow>
     bk_bot b = ev_bot e \<Longrightarrow> service_for_booking e b = Inr sv \<Longrightarrow> ww_start w = bk_start b \<Longrightarrow>
     unmoved W b now \<Longrightarrow> prim W now now'"

inductive rekey :: "ledger \<Rightarrow> ledger \<Rightarrow> bool" where
  rekey_row: "update_row i (\<lambda>_. True) (\<lambda>b. b\<lparr>bk_key := key\<rparr>) now = Inr (r, now') \<Longrightarrow> rekey now now'"

lemma create_tx_insert:
  "create_tx e c w d tc db = Inr db' \<Longrightarrow>
     insert_row (new_row e c Confirmed w d tc) db = Inr db' \<and>
     enforce_service_day_capacity (ev_tz e) (zone_name e) (cc_service c) (ww_start w) None db = None \<and>
     enforce_business_capacity (ev_tz e) (zone_name e) (ev_bot e) (ev_key e) (ev_rules e) w None db = None"
  by (auto simp: create_tx_def split: option.splits if_splits sum.splits)

definition moved_row :: "env \<Rightarrow> reschedule_call \<Rightarrow> write_window \<Rightarrow> travel_check option \<Rightarrow> booking \<Rightarrow> booking" where
  "moved_row e r w tc c =
     c\<lparr>bk_start := ww_start w, bk_end := ww_end w, bk_from := ww_from w, bk_to := ww_to w,
       bk_key := ev_key e, bk_travel := tc,
       bk_duration := (case rs_duration r of None \<Rightarrow> bk_duration c | Some d \<Rightarrow> Some d),
       bk_sequence := bk_sequence c + 1,
       bk_address := (case rs_address r of None \<Rightarrow> bk_address c | Some a \<Rightarrow> Some a),
       bk_place := (if rs_address r = None then bk_place c else fst (rs_placed r)),
       bk_source := (if rs_address r = None then bk_source c else snd (rs_placed r))\<rparr>"

lemma reschedule_tx_update:
  assumes "reschedule_tx e r b sv w tc db = Inr db'"
  shows "\<exists>x. update_row (bk_id b) (\<lambda>c. bk_tenant c = ev_tenant e \<and> bk_status c = Confirmed)
                (moved_row e r w tc) db = Inr (Some x, db')"
    and "enforce_business_capacity (ev_tz e) (zone_name e) (ev_bot e) (ev_key e) (ev_rules e) w
           (Some (bk_id b)) db = None"
    and "map_option (\<lambda>z. zdate z (bk_start b)) (ev_tz e (zone_name e)) \<noteq>
           map_option (\<lambda>z. zdate z (ww_start w)) (ev_tz e (zone_name e)) \<Longrightarrow>
         enforce_service_day_capacity (ev_tz e) (zone_name e) sv (ww_start w) (Some (bk_id b)) db = None"
  using assms unfolding reschedule_tx_def moved_row_def [abs_def] Let_def
  by (auto split: option.splits sum.splits pg_error.splits prod.splits if_splits)

definition accepted_row :: "env \<Rightarrow> write_window \<Rightarrow> booking \<Rightarrow> booking" where
  "accepted_row e w c =
     c\<lparr>bk_status := Confirmed, bk_key := ev_key e, bk_from := ww_from w, bk_to := ww_to w,
       bk_travel := (if bk_travel c = Some TravelCaptured then Some TravelOverridden else bk_travel c)\<rparr>"

lemma accept_tx_update:
  assumes "accept_tx e i sv w db = Inr db'"
  shows "\<exists>x. update_row i (\<lambda>c. bk_tenant c = ev_tenant e \<and> bk_status c = RequestCreated)
                (accepted_row e w) db = Inr (Some x, db')"
    and "enforce_business_capacity (ev_tz e) (zone_name e) (ev_bot e) (ev_key e) (ev_rules e) w
           (Some i) db = None"
    and "enforce_service_day_capacity (ev_tz e) (zone_name e) sv (ww_start w) (Some i) db = None"
  using assms unfolding accept_tx_def accepted_row_def [abs_def]
  by (auto split: option.splits sum.splits pg_error.splits prod.splits)

lemma moved_row_keeps [simp]:
  "bk_id (moved_row e r w tc c) = bk_id c" "bk_bot (moved_row e r w tc c) = bk_bot c"
  "bk_service (moved_row e r w tc c) = bk_service c" "bk_status (moved_row e r w tc c) = bk_status c"
  "bk_start (moved_row e r w tc c) = ww_start w" "bk_key (moved_row e r w tc c) = ev_key e"
  "bk_from (moved_row e r w tc c) = ww_from w" "bk_to (moved_row e r w tc c) = ww_to w"
  by (simp_all add: moved_row_def)

lemma accepted_row_keeps [simp]:
  "bk_id (accepted_row e w c) = bk_id c" "bk_bot (accepted_row e w c) = bk_bot c"
  "bk_service (accepted_row e w c) = bk_service c" "bk_status (accepted_row e w c) = Confirmed"
  "bk_start (accepted_row e w c) = bk_start c" "bk_key (accepted_row e w c) = ev_key e"
  "bk_from (accepted_row e w c) = ww_from w" "bk_to (accepted_row e w c) = ww_to w"
  by (simp_all add: accepted_row_def)

lemma new_row_keeps [simp]:
  "bk_id (new_row e c st w d tc) = cc_id c" "bk_bot (new_row e c st w d tc) = ev_bot e"
  "bk_service (new_row e c st w d tc) = Some (sv_id (cc_service c))"
  "bk_status (new_row e c st w d tc) = st" "bk_start (new_row e c st w d tc) = ww_start w"
  "bk_key (new_row e c st w d tc) = ev_key e" "bk_from (new_row e c st w d tc) = ww_from w"
  "bk_to (new_row e c st w d tc) = ww_to w"
  by (simp_all add: new_row_def)

lemma restamp_row_keeps [simp]:
  "bk_id (restamp_row e ids c) = bk_id c" "bk_tenant (restamp_row e ids c) = bk_tenant c"
  "bk_bot (restamp_row e ids c) = bk_bot c" "bk_service (restamp_row e ids c) = bk_service c"
  "bk_status (restamp_row e ids c) = bk_status c" "bk_start (restamp_row e ids c) = bk_start c"
  "bk_end (restamp_row e ids c) = bk_end c" "bk_from (restamp_row e ids c) = bk_from c"
  "bk_to (restamp_row e ids c) = bk_to c" "bk_key (restamp_row e ids c) = bk_key c"
  "bk_related (restamp_row e ids c) = bk_related c" "bk_kind (restamp_row e ids c) = bk_kind c"
  "bk_idem (restamp_row e ids c) = bk_idem c" "held (restamp_row e ids c) = held c"
  by (simp_all add: restamp_row_def held_def)

section \<open>No two held bookings overlap\<close>

lemma restamp_ok:
  assumes "ledger_ok db"
  shows "ledger_ok (map (restamp_row e ids) db)"
proof -
  have "check_ok (restamp_row e ids b) = check_ok b"
    "slot_clash (restamp_row e ids b) (restamp_row e ids c) = slot_clash b c"
    "unique_clash (restamp_row e ids b) (restamp_row e ids c) = unique_clash b c" for b c
    by (simp_all add: check_ok_def slot_clash_def unique_clash_def open_change_def)
  then show ?thesis using assms by (simp add: ledger_ok_def comp_def)
qed

lemma close_rows:
  "c \<in> set (close_open_change_requests e i res now) \<Longrightarrow>
     c \<in> set now \<or>
     (\<exists>b \<in> set now. c = b\<lparr>bk_status := Cancelled, bk_resolution := Some res\<rparr>)"
  by (auto simp: close_open_change_requests_def)

lemma close_ids: "map bk_id (close_open_change_requests e i res now) = map bk_id now"
  by (simp add: close_open_change_requests_def)

lemma cancelled_clash:
  "slot_clash (b\<lparr>bk_status := Cancelled, bk_resolution := r\<rparr>) c = False"
  "unique_clash (b\<lparr>bk_status := Cancelled, bk_resolution := r\<rparr>) c \<Longrightarrow> unique_clash b c"
  "check_ok (b\<lparr>bk_status := Cancelled, bk_resolution := r\<rparr>) = check_ok b"
  by (auto simp: slot_clash_def held_def unique_clash_def open_change_def check_ok_def)

lemma close_ok:
  assumes "ledger_ok db"
  shows "ledger_ok (close_open_change_requests e i res db)"
proof -
  let ?x = "\<lambda>b. b\<lparr>bk_status := Cancelled, bk_resolution := Some res\<rparr>"
  have src: "\<exists>b \<in> set db. bk_id b = bk_id c \<and> (c = b \<or> c = ?x b)"
    if "c \<in> set (close_open_change_requests e i res db)" for c
    using close_rows [OF that] by force
  have "check_ok c" if "c \<in> set (close_open_change_requests e i res db)" for c
    using src [OF that] assms cancelled_clash(3) unfolding ledger_ok_def by metis
  moreover have "\<not> slot_clash c d \<and> \<not> unique_clash c d"
    if cd: "c \<in> set (close_open_change_requests e i res db)"
      "d \<in> set (close_open_change_requests e i res db)" "bk_id c \<noteq> bk_id d" for c d
  proof -
    obtain b where b: "b \<in> set db" "bk_id b = bk_id c" "c = b \<or> c = ?x b" using src cd(1) by blast
    obtain a where a: "a \<in> set db" "bk_id a = bk_id d" "d = a \<or> d = ?x a" using src cd(2) by blast
    have "\<not> slot_clash b a" "\<not> unique_clash b a" "\<not> slot_clash a b" "\<not> unique_clash a b"
      using assms a b cd(3) unfolding ledger_ok_def by metis+
    then show ?thesis using a(3) b(3) cancelled_clash slot_clash_sym unique_clash_sym by metis
  qed
  ultimately show ?thesis using assms unfolding ledger_ok_def close_ids by blast
qed

lemma prim_ok: "prim W now now' \<Longrightarrow> ledger_ok now \<Longrightarrow> ledger_ok now'"
proof (induction rule: prim.induct)
  case (prim_request b now now')
  then show ?case using insert_row_ok by blast
next
  case (prim_create e c w d tc now now')
  have "insert_row (new_row e c Confirmed w d tc) now = Inr now'"
    using create_tx_insert [OF prim_create.hyps(1)] by blast
  then show ?case using insert_row_ok [OF prim_create.prems] prim_create.hyps(3) by simp
next
  case (prim_unheld i P f now r now')
  then show ?case using update_row_ok [OF prim_unheld.prems prim_unheld.hyps(1)]
    by (simp add: keeps_identity_def)
next
  case (prim_close now e i res)
  then show ?case by (rule close_ok)
next
  case (prim_restamp now e ids)
  then show ?case by (rule restamp_ok)
next
  case (prim_reschedule e rc b sv w tc now now')
  then show ?case
    using reschedule_tx_update(1) [OF prim_reschedule.hyps(1)] update_row_ok moved_row_keeps(1) by blast
next
  case (prim_accept e b sv w now now')
  then show ?case
    using accept_tx_update(1) [OF prim_accept.hyps(1)] update_row_ok accepted_row_keeps(1) by blast
qed

lemma rekey_ok: "rekey now now' \<Longrightarrow> ledger_ok now \<Longrightarrow> ledger_ok now'"
proof (erule rekey.cases)
  fix i key db r db'
  assume "ledger_ok now" "now = db" "now' = db'"
    "update_row i (\<lambda>_. True) (\<lambda>b. b\<lparr>bk_key := key\<rparr>) db = Inr (r, db')"
  then show "ledger_ok now'" using update_row_ok [of db i "\<lambda>_. True" "\<lambda>b. b\<lparr>bk_key := key\<rparr>" r db'] by simp
qed

section \<open>The minimum gap\<close>

definition too_close :: "int \<Rightarrow> booking \<Rightarrow> booking \<Rightarrow> bool" where
  "too_close gap b c =
     ranges_overlap (bk_from b) (bk_to b) (bk_from c - gap * minute_ms) (bk_to c + gap * minute_ms)"

definition pair_gap :: "world \<Rightarrow> booking \<Rightarrow> booking \<Rightarrow> int" where
  "pair_gap W b c = min (br_min_gap (wd_rules W (bk_bot b))) (br_min_gap (wd_rules W (bk_bot c)))"

definition gap_ok :: "world \<Rightarrow> ledger \<Rightarrow> bool" where
  "gap_ok W db \<longleftrightarrow>
     (\<forall>b \<in> set db. \<forall>c \<in> set db.
        bk_id b \<noteq> bk_id c \<longrightarrow> held b \<longrightarrow> held c \<longrightarrow> bk_key b = bk_key c \<longrightarrow>
        bk_from b < bk_to b \<longrightarrow> bk_from c < bk_to c \<longrightarrow> 0 < pair_gap W b c \<longrightarrow>
        \<not> too_close (pair_gap W b c) b c)"

lemma too_close_sym:
  "bk_from b < bk_to b \<Longrightarrow> bk_from c < bk_to c \<Longrightarrow> 0 \<le> gap \<Longrightarrow> too_close gap b c = too_close gap c b"
  by (auto simp: too_close_def ranges_overlap_def)

lemma too_close_mono: "too_close g b c \<Longrightarrow> 0 \<le> g \<Longrightarrow> g \<le> h \<Longrightarrow> too_close h b c"
  by (auto simp: too_close_def ranges_overlap_def)

lemma pair_gap_sym: "pair_gap W b c = pair_gap W c b"
  by (simp add: pair_gap_def min.commute)

text \<open>The gate's query, read as a statement about the row being written.\<close>

lemma capacity_gap:
  assumes "enforce_business_capacity tz name agent key r w ex db = None" "0 < br_min_gap r"
    and "c \<in> set db" "bk_key c = key" "held c" "not_excluded ex c"
  shows "\<not> ranges_overlap (bk_from c) (bk_to c) (ww_from w - br_min_gap r * minute_ms)
             (ww_to w + br_min_gap r * minute_ms)"
  using assms by (auto simp: enforce_business_capacity_def Let_def list_ex_iff gap_clash_def split: if_splits)

text \<open>
  One row \<open>n\<close> is written under the gate, every other row of the result was there before.
\<close>

lemma gap_ok_write:
  assumes ok: "gap_ok W db" and fit: "fits W e"
    and gate: "enforce_business_capacity (ev_tz e) (zone_name e) (ev_bot e) (ev_key e) (ev_rules e) w ex db = None"
    and rows: "\<And>c. c \<in> set db' \<Longrightarrow> c = n \<or> (c \<in> set db \<and> bk_id c \<noteq> bk_id n)"
    and ex: "\<And>c. c \<in> set db \<Longrightarrow> bk_id c \<noteq> bk_id n \<Longrightarrow> not_excluded ex c"
    and n: "bk_bot n = ev_bot e" "bk_key n = ev_key e" "bk_from n = ww_from w" "bk_to n = ww_to w"
  shows "gap_ok W db'"
proof -
  have far: "\<not> too_close (pair_gap W c n) c n"
    if "c \<in> set db" "bk_id c \<noteq> bk_id n" "held c" "bk_key c = bk_key n" "0 < pair_gap W c n" for c
  proof
    assume close: "too_close (pair_gap W c n) c n"
    let ?g = "br_min_gap (ev_rules e)"
    have le: "pair_gap W c n \<le> ?g" using fit n(1) by (simp add: pair_gap_def fits_def)
    then have "0 < ?g" using that(5) by simp
    then have "\<not> too_close ?g c n"
      using capacity_gap [OF gate _ that(1) _ that(3) ex [OF that(1,2)]] that(4) n
      by (simp add: too_close_def)
    then show False using too_close_mono [OF close _ le] that(5) by simp
  qed
  show ?thesis
    unfolding gap_ok_def
  proof (intro ballI impI)
    fix b c
    assume m: "b \<in> set db'" "c \<in> set db'" and d: "bk_id b \<noteq> bk_id c" and h: "held b" "held c"
      and k: "bk_key b = bk_key c" and ne: "bk_from b < bk_to b" "bk_from c < bk_to c"
      and pos: "0 < pair_gap W b c"
    consider "b \<in> set db" "c \<in> set db" | "c = n" "b \<in> set db" "bk_id b \<noteq> bk_id n"
      | "b = n" "c \<in> set db" "bk_id c \<noteq> bk_id n"
      using rows [OF m(1)] rows [OF m(2)] d by blast
    then show "\<not> too_close (pair_gap W b c) b c"
    proof cases
      case 1
      then show ?thesis using ok d h k ne pos unfolding gap_ok_def by blast
    next
      case 2
      then show ?thesis using far [of b] h k pos by simp
    next
      case 3
      then have "\<not> too_close (pair_gap W c n) c n" using far [of c] h k pos by (simp add: pair_gap_sym)
      then show ?thesis using 3 ne pos too_close_sym [OF ne] by (simp add: pair_gap_sym)
    qed
  qed
qed

lemma gap_ok_subset:
  assumes "gap_ok W db"
    and "\<And>c. c \<in> set db' \<Longrightarrow> held c \<Longrightarrow> c \<in> set db"
  shows "gap_ok W db'"
  using assms unfolding gap_ok_def by meson

lemma update_row_written:
  assumes "update_row i P f db = Inr (Some x, db')" "\<And>b. bk_id (f b) = bk_id b"
  shows "\<exists>b \<in> set db. bk_id b = i \<and> P b \<and> x = f b \<and>
           (\<forall>c \<in> set db'. c = f b \<or> (c \<in> set db \<and> bk_id c \<noteq> bk_id (f b)))"
proof -
  from update_row_cases [OF assms(1)] obtain b where b: "find_row i db = Some b" "P b" "x = f b"
    "db' = map (\<lambda>c. if bk_id c = i then f b else c) db" by auto
  have row: "b \<in> set db" "bk_id b = i" using find_row_Some [OF b(1)] by blast+
  moreover have "\<forall>c \<in> set db'. c = f b \<or> (c \<in> set db \<and> bk_id c \<noteq> bk_id (f b))"
    using row assms(2) unfolding b(4) by auto
  ultimately show ?thesis using b(2,3) by blast
qed

lemma still_there_row:
  assumes "distinct (map bk_id now)" "still_there b now" "c \<in> set now" "bk_id c = bk_id b"
  shows "bk_bot c = bk_bot b \<and> bk_service c = bk_service b"
proof -
  obtain d where d: "d \<in> set now" "bk_id d = bk_id b" "bk_bot d = bk_bot b" "bk_service d = bk_service b"
    using assms(2) unfolding still_there_def by blast
  then have "c = d" using assms by (metis distinct_map inj_onD)
  then show ?thesis using d by simp
qed

lemma prim_gap: "prim W now now' \<Longrightarrow> ledger_ok now \<Longrightarrow> gap_ok W now \<Longrightarrow> gap_ok W now'"
proof (induction rule: prim.induct)
  case (prim_request b now now')
  then show ?case
    by (intro gap_ok_subset [OF prim_request.prems(2)]) (auto simp: insert_row_Inr)
next
  case (prim_create e c w d tc now now')
  note t = create_tx_insert [OF prim_create.hyps(1)]
  show ?case
  proof (rule gap_ok_write [OF prim_create.prems(2) prim_create.hyps(2), where w = w and ex = None
        and n = "new_row e c Confirmed w d tc"])
    fix r assume "r \<in> set now'"
    then show "r = new_row e c Confirmed w d tc \<or> (r \<in> set now \<and> bk_id r \<noteq> bk_id (new_row e c Confirmed w d tc))"
      using t prim_create.hyps(3) by (force simp: insert_row_Inr)
  qed (use t in \<open>auto simp: not_excluded_def\<close>)
next
  case (prim_unheld i P f now r now')
  have k: "\<And>b. bk_id (f b) = bk_id b" using prim_unheld.hyps(2) by (simp add: keeps_identity_def)
  show ?case
    using update_row_rows [OF _ prim_unheld.hyps(1) k] prim_unheld.prems prim_unheld.hyps(3)
    by (intro gap_ok_subset [OF prim_unheld.prems(2)]) (auto simp: ledger_ok_def)
next
  case (prim_close now e i res)
  show ?case
    by (rule gap_ok_subset [OF prim_close.prems(2)]) (use close_rows in \<open>fastforce simp: held_def\<close>)
next
  case (prim_restamp now e ids)
  then show ?case by (simp add: gap_ok_def pair_gap_def too_close_def)
next
  case (prim_reschedule e rc b sv w tc now now')
  obtain x where u: "update_row (bk_id b) (\<lambda>c. bk_tenant c = ev_tenant e \<and> bk_status c = Confirmed)
      (moved_row e rc w tc) now = Inr (Some x, now')"
    using reschedule_tx_update(1) [OF prim_reschedule.hyps(1)] by blast
  obtain c where c: "c \<in> set now" "bk_id c = bk_id b"
    "\<forall>d \<in> set now'. d = moved_row e rc w tc c \<or> (d \<in> set now \<and> bk_id d \<noteq> bk_id (moved_row e rc w tc c))"
    using update_row_written [OF u] by auto
  have "bk_bot c = ev_bot e"
    using still_there_row [OF _ prim_reschedule.hyps(3) c(1,2)] prim_reschedule.prems(1) prim_reschedule.hyps(4)
    by (simp add: ledger_ok_def)
  then show ?case
    using c(2,3) by (intro gap_ok_write [OF prim_reschedule.prems(2) prim_reschedule.hyps(2)
          reschedule_tx_update(2) [OF prim_reschedule.hyps(1)], where n = "moved_row e rc w tc c"])
      (auto simp: not_excluded_def)
next
  case (prim_accept e b sv w now now')
  obtain x where u: "update_row (bk_id b) (\<lambda>c. bk_tenant c = ev_tenant e \<and> bk_status c = RequestCreated)
      (accepted_row e w) now = Inr (Some x, now')"
    using accept_tx_update(1) [OF prim_accept.hyps(1)] by blast
  obtain c where c: "c \<in> set now" "bk_id c = bk_id b"
    "\<forall>d \<in> set now'. d = accepted_row e w c \<or> (d \<in> set now \<and> bk_id d \<noteq> bk_id (accepted_row e w c))"
    using update_row_written [OF u] by auto
  have "bk_bot c = ev_bot e"
    using still_there_row [OF _ prim_accept.hyps(3) c(1,2)] prim_accept.prems(1) prim_accept.hyps(4)
    by (simp add: ledger_ok_def)
  then show ?case
    using c(2,3) by (intro gap_ok_write [OF prim_accept.prems(2) prim_accept.hyps(2)
          accept_tx_update(2) [OF prim_accept.hyps(1)], where n = "accepted_row e w c"])
      (auto simp: not_excluded_def)
qed

section \<open>The daily cap of a service\<close>

text \<open>
  What the code relies on from luxon here: the local day of an instant is the half-open interval
  from its start to the next day's start, and a date names one day.
\<close>

definition day_law :: "zone \<Rightarrow> bool" where
  "day_law z \<longleftrightarrow>
     (\<forall>t u. zstart z t \<le> u \<and> u < zstart z (zplus_days z 1 t) \<longleftrightarrow> zstart z u = zstart z t) \<and>
     (\<forall>t u. zdate z t = zdate z u \<longrightarrow> zstart z t = zstart z u)"

definition zone_law :: "world \<Rightarrow> bool" where
  "zone_law W \<longleftrightarrow> (\<forall>name z. wd_tz W name = Some z \<longrightarrow> day_law z)"

text \<open>The held bookings of a service on the local day of an instant.\<close>

definition day_count :: "world \<Rightarrow> nat \<Rightarrow> instant \<Rightarrow> ledger \<Rightarrow> nat" where
  "day_count W s t db =
     length (service_day_rows (day_window (wd_tz W) (wd_zone W (wd_owner W s)) t) s None db)"

definition cap_ok :: "world \<Rightarrow> ledger \<Rightarrow> bool" where
  "cap_ok W db \<longleftrightarrow>
     (\<forall>s mx t. cap_of W s = Some mx \<longrightarrow> 0 < mx \<longrightarrow> int (day_count W s t db) \<le> mx)"

definition rows_owned :: "world \<Rightarrow> ledger \<Rightarrow> bool" where
  "rows_owned W db \<longleftrightarrow> (\<forall>b \<in> set db. owned_row W b)"

definition in_day_of :: "world \<Rightarrow> nat \<Rightarrow> instant \<Rightarrow> instant \<Rightarrow> bool" where
  "in_day_of W s t u = in_day (day_window (wd_tz W) (wd_zone W (wd_owner W s)) t) u"

lemma same_date_same_day:
  "zone_law W \<Longrightarrow> wd_tz W name = Some z \<Longrightarrow> zdate z t = zdate z u \<Longrightarrow> zstart z t = zstart z u"
  unfolding zone_law_def day_law_def by blast

lemma in_day_zone:
  assumes "zone_law W"
  shows "in_day_of W s t u \<longleftrightarrow>
    (\<exists>z. wd_tz W (wd_zone W (wd_owner W s)) = Some z \<and> zstart z u = zstart z t)"
proof (cases "wd_tz W (wd_zone W (wd_owner W s))")
  case None
  then show ?thesis by (simp add: in_day_of_def in_day_def day_window_def)
next
  case (Some z)
  then have "zstart z t \<le> u \<and> u < zstart z (zplus_days z 1 t) \<longleftrightarrow> zstart z u = zstart z t"
    using assms unfolding zone_law_def day_law_def by blast
  then show ?thesis using Some by (simp add: in_day_of_def in_day_def day_window_def)
qed

lemma in_day_window_eq:
  assumes "zone_law W" "in_day_of W s t u"
  shows "in_day_of W s t v = in_day_of W s u v"
  using assms by (auto simp: in_day_zone)

lemma day_count_alt:
  "day_count W s t db = length (filter (\<lambda>b. bk_service b = Some s \<and> held b \<and> in_day_of W s t (bk_start b)) db)"
  by (simp add: day_count_def service_day_rows_def not_excluded_def in_day_of_def)

lemma length_filter_map_le:
  assumes "\<And>x. x \<in> set xs \<Longrightarrow> P (g x) \<Longrightarrow> Q x"
  shows "length (filter P (map g xs)) \<le> length (filter Q xs)"
  using assms by (induction xs) auto

text \<open>The count excluding one row, plus one for that row.\<close>

lemma length_filter_replace:
  assumes "distinct (map bk_id db)" "\<And>x. x \<in> set db \<Longrightarrow> bk_id x \<noteq> i \<Longrightarrow> P x = Q x"
  shows "length (filter P (map (\<lambda>c. if bk_id c = i then n else c) db)) \<le>
         length (filter (\<lambda>c. Q c \<and> bk_id c \<noteq> i) db) + 1"
  using assms
proof (induction db)
  case Nil
  then show ?case by simp
next
  case (Cons c db)
  show ?case
  proof (cases "bk_id c = i")
    case True
    then have notin: "bk_id x \<noteq> i" if "x \<in> set db" for x
      using Cons.prems(1) that by (metis distinct.simps(2) imageI list.simps(9) set_map)
    then have "map (\<lambda>c. if bk_id c = i then n else c) db = db"
      and "filter (\<lambda>c. Q c \<and> bk_id c \<noteq> i) db = filter P db"
      using Cons.prems(2) by (auto intro: map_idI filter_cong)
    then show ?thesis using True by simp
  next
    case False
    then show ?thesis using Cons by auto
  qed
qed

lemma cap_gate:
  assumes "enforce_service_day_capacity tz name sv t ex db = None" "sv_max_per_day sv = Some mx" "0 < mx"
  shows "int (length (service_day_rows (day_window tz name t) (sv_id sv) ex db)) + 1 \<le> mx"
  using assms by (auto simp: enforce_service_day_capacity_def split: if_splits)

lemma cap_ok_count: "cap_ok W db \<Longrightarrow> cap_of W s = Some mx \<Longrightarrow> 0 < mx \<Longrightarrow> int (day_count W s t db) \<le> mx"
  by (auto simp: cap_ok_def)

lemma cap_ok_le:
  assumes "cap_ok W db" "\<And>s t. day_count W s t db' \<le> day_count W s t db"
  shows "cap_ok W db'"
  unfolding cap_ok_def
proof (intro allI impI)
  fix s mx t
  assume "cap_of W s = Some mx" "0 < mx"
  then show "int (day_count W s t db') \<le> mx"
    using cap_ok_count [OF assms(1)] assms(2) [of s t] by (meson of_nat_mono order_trans)
qed

text \<open>The service an operation resolves for a row, against the caps of the world.\<close>

lemma service_for_booking_cap:
  assumes "service_for_booking e b = Inr sv" "fits W e" "world_ok W" "bk_service b = Some s"
    and "cap_of W s = Some mx"
  shows "sv_id sv = s \<and> sv_max_per_day sv = Some mx"
  using assms
  by (auto simp: service_for_booking_def fits_def cap_of_def world_ok_def resolve_service_timing_def
      split: option.splits)

lemma update_row_map:
  assumes "update_row i P f db = Inr (Some x, db')"
  shows "\<exists>b \<in> set db. bk_id b = i \<and> P b \<and> db' = map (\<lambda>c. if bk_id c = i then f b else c) db"
  using update_row_cases [OF assms] find_row_Some by fastforce

text \<open>One row \<open>n\<close> replaces its old self under the gate, or on the day it already had.\<close>

lemma cap_ok_rewrite:
  assumes ok: "ledger_ok db" and cap: "cap_ok W db" and law: "zone_law W"
    and c: "c \<in> set db" "bk_id c = i"
    and db': "db' = map (\<lambda>r. if bk_id r = i then n else r) db"
    and n: "bk_service n = bk_service c"
    and gate: "\<And>s mx. bk_service c = Some s \<Longrightarrow> cap_of W s = Some mx \<Longrightarrow> 0 < mx \<Longrightarrow>
      (held c \<and> (\<forall>t. in_day_of W s t (bk_start n) = in_day_of W s t (bk_start c))) \<or>
      int (length (filter (\<lambda>b. (bk_service b = Some s \<and> held b \<and> in_day_of W s (bk_start n) (bk_start b)) \<and>
                             bk_id b \<noteq> i) db)) + 1 \<le> mx"
  shows "cap_ok W db'"
  unfolding cap_ok_def
proof (intro allI impI)
  fix s mx t
  assume s: "cap_of W s = Some mx" "0 < mx"
  let ?P = "\<lambda>b. bk_service b = Some s \<and> held b \<and> in_day_of W s t (bk_start b)"
  have dist: "distinct (map bk_id db)" using ok by (simp add: ledger_ok_def)
  have same: "r = c" if "r \<in> set db" "bk_id r = i" for r
    using dist that c by (metis distinct_map inj_onD)
  have old: "int (day_count W s t db) \<le> mx" by (rule cap_ok_count [OF cap s])
  have less: "int (day_count W s t db') \<le> mx" if "?P n \<Longrightarrow> ?P c"
  proof -
    have "day_count W s t db' \<le> day_count W s t db"
      unfolding day_count_alt db'
      by (rule length_filter_map_le) (use that same in \<open>auto split: if_splits\<close>)
    then show ?thesis using old by (meson of_nat_mono order_trans)
  qed
  show "int (day_count W s t db') \<le> mx"
  proof (cases "?P n")
    case False
    then show ?thesis using less by blast
  next
    case True
    then have sc: "bk_service c = Some s" using n by simp
    from gate [OF sc s] show ?thesis
    proof
      assume "held c \<and> (\<forall>t. in_day_of W s t (bk_start n) = in_day_of W s t (bk_start c))"
      then show ?thesis using less sc True by blast
    next
      assume g: "int (length (filter (\<lambda>b. (bk_service b = Some s \<and> held b \<and>
                   in_day_of W s (bk_start n) (bk_start b)) \<and> bk_id b \<noteq> i) db)) + 1 \<le> mx"
      have win: "in_day_of W s t v = in_day_of W s (bk_start n) v" for v
        using in_day_window_eq [OF law] True by blast
      have "day_count W s t db' \<le> length (filter (\<lambda>b. ?P b \<and> bk_id b \<noteq> i) db) + 1"
        unfolding day_count_alt db' by (rule length_filter_replace [OF dist]) simp
      then show ?thesis using g unfolding win by linarith
    qed
  qed
qed

lemma excluded_count:
  "length (service_day_rows (day_window (wd_tz W) (wd_zone W (wd_owner W s)) u) s (Some i) db) =
     length (filter (\<lambda>b. (bk_service b = Some s \<and> held b \<and> in_day_of W s u (bk_start b)) \<and> bk_id b \<noteq> i) db)"
  by (simp add: service_day_rows_def in_day_of_def not_excluded_def conj_assoc)

lemma gate_excluded:
  assumes gate: "enforce_service_day_capacity (ev_tz e) (zone_name e) sv u (Some i) db = None"
    and "service_for_booking e b = Inr sv" "fits W e" "world_ok W" "bk_service b = Some s"
    and "cap_of W s = Some mx" "0 < mx" and owner: "wd_owner W s = ev_bot e"
  shows "int (length (filter (\<lambda>b. (bk_service b = Some s \<and> held b \<and> in_day_of W s u (bk_start b)) \<and>
             bk_id b \<noteq> i) db)) + 1 \<le> mx"
proof -
  have sv: "sv_id sv = s" "sv_max_per_day sv = Some mx"
    using service_for_booking_cap [OF assms(2-6)] by blast+
  have "ev_tz e = wd_tz W" "zone_name e = wd_zone W (wd_owner W s)"
    using assms(3) owner by (auto simp: fits_def)
  then show ?thesis using cap_gate [OF gate sv(2) assms(7)] sv(1) excluded_count [of W s u i db] by simp
qed

lemma rows_owned_row: "rows_owned W db \<Longrightarrow> c \<in> set db \<Longrightarrow> bk_service c = Some s \<Longrightarrow> wd_owner W s = bk_bot c"
  by (auto simp: rows_owned_def owned_row_def)

lemma prim_cap:
  assumes "prim W now now'" "ledger_ok now" "rows_owned W now" "cap_ok W now"
    and W: "world_ok W" "zone_law W" "wd_serial W"
  shows "cap_ok W now'"
  using assms(1-4)
proof (induction rule: prim.induct)
  case (prim_request b now now')
  then show ?case
    by (intro cap_ok_le [OF prim_request.prems(3)]) (auto simp: insert_row_Inr day_count_alt)
next
  case (prim_create e c w d tc now now')
  note t = create_tx_insert [OF prim_create.hyps(1)]
  let ?n = "new_row e c Confirmed w d tc"
  have db': "now' = now @ [?n]" using t by (simp add: insert_row_Inr)
  show ?case
    unfolding cap_ok_def
  proof (intro allI impI)
    fix s mx u
    assume s: "cap_of W s = Some mx" "0 < mx"
    have old: "int (day_count W s u now) \<le> mx" by (rule cap_ok_count [OF prim_create.prems(3) s])
    show "int (day_count W s u now') \<le> mx"
    proof (cases "s = sv_id (cc_service c) \<and> in_day_of W s u (ww_start w)")
      case False
      then have "day_count W s u now' = day_count W s u now" by (auto simp: day_count_alt db')
      then show ?thesis using old by simp
    next
      case True
      have mx: "sv_max_per_day (cc_service c) = Some mx" using prim_create.hyps(5) s(1) True by simp
      have "ev_tz e = wd_tz W" "zone_name e = wd_zone W (wd_owner W s)"
        using prim_create.hyps(2,4) True by (auto simp: fits_def)
      then have "int (day_count W s (ww_start w) now) + 1 \<le> mx"
        using cap_gate [OF _ mx s(2)] t True by (simp add: day_count_def)
      moreover have "day_count W s u now = day_count W s (ww_start w) now"
        using in_day_window_eq [OF W(2), of s u "ww_start w"] conjunct2 [OF True] by (simp add: day_count_alt)
      moreover have "day_count W s u now' \<le> day_count W s u now + 1" by (simp add: day_count_alt db')
      ultimately show ?thesis by linarith
    qed
  qed
next
  case (prim_unheld i P f now r now')
  have "day_count W s u now' \<le> day_count W s u now" for s u
    using update_row_cases [OF prim_unheld.hyps(1)]
  proof
    assume "r = None \<and> now' = now"
    then show ?thesis by simp
  next
    assume "\<exists>b. find_row i now = Some b \<and> P b \<and> r = Some (f b) \<and>
            row_error (f b) (filter (\<lambda>c. bk_id c \<noteq> i) now) = None \<and>
            now' = map (\<lambda>c. if bk_id c = i then f b else c) now"
    then obtain b where b: "P b" "now' = map (\<lambda>c. if bk_id c = i then f b else c) now" by blast
    have nh: "\<not> held (f b)" using prim_unheld.hyps(3) b(1) by blast
    show ?thesis
      unfolding day_count_alt b(2)
      by (rule length_filter_map_le) (use nh in \<open>auto split: if_splits\<close>)
  qed
  then show ?case by (rule cap_ok_le [OF prim_unheld.prems(3)])
next
  case (prim_close now e i res)
  have "day_count W s u (close_open_change_requests e i res now) \<le> day_count W s u now" for s u
    unfolding day_count_alt close_open_change_requests_def
    by (rule length_filter_map_le) (auto simp: held_def split: if_splits)
  then show ?case by (rule cap_ok_le [OF prim_close.prems(3)])
next
  case (prim_restamp now e ids)
  have "day_count W s u (map (restamp_row e ids) now) \<le> day_count W s u now" for s u
    unfolding day_count_alt by (rule length_filter_map_le) simp
  then show ?case by (rule cap_ok_le [OF prim_restamp.prems(3)])
next
  case (prim_reschedule e rc b sv w tc now now')
  obtain x where "update_row (bk_id b) (\<lambda>c. bk_tenant c = ev_tenant e \<and> bk_status c = Confirmed)
      (moved_row e rc w tc) now = Inr (Some x, now')"
    using reschedule_tx_update(1) [OF prim_reschedule.hyps(1)] by blast
  from update_row_map [OF this] obtain c where c: "c \<in> set now" "bk_id c = bk_id b" "bk_status c = Confirmed"
    "now' = map (\<lambda>r. if bk_id r = bk_id b then moved_row e rc w tc c else r) now" by blast
  have row: "bk_bot c = ev_bot e" "bk_service c = bk_service b"
    using still_there_row [OF _ prim_reschedule.hyps(3) c(1,2)] prim_reschedule.prems(1) prim_reschedule.hyps(4)
    by (simp_all add: ledger_ok_def)
  have start: "bk_start c = bk_start b" using prim_reschedule.hyps(6) W(3) c by (simp add: unmoved_def)
  show ?case
  proof (rule cap_ok_rewrite [OF prim_reschedule.prems(1,3) W(2) c(1,2,4)])
    show "bk_service (moved_row e rc w tc c) = bk_service c" by simp
    fix s mx assume s: "bk_service c = Some s" "cap_of W s = Some mx" "0 < mx"
    have owner: "wd_owner W s = ev_bot e"
      using rows_owned_row [OF prim_reschedule.prems(2) c(1) s(1)] row by simp
    have tz: "ev_tz e (zone_name e) = wd_tz W (wd_zone W (wd_owner W s))"
      using prim_reschedule.hyps(2) owner by (simp add: fits_def)
    let ?day = "\<lambda>t. map_option (\<lambda>z. zdate z t) (ev_tz e (zone_name e))"
    show "held c \<and> (\<forall>t. in_day_of W s t (bk_start (moved_row e rc w tc c)) = in_day_of W s t (bk_start c)) \<or>
       int (length (filter (\<lambda>r. (bk_service r = Some s \<and> held r \<and>
              in_day_of W s (bk_start (moved_row e rc w tc c)) (bk_start r)) \<and> bk_id r \<noteq> bk_id b) now)) + 1 \<le> mx"
    proof (cases "?day (bk_start b) = ?day (ww_start w)")
      case True
      then have "zstart z (bk_start c) = zstart z (ww_start w)"
        if "wd_tz W (wd_zone W (wd_owner W s)) = Some z" for z
        using same_date_same_day [OF W(2) that, of "bk_start b" "ww_start w"] tz that start by simp
      then have "in_day_of W s t (ww_start w) = in_day_of W s t (bk_start c)" for t
        unfolding in_day_zone [OF W(2)] by metis
      then show ?thesis using c(3) by (simp add: held_def)
    next
      case False
      have "enforce_service_day_capacity (ev_tz e) (zone_name e) sv (ww_start w) (Some (bk_id b)) now = None"
        using reschedule_tx_update(3) [OF prim_reschedule.hyps(1)] False by blast
      from gate_excluded [OF this prim_reschedule.hyps(5,2) W(1) _ s(2,3) owner] s(1) row(2)
      show ?thesis by simp
    qed
  qed
next
  case (prim_accept e b sv w now now')
  obtain x where "update_row (bk_id b) (\<lambda>c. bk_tenant c = ev_tenant e \<and> bk_status c = RequestCreated)
      (accepted_row e w) now = Inr (Some x, now')"
    using accept_tx_update(1) [OF prim_accept.hyps(1)] by blast
  from update_row_map [OF this] obtain c where c: "c \<in> set now" "bk_id c = bk_id b"
    "now' = map (\<lambda>r. if bk_id r = bk_id b then accepted_row e w c else r) now" by blast
  have row: "bk_bot c = ev_bot e" "bk_service c = bk_service b"
    using still_there_row [OF _ prim_accept.hyps(3) c(1,2)] prim_accept.prems(1) prim_accept.hyps(4)
    by (simp_all add: ledger_ok_def)
  have start: "ww_start w = bk_start c" using prim_accept.hyps(6,7) W(3) c by (simp add: unmoved_def)
  show ?case
  proof (rule cap_ok_rewrite [OF prim_accept.prems(1,3) W(2) c])
    show "bk_service (accepted_row e w c) = bk_service c" by simp
    fix s mx assume s: "bk_service c = Some s" "cap_of W s = Some mx" "0 < mx"
    have owner: "wd_owner W s = ev_bot e"
      using rows_owned_row [OF prim_accept.prems(2) c(1) s(1)] row by simp
    from gate_excluded [OF accept_tx_update(3) [OF prim_accept.hyps(1)] prim_accept.hyps(5,2) W(1) _ s(2,3) owner]
      s(1) row(2) start
    show "held c \<and> (\<forall>t. in_day_of W s t (bk_start (accepted_row e w c)) = in_day_of W s t (bk_start c)) \<or>
       int (length (filter (\<lambda>r. (bk_service r = Some s \<and> held r \<and>
              in_day_of W s (bk_start (accepted_row e w c)) (bk_start r)) \<and> bk_id r \<noteq> bk_id b) now)) + 1 \<le> mx"
      by simp
  qed
qed

lemma prim_owned: "prim W now now' \<Longrightarrow> ledger_ok now \<Longrightarrow> rows_owned W now \<Longrightarrow> rows_owned W now'"
proof (induction rule: prim.induct)
  case (prim_request b now now')
  then show ?case by (auto simp: insert_row_Inr rows_owned_def)
next
  case (prim_create e c w d tc now now')
  then show ?case using create_tx_insert [OF prim_create.hyps(1)]
    by (auto simp: insert_row_Inr rows_owned_def owned_row_def)
next
  case (prim_unheld i P f now r now')
  then show ?case using update_row_rows [OF _ prim_unheld.hyps(1)]
    by (fastforce simp: rows_owned_def owned_row_def keeps_identity_def ledger_ok_def)
next
  case (prim_close now e i res)
  then show ?case using close_rows by (fastforce simp: rows_owned_def owned_row_def)
next
  case (prim_restamp now e ids)
  then show ?case by (simp add: rows_owned_def owned_row_def)
next
  case (prim_reschedule e rc b sv w tc now now')
  obtain x where "update_row (bk_id b) (\<lambda>c. bk_tenant c = ev_tenant e \<and> bk_status c = Confirmed)
      (moved_row e rc w tc) now = Inr (Some x, now')"
    using reschedule_tx_update(1) [OF prim_reschedule.hyps(1)] by blast
  from update_row_map [OF this] prim_reschedule.prems(2) show ?case
    by (auto simp: rows_owned_def owned_row_def)
next
  case (prim_accept e b sv w now now')
  obtain x where "update_row (bk_id b) (\<lambda>c. bk_tenant c = ev_tenant e \<and> bk_status c = RequestCreated)
      (accepted_row e w) now = Inr (Some x, now')"
    using accept_tx_update(1) [OF prim_accept.hyps(1)] by blast
  from update_row_map [OF this] prim_accept.prems(2) show ?case
    by (auto simp: rows_owned_def owned_row_def)
qed

section \<open>Operations are sequences of primitive changes\<close>

abbreviation prims :: "world \<Rightarrow> ledger \<Rightarrow> ledger \<Rightarrow> bool" where
  "prims W \<equiv> (prim W)\<^sup>*\<^sup>*"

lemma load_owned_row:
  "load_owned e ca i db = Inr b \<Longrightarrow> b \<in> set db \<and> bk_id b = i \<and> bk_bot b = ev_bot e"
  by (auto simp: load_owned_def dest: find_row_Some split: option.splits if_splits)

text \<open>An earlier ledger, as far as the rows read from it go.\<close>

definition snapshot :: "world \<Rightarrow> ledger \<Rightarrow> ledger \<Rightarrow> bool" where
  "snapshot W db now \<longleftrightarrow> rows_owned W db \<and> (\<forall>b \<in> set db. still_there b now \<and> unmoved W b now)"

lemma snapshot_refl: "rows_owned W now \<Longrightarrow> distinct (map bk_id now) \<Longrightarrow> snapshot W now now"
  unfolding snapshot_def still_there_def unmoved_def by (metis distinct_map inj_onD)

definition call_fits :: "world \<Rightarrow> env \<Rightarrow> create_call \<Rightarrow> ledger \<Rightarrow> bool" where
  "call_fits W e c now \<longleftrightarrow> fits W e \<and> cc_id c \<notin> bk_id ` set now \<and>
     wd_owner W (sv_id (cc_service c)) = ev_bot e \<and>
     cap_of W (sv_id (cc_service c)) = sv_max_per_day (cc_service c)"

lemma create_request_prims:
  assumes "call_fits W e c now" "create_request e c start d tc now = (r, now')"
  shows "prims W now now'"
proof -
  have "now' = now \<or> (\<exists>w. insert_row (new_row e c RequestCreated w d tc) now = Inr now')"
    using assms(2) by (auto simp: create_request_def split: option.splits sum.splits if_splits pg_error.splits)
  then show ?thesis
  proof
    assume "\<exists>w. insert_row (new_row e c RequestCreated w d tc) now = Inr now'"
    then obtain w where "insert_row (new_row e c RequestCreated w d tc) now = Inr now'" by blast
    then have "prim W now now'"
      by (rule prim_request) (use assms(1) in \<open>auto simp: held_def owned_row_def call_fits_def\<close>)
    then show ?thesis by (rule r_into_rtranclp)
  qed simp
qed

lemma create_booking_prims:
  assumes fit: "call_fits W e c now" and res: "create_booking e c db now = (r, now')"
  shows "prims W now now'"
proof -
  have tx: "prims W now now'" if "create_tx e c w d tc now = Inr now'" for w d tc
    by (rule r_into_rtranclp, rule prim_create [OF that]) (use fit in \<open>auto simp: call_fits_def\<close>)
  show ?thesis
    using res tx create_request_prims [OF fit] unfolding create_booking_def Let_def
    by (auto split: option.splits sum.splits if_splits travel_gate.splits)
qed

lemma request_appointment_prims:
  assumes fit: "call_fits W e c now" and res: "request_appointment e c p db now = (r, now')"
  shows "prims W now now'"
  using res create_request_prims [OF fit] unfolding request_appointment_def
  by (auto split: option.splits sum.splits)

lemma change_row_keeps [simp]:
  "bk_id (change_row e ca b k s t a i) = i" "bk_status (change_row e ca b k s t a i) = RequestCreated"
  "bk_service (change_row e ca b k s t a i) = bk_service b" "bk_bot (change_row e ca b k s t a i) = ev_bot e"
  by (simp_all add: change_row_def)

lemma reuse_prims:
  assumes "reuse_open_change_request e x kind start stop a now = (r, now')"
  shows "prims W now now'"
proof -
  let ?P = "\<lambda>b. bk_tenant b = ev_tenant e \<and> bk_status b = RequestCreated"
  let ?f = "\<lambda>b. b\<lparr>bk_start := start, bk_end := stop, bk_from := start, bk_to := stop,
                   bk_address := (case a of None \<Rightarrow> bk_address b | Some a \<Rightarrow> Some a)\<rparr>"
  have "now' = now \<or> (\<exists>y. update_row (bk_id x) ?P ?f now = Inr (y, now'))"
    using assms unfolding reuse_open_change_request_def
    by (auto split: sum.splits if_splits prod.splits)
  then show ?thesis
  proof
    assume "\<exists>y. update_row (bk_id x) ?P ?f now = Inr (y, now')"
    then obtain y where "update_row (bk_id x) ?P ?f now = Inr (y, now')" by blast
    then have "prim W now now'" by (rule prim_unheld) (auto simp: keeps_identity_def held_def)
    then show ?thesis by (rule r_into_rtranclp)
  qed simp
qed

lemma create_change_request_prims:
  assumes "create_change_request e ca b kind start stop a i db now = (r, now')"
    and "i \<notin> bk_id ` set now" "owned_row W b" "bk_bot b = ev_bot e"
  shows "prims W now now'"
proof -
  have ins: "prims W now now'" if "insert_row (change_row e ca b kind start stop a i) now = Inr now'"
    by (rule r_into_rtranclp, rule prim_request [OF that])
      (use assms in \<open>auto simp: held_def owned_row_def\<close>)
  show ?thesis
    using assms(1) ins reuse_prims unfolding create_change_request_def
    by (auto split: option.splits sum.splits pg_error.splits if_splits)
qed

lemma close_row_prims:
  assumes "close_change_request_row e i res now = Inr (r, now')"
  shows "prims W now now'"
proof -
  obtain y where "update_row i (\<lambda>b. bk_tenant b = ev_tenant e \<and> bk_status b = RequestCreated)
      (\<lambda>b. b\<lparr>bk_status := Cancelled, bk_resolution := Some res\<rparr>) now = Inr (y, now')"
    using assms by (auto simp: close_change_request_row_def split: sum.splits prod.splits)
  then have "prim W now now'" by (rule prim_unheld) (auto simp: keeps_identity_def held_def)
  then show ?thesis by (rule r_into_rtranclp)
qed

lemma close_prims: "prims W now (close_open_change_requests e i res now)"
  by (rule r_into_rtranclp, rule prim_close)

lemma cancel_booking_prims:
  assumes "cancel_booking e ca i keep j db now = (r, now')"
    and "snapshot W db now" "j \<notin> bk_id ` set now"
  shows "prims W now now'"
proof -
  have upd: "prims W now n" if "update_row i (\<lambda>c. bk_tenant c = ev_tenant e \<and> bk_status c = Confirmed)
      (\<lambda>c. c\<lparr>bk_status := Cancelled, bk_sequence := bk_sequence c + 1\<rparr>) now = Inr (y, n)" for y n
    by (rule r_into_rtranclp, rule prim_unheld [OF that]) (auto simp: keeps_identity_def held_def)
  have req: "prims W now now'" if "load_owned e ca i db = Inr b"
    "create_change_request e ca b k s t a j db now = (r, now')" for b k s t a
    by (rule create_change_request_prims [OF that(2) assms(3)])
      (use load_owned_row [OF that(1)] assms(2) in \<open>auto simp: snapshot_def rows_owned_def\<close>)
  show ?thesis
    using assms(1) upd req rtranclp_trans [OF upd close_prims] unfolding cancel_booking_def Let_def
    by (auto split: sum.splits option.splits prod.splits if_splits)
qed

lemma decline_request_prims:
  assumes "decline_request e ca i db now = (r, now')"
  shows "prims W now now'"
proof -
  have upd: "prims W now n" if "update_row i (\<lambda>c. bk_tenant c = ev_tenant e \<and> bk_status c = RequestCreated)
      (\<lambda>c. c\<lparr>bk_status := Cancelled\<rparr>) now = Inr (y, n)" for y n
    by (rule r_into_rtranclp, rule prim_unheld [OF that]) (auto simp: keeps_identity_def held_def)
  show ?thesis
    using assms upd close_row_prims unfolding decline_request_def
    by (auto split: sum.splits prod.splits if_splits)
qed

lemma reschedule_move_tx:
  assumes "reschedule_move e b sv r duration start stop db now = Inr now'"
  shows "\<exists>w tc m ids. reschedule_tx e r b sv w tc now = Inr m \<and> now' = map (restamp_row e ids) m"
  using assms by (auto simp: reschedule_move_def assert_exposure_def split: option.splits sum.splits)

lemma as_change_request_shape:
  assumes "reschedule_as_change_request e ca b sv r start stop db now = Some (x, now')"
  shows "now' = now \<or>
    create_change_request e ca b RescheduleRequest start stop (rs_address r) (rs_new_id r) db now = (x, now')"
  using assms
  by (auto simp: reschedule_as_change_request_def split: change_mode.splits option.splits if_splits)

lemma reschedule_booking_shape:
  assumes "reschedule_booking e ca i r db now = (x, now')"
  shows "now' = now \<or>
    (\<exists>b sv. load_owned e ca i db = Inr b \<and> service_for_booking e b = Inr sv \<and>
      ((\<exists>s t. create_change_request e ca b RescheduleRequest s t (rs_address r) (rs_new_id r) db now = (x, now')) \<or>
       (\<exists>w tc m ids n. reschedule_tx e r b sv w tc now = Inr m \<and> n = map (restamp_row e ids) m \<and>
          (now' = n \<or> now' = close_open_change_requests e i Declined n))))"
proof (cases "load_owned e ca i db")
  case (Inl err)
  then show ?thesis using assms by (simp add: reschedule_booking_def)
next
  case b: (Inr b)
  show ?thesis
  proof (cases "service_for_booking e b")
    case (Inl err)
    then show ?thesis using assms b by (auto simp: reschedule_booking_def split: if_splits)
  next
    case sv: (Inr sv)
    show ?thesis
    proof (cases "\<exists>s d t answer. reschedule_as_change_request e ca b sv r s t db now = Some answer \<and> answer = (x, now')")
      case True
      then show ?thesis using as_change_request_shape b sv by blast
    next
      case False
      then have "now' = now \<or> (\<exists>d s t n. reschedule_move e b sv r d s t db now = Inr n \<and>
          (now' = n \<or> now' = close_open_change_requests e i Declined n))"
        using assms b sv unfolding reschedule_booking_def Let_def
        by (simp split: option.splits if_splits sum.splits) blast+
      then have "now' = now \<or> (\<exists>w tc m ids n. reschedule_tx e r b sv w tc now = Inr m \<and> n = map (restamp_row e ids) m \<and>
          (now' = n \<or> now' = close_open_change_requests e i Declined n))"
        by (metis reschedule_move_tx)
      then show ?thesis using b sv by auto
    qed
  qed
qed

lemma reschedule_booking_prims:
  assumes res: "reschedule_booking e ca i r db now = (x, now')"
    and fit: "fits W e" and snap: "snapshot W db now" and new: "rs_new_id r \<notin> bk_id ` set now"
  shows "prims W now now'"
  using reschedule_booking_shape [OF res]
proof
  assume "now' = now"
  then show ?thesis by simp
next
  assume "\<exists>b sv. load_owned e ca i db = Inr b \<and> service_for_booking e b = Inr sv \<and>
      ((\<exists>s t. create_change_request e ca b RescheduleRequest s t (rs_address r) (rs_new_id r) db now = (x, now')) \<or>
       (\<exists>w tc m ids n. reschedule_tx e r b sv w tc now = Inr m \<and> n = map (restamp_row e ids) m \<and>
          (now' = n \<or> now' = close_open_change_requests e i Declined n)))"
  then obtain b sv where b: "load_owned e ca i db = Inr b" and sv: "service_for_booking e b = Inr sv"
    and cases: "(\<exists>s t. create_change_request e ca b RescheduleRequest s t (rs_address r) (rs_new_id r) db now = (x, now')) \<or>
       (\<exists>w tc m ids n. reschedule_tx e r b sv w tc now = Inr m \<and> n = map (restamp_row e ids) m \<and>
          (now' = n \<or> now' = close_open_change_requests e i Declined n))" by blast
  have row: "bk_bot b = ev_bot e" "still_there b now" "unmoved W b now" "owned_row W b"
    using load_owned_row [OF b] snap by (auto simp: snapshot_def rows_owned_def)
  from cases show ?thesis
  proof
    assume "\<exists>s t. create_change_request e ca b RescheduleRequest s t (rs_address r) (rs_new_id r) db now = (x, now')"
    then show ?thesis using create_change_request_prims new row by blast
  next
    assume "\<exists>w tc m ids n. reschedule_tx e r b sv w tc now = Inr m \<and> n = map (restamp_row e ids) m \<and>
          (now' = n \<or> now' = close_open_change_requests e i Declined n)"
    then obtain w tc m ids n where t: "reschedule_tx e r b sv w tc now = Inr m"
      and m: "n = map (restamp_row e ids) m"
      and n: "now' = n \<or> now' = close_open_change_requests e i Declined n" by blast
    have "prim W now m" by (rule prim_reschedule [OF t fit row(2,1) sv row(3)])
    moreover have "prim W m n" unfolding m by (rule prim_restamp)
    ultimately have "prims W now n" by simp
    then show ?thesis using n rtranclp_trans [OF _ close_prims] by blast
  qed
qed

lemma finish_accept_prims:
  assumes "finish_accept e req related now = (x, now')"
  shows "prims W now now'"
proof -
  have "now' = now \<or> (\<exists>y. close_change_request_row e (bk_id req) Accepted now = Inr (y, now'))"
    using assms unfolding finish_accept_def by (auto split: sum.splits prod.splits)
  then show ?thesis using close_row_prims by blast
qed

lemma accept_move_prims:
  assumes res: "accept_move e ca req original r now = (x, now')"
    and fit: "fits W e" and snap: "snapshot W now now" and new: "rs_new_id r \<notin> bk_id ` set now"
  shows "prims W now now'"
proof -
  let ?r = "r\<lparr>rs_start := Some (bk_start req),
              rs_duration := Some ((bk_end req - bk_start req + 30000) div minute_ms),
              rs_keep_requests := True,
              rs_address := (if bk_address req \<noteq> bk_address original \<and> truthy_str (bk_address req)
                              then bk_address req else None)\<rparr>"
  obtain y n where m: "reschedule_booking e (owner_of ca) (bk_id original) ?r now now = (y, n)"
    by fastforce
  have n: "prims W now n" by (rule reschedule_booking_prims [OF m fit snap]) (use new in simp)
  have "now' = now \<or> now' = n \<or> finish_accept e req (bk_id original) now = (x, now') \<or>
      finish_accept e req (bk_id original) n = (x, now') \<or>
      (\<exists>y. close_change_request_row e (bk_id req) Declined now = Inr (y, now'))"
    using res m unfolding accept_move_def Let_def
    by (auto split: sum.splits prod.splits if_splits)
  then show ?thesis
    using n finish_accept_prims close_row_prims rtranclp_trans [OF n] by blast
qed

lemma accept_cancel_prims:
  assumes res: "accept_cancel e ca req original i now = (x, now')"
    and snap: "snapshot W now now" and new: "i \<notin> bk_id ` set now"
  shows "prims W now now'"
proof -
  obtain y n where m: "cancel_booking e (owner_of ca) (bk_id original) True i now now = (y, n)"
    by fastforce
  have n: "prims W now n" by (rule cancel_booking_prims [OF m snap new])
  have "now' = now \<or> now' = n \<or> finish_accept e req (bk_id original) now = (x, now') \<or>
      finish_accept e req (bk_id original) n = (x, now')"
    using res m unfolding accept_cancel_def by (auto split: sum.splits if_splits)
  then show ?thesis using n finish_accept_prims rtranclp_trans [OF n] by blast
qed

lemma accept_change_request_prims:
  assumes res: "accept_change_request e ca req r now = (x, now')"
    and fit: "fits W e" and snap: "snapshot W now now" and new: "rs_new_id r \<notin> bk_id ` set now"
  shows "prims W now now'"
proof -
  have "now' = now \<or> (\<exists>original. accept_move e ca req original r now = (x, now') \<or>
      accept_cancel e ca req original (rs_new_id r) now = (x, now'))"
    using res unfolding accept_change_request_def by (auto split: option.splits sum.splits if_splits)
  then show ?thesis using accept_move_prims accept_cancel_prims fit snap new by blast
qed

lemma accept_request_shape:
  assumes "accept_request e ca i allow r db now = (x, now')"
  shows "now' = now \<or>
    (\<exists>b. accept_change_request e ca b r now = (x, now')) \<or>
    (\<exists>b sv w. load_owned e ca i db = Inr b \<and> service_for_booking e b = Inr sv \<and>
       ww_start w = bk_start b \<and> accept_tx e i sv w now = Inr now')"
proof (cases "load_owned e ca i db")
  case (Inl err)
  then show ?thesis using assms by (simp add: accept_request_def)
next
  case b: (Inr b)
  have w: "ww_start (blocked_window sv (bk_start b) t) = bk_start b" for sv t
    by (simp add: blocked_window_def)
  show ?thesis
    using assms b w unfolding accept_request_def
    by (simp split: option.splits sum.splits if_splits) blast+
qed

lemma accept_request_prims:
  assumes res: "accept_request e ca i allow r db now = (x, now')"
    and fit: "fits W e" and snap: "snapshot W db now" "snapshot W now now"
    and new: "rs_new_id r \<notin> bk_id ` set now"
  shows "prims W now now'"
  using accept_request_shape [OF res]
proof (elim disjE exE conjE)
  assume "now' = now"
  then show ?thesis by simp
next
  fix b assume "accept_change_request e ca b r now = (x, now')"
  then show ?thesis using accept_change_request_prims fit snap(2) new by blast
next
  fix b sv w
  assume b: "load_owned e ca i db = Inr b" and sv: "service_for_booking e b = Inr sv"
    and w: "ww_start w = bk_start b" and t: "accept_tx e i sv w now = Inr now'"
  have row: "bk_id b = i" "bk_bot b = ev_bot e" "still_there b now" "unmoved W b now"
    using load_owned_row [OF b] snap(1) by (auto simp: snapshot_def)
  have "prim W now now'" by (rule prim_accept [OF _ fit row(3,2) sv w row(4)]) (use t row(1) in simp)
  then show ?thesis by (rule r_into_rtranclp)
qed

end
