(* ===== verification/LedgerProps.thy ===== *)
theory LedgerProps
  imports LedgerSafety
begin

text \<open>
  The guarantees of the booking ledger over any sequence of the provider's operations, a ledger of
  two bookings where they can be seen, and three concrete runs in which the code does not do what
  its comments promise.
\<close>

section \<open>Sequences of operations\<close>

text \<open>
  One operation of the provider. Its pre-lock reads saw \<open>db\<close>, an earlier ledger (rows are never
  deleted and never change owner or service), its transaction runs on \<open>now\<close>. New rows have fresh ids.
\<close>

inductive op_step :: "world \<Rightarrow> ledger \<Rightarrow> ledger \<Rightarrow> bool" for W where
  op_create: "create_booking e c db now = (r, now') \<Longrightarrow> call_fits W e c now \<Longrightarrow> op_step W now now'"
| op_request:
    "request_appointment e c p db now = (r, now') \<Longrightarrow> call_fits W e c now \<Longrightarrow> op_step W now now'"
| op_cancel:
    "cancel_booking e ca i keep j db now = (r, now') \<Longrightarrow> snapshot W db now \<Longrightarrow> j \<notin> bk_id ` set now \<Longrightarrow>
     op_step W now now'"
| op_decline: "decline_request e ca i db now = (r, now') \<Longrightarrow> op_step W now now'"
| op_reschedule:
    "reschedule_booking e ca i rc db now = (r, now') \<Longrightarrow> fits W e \<Longrightarrow> snapshot W db now \<Longrightarrow>
     rs_new_id rc \<notin> bk_id ` set now \<Longrightarrow> op_step W now now'"
| op_accept:
    "accept_request e ca i allow rc db now = (r, now') \<Longrightarrow> fits W e \<Longrightarrow> snapshot W db now \<Longrightarrow>
     rs_new_id rc \<notin> bk_id ` set now \<Longrightarrow> op_step W now now'"

inductive ledger_step :: "world \<Rightarrow> ledger \<Rightarrow> ledger \<Rightarrow> bool" for W where
  step_op: "op_step W now now' \<Longrightarrow> ledger_step W now now'"
| step_rekey: "ledger_step W now (rekey_bot_bookings agent key t now)"

lemma op_step_prims:
  assumes "op_step W now now'" "ledger_ok now" "rows_owned W now"
  shows "prims W now now'"
  using assms
proof (induction rule: op_step.induct)
  case (op_accept e ca i allow rc db now r now')
  have "snapshot W now now" using snapshot_refl op_accept.prems by (simp add: ledger_ok_def)
  then show ?case using accept_request_prims [OF op_accept.hyps(1-3) _ op_accept.hyps(4)] by blast
next
  case (op_create e c db now r now')
  then show ?case using create_booking_prims by blast
next
  case (op_request e c p db now r now')
  then show ?case using request_appointment_prims by blast
next
  case (op_cancel e ca i keep j db now r now')
  then show ?case using cancel_booking_prims by blast
next
  case (op_decline e ca i db now r now')
  then show ?case using decline_request_prims by blast
next
  case (op_reschedule e ca i rc db now r now')
  then show ?case using reschedule_booking_prims by blast
qed

lemma prims_ok: "prims W a b \<Longrightarrow> ledger_ok a \<Longrightarrow> ledger_ok b"
  by (induction rule: rtranclp_induct) (use prim_ok in blast)+

lemma prims_base: "prims W a b \<Longrightarrow> ledger_ok a \<Longrightarrow> rows_owned W a \<Longrightarrow> rows_owned W b"
  by (induction rule: rtranclp_induct) (use prim_owned prims_ok in blast)+

lemma prims_gap: "prims W a b \<Longrightarrow> ledger_ok a \<Longrightarrow> gap_ok W a \<Longrightarrow> gap_ok W b"
  by (induction rule: rtranclp_induct) (use prim_gap prims_ok in blast)+

lemma prims_cap:
  assumes "world_ok W" "zone_law W" "wd_serial W"
  shows "prims W a b \<Longrightarrow> ledger_ok a \<Longrightarrow> rows_owned W a \<Longrightarrow> cap_ok W a \<Longrightarrow> cap_ok W b"
  by (induction rule: rtranclp_induct) (use prim_cap [OF _ _ _ _ assms] prims_ok prims_base in blast)+

lemma rekey_rows_steps: "rekey\<^sup>*\<^sup>* db (rekey_rows is key db)"
proof (induction "is" arbitrary: db)
  case Nil
  then show ?case by simp
next
  case (Cons i "is")
  show ?case
  proof (cases "update_row i (\<lambda>_. True) (\<lambda>b. b\<lparr>bk_key := key\<rparr>) db")
    case (Inl err)
    then show ?thesis using Cons.IH by (cases err) auto
  next
    case (Inr a)
    then obtain r db' where a: "a = (r, db')" by (cases a)
    have "rekey db db'" using Inr a by (auto intro: rekey_row)
    then show ?thesis using Inr a Cons.IH [of db'] by (simp add: converse_rtranclp_into_rtranclp)
  qed
qed

lemma rekey_owned: "rekey a b \<Longrightarrow> ledger_ok a \<Longrightarrow> rows_owned W a \<Longrightarrow> rows_owned W b"
proof (erule rekey.cases)
  fix i key db r db'
  assume a: "ledger_ok a" "rows_owned W a" "a = db" "b = db'"
    and u: "update_row i (\<lambda>_. True) (\<lambda>b. b\<lparr>bk_key := key\<rparr>) db = Inr (r, db')"
  have "\<forall>c \<in> set db'. c \<in> set db \<or> (\<exists>b \<in> set db. bk_id b = i \<and> True \<and> c = b\<lparr>bk_key := key\<rparr>)"
    using update_row_rows [OF _ u] a by (simp add: ledger_ok_def)
  then show "rows_owned W b" using a by (force simp: rows_owned_def owned_row_def)
qed

lemma rekeys_inv: "rekey\<^sup>*\<^sup>* a b \<Longrightarrow> ledger_ok a \<Longrightarrow> rows_owned W a \<Longrightarrow> ledger_ok b \<and> rows_owned W b"
  by (induction rule: rtranclp_induct) (use rekey_ok rekey_owned in blast)+

lemma ledger_step_inv:
  "ledger_step W a b \<Longrightarrow> ledger_ok a \<Longrightarrow> rows_owned W a \<Longrightarrow> ledger_ok b \<and> rows_owned W b"
proof (induction rule: ledger_step.induct)
  case (step_op now now')
  then show ?case using op_step_prims prims_ok prims_base by blast
next
  case (step_rekey agent key t now)
  then show ?case using rekeys_inv rekey_rows_steps unfolding rekey_bot_bookings_def by blast
qed

lemma empty_inv: "ledger_ok []" "rows_owned W []" "gap_ok W []" "cap_ok W []"
  by (simp_all add: ledger_ok_def rows_owned_def gap_ok_def cap_ok_def day_count_alt)

lemma reached_inv: "(ledger_step W)\<^sup>*\<^sup>* [] db \<Longrightarrow> ledger_ok db \<and> rows_owned W db"
  by (induction rule: rtranclp_induct) (use empty_inv ledger_step_inv in blast)+

lemma op_reached_inv:
  "(op_step W)\<^sup>*\<^sup>* [] db \<Longrightarrow> ledger_ok db \<and> rows_owned W db \<and> gap_ok W db \<and>
     (world_ok W \<longrightarrow> zone_law W \<longrightarrow> wd_serial W \<longrightarrow> cap_ok W db)"
proof (induction rule: rtranclp_induct)
  case base
  then show ?case using empty_inv by blast
next
  case (step a b)
  then have "prims W a b" using op_step_prims by blast
  then show ?case using step.IH prims_ok prims_base prims_gap prims_cap by blast
qed

section \<open>The guarantees\<close>



text \<open>
  C18: However the provider's operations interleave, two held bookings of one diary keep between them
  every gap that both agents' minimum gap demands.
\<close>

theorem held_bookings_keep_the_minimum_gap:
  assumes "(op_step W)\<^sup>*\<^sup>* [] db" and "b \<in> set db" "c \<in> set db" "bk_id b \<noteq> bk_id c"
    and "held b" "held c" "bk_key b = bk_key c" and "bk_from b < bk_to b" "bk_from c < bk_to c"
    and "g \<le> br_min_gap (wd_rules W (bk_bot b))" "g \<le> br_min_gap (wd_rules W (bk_bot c))" "0 < g"
  shows "bk_to b + g * minute_ms \<le> bk_from c \<or> bk_to c + g * minute_ms \<le> bk_from b"
proof -
  have "g \<le> pair_gap W b c" using assms(10,11) by (simp add: pair_gap_def)
  then have "\<not> too_close g b c"
    using op_reached_inv [OF assms(1)] assms(2-9,12) too_close_mono [of g b c "pair_gap W b c"]
    unfolding gap_ok_def by fastforce
  then show ?thesis using assms(8,9,12) by (auto simp: too_close_def ranges_overlap_def)
qed

text \<open>
  C10: When every move reads its booking's day as it still is under the lock, the held bookings of a
  service on one local day never exceed the service's daily maximum, whatever else the operations
  read and however they interleave.
\<close>

theorem service_days_stay_within_the_cap:
  assumes "(op_step W)\<^sup>*\<^sup>* [] db" and "world_ok W" "zone_law W" "wd_serial W"
    and "cap_of W s = Some mx" "0 < mx"
  shows "int (day_count W s t db) \<le> mx"
  using op_reached_inv [OF assms(1)] assms(2-) by (auto simp: cap_ok_def)

text \<open>
  A captured request holds no time: the busy intervals and the business capacity of every diary
  are as before.
\<close>

theorem requests_hold_no_time:
  assumes "create_request e c start d tc now = (Inr (Requested i), now')"
  shows "load_busy key from to ex now' = load_busy key from to ex now \<and>
         enforce_business_capacity tz name agent key r w ex now' =
           enforce_business_capacity tz name agent key r w ex now"
proof -
  have "now' = now @ [new_row e c RequestCreated (plain_window start (start + d * minute_ms)) d tc]"
    using assms by (auto simp: create_request_def insert_row_Inr split: option.splits sum.splits if_splits
        pg_error.splits)
  then show ?thesis
    by (simp add: load_busy_def enforce_business_capacity_def bot_day_rows_def gap_clash_def held_def Let_def)
qed

section \<open>A ledger of two bookings\<close>

text \<open>A zone that names a day by a tally of its number, with the clock of UTC.\<close>

definition tally_date :: "instant \<Rightarrow> string" where
  "tally_date t =
     (let d = t div day_ms
      in if 0 \<le> d then replicate (nat d) (CHR ''x'') else CHR ''-'' # replicate (nat (- d)) (CHR ''x''))"

definition tally_zone :: zone where
  "tally_zone = \<lparr>zdate = tally_date, zweekday = utc_weekday, zstart = utc_start,
     zplus_days = utc_plus_days, zminus_days = utc_minus_days, zlocal = utc_local, zhour = utc_hour, zminute = utc_minute\<rparr>"

definition tally_tz :: tzdb where
  "tally_tz name = (if name = ''UTC'' then Some tally_zone else None)"

lemma tally_date_inj:
  assumes "tally_date t = tally_date u"
  shows "t div day_ms = u div day_ms"
proof -
  let ?d = "t div day_ms" and ?e = "u div day_ms"
  have sign: "0 \<le> ?d \<longleftrightarrow> 0 \<le> ?e"
  proof -
    have "CHR ''-'' \<in> set (tally_date v) \<longleftrightarrow> \<not> 0 \<le> v div day_ms" for v
      by (auto simp: tally_date_def Let_def)
    from this [of t] this [of u] show ?thesis using assms by simp
  qed
  have len: "length (tally_date v) =
      (if 0 \<le> v div day_ms then nat (v div day_ms) else Suc (nat (- (v div day_ms))))" for v
    by (simp add: tally_date_def Let_def)
  have "length (tally_date t) = length (tally_date u)" using assms by simp
  then show ?thesis unfolding len using sign by (cases "0 \<le> ?d") simp_all
qed

lemma tally_day_law: "day_law tally_zone"
proof -
  have shape: "zstart tally_zone = utc_start" "zplus_days tally_zone = utc_plus_days"
      "zdate tally_zone = tally_date"
    by (simp_all add: tally_zone_def)
  have next_day: "utc_start (utc_plus_days 1 t) = utc_start t + day_ms" for t
    by (simp add: utc_start_def utc_plus_days_def div_add_self2 distrib_right)
  have days: "utc_start t \<le> u \<and> u < utc_start t + day_ms \<longleftrightarrow> utc_start u = utc_start t" for t u
    unfolding utc_start_def by (auto simp: zdiv_mono1)
  have dates: "tally_date t = tally_date u \<Longrightarrow> utc_start t = utc_start u" for t u
    unfolding utc_start_def by (drule tally_date_inj) (rule arg_cong [of _ _ "\<lambda>d. d * day_ms"])
  show ?thesis unfolding day_law_def shape next_day using days dates by blast
qed

definition no_refusal :: "ledger \<Rightarrow> booking_error option" where "no_refusal db = None"

definition demo_env :: env where
  "demo_env = \<lparr>ev_tz = tally_tz, ev_rule = demo_open_rule, ev_tenant = 1, ev_bot = 3, ev_key = ''agent:3'',
     ev_rules = demo_rules, ev_services = demo_services, ev_default_service = None, ev_external = None,
     ev_now = 0, ev_visitor = nobody, ev_session_agent = id, ev_token = demo_token, ev_from_iso = date_parse_midnight,
     ev_calendar = True, ev_sync = True\<rparr>"

definition demo_call :: "nat \<Rightarrow> string \<Rightarrow> instant \<Rightarrow> create_call" where
  "demo_call i k t = \<lparr>cc_id = i, cc_idem = k, cc_session = 5,
     cc_service = resolve_service_timing demo_day_service demo_rules,
     cc_start = Some t, cc_requested = None, cc_address = None, cc_place = None, cc_needs_address = False,
     cc_intake_gate = None, cc_contact_gate = None, cc_request_gate = None,
     cc_travel = GateInactive, cc_travel_assert = no_refusal, cc_request_travel = None,
     cc_placed = (None, None), cc_contact_address = None, cc_binding_moved = False\<rparr>"

definition demo_row :: "nat \<Rightarrow> string \<Rightarrow> instant \<Rightarrow> booking" where
  "demo_row i k t = \<lparr>bk_id = i, bk_tenant = 1, bk_bot = 3, bk_service = Some 7, bk_session = Some 5,
     bk_status = Confirmed, bk_start = t, bk_end = t + hour_ms, bk_from = t, bk_to = t + hour_ms + 10 * minute_ms,
     bk_key = ''agent:3'', bk_related = None, bk_kind = NewRequest, bk_resolution = None, bk_duration = Some 60,
     bk_sequence = 0, bk_travel = None, bk_idem = Some k, bk_created = 0, bk_address = None, bk_place = None,
     bk_source = None\<rparr>"

definition demo_ledger :: ledger where
  "demo_ledger = [demo_row 1 ''a'' (10 * hour_ms), demo_row 2 ''b'' (14 * hour_ms)]"

lemma demo_create_1:
  "create_booking demo_env (demo_call 1 ''a'' (10 * hour_ms)) [] [] = (Inr (Booked 1), [demo_row 1 ''a'' (10 * hour_ms)])"
  by code_simp

lemma demo_create_2:
  "create_booking demo_env (demo_call 2 ''b'' (14 * hour_ms)) [] [demo_row 1 ''a'' (10 * hour_ms)] =
     (Inr (Booked 2), demo_ledger)"
  by code_simp

definition demo_world :: world where
  "demo_world = \<lparr>wd_rules = (\<lambda>_. demo_rules), wd_services = demo_services, wd_owner = (\<lambda>_. 3), wd_tz = tally_tz,
     wd_zone = (\<lambda>_. ''UTC''), wd_serial = True\<rparr>"

lemma demo_fits: "fits demo_world demo_env"
  by (simp add: fits_def demo_world_def demo_env_def zone_name_def demo_open_rule_def)

lemma demo_call_fits: "i \<notin> bk_id ` set now \<Longrightarrow> call_fits demo_world demo_env (demo_call i k t) now"
  using demo_fits
  by (simp add: call_fits_def demo_call_def demo_world_def demo_env_def cap_of_def demo_services_def
      resolve_service_timing_def demo_day_service_def)

lemma demo_reached: "(op_step demo_world)\<^sup>*\<^sup>* [] demo_ledger"
proof -
  have "op_step demo_world [] [demo_row 1 ''a'' (10 * hour_ms)]"
    by (rule op_create [OF demo_create_1]) (rule demo_call_fits, simp)
  moreover have "op_step demo_world [demo_row 1 ''a'' (10 * hour_ms)] demo_ledger"
    by (rule op_create [OF demo_create_2]) (rule demo_call_fits, simp add: demo_row_def)
  ultimately show ?thesis by (meson converse_rtranclp_into_rtranclp r_into_rtranclp)
qed

lemma demo_reached_ledger: "(ledger_step demo_world)\<^sup>*\<^sup>* [] demo_ledger"
  using rtranclp_mono [of "op_step demo_world" "ledger_step demo_world"] demo_reached step_op by blast



theorem held_bookings_keep_the_minimum_gap_witness:
  "11 * hour_ms + 10 * minute_ms + 15 * minute_ms \<le> 14 * hour_ms"
  using held_bookings_keep_the_minimum_gap [OF demo_reached,
    of "demo_row 1 ''a'' (10 * hour_ms)" "demo_row 2 ''b'' (14 * hour_ms)" 15]
  by (simp add: demo_ledger_def demo_row_def held_def demo_world_def demo_rules_def load_business_rules_def)

theorem service_days_stay_within_the_cap_witness: "int (day_count demo_world 7 0 demo_ledger) \<le> 2"
proof (rule service_days_stay_within_the_cap [OF demo_reached])
  show "world_ok demo_world" by (simp add: world_ok_def demo_world_def demo_services_def demo_day_service_def)
  show "zone_law demo_world" using tally_day_law by (simp add: zone_law_def demo_world_def tally_tz_def)
qed (simp_all add: demo_world_def cap_of_def demo_services_def demo_day_service_def)

theorem requests_hold_no_time_witness:
  "load_busy ''agent:3'' 0 day_ms None
     (snd (create_request demo_env (demo_call 1 ''a'' (10 * hour_ms)) (10 * hour_ms) 60 None [])) = []"
proof -
  have "create_request demo_env (demo_call 1 ''a'' (10 * hour_ms)) (10 * hour_ms) 60 None [] =
      (Inr (Requested 1), [(demo_row 1 ''a'' (10 * hour_ms))\<lparr>bk_status := RequestCreated, bk_to := 11 * hour_ms\<rparr>])"
    by code_simp
  from requests_hold_no_time [OF this] this show ?thesis by (simp add: load_busy_def)
qed

section \<open>Where the code falls short of its comments\<close>

text \<open>
  The day of the booking being moved is read before the lock. When another move lands in between,
  the same-day shortcut skips the cap for a row that has already left the day.
\<close>

definition demo_move :: "instant \<Rightarrow> reschedule_call" where
  "demo_move t = \<lparr>rs_start = Some t, rs_duration = None, rs_ex_interval = None, rs_keep_requests = False,
     rs_address = None, rs_address_gate = None, rs_placed = (None, None), rs_new_id = 99, rs_area_gate = None,
     rs_travel = Inr None, rs_travel_assert = no_refusal, rs_exposure = (\<lambda>_. Inr [])\<rparr>"

definition demo_owner :: caller where
  "demo_owner = \<lparr>ca_session = 5, ca_admin = True, ca_subject = False\<rparr>"

definition demo_raced :: ledger where
  "demo_raced = [demo_row 1 ''a'' (day_ms + 10 * hour_ms), demo_row 2 ''b'' (14 * hour_ms), demo_row 3 ''c'' (8 * hour_ms)]"

theorem raced_reschedule_exceeds_the_cap:
  "fst (reschedule_booking demo_env demo_owner 1 (demo_move (12 * hour_ms)) demo_ledger demo_raced) = Inr Done \<and>
   day_count demo_world 7 0 demo_raced = 2 \<and>
   day_count demo_world 7 0
     (snd (reschedule_booking demo_env demo_owner 1 (demo_move (12 * hour_ms)) demo_ledger demo_raced)) = 3"
  by code_simp

text \<open>
  A cancelled booking still answers for its idempotency key inside the window, as a success; after
  the window the unique index refuses the new row and the free slot is reported taken.
\<close>

definition demo_cancelled :: "instant \<Rightarrow> ledger" where
  "demo_cancelled made = [(demo_row 1 ''a'' (10 * hour_ms))\<lparr>bk_status := Cancelled, bk_created := made\<rparr>]"

theorem cancelled_booking_answers_as_booked:
  "create_booking demo_env (demo_call 2 ''a'' (10 * hour_ms)) (demo_cancelled (- 60000)) (demo_cancelled (- 60000)) =
     (Inr (DuplicateOf 1), demo_cancelled (- 60000))"
  by code_simp

theorem rebooking_a_cancelled_time_is_refused:
  "fst (create_booking demo_env (demo_call 2 ''a'' (10 * hour_ms)) (demo_cancelled (- hour_ms)) (demo_cancelled (- hour_ms))) =
     Inl SlotUnavailable \<and>
   assert_slot_offered demo_env (cc_service (demo_call 2 ''a'' (10 * hour_ms))) 60 (10 * hour_ms) (11 * hour_ms)
     None None (demo_cancelled (- hour_ms)) = None"
  by code_simp

text \<open>
  Only the external calendar is read with the range widened by the minimum gap: an own booking that
  ends where the asked range starts is not loaded, so the time right behind it is offered although
  the write refuses it.
\<close>

theorem narrow_range_misses_the_gap:
  "load_all_busy None 15 ''agent:3'' (11 * hour_ms + 10 * minute_ms) (12 * hour_ms) None None demo_ledger = Inr [] \<and>
   enforce_business_capacity tally_tz ''UTC'' 3 ''agent:3'' demo_rules
     (plain_window (11 * hour_ms + 10 * minute_ms) (12 * hour_ms)) None demo_ledger = Some CapacityReached"
  by code_simp

end
