(* ===== verification/Conversation.thy ===== *)
theory Conversation
  imports Prelude "HOL-Library.Product_Lexorder"
begin

text \<open>
  Conversations and who owns them: \<open>services/session-ownership.ts\<close> and the transactional
  commands of \<open>services/conversation-command.service.ts\<close>. Every command locks the session row
  first, so the commands on one conversation run one after the other: the model is one
  \<open>chat\<close> (session row, handoff rows, stored idempotent results, messages, events) and a function
  from chat to chat for each command, an error leaving no trace (the transaction rolls back).
  The database clock is in microseconds, the JavaScript clock in milliseconds. Ids are naturals,
  in the order the database gives the uuids. The search of the session by id is outside: a
  command is applied to the row it found. Telemetry and socket traffic are not modelled.
\<close>

section \<open>Data\<close>

datatype status = Active | ClosedStatus | Waiting | Handoff | BotStatus
datatype ownership = BotOwned | HandoffRequested | HumanOwned | ClosedOwned

datatype control_mode = Timed | Indefinite
datatype control_policy = IndefinitePolicy | TimedPolicy int

datatype sender = User | Agent | Bot | System
datatype msg_type = Text | Image | File | OtherType
datatype extraction = Pending | Ready | Failed | Unsupported | Infected

datatype category = Clean | Spam | Scam | Phishing | Solicitation | BotLoop | SuspiciousLink

record message =
  ms_id :: nat
  ms_at :: int
  ms_sender :: sender
  ms_type :: msg_type
  ms_extraction :: "extraction option"
  ms_extract_started :: "int option"
  ms_deleted :: bool
  ms_flagged :: bool
  ms_checked :: bool
  ms_content :: string
  ms_client :: "string option"
  ms_external :: "string option"

text \<open>The status \<open>normal\<close> of the guardrails is the category \<open>Clean\<close>.\<close>

record session =
  cs_tenant :: nat
  cs_status :: status
  cs_owner :: ownership
  cs_version :: int
  cs_agent :: "nat option"
  cs_mode :: "control_mode option"
  cs_hours :: "int option"
  cs_until :: "int option"
  cs_since :: "int option"
  cs_auto :: bool
  cs_guard :: category
  cs_mark :: "(int \<times> nat) option"
  cs_count :: int
  cs_activity :: int
  cs_started :: "int option"
  cs_ended :: "int option"
  cs_seconds :: "int option"

datatype handoff_status = Requested | Accepted | Rejected | Completed | TimedOut
datatype handoff_reason =
  UserRequest | BotConfidenceLow | EscalationTrigger | BusinessHours | BotEscalationKeyword
  | BotNoKnowledge | BotError

record handoff =
  ho_id :: nat
  ho_status :: handoff_status
  ho_at :: int
  ho_reason :: handoff_reason
  ho_agent :: "nat option"
  ho_accepted :: "int option"
  ho_wait :: "int option"
  ho_completed :: "int option"
  ho_handle :: "int option"
  ho_rejection :: "string option"
  ho_timeout :: "int option"

datatype command_name =
  CmdRequestHandoff | CmdClaim | CmdSendMessage | CmdRelease | CmdCancelHandoff | CmdClose
  | CmdTransfer | CmdIngestPageReply

datatype outcome =
  OutRequested | OutAlreadyRequested | OutAlreadyHumanOwned | OutHandoffDisabled
  | OutClaimed | OutAlreadyOwned | OutSent | OutDuplicate | OutReleased | OutAlreadyBotOwned
  | OutNotExpired | OutNotApplicable | OutCancelled | OutClosed | OutAlreadyClosed
  | OutTransferred | OutIngested | OutIgnored

record summary =
  su_tenant :: nat
  su_status :: status
  su_owner :: ownership
  su_version :: int
  su_agent :: "nat option"
  su_mode :: "control_mode option"
  su_hours :: "int option"
  su_until :: "int option"
  su_since :: "int option"
  su_handoff :: "nat option"

record reply =
  rp_outcome :: outcome
  rp_handoff :: "nat option"
  rp_policy_updated :: bool
  rp_auto_claimed :: bool
  rp_message :: "(nat \<times> int) option"
  rp_summary :: summary
  rp_replayed :: bool

record chat =
  ch_session :: session
  ch_handoffs :: "handoff list"
  ch_results :: "((command_name \<times> string) \<times> reply) list"
  ch_messages :: "message list"
  ch_events :: "string list"
  ch_outbox :: "nat list"

datatype conv_error =
  SessionNotFound | AlreadyClaimed nat | ConversationClosed | InvalidTransition ownership
  | NotOwner | OperatorNotInTenant | BadRequest
| UniqueViolation | QuestionChanged

datatype actor = AgentActor nat | CustomerActor | SystemActor

text \<open>
  What a command reads beside its own rows: the two clocks, the operators and their tenants, the
  tenant the caller is scoped to, the flag of an impersonating super-admin, the handoff switch of
  the bot, the external ids the service delivered itself, and the uuids it draws. A uuid that is
  already a primary key of the conversation is refused by the database.
\<close>

record cmd_env =
  ce_now :: int
  ce_js :: int
  ce_tenant :: "nat option"
  ce_agents :: "(nat \<times> nat) list"
  ce_foreign :: bool
  ce_handoff_disabled :: bool
  ce_delivered :: "string list"
  ce_message_id :: nat
  ce_handoff_id :: nat

section \<open>Ownership and the legacy status\<close>

fun ownership_from_status :: "status \<Rightarrow> bool \<Rightarrow> ownership" where
  "ownership_from_status st assigned =
     (if st = ClosedStatus then ClosedOwned
      else if assigned \<and> (st = Handoff \<or> st = Active) then HumanOwned
      else if st = Handoff then HandoffRequested
      else BotOwned)"

fun derive_status :: "ownership \<Rightarrow> status \<Rightarrow> status" where
  "derive_status ow prev =
     (if ow = HumanOwned \<or> ow = HandoffRequested then Handoff
      else if ow = ClosedOwned then ClosedStatus
      else if prev = Active \<or> prev = Waiting \<or> prev = BotStatus then prev
      else BotStatus)"

definition transition_status :: "ownership \<Rightarrow> status \<Rightarrow> status" where
  "transition_status next prev =
     (let st = derive_status next prev in if next = BotOwned \<and> st = Active then BotStatus else st)"

section \<open>Shared steps\<close>

definition on_session :: "(session \<Rightarrow> session) \<Rightarrow> chat \<Rightarrow> chat" where
  "on_session f c = c\<lparr>ch_session := f (ch_session c)\<rparr>"

definition apply_transition :: "ownership \<Rightarrow> (session \<Rightarrow> session) \<Rightarrow> chat \<Rightarrow> chat" where
  "apply_transition next patch =
     on_session (\<lambda>s. patch (s\<lparr>cs_owner := next, cs_status := transition_status next (cs_status s),
                            cs_version := cs_version s + 1\<rparr>))"

definition persist_event :: "string \<Rightarrow> chat \<Rightarrow> chat" where
  "persist_event txt c = c\<lparr>ch_events := ch_events c @ [txt]\<rparr>"

definition lock_handoff :: "handoff_status list \<Rightarrow> chat \<Rightarrow> handoff option" where
  "lock_handoff sts c =
     best_by (\<lambda>x y. ho_at x > ho_at y) None (filter (\<lambda>h. ho_status h \<in> set sts) (ch_handoffs c))"

definition update_handoff :: "nat \<Rightarrow> (handoff \<Rightarrow> handoff) \<Rightarrow> chat \<Rightarrow> chat" where
  "update_handoff i f c = c\<lparr>ch_handoffs := map (\<lambda>h. if ho_id h = i then f h else h) (ch_handoffs c)\<rparr>"

text \<open>The newest handoff in one of the given statuses is locked and rewritten, when there is one.\<close>

definition on_newest :: "handoff_status list \<Rightarrow> (handoff \<Rightarrow> handoff) \<Rightarrow> chat \<Rightarrow> chat" where
  "on_newest sts f c =
     (case lock_handoff sts c of None \<Rightarrow> c | Some h \<Rightarrow> update_handoff (ho_id h) f c)"

definition tenant_agent :: "bool \<Rightarrow> cmd_env \<Rightarrow> session \<Rightarrow> nat \<Rightarrow> bool" where
  "tenant_agent foreign e s a =
     list_ex (\<lambda>(i, t). i = a \<and> (foreign \<or> t = cs_tenant s)) (ce_agents e)"

definition summarize :: "session \<Rightarrow> nat option \<Rightarrow> summary" where
  "summarize s ho =
     \<lparr>su_tenant = cs_tenant s, su_status = cs_status s, su_owner = cs_owner s,
      su_version = cs_version s, su_agent = cs_agent s, su_mode = cs_mode s, su_hours = cs_hours s,
      su_until = map_option (\<lambda>t. t div 1000) (cs_until s),
      su_since = map_option (\<lambda>t. t div 1000) (cs_since s), su_handoff = ho\<rparr>"

text \<open>A reply with only an outcome; the other fields are set where a command returns them.\<close>

definition reply_of :: "outcome \<Rightarrow> chat \<Rightarrow> nat option \<Rightarrow> reply" where
  "reply_of out c ho =
     \<lparr>rp_outcome = out, rp_handoff = None, rp_policy_updated = False, rp_auto_claimed = False,
      rp_message = None, rp_summary = summarize (ch_session c) ho, rp_replayed = False\<rparr>"

definition hour_us :: int where "hour_us = 3600000000"

definition human_control_columns :: "int \<Rightarrow> control_policy \<Rightarrow> conv_error + (session \<Rightarrow> session)" where
  "human_control_columns now p =
     (case p of
        TimedPolicy h \<Rightarrow>
          if h < 1 \<or> h > 24 then Inl BadRequest
          else Inr (\<lambda>s. s\<lparr>cs_mode := Some Timed, cs_hours := Some h, cs_since := Some now,
                          cs_until := Some (now + h * hour_us)\<rparr>)
      | IndefinitePolicy \<Rightarrow>
          Inr (\<lambda>s. s\<lparr>cs_mode := Some Indefinite, cs_hours := None, cs_since := Some now, cs_until := None\<rparr>))"

definition clear_human_control :: "session \<Rightarrow> session" where
  "clear_human_control s = s\<lparr>cs_mode := None, cs_hours := None, cs_since := None, cs_until := None\<rparr>"

definition timed_deadline_passed :: "int \<Rightarrow> session \<Rightarrow> bool" where
  "timed_deadline_passed now s = (case cs_until s of None \<Rightarrow> False | Some t \<Rightarrow> t \<le> now)"

definition seconds_between :: "int \<Rightarrow> int \<Rightarrow> int" where
  "seconds_between later earlier = max 0 ((later - earlier) div 1000)"

definition accept_handoff :: "cmd_env \<Rightarrow> nat option \<Rightarrow> handoff \<Rightarrow> handoff" where
  "accept_handoff e a h =
     h\<lparr>ho_status := Accepted, ho_agent := (case a of None \<Rightarrow> ho_agent h | Some _ \<Rightarrow> a),
       ho_accepted := Some (ce_js e), ho_wait := Some (seconds_between (ce_js e) (ho_at h))\<rparr>"

definition accept_open :: "cmd_env \<Rightarrow> nat option \<Rightarrow> chat \<Rightarrow> chat" where
  "accept_open e a = on_newest [Requested] (accept_handoff e a)"

definition open_id :: "chat \<Rightarrow> nat option" where
  "open_id c = map_option ho_id (lock_handoff [Requested] c)"

definition apply_claim :: "cmd_env \<Rightarrow> nat \<Rightarrow> control_policy \<Rightarrow> chat \<Rightarrow> conv_error + (chat \<times> nat option)" where
  "apply_claim e a p c =
     and_then (human_control_columns (ce_now e) p) (\<lambda>cols.
       Inr (persist_event ''An agent has joined the conversation''
              (apply_transition HumanOwned (\<lambda>s. cols (s\<lparr>cs_agent := Some a\<rparr>)) (accept_open e (Some a) c)),
            open_id c))"

definition apply_unassigned_pause :: "cmd_env \<Rightarrow> string \<Rightarrow> chat \<Rightarrow> chat" where
  "apply_unassigned_pause e txt c =
     persist_event txt
       (apply_transition HumanOwned
          (\<lambda>s. s\<lparr>cs_agent := None, cs_mode := Some Indefinite, cs_hours := None,
                 cs_since := Some (ce_now e), cs_until := None\<rparr>) (accept_open e None c))"

definition complete_handoff :: "cmd_env \<Rightarrow> handoff \<Rightarrow> handoff" where
  "complete_handoff e h =
     h\<lparr>ho_status := Completed, ho_completed := Some (ce_js e),
       ho_handle := Some (case ho_accepted h of None \<Rightarrow> 0 | Some t \<Rightarrow> seconds_between (ce_js e) t)\<rparr>"

definition apply_release :: "cmd_env \<Rightarrow> string \<Rightarrow> chat \<Rightarrow> chat" where
  "apply_release e txt c =
     persist_event txt
       (apply_transition BotOwned (\<lambda>s. clear_human_control (s\<lparr>cs_agent := None\<rparr>))
          (on_newest [Accepted] (complete_handoff e) c))"

definition expiry_event :: string where
  "expiry_event = ''Timed human control expired and the conversation was returned to the assistant''"

section \<open>One transaction per command\<close>

definition with_conversation ::
    "cmd_env \<Rightarrow> command_name \<Rightarrow> string option \<Rightarrow> (chat \<Rightarrow> conv_error + (chat \<times> reply)) \<Rightarrow> chat
       \<Rightarrow> conv_error + (chat \<times> reply)" where
  "with_conversation e cmd key act c =
     (if (case ce_tenant e of None \<Rightarrow> False | Some t \<Rightarrow> cs_tenant (ch_session c) \<noteq> t) then Inl SessionNotFound
      else
        (case (if truthy_str key then map_of (ch_results c) (cmd, the key) else None) of
           Some prior \<Rightarrow> Inr (c, prior\<lparr>rp_replayed := True\<rparr>)
         | None \<Rightarrow>
             and_then (act c) (\<lambda>(c', r).
               Inr (if truthy_str key then c'\<lparr>ch_results := ((cmd, the key), r) # ch_results c'\<rparr> else c', r))))"

section \<open>Commands\<close>

definition reason_text :: "handoff_reason \<Rightarrow> string" where
  "reason_text r =
     (case r of
        UserRequest \<Rightarrow> ''user request'' | BotConfidenceLow \<Rightarrow> ''bot confidence low''
      | EscalationTrigger \<Rightarrow> ''escalation trigger'' | BusinessHours \<Rightarrow> ''business hours''
      | BotEscalationKeyword \<Rightarrow> ''bot escalation keyword'' | BotNoKnowledge \<Rightarrow> ''bot no knowledge''
      | BotError \<Rightarrow> ''bot error'')"

definition new_handoff :: "cmd_env \<Rightarrow> handoff_reason \<Rightarrow> handoff" where
  "new_handoff e r =
     \<lparr>ho_id = ce_handoff_id e, ho_status = Requested, ho_at = ce_js e, ho_reason = r, ho_agent = None,
      ho_accepted = None, ho_wait = None, ho_completed = None, ho_handle = None, ho_rejection = None,
      ho_timeout = None\<rparr>"

definition request_handoff ::
    "cmd_env \<Rightarrow> handoff_reason \<Rightarrow> string option \<Rightarrow> bool \<Rightarrow> chat \<Rightarrow> conv_error + (chat \<times> reply)" where
  "request_handoff e r note notify c =
     (let s = ch_session c
      in if cs_owner s = ClosedOwned then Inl ConversationClosed
         else if ce_handoff_disabled e then Inr (c, reply_of OutHandoffDisabled c None)
         else if cs_owner s = HumanOwned then Inr (c, reply_of OutAlreadyHumanOwned c None)
         else if cs_owner s = HandoffRequested \<or> open_id c \<noteq> None then
           (let c' = (if cs_owner s = HandoffRequested then c
                      else apply_transition HandoffRequested (\<lambda>s. s) c)
            in Inr (c', (reply_of OutAlreadyRequested c' (open_id c))\<lparr>rp_handoff := open_id c\<rparr>))
         else if ce_handoff_id e \<in> set (map ho_id (ch_handoffs c)) then Inl UniqueViolation
         else
           (let h = new_handoff e r;
                c1 = c\<lparr>ch_handoffs := ch_handoffs c @ [h]\<rparr>;
                c2 = persist_event (''Handoff requested: '' @
                       (if truthy_str note then the note else reason_text r))
                       (apply_transition HandoffRequested (\<lambda>s. s) c1);
                c3 = (if notify then c2\<lparr>ch_outbox := ch_outbox c2 @ [ho_id h]\<rparr> else c2)
            in Inr (c3, (reply_of OutRequested c3 (Some (ho_id h)))\<lparr>rp_handoff := Some (ho_id h)\<rparr>)))"

definition own_if_unassigned :: "nat \<Rightarrow> chat \<Rightarrow> chat" where
  "own_if_unassigned a =
     on_session (\<lambda>s. if cs_agent s = None then s\<lparr>cs_agent := Some a\<rparr> else s)"

definition claim_conversation ::
    "cmd_env \<Rightarrow> nat \<Rightarrow> control_policy \<Rightarrow> bool \<Rightarrow> chat \<Rightarrow> conv_error + (chat \<times> reply)" where
  "claim_conversation e a p update_policy c =
     (let s = ch_session c; fresh = (\<lambda>c. and_then (apply_claim e a p c) (\<lambda>(c', ho).
                                          Inr (c', reply_of OutClaimed c' ho)))
      in if \<not> tenant_agent (ce_foreign e) e s a then Inl OperatorNotInTenant
         else if cs_owner s = ClosedOwned then Inl ConversationClosed
         else if cs_owner s = HumanOwned then
           (if cs_agent s \<noteq> None \<and> cs_agent s \<noteq> Some a then Inl (AlreadyClaimed (the (cs_agent s)))
            else
              (let c0 = own_if_unassigned a c
               in if \<not> update_policy then Inr (c0, reply_of OutAlreadyOwned c0 None)
                  else if cs_mode s = Some Timed \<and> cs_until s \<noteq> None \<and> timed_deadline_passed (ce_now e) s
                  then fresh (apply_release e expiry_event c0)
                  else and_then (human_control_columns (ce_now e) p) (\<lambda>cols.
                    let c' = on_session cols c0
                    in Inr (c', (reply_of OutAlreadyOwned c' None)\<lparr>rp_policy_updated := True\<rparr>))))
         else fresh c)"

text \<open>A message row, with the message count and the activity stamp the commands write beside it.\<close>

definition add_message :: "cmd_env \<Rightarrow> message \<Rightarrow> chat \<Rightarrow> chat" where
  "add_message e m c =
     on_session (\<lambda>s. s\<lparr>cs_count := cs_count s + 1, cs_activity := ce_now e\<rparr>)
       (c\<lparr>ch_messages := ch_messages c @ [m]\<rparr>)"

definition attachment_type :: "string option \<Rightarrow> msg_type" where
  "attachment_type att =
     (case att of None \<Rightarrow> Text
      | Some ft \<Rightarrow> if take 6 ft = ''image/'' then Image else File)"

definition agent_message ::
    "cmd_env \<Rightarrow> msg_type \<Rightarrow> string \<Rightarrow> string option \<Rightarrow> string option \<Rightarrow> message" where
  "agent_message e ty content client ext =
     \<lparr>ms_id = ce_message_id e, ms_at = ce_now e, ms_sender = Agent, ms_type = ty, ms_extraction = None,
      ms_extract_started = None, ms_deleted = False, ms_flagged = False, ms_checked = False, ms_content = content,
      ms_client = client, ms_external = ext\<rparr>"

text \<open>
  Who owns the conversation when the reply is written, and whether this reply took it over. A
  timed control past its deadline is released first and the reply claims afresh.
\<close>

definition claim_for_reply :: "cmd_env \<Rightarrow> nat \<Rightarrow> chat \<Rightarrow> conv_error + (chat \<times> bool)" where
  "claim_for_reply e a c =
     (let s = ch_session c;
          fresh = (\<lambda>c. and_then (apply_claim e a IndefinitePolicy c) (\<lambda>(c', _). Inr (c', True)))
      in if cs_owner s = HumanOwned then
           (if cs_agent s \<noteq> None \<and> cs_agent s \<noteq> Some a then Inl (AlreadyClaimed (the (cs_agent s)))
            else
              (let c0 = own_if_unassigned a c
               in if cs_mode s = Some Timed \<and> truthy_num (cs_hours s) then
                    (if (case cs_until s of None \<Rightarrow> False | Some t \<Rightarrow> ce_now e < t)
                     then Inr (on_session (\<lambda>s. s\<lparr>cs_until := Some (ce_now e + the (cs_hours s) * hour_us)\<rparr>) c0,
                               False)
                     else fresh (apply_release e expiry_event c0))
                  else Inr (c0, False)))
         else fresh c)"

definition send_human_message ::
    "cmd_env \<Rightarrow> nat \<Rightarrow> string \<Rightarrow> string \<Rightarrow> string option \<Rightarrow> chat \<Rightarrow> conv_error + (chat \<times> reply)" where
  "send_human_message e a client content att c =
     (let s = ch_session c
      in if \<not> tenant_agent (ce_foreign e) e s a then Inl OperatorNotInTenant
         else if cs_owner s = ClosedOwned then Inl ConversationClosed
         else
           (case find (\<lambda>m. ms_client m = Some client) (ch_messages c) of
              Some m \<Rightarrow> Inr (c, (reply_of OutDuplicate c None)\<lparr>rp_message := Some (ms_id m, ms_at m div 1000)\<rparr>)
            | None \<Rightarrow>
                and_then (claim_for_reply e a c) (\<lambda>(c1, claimed).
                  if ce_message_id e \<in> set (map ms_id (ch_messages c)) then Inl UniqueViolation else
                  let m = agent_message e (attachment_type att) content (Some client) None;
                      c2 = add_message e m c1
                  in Inr (c2, (reply_of OutSent c2 None)\<lparr>rp_auto_claimed := claimed,
                              rp_message := Some (ms_id m, ms_at m div 1000)\<rparr>))))"

definition ingest_page_reply ::
    "cmd_env \<Rightarrow> string \<Rightarrow> string \<Rightarrow> bool \<Rightarrow> chat \<Rightarrow> conv_error + (chat \<times> reply)" where
  "ingest_page_reply e content ext instagram c =
     (let s = ch_session c
      in if cs_owner s = ClosedOwned then Inr (c, reply_of OutIgnored c None)
         else if list_ex (\<lambda>m. ms_external m = Some ext) (ch_messages c) then Inr (c, reply_of OutDuplicate c None)
         else if ext \<in> set (ce_delivered e) then Inr (c, reply_of OutIgnored c None)
         else if ce_message_id e \<in> set (map ms_id (ch_messages c)) then Inl UniqueViolation
         else
           (let c1 = (if cs_owner s = BotOwned \<or> cs_owner s = HandoffRequested
                      then apply_unassigned_pause e
                             (''A teammate replied from '' @ (if instagram then ''Instagram'' else ''Messenger'')
                              @ ''; the assistant is paused until you return it.'') c
                      else c);
                m = agent_message e Text content None (Some ext);
                c2 = add_message e m c1
            in Inr (c2, (reply_of OutIngested c2 None)\<lparr>rp_message := Some (ms_id m, ms_at m div 1000)\<rparr>)))"

definition release_conversation ::
    "cmd_env \<Rightarrow> nat \<Rightarrow> string option \<Rightarrow> chat \<Rightarrow> conv_error + (chat \<times> reply)" where
  "release_conversation e a reason c =
     (let s = ch_session c
      in if \<not> tenant_agent (ce_foreign e) e s a then Inl OperatorNotInTenant
         else if cs_owner s = ClosedOwned then Inl ConversationClosed
         else if cs_owner s = BotOwned then Inr (c, reply_of OutAlreadyBotOwned c None)
         else if cs_owner s \<noteq> HumanOwned then Inl (InvalidTransition (cs_owner s))
         else if cs_agent s \<noteq> None \<and> cs_agent s \<noteq> Some a then Inl NotOwner
         else
           (let c' = apply_release e (''Agent has left the conversation.'' @
                       (if truthy_str reason then '' '' @ the reason else [])) c
            in Inr (c', reply_of OutReleased c' None)))"

definition release_expired :: "cmd_env \<Rightarrow> chat \<Rightarrow> conv_error + (chat \<times> reply)" where
  "release_expired e c =
     (let s = ch_session c
      in if cs_owner s \<noteq> HumanOwned \<or> cs_mode s \<noteq> Some Timed \<or> cs_until s = None
         then Inr (c, reply_of OutNotApplicable c None)
         else if \<not> timed_deadline_passed (ce_now e) s then Inr (c, reply_of OutNotExpired c None)
         else (let c' = apply_release e expiry_event c in Inr (c', reply_of OutReleased c' None)))"

definition cancel_reason :: "actor \<Rightarrow> string option \<Rightarrow> string" where
  "cancel_reason act reason =
     (if truthy_str reason then the reason
      else (case act of AgentActor _ \<Rightarrow> ''Declined by agent'' | _ \<Rightarrow> ''Cancelled by customer''))"

definition cancel_open :: "cmd_env \<Rightarrow> actor \<Rightarrow> string option \<Rightarrow> handoff \<Rightarrow> handoff" where
  "cancel_open e act reason h =
     (case act of
        SystemActor \<Rightarrow> h\<lparr>ho_status := TimedOut, ho_timeout := Some (ce_js e)\<rparr>
      | _ \<Rightarrow> h\<lparr>ho_status := Rejected, ho_rejection := Some (cancel_reason act reason)\<rparr>)"

definition actor_allowed :: "cmd_env \<Rightarrow> session \<Rightarrow> actor \<Rightarrow> bool" where
  "actor_allowed e s act =
     (case act of AgentActor a \<Rightarrow> tenant_agent (ce_foreign e) e s a | _ \<Rightarrow> True)"

definition cancel_event :: "actor \<Rightarrow> string" where
  "cancel_event act =
     (case act of
        AgentActor _ \<Rightarrow> ''Handoff declined by agent''
      | CustomerActor \<Rightarrow> ''Handoff cancelled by customer''
      | SystemActor \<Rightarrow> ''Handoff request expired and was returned to the assistant'')"

definition cancel_handoff ::
    "cmd_env \<Rightarrow> actor \<Rightarrow> string option \<Rightarrow> chat \<Rightarrow> conv_error + (chat \<times> reply)" where
  "cancel_handoff e act reason c =
     (let s = ch_session c
      in if \<not> actor_allowed e s act then Inl OperatorNotInTenant
         else if cs_owner s = ClosedOwned then Inl ConversationClosed
         else if cs_owner s = BotOwned then
           (let c' = on_newest [Requested]
                       (\<lambda>h. h\<lparr>ho_status := Rejected,
                              ho_rejection := Some (if truthy_str reason then the reason else ''cancelled'')\<rparr>) c
            in Inr (c', reply_of OutAlreadyBotOwned c' None))
         else if cs_owner s \<noteq> HandoffRequested then Inl (InvalidTransition (cs_owner s))
         else
           (let c1 = on_newest [Requested] (cancel_open e act reason) c;
                c2 = persist_event (cancel_event act)
                       (apply_transition BotOwned (\<lambda>s. clear_human_control (s\<lparr>cs_agent := None\<rparr>)) c1)
            in Inr (c2, reply_of OutCancelled c2 None)))"

definition close_open :: "cmd_env \<Rightarrow> handoff \<Rightarrow> handoff" where
  "close_open e h =
     (if ho_status h = Requested
      then h\<lparr>ho_status := Rejected, ho_rejection := Some ''conversation_closed''\<rparr>
      else h\<lparr>ho_status := Completed, ho_completed := Some (ce_js e)\<rparr>)"

definition close_event :: "actor \<Rightarrow> string option \<Rightarrow> string" where
  "close_event act reason =
     ''Session closed: '' @
     (if truthy_str reason then the reason
      else (case act of AgentActor _ \<Rightarrow> ''Closed by agent'' | _ \<Rightarrow> ''User closed the chat''))"

definition close_conversation ::
    "cmd_env \<Rightarrow> actor \<Rightarrow> string option \<Rightarrow> chat \<Rightarrow> conv_error + (chat \<times> reply)" where
  "close_conversation e act reason c =
     (let s = ch_session c
      in if \<not> actor_allowed e s act then Inl OperatorNotInTenant
         else if cs_owner s = ClosedOwned then Inr (c, reply_of OutAlreadyClosed c None)
         else
           (let c1 = on_newest [Requested, Accepted] (close_open e) c;
                c2 = persist_event (close_event act reason)
                       (apply_transition ClosedOwned
                          (\<lambda>s. clear_human_control
                             (s\<lparr>cs_ended := Some (ce_js e),
                                cs_seconds := (case cs_started s of None \<Rightarrow> cs_seconds s
                                               | Some t \<Rightarrow> Some (seconds_between (ce_js e) t))\<rparr>)) c1)
            in Inr (c2, reply_of OutClosed c2 None)))"

definition transfer_conversation ::
    "cmd_env \<Rightarrow> nat \<Rightarrow> chat \<Rightarrow> conv_error + (chat \<times> reply)" where
  "transfer_conversation e a c =
     (let s = ch_session c
      in if \<not> tenant_agent False e s a then Inl OperatorNotInTenant
         else if cs_owner s = ClosedOwned then Inl ConversationClosed
         else
           (let keep = (cs_owner s = HumanOwned \<and> cs_mode s \<noteq> None);
                control = (\<lambda>s. if keep then s
                               else s\<lparr>cs_mode := Some Indefinite, cs_hours := None,
                                      cs_since := Some (ce_now e), cs_until := None\<rparr>);
                c2 = persist_event ''Conversation transferred to another agent''
                       (apply_transition HumanOwned (\<lambda>s. control (s\<lparr>cs_agent := Some a\<rparr>))
                          (accept_open e (Some a) c))
            in Inr (c2, reply_of OutTransferred c2 (open_id c))))"

section \<open>The command interface\<close>

datatype command =
  RequestHandoff handoff_reason "string option" bool
| ClaimCmd nat control_policy bool
| SendCmd nat string string "string option"
| IngestCmd string string bool
| ReleaseCmd nat "string option"
| ExpireCmd
| CancelCmd actor "string option"
| CloseCmd actor "string option"
| TransferCmd nat

fun command_name_of :: "command \<Rightarrow> command_name" where
  "command_name_of (RequestHandoff _ _ _) = CmdRequestHandoff"
| "command_name_of (ClaimCmd _ _ _) = CmdClaim"
| "command_name_of (SendCmd _ _ _ _) = CmdSendMessage"
| "command_name_of (IngestCmd _ _ _) = CmdIngestPageReply"
| "command_name_of (ReleaseCmd _ _) = CmdRelease"
| "command_name_of ExpireCmd = CmdRelease"
| "command_name_of (CancelCmd _ _) = CmdCancelHandoff"
| "command_name_of (CloseCmd _ _) = CmdClose"
| "command_name_of (TransferCmd _) = CmdTransfer"

fun apply_command :: "cmd_env \<Rightarrow> command \<Rightarrow> chat \<Rightarrow> conv_error + (chat \<times> reply)" where
  "apply_command e (RequestHandoff r note notify) c = request_handoff e r note notify c"
| "apply_command e (ClaimCmd a p upd) c = claim_conversation e a p upd c"
| "apply_command e (SendCmd a client content att) c = send_human_message e a client content att c"
| "apply_command e (IngestCmd content ext ig) c = ingest_page_reply e content ext ig c"
| "apply_command e (ReleaseCmd a reason) c = release_conversation e a reason c"
| "apply_command e ExpireCmd c = release_expired e c"
| "apply_command e (CancelCmd act reason) c = cancel_handoff e act reason c"
| "apply_command e (CloseCmd act reason) c = close_conversation e act reason c"
| "apply_command e (TransferCmd a) c = transfer_conversation e a c"

text \<open>Commands that take no client key pass none; a reply with a bad client id is refused at once.\<close>

definition key_of :: "command \<Rightarrow> string option \<Rightarrow> string option" where
  "key_of cmd key =
     (case cmd of SendCmd _ _ _ _ \<Rightarrow> None | IngestCmd _ _ _ \<Rightarrow> None | ExpireCmd \<Rightarrow> None | _ \<Rightarrow> key)"

definition run_command ::
    "cmd_env \<Rightarrow> string option \<Rightarrow> command \<Rightarrow> chat \<Rightarrow> conv_error + (chat \<times> reply)" where
  "run_command e key cmd c =
     (case cmd of
        SendCmd _ client _ _ \<Rightarrow> if client = [] \<or> 128 < length client then Inl BadRequest
          else with_conversation e CmdSendMessage None (apply_command e cmd) c
      | _ \<Rightarrow> with_conversation e (command_name_of cmd) (key_of cmd key) (apply_command e cmd) c)"

definition after_command :: "cmd_env \<Rightarrow> string option \<Rightarrow> command \<Rightarrow> chat \<Rightarrow> chat" where
  "after_command e key cmd c = (case run_command e key cmd c of Inl _ \<Rightarrow> c | Inr (c', _) \<Rightarrow> c')"

definition after_commands :: "(cmd_env \<times> string option \<times> command) list \<Rightarrow> chat \<Rightarrow> chat" where
  "after_commands = fold (\<lambda>(e, key, cmd). after_command e key cmd)"

section \<open>The abstract desk\<close>

text \<open>
  What the ownership commands promise, without clocks, handoff rows or versions: a conversation is
  with the bot, asked for, held (by an operator, or by nobody in particular after a reply from the
  page), or gone. \<open>skip\<close> says that the command has nothing to do (a known message, handoffs
  switched off), \<open>over\<close> that a timed control has run out.
\<close>

datatype desk = WithBot | Asked | Held "nat option" | Gone

definition desk_of :: "chat \<Rightarrow> desk" where
  "desk_of c =
     (case cs_owner (ch_session c) of
        BotOwned \<Rightarrow> WithBot | HandoffRequested \<Rightarrow> Asked
      | HumanOwned \<Rightarrow> Held (cs_agent (ch_session c)) | ClosedOwned \<Rightarrow> Gone)"

fun desk_spec :: "command \<Rightarrow> bool \<Rightarrow> bool \<Rightarrow> desk \<Rightarrow> desk option" where
  "desk_spec cmd skip over Gone =
     (case cmd of IngestCmd _ _ _ \<Rightarrow> Some Gone | ExpireCmd \<Rightarrow> Some Gone | CloseCmd _ _ \<Rightarrow> Some Gone | _ \<Rightarrow> None)"
| "desk_spec cmd skip over WithBot =
     (case cmd of
        RequestHandoff _ _ _ \<Rightarrow> Some (if skip then WithBot else Asked)
      | ClaimCmd a _ _ \<Rightarrow> Some (Held (Some a))
      | SendCmd a _ _ _ \<Rightarrow> Some (if skip then WithBot else Held (Some a))
      | IngestCmd _ _ _ \<Rightarrow> Some (if skip then WithBot else Held None)
      | CloseCmd _ _ \<Rightarrow> Some Gone
      | TransferCmd a \<Rightarrow> Some (Held (Some a))
      | _ \<Rightarrow> Some WithBot)"
| "desk_spec cmd skip over Asked =
     (case cmd of
        RequestHandoff _ _ _ \<Rightarrow> Some Asked
      | ClaimCmd a _ _ \<Rightarrow> Some (Held (Some a))
      | SendCmd a _ _ _ \<Rightarrow> Some (if skip then Asked else Held (Some a))
      | IngestCmd _ _ _ \<Rightarrow> Some (if skip then Asked else Held None)
      | ReleaseCmd _ _ \<Rightarrow> None
      | ExpireCmd \<Rightarrow> Some Asked
      | CancelCmd _ _ \<Rightarrow> Some WithBot
      | CloseCmd _ _ \<Rightarrow> Some Gone
      | TransferCmd a \<Rightarrow> Some (Held (Some a)))"
| "desk_spec cmd skip over (Held own) =
     (case cmd of
        RequestHandoff _ _ _ \<Rightarrow> Some (Held own)
      | ClaimCmd a _ _ \<Rightarrow> if own = None \<or> own = Some a then Some (Held (Some a)) else None
      | SendCmd a _ _ _ \<Rightarrow>
          if skip then Some (Held own)
          else if own = None \<or> own = Some a then Some (Held (Some a)) else None
      | IngestCmd _ _ _ \<Rightarrow> Some (Held own)
      | ReleaseCmd a _ \<Rightarrow> if own = None \<or> own = Some a then Some WithBot else None
      | ExpireCmd \<Rightarrow> Some (if over then WithBot else Held own)
      | CancelCmd _ _ \<Rightarrow> None
      | CloseCmd _ _ \<Rightarrow> Some Gone
      | TransferCmd a \<Rightarrow> Some (Held (Some a)))"

text \<open>When a command has nothing to do, and when a timed control has run out.\<close>

definition nothing_to_do :: "cmd_env \<Rightarrow> command \<Rightarrow> chat \<Rightarrow> bool" where
  "nothing_to_do e cmd c =
     (case cmd of
        RequestHandoff _ _ _ \<Rightarrow> ce_handoff_disabled e
      | SendCmd _ client _ _ \<Rightarrow> list_ex (\<lambda>m. ms_client m = Some client) (ch_messages c)
      | IngestCmd _ ext _ \<Rightarrow> list_ex (\<lambda>m. ms_external m = Some ext) (ch_messages c) \<or> ext \<in> set (ce_delivered e)
      | _ \<Rightarrow> False)"

definition control_over :: "cmd_env \<Rightarrow> chat \<Rightarrow> bool" where
  "control_over e c =
     (cs_mode (ch_session c) = Some Timed \<and> timed_deadline_passed (ce_now e) (ch_session c))"

section \<open>A small conversation\<close>

definition demo_chat :: chat where
  "demo_chat =
     \<lparr>ch_session = \<lparr>cs_tenant = 9, cs_status = Waiting, cs_owner = BotOwned, cs_version = 0, cs_agent = None,
        cs_mode = None, cs_hours = None, cs_until = None, cs_since = None, cs_auto = True, cs_guard = Clean, cs_mark = None,
        cs_count = 0, cs_activity = 0, cs_started = Some 0, cs_ended = None, cs_seconds = None\<rparr>,
      ch_handoffs = [], ch_results = [], ch_messages = [], ch_events = [], ch_outbox = []\<rparr>"

definition demo_env :: "int \<Rightarrow> cmd_env" where
  "demo_env t = \<lparr>ce_now = t * 1000, ce_js = t, ce_tenant = Some 9, ce_agents = [(1, 9), (2, 9)],
     ce_foreign = False, ce_handoff_disabled = False, ce_delivered = [], ce_message_id = nat (t mod 1000),
     ce_handoff_id = nat (t mod 1000)\<rparr>"

end
