(* ===== verification/Guardrails.thy ===== *)
theory Guardrails
  imports Conversation
begin

text \<open>
  The inbound guardrails: the bot-loop counters (\<open>guardrails/loop-detector.ts\<close> and the Lua script
  of \<open>guardrails/loop-store.ts\<close>) and the gate that runs before any reasoning
  (\<open>guardrails/inbound-guardrails.service.ts\<close>). The content classifier, the link inspection, the
  two severity tests and the content hash are arguments of the gate; the journal and the owner
  notification are lists. Journal writes and reads succeed; the write that flags a message may fail.
\<close>

section \<open>Loop counters\<close>

record loop_state =
  ls_hash :: "string option"
  ls_repeated :: int
  ls_bot_like :: int
  ls_links :: int

record loop_signal =
  lg_hash :: string
  lg_meaningful :: bool
  lg_human :: bool
  lg_link :: bool

definition empty_loop :: loop_state where
  "empty_loop = \<lparr>ls_hash = None, ls_repeated = 0, ls_bot_like = 0, ls_links = 0\<rparr>"

definition advance_loop_state :: "loop_state \<Rightarrow> loop_signal \<Rightarrow> loop_state" where
  "advance_loop_state p g =
     (let rep = (lg_hash g \<noteq> [] \<and> Some (lg_hash g) = ls_hash p);
          links = ls_links p + (if lg_link g then 1 else 0)
      in if lg_human g
         then \<lparr>ls_hash = Some (lg_hash g), ls_repeated = 0, ls_bot_like = 0, ls_links = links\<rparr>
         else
           (let substantive = (rep \<and> lg_meaningful g \<and> \<not> lg_human g)
            in \<lparr>ls_hash = Some (lg_hash g),
                ls_repeated = (if substantive then ls_repeated p + 1 else if lg_meaningful g then 1 else 0),
                ls_bot_like = (if rep \<or> \<not> lg_meaningful g then ls_bot_like p + 1 else 0),
                ls_links = links\<rparr>))"

datatype loop_reason = RepeatedMessages int | NonProgressing int | SuspiciousLinks int

definition loop_reasons :: "loop_state \<Rightarrow> loop_reason list" where
  "loop_reasons s =
     (if ls_repeated s \<ge> 3 then [RepeatedMessages (ls_repeated s)] else []) @
     (if ls_bot_like s \<ge> 5 then [NonProgressing (ls_bot_like s)] else []) @
     (if ls_links s \<ge> 2 then [SuspiciousLinks (ls_links s)] else [])"

definition is_loop :: "loop_state \<Rightarrow> bool" where
  "is_loop s = (loop_reasons s \<noteq> [])"

text \<open>
  The Redis hash: each field may be absent, and the key lapses an hour after the last advance. The
  script below is \<open>ADVANCE_LUA\<close>, an absent field reads as zero and an absent hash equals nothing.
\<close>

record loop_hash =
  lh_hash :: "string option"
  lh_repeated :: "int option"
  lh_bot_like :: "int option"
  lh_links :: "int option"
  lh_expires :: int

definition no_hash :: loop_hash where
  "no_hash = \<lparr>lh_hash = None, lh_repeated = None, lh_bot_like = None, lh_links = None, lh_expires = 0\<rparr>"

definition live_hash :: "int \<Rightarrow> loop_hash option \<Rightarrow> loop_hash" where
  "live_hash now k = (case k of None \<Rightarrow> no_hash | Some h \<Rightarrow> if now < lh_expires h then h else no_hash)"

definition advance_lua ::
    "int \<Rightarrow> loop_hash option \<Rightarrow> string \<Rightarrow> bool \<Rightarrow> bool \<Rightarrow> bool \<Rightarrow> loop_hash \<times> (int \<times> int \<times> int)" where
  "advance_lua now k hash meaningful human has_link =
     (let h = live_hash now k;
          repeated = nullish (lh_repeated h) 0;
          bot_like = nullish (lh_bot_like h) 0;
          susp = nullish (lh_links h) 0;
          rep = (lh_hash h = Some hash);
          repeated' = (if human then 0
                       else if rep \<and> meaningful then repeated + 1
                       else if meaningful then 1 else 0);
          bot_like' = (if human then 0 else if rep \<or> \<not> meaningful then bot_like + 1 else 0);
          susp' = (if has_link then susp + 1 else susp)
      in (\<lparr>lh_hash = Some hash, lh_repeated = Some repeated', lh_bot_like = Some bot_like',
           lh_links = Some susp', lh_expires = now + hour_ms\<rparr>, (repeated', bot_like', susp')))"

text \<open>The store: without Redis both operations answer with the empty state.\<close>

definition store_advance ::
    "bool \<Rightarrow> int \<Rightarrow> loop_hash option \<Rightarrow> loop_signal \<Rightarrow> loop_hash option \<times> loop_state" where
  "store_advance redis now k g =
     (if \<not> redis then (k, empty_loop)
      else (case advance_lua now k (lg_hash g) (lg_meaningful g) (lg_human g) (lg_link g) of
              (h, r, b, s) \<Rightarrow>
                (Some h, \<lparr>ls_hash = Some (lg_hash g), ls_repeated = r, ls_bot_like = b, ls_links = s\<rparr>)))"

definition store_peek :: "bool \<Rightarrow> int \<Rightarrow> loop_hash option \<Rightarrow> loop_state" where
  "store_peek redis now k =
     (if \<not> redis then empty_loop
      else (let h = live_hash now k
            in \<lparr>ls_hash = (if truthy_str (lh_hash h) then lh_hash h else None),
                ls_repeated = nullish (lh_repeated h) 0, ls_bot_like = nullish (lh_bot_like h) 0,
                ls_links = nullish (lh_links h) 0\<rparr>))"

section \<open>The gate\<close>

record classified =
  cl_category :: category
  cl_score :: int
  cl_links :: "string list"

record link_info =
  li_score :: int
  li_links :: "string list"

datatype warn_language = English | Dutch | French

datatype guard_action = Blocked | WarnReply | LogOnly

record journal_row =
  jr_message :: nat
  jr_category :: category
  jr_enforced :: bool
  jr_notified :: bool
  jr_action :: guard_action

text \<open>
  The gate's surroundings: the enforce flag, the classifier and its helpers, the clock, whether
  Redis is there, whether the write of a flag lands, and the language of the tenant.
\<close>

record gate_env =
  ge_enforce :: bool
  ge_classify :: "string \<Rightarrow> classified"
  ge_links :: "string \<Rightarrow> link_info"
  ge_high :: "string \<Rightarrow> bool"
  ge_human :: "string \<Rightarrow> bool"
  ge_hash :: "string \<Rightarrow> string"
  ge_now :: int
  ge_redis :: bool
  ge_flag_ok :: bool
  ge_language :: "string option"

record gate_world =
  gw_chat :: chat
  gw_loop :: "loop_hash option"
  gw_journal :: "journal_row list"
  gw_notices :: "category list"

text \<open>The guardrail fields of the session object in memory, which the gate also writes.\<close>

record gate_memory =
  gm_auto :: bool
  gm_status :: category

record gate_result =
  gr_proceed :: bool
  gr_category :: category
  gr_reply :: "warn_language option"

text \<open>The throw of a flag that did not land, with what the gate had already written by then.\<close>

datatype gate_error = FlagNotWritten gate_world

definition warn_language_of :: "string option \<Rightarrow> warn_language" where
  "warn_language_of l =
     (if l = Some ''nl'' then Dutch else if l = Some ''fr'' then French else English)"

definition on_message :: "nat \<Rightarrow> (message \<Rightarrow> message) \<Rightarrow> chat \<Rightarrow> chat" where
  "on_message i f c = c\<lparr>ch_messages := map (\<lambda>m. if ms_id m = i then f m else m) (ch_messages c)\<rparr>"

definition find_message :: "nat \<Rightarrow> chat \<Rightarrow> message option" where
  "find_message i c = find (\<lambda>m. ms_id m = i) (ch_messages c)"

definition on_chat :: "(chat \<Rightarrow> chat) \<Rightarrow> gate_world \<Rightarrow> gate_world" where
  "on_chat f w = w\<lparr>gw_chat := f (gw_chat w)\<rparr>"

definition mark_message_flagged :: "gate_env \<Rightarrow> nat \<Rightarrow> gate_world \<Rightarrow> gate_world" where
  "mark_message_flagged e i w =
     (if ge_flag_ok e then on_chat (on_message i (\<lambda>m. m\<lparr>ms_flagged := True, ms_checked := True\<rparr>)) w else w)"

text \<open>The claim is one conditional UPDATE: it is won exactly when the row was unchecked.\<close>

definition claim_message :: "nat \<Rightarrow> gate_world \<Rightarrow> gate_world \<times> bool" where
  "claim_message i w =
     (case find_message i (gw_chat w) of
        None \<Rightarrow> (w, False)
      | Some m \<Rightarrow> if ms_checked m then (w, False)
                  else (on_chat (on_message i (\<lambda>m. m\<lparr>ms_checked := True\<rparr>)) w, True))"

definition read_flagged :: "nat \<Rightarrow> gate_world \<Rightarrow> bool" where
  "read_flagged i w = (case find_message i (gw_chat w) of None \<Rightarrow> False | Some m \<Rightarrow> ms_flagged m)"

definition atomic_disable :: "category \<Rightarrow> gate_world \<Rightarrow> gate_world \<times> bool" where
  "atomic_disable cat w =
     (if cs_auto (ch_session (gw_chat w))
      then (on_chat (on_session (\<lambda>s. s\<lparr>cs_auto := False, cs_guard := cat\<rparr>)) w, True)
      else (w, False))"

definition journal :: "journal_row \<Rightarrow> gate_world \<Rightarrow> gate_world" where
  "journal r w = w\<lparr>gw_journal := gw_journal w @ [r]\<rparr>"

definition enforce_block ::
    "gate_env \<Rightarrow> nat \<Rightarrow> category \<Rightarrow> gate_memory \<Rightarrow> gate_world
       \<Rightarrow> gate_error + (gate_world \<times> gate_memory \<times> gate_result)" where
  "enforce_block e i cat m w =
     (if \<not> ge_flag_ok e then Inl (FlagNotWritten w)
      else
        (case atomic_disable cat (mark_message_flagged e i w) of
           (w2, first) \<Rightarrow>
             (let m' = (if first then m\<lparr>gm_auto := False, gm_status := cat\<rparr> else m);
                  w3 = (if first then w2\<lparr>gw_notices := gw_notices w2 @ [cat]\<rparr> else w2);
                  w4 = journal \<lparr>jr_message = i, jr_category = cat, jr_enforced = True, jr_notified = first,
                                jr_action = Blocked\<rparr> w3
              in Inr (w4, m', \<lparr>gr_proceed = False, gr_category = cat, gr_reply = None\<rparr>))))"

definition warn_solicitation ::
    "gate_env \<Rightarrow> nat \<Rightarrow> gate_memory \<Rightarrow> gate_world \<Rightarrow> gate_world \<times> gate_memory \<times> gate_result" where
  "warn_solicitation e i m w =
     (let w' = (if list_ex (\<lambda>r. jr_message r = i \<and> jr_action r = WarnReply) (gw_journal w) then w
                else journal \<lparr>jr_message = i, jr_category = Solicitation, jr_enforced = False,
                              jr_notified = False, jr_action = WarnReply\<rparr> w)
      in (w', m, \<lparr>gr_proceed = True, gr_category = Solicitation,
                  gr_reply = Some (warn_language_of (ge_language e))\<rparr>))"

definition clean_result :: gate_result where
  "clean_result = \<lparr>gr_proceed = True, gr_category = Clean, gr_reply = None\<rparr>"

definition disabled_session_result ::
    "gate_env \<Rightarrow> nat \<Rightarrow> gate_memory \<Rightarrow> gate_world \<Rightarrow> (gate_world \<times> gate_memory \<times> gate_result) option" where
  "disabled_session_result e i m w =
     (let s = ch_session (gw_chat w)
      in if \<not> ge_enforce e \<or> cs_auto s then None
         else Some (mark_message_flagged e i w, m\<lparr>gm_auto := False, gm_status := cs_guard s\<rparr>,
                    \<lparr>gr_proceed = False, gr_category = cs_guard s, gr_reply = None\<rparr>))"

definition replay_gate ::
    "gate_env \<Rightarrow> nat \<Rightarrow> string \<Rightarrow> gate_memory \<Rightarrow> gate_world
       \<Rightarrow> gate_error + (gate_world \<times> gate_memory \<times> gate_result)" where
  "replay_gate e i content m w =
     (if read_flagged i w
      then Inr (w, m, \<lparr>gr_proceed = False,
                       gr_category = (if gm_status m = Clean then Spam else gm_status m), gr_reply = None\<rparr>)
      else if \<not> ge_enforce e then Inr (w, m, clean_result)
      else
        (let c = ge_classify e content;
             warn_only = (cl_category c = Solicitation \<and> \<not> ge_high e content)
         in if cl_category c \<noteq> Clean \<and> \<not> warn_only then enforce_block e i (cl_category c) m w
            else if is_loop (store_peek (ge_redis e) (ge_now e) (gw_loop w)) then enforce_block e i BotLoop m w
            else if warn_only then Inr (warn_solicitation e i m w)
            else Inr (w, m, clean_result)))"

definition loop_signal_of :: "gate_env \<Rightarrow> string \<Rightarrow> loop_signal" where
  "loop_signal_of e content =
     (let c = ge_classify e content; l = ge_links e content;
          flagged = (cl_category c \<noteq> Clean);
          weak = (li_score l > 0);
          human = (\<not> flagged \<and> ge_human e content \<and> \<not> weak)
      in \<lparr>lg_hash = ge_hash e content,
          lg_meaningful = (\<not> flagged \<and> js_trim content \<noteq> [] \<and> \<not> human),
          lg_human = human,
          lg_link = (weak \<or> cl_category c = SuspiciousLink \<or> (cl_links c \<noteq> [] \<and> flagged))\<rparr>)"

text \<open>The category reported, and whether the message is only answered with the neutral reply.\<close>

definition derive_verdict :: "gate_env \<Rightarrow> string \<Rightarrow> bool \<Rightarrow> category \<times> bool" where
  "derive_verdict e content loop_hit =
     (let c = ge_classify e content; flagged = (cl_category c \<noteq> Clean)
      in (if loop_hit \<and> cl_category c = Solicitation then BotLoop
          else if flagged then cl_category c else BotLoop,
          flagged \<and> cl_category c = Solicitation \<and> \<not> loop_hit \<and> \<not> ge_high e content))"

definition run_inbound_gate ::
    "gate_env \<Rightarrow> nat \<Rightarrow> string \<Rightarrow> gate_memory \<Rightarrow> gate_world
       \<Rightarrow> gate_error + (gate_world \<times> gate_memory \<times> gate_result)" where
  "run_inbound_gate e i content m w =
     (case disabled_session_result e i m w of
        Some r \<Rightarrow> Inr r
      | None \<Rightarrow>
          (case claim_message i w of
             (w1, False) \<Rightarrow> replay_gate e i content m w1
           | (w1, True) \<Rightarrow>
               (case store_advance (ge_redis e) (ge_now e) (gw_loop w1) (loop_signal_of e content) of
                  (k, st) \<Rightarrow>
                    (let w2 = w1\<lparr>gw_loop := k\<rparr>; hit = is_loop st;
                         flagged = (cl_category (ge_classify e content) \<noteq> Clean)
                     in if \<not> flagged \<and> \<not> hit then Inr (w2, m, clean_result)
                        else
                          (case derive_verdict e content hit of
                             (cat, warn_only) \<Rightarrow>
                               if \<not> ge_enforce e
                               then Inr (journal \<lparr>jr_message = i, jr_category = cat, jr_enforced = False,
                                                  jr_notified = False, jr_action = LogOnly\<rparr> w2, m, clean_result)
                               else if warn_only then Inr (warn_solicitation e i m w2)
                               else enforce_block e i cat m w2)))))"

section \<open>Loop counters: the script and the reducer\<close>

text \<open>
  C37: The Redis script that advances the loop counters computes the pure reducer: for a non-empty
  content hash it returns the reducer's state from the counters read just before, and a read within
  the hour returns that state.
\<close>

theorem loop_script_is_the_reducer:
  assumes "lg_hash g \<noteq> []" "store_advance True now k g = (k', st)"
  shows "st = advance_loop_state (store_peek True now k) g
    \<and> (now' < now + hour_ms \<longrightarrow> store_peek True now' k' = st)"
proof -
  let ?h = "live_hash now k"
  have rep: "(lg_hash g \<noteq> [] \<and> Some (lg_hash g) = (if truthy_str (lh_hash ?h) then lh_hash ?h else None))
      = (lh_hash ?h = Some (lg_hash g))"
    using assms(1) by (cases "lh_hash ?h") auto
  have "st = advance_loop_state (store_peek True now k) g"
    using assms(2) unfolding advance_loop_state_def store_peek_def Let_def loop_state.select_convs if_False not_True_eq_False rep
    by (cases "lg_human g"; cases "lg_meaningful g"; cases "lg_link g"; cases "lh_hash ?h = Some (lg_hash g)";
        simp add: store_advance_def advance_lua_def Let_def)
  moreover have "store_peek True now' k' = st" if "now' < now + hour_ms"
    using assms that by (cases st) (auto simp: store_advance_def advance_lua_def store_peek_def live_hash_def Let_def)
  ultimately show ?thesis by blast
qed

definition demo_signal :: loop_signal where
  "demo_signal = \<lparr>lg_hash = ''h'', lg_meaningful = True, lg_human = False, lg_link = False\<rparr>"

theorem loop_script_is_the_reducer_witness:
  "snd (store_advance True 5 (Some \<lparr>lh_hash = Some ''h'', lh_repeated = Some 2, lh_bot_like = Some 1,
        lh_links = None, lh_expires = 9\<rparr>) demo_signal)
     = \<lparr>ls_hash = Some ''h'', ls_repeated = 3, ls_bot_like = 2, ls_links = 0\<rparr>"
proof -
  let ?k = "Some \<lparr>lh_hash = Some ''h'', lh_repeated = Some 2, lh_bot_like = Some 1, lh_links = None, lh_expires = 9\<rparr>"
  obtain k' st where s: "store_advance True 5 ?k demo_signal = (k', st)" by force
  have "lg_hash demo_signal \<noteq> []" by (simp add: demo_signal_def)
  from loop_script_is_the_reducer [OF this s]
  have "st = advance_loop_state (store_peek True 5 ?k) demo_signal" by blast
  moreover have "advance_loop_state (store_peek True 5 ?k) demo_signal
      = \<lparr>ls_hash = Some ''h'', ls_repeated = 3, ls_bot_like = 2, ls_links = 0\<rparr>" by code_simp
  ultimately show ?thesis using s by simp
qed

section \<open>What the gate does to the conversation\<close>

lemma on_message_twice [simp]:
  "(\<And>m. ms_id (f m) = ms_id m) \<Longrightarrow> (\<And>m. f (f m) = f m) \<Longrightarrow> on_message i f (on_message i f c) = on_message i f c"
  by (simp add: on_message_def)

lemma find_on_message:
  assumes "\<And>m. ms_id (f m) = ms_id m"
  shows "find_message j (on_message i f c) = map_option (\<lambda>m. if ms_id m = i then f m else m) (find_message j c)"
proof -
  have "find (\<lambda>m. ms_id m = j) (map (\<lambda>m. if ms_id m = i then f m else m) ms)
      = map_option (\<lambda>m. if ms_id m = i then f m else m) (find (\<lambda>m. ms_id m = j) ms)" for ms
  proof (induction ms)
    case (Cons a ms)
    then show ?case by (cases "ms_id a = i"; cases "ms_id a = j"; simp add: assms)
  qed simp
  then show ?thesis by (simp add: find_message_def on_message_def)
qed

lemma find_message_id: "find_message i c = Some m \<Longrightarrow> ms_id m = i"
  by (auto simp: find_message_def find_Some_iff)

lemma on_chat_simps [simp]:
  "gw_chat (on_chat f w) = f (gw_chat w)" "gw_loop (on_chat f w) = gw_loop w"
  "gw_journal (on_chat f w) = gw_journal w" "gw_notices (on_chat f w) = gw_notices w"
  by (simp_all add: on_chat_def)

lemma on_message_session [simp]: "ch_session (on_message i f c) = ch_session c"
  by (simp add: on_message_def)

lemma on_session_session [simp]: "ch_session (on_session f c) = f (ch_session c)"
  "ch_messages (on_session f c) = ch_messages c"
  by (simp_all add: on_session_def)

lemma find_on_session [simp]: "find_message i (on_session f c) = find_message i c"
  by (simp add: find_message_def)

lemma journal_simps [simp]:
  "gw_chat (journal r w) = gw_chat w" "gw_loop (journal r w) = gw_loop w"
  "gw_notices (journal r w) = gw_notices w" "gw_journal (journal r w) = gw_journal w @ [r]"
  by (simp_all add: journal_def)

lemma mark_flagged_frame [simp]:
  "ch_session (gw_chat (mark_message_flagged e i w)) = ch_session (gw_chat w)"
  "gw_loop (mark_message_flagged e i w) = gw_loop w"
  by (simp_all add: mark_message_flagged_def)

lemma on_message_messages:
  "ch_messages (on_message i f c) = map (\<lambda>m. if ms_id m = i then f m else m) (ch_messages c)"
  by (simp add: on_message_def)

lemma flagged_all:
  assumes "x \<in> set (ch_messages (on_message i (\<lambda>m. m\<lparr>ms_flagged := True, ms_checked := True\<rparr>) c))" "ms_id x = i"
  shows "ms_flagged x \<and> ms_checked x"
proof -
  obtain y where "x = (if ms_id y = i then y\<lparr>ms_flagged := True, ms_checked := True\<rparr> else y)"
    using assms(1) unfolding on_message_messages set_map by (elim imageE) blast
  with assms(2) show ?thesis by (cases "ms_id y = i") simp_all
qed

lemma mark_flagged_again:
  "mark_message_flagged e i w = w"
  if "find_message i (gw_chat w) = None \<or> (\<forall>m \<in> set (ch_messages (gw_chat w)). ms_id m = i \<longrightarrow> ms_flagged m \<and> ms_checked m)"
proof -
  have "on_message i (\<lambda>m. m\<lparr>ms_flagged := True, ms_checked := True\<rparr>) (gw_chat w) = gw_chat w"
  proof -
    have "x\<lparr>ms_flagged := True, ms_checked := True\<rparr> = x" if "ms_flagged x" "ms_checked x" for x :: message
      using that by (cases x) simp
    then have "map (\<lambda>m. if ms_id m = i then m\<lparr>ms_flagged := True, ms_checked := True\<rparr> else m)
        (ch_messages (gw_chat w)) = ch_messages (gw_chat w)"
      using that by (auto simp: find_message_def find_None_iff intro!: map_idI)
    then show ?thesis by (simp add: on_message_def)
  qed
  then show ?thesis by (simp add: mark_message_flagged_def on_chat_def)
qed

lemma enforce_block_cases:
  assumes "enforce_block e i cat m w = Inr (w', m', r)"
  shows "ge_flag_ok e \<and> r = \<lparr>gr_proceed = False, gr_category = cat, gr_reply = None\<rparr>
    \<and> gw_loop w' = gw_loop w
    \<and> ch_messages (gw_chat w') = ch_messages (on_message i (\<lambda>m. m\<lparr>ms_flagged := True, ms_checked := True\<rparr>) (gw_chat w))
    \<and> \<not> cs_auto (ch_session (gw_chat w'))
    \<and> (cs_auto (ch_session (gw_chat w)) \<longrightarrow>
         cs_guard (ch_session (gw_chat w')) = cat \<and> m' = m\<lparr>gm_auto := False, gm_status := cat\<rparr>)"
  using assms
  by (auto simp: enforce_block_def atomic_disable_def mark_message_flagged_def Let_def split: if_splits)

lemma claim_message_frame:
  assumes "claim_message i w = (w1, b)"
  shows "ch_session (gw_chat w1) = ch_session (gw_chat w)" "gw_loop w1 = gw_loop w"
    "gw_journal w1 = gw_journal w" "read_flagged i w1 = read_flagged i w"
    "\<not> b \<Longrightarrow> w1 = w" "claim_message i w1 = (w1, False)"
  using assms find_message_id [of i "gw_chat w"]
  by (auto simp: claim_message_def read_flagged_def find_on_message split: option.splits if_splits)

text \<open>The ways a gated message can go.\<close>

lemma run_gate_cases:
  assumes "run_inbound_gate e i content m w = Inr (w', m', r)"
  obtains (disabled) "ge_enforce e" "\<not> cs_auto (ch_session (gw_chat w))" "w' = mark_message_flagged e i w"
      "m' = m\<lparr>gm_auto := False, gm_status := cs_guard (ch_session (gw_chat w))\<rparr>"
      "r = \<lparr>gr_proceed = False, gr_category = cs_guard (ch_session (gw_chat w)), gr_reply = None\<rparr>"
  | (replay) "ge_enforce e \<longrightarrow> cs_auto (ch_session (gw_chat w))" "claim_message i w = (w, False)"
      "replay_gate e i content m w = Inr (w', m', r)"
  | (first) w1 k st where "ge_enforce e \<longrightarrow> cs_auto (ch_session (gw_chat w))" "claim_message i w = (w1, True)"
      "store_advance (ge_redis e) (ge_now e) (gw_loop w) (loop_signal_of e content) = (k, st)"
      "(cl_category (ge_classify e content) = Clean \<and> \<not> is_loop st
         \<and> w' = w1\<lparr>gw_loop := k\<rparr> \<and> m' = m \<and> r = clean_result)
       \<or> (\<not> ge_enforce e \<and> m' = m \<and> r = clean_result
         \<and> (\<exists>j. w' = journal j (w1\<lparr>gw_loop := k\<rparr>)))
       \<or> (ge_enforce e \<and> cl_category (ge_classify e content) = Solicitation \<and> \<not> is_loop st
         \<and> \<not> ge_high e content \<and> warn_solicitation e i m (w1\<lparr>gw_loop := k\<rparr>) = (w', m', r))
       \<or> (ge_enforce e \<and> (\<exists>cat. enforce_block e i cat m (w1\<lparr>gw_loop := k\<rparr>) = Inr (w', m', r)))"
proof (cases "disabled_session_result e i m w")
  case (Some x)
  then show ?thesis using assms disabled
    by (auto simp: run_inbound_gate_def disabled_session_result_def Let_def split: if_splits)
next
  case None
  then have en: "ge_enforce e \<longrightarrow> cs_auto (ch_session (gw_chat w))"
    by (auto simp: disabled_session_result_def Let_def split: if_splits)
  obtain w1 b where cl: "claim_message i w = (w1, b)" by force
  show ?thesis
  proof (cases b)
    case False
    then have "w1 = w" using claim_message_frame(5) [OF cl] by simp
    then show ?thesis using assms None cl False replay [OF en] by (simp add: run_inbound_gate_def)
  next
    case True
    obtain k st where k: "store_advance (ge_redis e) (ge_now e) (gw_loop w) (loop_signal_of e content) = (k, st)" by force
    let ?w2 = "w1\<lparr>gw_loop := k\<rparr>"
    obtain cat wo where v: "derive_verdict e content (is_loop st) = (cat, wo)" by force
    have loop: "gw_loop w1 = gw_loop w" by (rule claim_message_frame(2) [OF cl])
    have run: "run_inbound_gate e i content m w =
        (if cl_category (ge_classify e content) = Clean \<and> \<not> is_loop st then Inr (?w2, m, clean_result)
         else if \<not> ge_enforce e
         then Inr (journal \<lparr>jr_message = i, jr_category = cat, jr_enforced = False,
                            jr_notified = False, jr_action = LogOnly\<rparr> ?w2, m, clean_result)
         else if wo then Inr (warn_solicitation e i m ?w2) else enforce_block e i cat m ?w2)"
      using None cl True k v loop by (simp add: run_inbound_gate_def Let_def)
    have wo: "wo \<Longrightarrow> cl_category (ge_classify e content) = Solicitation \<and> \<not> is_loop st \<and> \<not> ge_high e content"
      using v by (auto simp: derive_verdict_def Let_def)
    have cl': "claim_message i w = (w1, True)" using cl True by simp
    show ?thesis
      by (rule first [OF en cl' k]) (use assms run wo in \<open>auto split: if_splits\<close>)
  qed
qed

lemma enforce_block_flags:
  assumes "enforce_block e i cat m w = Inr (w', m', r)" "find_message i (gw_chat w) \<noteq> None"
  shows "read_flagged i w'"
proof -
  have "read_flagged i w' = read_flagged i (on_chat (on_message i (\<lambda>m. m\<lparr>ms_flagged := True, ms_checked := True\<rparr>)) w)"
    using enforce_block_cases [OF assms(1)] by (simp add: read_flagged_def find_message_def)
  with assms(2) find_message_id [of i "gw_chat w"] show ?thesis
    by (auto simp: read_flagged_def find_on_message)
qed

definition demo_gate_env :: gate_env where
  "demo_gate_env =
     \<lparr>ge_enforce = True,
      ge_classify = (\<lambda>t. \<lparr>cl_category = (if t = ''spam'' then Spam else Clean), cl_score = 1, cl_links = []\<rparr>),
      ge_links = (\<lambda>_. \<lparr>li_score = 0, li_links = []\<rparr>), ge_high = (\<lambda>_. False), ge_human = (\<lambda>_. False),
      ge_hash = (\<lambda>t. t), ge_now = 5, ge_redis = True, ge_flag_ok = True, ge_language = None\<rparr>"

definition demo_gate_world :: gate_world where
  "demo_gate_world =
     \<lparr>gw_chat = demo_chat\<lparr>ch_messages := [\<lparr>ms_id = 3, ms_at = 2000, ms_sender = User, ms_type = Text,
        ms_extraction = None, ms_extract_started = None, ms_deleted = False, ms_flagged = False,
        ms_checked = False, ms_content = ''spam'', ms_client = None, ms_external = None\<rparr>]\<rparr>,
      gw_loop = None, gw_journal = [], gw_notices = []\<rparr>"

abbreviation demo_memory :: gate_memory where
  "demo_memory \<equiv> \<lparr>gm_auto = True, gm_status = Clean\<rparr>"

lemma demo_gate_run:
  obtains w' m' r where "run_inbound_gate demo_gate_env 3 ''spam'' demo_memory demo_gate_world = Inr (w', m', r)"
    "\<not> gr_proceed r"
proof -
  have "case run_inbound_gate demo_gate_env 3 ''spam'' demo_memory demo_gate_world of
      Inl _ \<Rightarrow> False | Inr (w', m', r) \<Rightarrow> \<not> gr_proceed r" by code_simp
  then show ?thesis using that
    by (cases "run_inbound_gate demo_gate_env 3 ''spam'' demo_memory demo_gate_world") auto
qed

text \<open>
  A block is recorded: when the gate rejects a message in enforce mode and its flag can be
  written, the message is flagged, so it leaves the unanswered window and the history, and the
  automatic replies of the conversation are off unless the message had been flagged before.
\<close>

theorem blocked_message_is_flagged:
  assumes "run_inbound_gate e i content m w = Inr (w', m', r)" "\<not> gr_proceed r"
    and "ge_enforce e" "ge_flag_ok e" "find_message i (gw_chat w) \<noteq> None"
  shows "read_flagged i w' \<and> (\<not> read_flagged i w \<longrightarrow> \<not> cs_auto (ch_session (gw_chat w')))"
  using assms(1)
proof (cases rule: run_gate_cases)
  case disabled
  then show ?thesis using assms(4,5) find_message_id [of i "gw_chat w"]
    by (auto simp: mark_message_flagged_def read_flagged_def find_on_message)
next
  case replay
  then show ?thesis using assms(2,3,5)
    by (auto simp: replay_gate_def Let_def clean_result_def warn_solicitation_def
        enforce_block_flags dest: enforce_block_cases split: if_splits)
next
  case (first w1 k st)
  have "find_message i (gw_chat (w1\<lparr>gw_loop := k\<rparr>)) \<noteq> None"
    using first(2) assms(5) by (auto simp: claim_message_def find_on_message split: option.splits if_splits)
  then show ?thesis
    using first(4) assms(2,3) enforce_block_flags [of e i _ m "w1\<lparr>gw_loop := k\<rparr>" w' m' r]
      enforce_block_cases [of e i _ m "w1\<lparr>gw_loop := k\<rparr>" w' m' r]
    by (auto simp: clean_result_def warn_solicitation_def Let_def)
qed

lemma is_loop_empty [simp]: "\<not> is_loop empty_loop"
  by (simp add: is_loop_def loop_reasons_def empty_loop_def)

text \<open>Counters that are no loop now are none later: they are the same or have lapsed.\<close>

lemma peek_later:
  assumes "\<not> is_loop (store_peek redis now k)" "now \<le> t" shows "\<not> is_loop (store_peek redis t k)"
proof -
  have "live_hash t k = live_hash now k \<or> live_hash t k = no_hash"
    using assms(2) by (auto simp: live_hash_def split: option.splits)
  moreover have "\<not> is_loop (store_peek redis t k)" if "live_hash t k = no_hash"
    using that by (simp add: store_peek_def is_loop_def loop_reasons_def no_hash_def empty_loop_def)
  ultimately show ?thesis using assms(1) by (auto simp: store_peek_def)
qed

lemma is_loop_iff: "is_loop s \<longleftrightarrow> 3 \<le> ls_repeated s \<or> 5 \<le> ls_bot_like s \<or> 2 \<le> ls_links s"
  by (simp add: is_loop_def loop_reasons_def)

lemma advance_lua_fields:
  assumes "advance_lua now k h mn hu li = (h', r, b, s)"
  shows "lh_repeated h' = Some r \<and> lh_bot_like h' = Some b \<and> lh_links h' = Some s \<and> lh_expires h' = now + hour_ms"
proof -
  let ?a = "advance_lua now k h mn hu li"
  have "lh_repeated (fst ?a) = Some (fst (snd ?a))" "lh_bot_like (fst ?a) = Some (fst (snd (snd ?a)))"
    "lh_links (fst ?a) = Some (snd (snd (snd ?a)))" "lh_expires (fst ?a) = now + hour_ms"
    by (simp_all only: advance_lua_def Let_def fst_conv snd_conv loop_hash.select_convs)
  then show ?thesis by (simp add: assms)
qed

lemma peek_after_advance:
  assumes "store_advance redis now k g = (k', st)" "\<not> is_loop st" "now \<le> t"
  shows "\<not> is_loop (store_peek redis t k')"
proof (cases redis)
  case True
  obtain h r b s where a: "advance_lua now k (lg_hash g) (lg_meaningful g) (lg_human g) (lg_link g) = (h, r, b, s)"
    by (metis prod_cases4)
  then have "k' = Some h" "st = \<lparr>ls_hash = Some (lg_hash g), ls_repeated = r, ls_bot_like = b, ls_links = s\<rparr>"
    using assms(1) True by (auto simp: store_advance_def)
  then have "\<not> is_loop (store_peek True now k')"
    using advance_lua_fields [OF a] assms(2)
    by (simp add: store_peek_def live_hash_def Let_def is_loop_iff)
  then show ?thesis using peek_later [of True now k' t] assms(3) True by simp
qed (simp add: store_peek_def)

lemma gate_after_block:
  assumes "enforce_block e i cat m w = Inr (w', m', r)" "cs_auto (ch_session (gw_chat w))" "ge_enforce e"
  shows "run_inbound_gate (e\<lparr>ge_now := t\<rparr>) i content m' w' = Inr (w', m', r)"
proof -
  note b = enforce_block_cases [OF assms(1)]
  have "mark_message_flagged (e\<lparr>ge_now := t\<rparr>) i w' = w'"
  proof (rule mark_flagged_again, rule disjI2, intro ballI impI)
    fix x assume "x \<in> set (ch_messages (gw_chat w'))" "ms_id x = i"
    moreover have "ch_messages (gw_chat w') = ch_messages (on_message i (\<lambda>m. m\<lparr>ms_flagged := True, ms_checked := True\<rparr>) (gw_chat w))"
      using b by blast
    ultimately show "ms_flagged x \<and> ms_checked x" using flagged_all [of x i "gw_chat w"] by simp
  qed
  then show ?thesis using b assms(2,3)
    by (simp add: run_inbound_gate_def disabled_session_result_def Let_def)
qed

lemma gate_when_claimed:
  assumes "claim_message i w = (w, False)" "ge_enforce e \<longrightarrow> cs_auto (ch_session (gw_chat w))"
  shows "run_inbound_gate e i content m w = replay_gate e i content m w"
  using assms by (auto simp: run_inbound_gate_def disabled_session_result_def Let_def)

theorem blocked_message_is_flagged_witness:
  "case run_inbound_gate demo_gate_env 3 ''spam'' demo_memory demo_gate_world of
     Inl _ \<Rightarrow> False | Inr (w', m', r) \<Rightarrow> read_flagged 3 w'"
proof -
  obtain w' m' r where run: "run_inbound_gate demo_gate_env 3 ''spam'' demo_memory demo_gate_world = Inr (w', m', r)"
    "\<not> gr_proceed r" by (rule demo_gate_run)
  have "find_message 3 (gw_chat demo_gate_world) \<noteq> None" by code_simp
  then show ?thesis using blocked_message_is_flagged [OF run] run(1) by (simp add: demo_gate_env_def)
qed

text \<open>A flagged message has been gated: every write of the flag also marks the message checked.\<close>

definition flags_checked :: "chat \<Rightarrow> bool" where
  "flags_checked c = list_all (\<lambda>m. ms_flagged m \<longrightarrow> ms_checked m) (ch_messages c)"

lemma claimed_unflagged:
  assumes "claim_message i w = (w1, True)" "flags_checked (gw_chat w)" shows "\<not> read_flagged i w1"
proof -
  obtain m where m: "find_message i (gw_chat w) = Some m" "\<not> ms_checked m"
    using assms(1) by (auto simp: claim_message_def split: option.splits if_splits)
  then have "m \<in> set (ch_messages (gw_chat w))" by (auto simp: find_message_def find_Some_iff)
  then have "\<not> ms_flagged m" using assms(2) m(2) by (auto simp: flags_checked_def list_all_iff)
  then show ?thesis using m(1) claim_message_frame(4) [OF assms(1)] by (simp add: read_flagged_def)
qed

lemma warn_solicitation_again:
  assumes "warn_solicitation e i m w = (w', m', r)"
  shows "gw_chat w' = gw_chat w \<and> gw_loop w' = gw_loop w \<and> m' = m
    \<and> warn_solicitation (e\<lparr>ge_now := t\<rparr>) i m w' = (w', m, r)"
  using assms by (auto simp: warn_solicitation_def Let_def split: if_splits)

lemma claim_message_chat:
  "gw_chat w' = gw_chat w \<Longrightarrow> claim_message i w = (w, False) \<Longrightarrow> claim_message i w' = (w', False)"
  by (auto simp: claim_message_def split: option.splits if_splits)

lemma read_flagged_chat: "gw_chat w' = gw_chat w \<Longrightarrow> read_flagged i w' = read_flagged i w"
  by (simp add: read_flagged_def)

text \<open>A replay that did not block: the same replay from the state it left.\<close>

lemma replay_again:
  assumes "replay_gate e i content m w = Inr (w', m', r)" "ge_now e \<le> t"
    and "\<And>cat. ge_enforce e \<Longrightarrow> enforce_block e i cat m w \<noteq> Inr (w', m', r)"
  shows "gw_chat w' = gw_chat w \<and> m' = m
    \<and> replay_gate (e\<lparr>ge_now := t\<rparr>) i content m w' = Inr (w', m, r)"
proof (cases "read_flagged i w \<or> \<not> ge_enforce e")
  case True
  then show ?thesis using assms(1) read_flagged_chat [of w' w i]
    by (auto simp: replay_gate_def split: if_splits)
next
  case False
  let ?c = "ge_classify e content"
  let ?wo = "cl_category ?c = Solicitation \<and> \<not> ge_high e content"
  have nb: "cl_category ?c = Clean \<or> ?wo" and nl: "\<not> is_loop (store_peek (ge_redis e) (ge_now e) (gw_loop w))"
    using assms(1,3) False by (auto simp: replay_gate_def Let_def split: if_splits)
  have later: "\<not> is_loop (store_peek (ge_redis e) t (gw_loop w))" by (rule peek_later [OF nl assms(2)])
  show ?thesis
  proof (cases ?wo)
    case True
    then have "warn_solicitation e i m w = (w', m', r)"
      using assms(1) False nl by (simp add: replay_gate_def Let_def)
    note * = warn_solicitation_again [OF this, of t]
    then show ?thesis using True False later read_flagged_chat [of w' w i] by (simp add: replay_gate_def Let_def)
  next
    case no: False
    then have "cl_category ?c = Clean" using nb by blast
    then have "w' = w" "m' = m" "r = clean_result"
      using assms(1) False no nl by (auto simp: replay_gate_def Let_def)
    then show ?thesis using False \<open>cl_category ?c = Clean\<close> later by (simp add: replay_gate_def Let_def)
  qed
qed

lemma flags_checked_on_message:
  assumes "flags_checked c" "\<And>m. ms_flagged m \<longrightarrow> ms_checked m \<Longrightarrow> ms_flagged (f m) \<longrightarrow> ms_checked (f m)"
  shows "flags_checked (on_message i f c)"
  using assms by (auto simp: flags_checked_def on_message_def list_all_iff)

lemma enforce_block_flags_checked:
  assumes "enforce_block e i cat m w = Inr (w', m', r)" "flags_checked (gw_chat w)"
  shows "flags_checked (gw_chat w')"
proof -
  have "flags_checked (on_message i (\<lambda>m. m\<lparr>ms_flagged := True, ms_checked := True\<rparr>) (gw_chat w))"
    by (rule flags_checked_on_message [OF assms(2)]) simp
  then show ?thesis using enforce_block_cases [OF assms(1)] by (simp add: flags_checked_def)
qed

lemma claim_flags_checked:
  "claim_message i w = (w1, b) \<Longrightarrow> flags_checked (gw_chat w) \<Longrightarrow> flags_checked (gw_chat w1)"
  by (auto simp: claim_message_def flags_checked_on_message split: option.splits if_splits)

lemma gate_keeps_flags_checked:
  assumes "run_inbound_gate e i content m w = Inr (w', m', r)" "flags_checked (gw_chat w)"
  shows "flags_checked (gw_chat w')"
  using assms(1)
proof (cases rule: run_gate_cases)
  case disabled
  then show ?thesis using assms(2) by (simp add: mark_message_flagged_def flags_checked_on_message)
next
  case replay
  show ?thesis
  proof (cases "\<exists>cat. enforce_block e i cat m w = Inr (w', m', r)")
    case True
    then show ?thesis using enforce_block_flags_checked assms(2) by blast
  next
    case False
    then have "gw_chat w' = gw_chat w" using replay_again [OF replay(3) order_refl] by blast
    then show ?thesis using assms(2) by simp
  qed
next
  case (first w1 k st)
  have "flags_checked (gw_chat (w1\<lparr>gw_loop := k\<rparr>))" using claim_flags_checked [OF first(2) assms(2)] by simp
  then show ?thesis
    using first(4) enforce_block_flags_checked [of e i _ m "w1\<lparr>gw_loop := k\<rparr>" w' m' r]
      warn_solicitation_again [of e i m "w1\<lparr>gw_loop := k\<rparr>" w' m' r]
    by (elim disjE) auto
qed

text \<open>
  Gating a message again reaches the same verdict and does nothing more: a second run of the
  gate, at any later time, returns the result of the first, and leaves the conversation, the loop
  counters, the journal, the notifications and the session in memory as the first run left them.
\<close>

theorem gate_is_idempotent:
  assumes "run_inbound_gate e i content m w = Inr (w', m', r)" "ge_now e \<le> t"
    and "flags_checked (gw_chat w)"
  shows "run_inbound_gate (e\<lparr>ge_now := t\<rparr>) i content m' w' = Inr (w', m', r)"
  using assms(1)
proof (cases rule: run_gate_cases)
  case disabled
  have "mark_message_flagged (e\<lparr>ge_now := t\<rparr>) i (mark_message_flagged e i w) = mark_message_flagged e i w"
  proof (cases "ge_flag_ok e")
    case True
    then show ?thesis
      by (intro mark_flagged_again disjI2 ballI impI flagged_all [where c = "gw_chat w"])
        (simp_all add: mark_message_flagged_def)
  qed (simp add: mark_message_flagged_def)
  then show ?thesis using disabled
    by (simp add: run_inbound_gate_def disabled_session_result_def Let_def)
next
  case replay
  show ?thesis
  proof (cases "\<exists>cat. ge_enforce e \<and> enforce_block e i cat m w = Inr (w', m', r)")
    case True
    then show ?thesis using gate_after_block replay(1) by blast
  next
    case False
    then have *: "gw_chat w' = gw_chat w \<and> m' = m
        \<and> replay_gate (e\<lparr>ge_now := t\<rparr>) i content m w' = Inr (w', m, r)"
      using replay_again [OF replay(3) assms(2)] by blast
    then show ?thesis
      using gate_when_claimed [of i w' "e\<lparr>ge_now := t\<rparr>" content m] claim_message_chat [of w' w i] replay(1,2)
      by simp
  qed
next
  case (first w1 k st)
  let ?w2 = "w1\<lparr>gw_loop := k\<rparr>" and ?e = "e\<lparr>ge_now := t\<rparr>"
  have auto': "cs_auto (ch_session (gw_chat w1)) = cs_auto (ch_session (gw_chat w))"
    using claim_message_frame(1) [OF first(2)] by simp
  have cl: "claim_message i w1 = (w1, False)" by (rule claim_message_frame(6) [OF first(2)])
  have nl: "\<not> is_loop (store_peek (ge_redis e) t k)" if "\<not> is_loop st"
    by (rule peek_after_advance [OF first(3) that assms(2)])
  have un: "\<not> read_flagged i w1"
    using first(2) assms(3) by (rule claimed_unflagged)
  have again: "run_inbound_gate ?e i content m v = replay_gate ?e i content m v" if "gw_chat v = gw_chat w1" for v
    by (rule gate_when_claimed) (use that cl claim_message_chat [of v w1 i] auto' first(1) in auto)
  from first(4) show ?thesis
  proof (elim disjE)
    assume "cl_category (ge_classify e content) = Clean \<and> \<not> is_loop st \<and> w' = ?w2 \<and> m' = m \<and> r = clean_result"
    then show ?thesis using again [of ?w2] un nl read_flagged_chat [of ?w2 w1 i]
      by (simp add: replay_gate_def Let_def)
  next
    assume "\<not> ge_enforce e \<and> m' = m \<and> r = clean_result \<and> (\<exists>j. w' = journal j ?w2)"
    then show ?thesis using again [of w'] un read_flagged_chat [of w' w1 i]
      by (auto simp: replay_gate_def)
  next
    assume a: "ge_enforce e \<and> cl_category (ge_classify e content) = Solicitation \<and> \<not> is_loop st
         \<and> \<not> ge_high e content \<and> warn_solicitation e i m ?w2 = (w', m', r)"
    then have "warn_solicitation e i m ?w2 = (w', m', r)" by simp
    note v = warn_solicitation_again [OF this, of t]
    then show ?thesis using a again [of w'] un nl read_flagged_chat [of w' w1 i]
      by (simp add: replay_gate_def Let_def)
  next
    assume "ge_enforce e \<and> (\<exists>cat. enforce_block e i cat m ?w2 = Inr (w', m', r))"
    then show ?thesis using gate_after_block [of e i _ m ?w2 w' m' r t] auto' first(1) by auto
  qed
qed

theorem gate_is_idempotent_witness:
  "case run_inbound_gate demo_gate_env 3 ''spam'' demo_memory demo_gate_world of
     Inl _ \<Rightarrow> False
   | Inr (w', m', r) \<Rightarrow> run_inbound_gate (demo_gate_env\<lparr>ge_now := 7\<rparr>) 3 ''spam'' m' w' = Inr (w', m', r)"
proof -
  obtain w' m' r where run: "run_inbound_gate demo_gate_env 3 ''spam'' demo_memory demo_gate_world = Inr (w', m', r)"
    by (rule demo_gate_run)
  have "ge_now demo_gate_env \<le> 7" by (simp add: demo_gate_env_def)
  moreover have "flags_checked (gw_chat demo_gate_world)" by code_simp
  ultimately show ?thesis using gate_is_idempotent [OF run] run by simp
qed

end
