(* ===== verification/Turns.thy ===== *)
theory Turns
  imports Guardrails
begin

text \<open>
  Coalesced turns: the timing policy (\<open>services/turn-timing.ts\<close>), the queries on unanswered
  messages (\<open>services/unanswered-window.ts\<close>), the session lock (\<open>services/session-lock.ts\<close>), one
  agent turn and its commit (\<open>services/message-forwarding.service.ts\<close>) and the queue processor
  (\<open>services/turn-coalescer.ts\<close>). The agent, the output guardrails, the rendering of documents and
  the escalation keywords are arguments. The reads a handler does before the agent runs are taken
  at one instant; what happens while the agent runs is an arbitrary step of the conversation.
\<close>

section \<open>Timing\<close>

definition quiet_lone_ms :: int where "quiet_lone_ms = 700"
definition quiet_burst_ms :: int where "quiet_burst_ms = 2000"
definition quiet_capture_ms :: int where "quiet_capture_ms = 2500"
definition max_wait_ms :: int where "max_wait_ms = 6000"

record turn_timing =
  tt_first :: int
  tt_last :: int
  tt_count :: int
  tt_capture :: bool

definition compute_due_at :: "turn_timing \<Rightarrow> int" where
  "compute_due_at t =
     (let threshold = (if tt_capture t then quiet_capture_ms
                       else if tt_count t \<ge> 2 then quiet_burst_ms else quiet_lone_ms)
      in min (tt_last t + threshold) (tt_first t + max_wait_ms))"

text \<open>
  \<open>EMAIL_RE\<close> and \<open>PHONE_RE\<close> as recognisers: an address has one at sign, something before it, and a
  dot inside the rest; a phone number is an optional opening sign, a digit and at least six more
  phone characters.
\<close>

definition inner_dot :: "string \<Rightarrow> bool" where
  "inner_dot d = (list_ex (\<lambda>c. c = CHR ''.'') (butlast (drop 1 d)))"

definition email_like :: "string \<Rightarrow> bool" where
  "email_like t =
     (let l = takeWhile (\<lambda>c. c \<noteq> CHR ''@'') t; r = dropWhile (\<lambda>c. c \<noteq> CHR ''@'') t
      in l \<noteq> [] \<and> r \<noteq> [] \<and> list_all (\<lambda>c. \<not> is_ws c) t \<and> list_all (\<lambda>c. c \<noteq> CHR ''@'') (drop 1 r)
         \<and> inner_dot (drop 1 r))"

definition phone_char :: "char \<Rightarrow> bool" where
  "phone_char c = (is_digit c \<or> is_ws c \<or> c = CHR ''('' \<or> c = CHR '')'' \<or> c = CHR ''.'' \<or> c = CHR ''-'')"

definition phone_like :: "string \<Rightarrow> bool" where
  "phone_like t =
     (let u = (case t of [] \<Rightarrow> [] | c # cs \<Rightarrow> if c = CHR ''+'' \<or> c = CHR ''('' then cs else t)
      in case u of [] \<Rightarrow> False | c # cs \<Rightarrow> is_digit c \<and> list_all phone_char cs \<and> 6 \<le> length cs)"

definition is_contact_fragment :: "string \<Rightarrow> bool" where
  "is_contact_fragment text =
     (let t = js_trim text in t \<noteq> [] \<and> length t \<le> 64 \<and> (email_like t \<or> phone_like t))"

section \<open>Unanswered messages\<close>

definition ai_visible :: "message \<Rightarrow> bool" where
  "ai_visible m =
     (case ms_type m of
        Text \<Rightarrow> True | Image \<Rightarrow> True
      | File \<Rightarrow> ms_extraction m \<in> {Some Ready, Some Failed, Some Unsupported, Some Infected}
      | OtherType \<Rightarrow> False)"

text \<open>The tuple \<open>(created_at, id)\<close> the queries order by.\<close>

definition pos :: "message \<Rightarrow> int \<times> nat" where
  "pos m = (ms_at m, ms_id m)"

definition user_message :: "message \<Rightarrow> bool" where
  "user_message m = (\<not> ms_deleted m \<and> ai_visible m \<and> ms_sender m = User \<and> \<not> ms_flagged m)"

definition created_at :: "message list \<Rightarrow> nat \<Rightarrow> int option" where
  "created_at ms i = map_option ms_at (find (\<lambda>m. ms_id m = i) ms)"

text \<open>
  The watermark as the queries read it: the creation time of its message, or the stored time, which
  has gone through a JavaScript date, when that row is gone.
\<close>

definition mark_position :: "message list \<Rightarrow> int \<times> nat \<Rightarrow> int \<times> nat" where
  "mark_position ms mk =
     (case created_at ms (snd mk) of
        Some a \<Rightarrow> (a, snd mk) | None \<Rightarrow> (fst mk div 1000 * 1000, snd mk))"

definition after_mark :: "message list \<Rightarrow> (int \<times> nat) option \<Rightarrow> message \<Rightarrow> bool" where
  "after_mark ms mark m = (case mark of None \<Rightarrow> True | Some mk \<Rightarrow> mark_position ms mk < pos m)"

text \<open>A comparison with the position of a message that does not exist selects nothing.\<close>

definition up_to :: "message list \<Rightarrow> nat \<Rightarrow> message \<Rightarrow> bool" where
  "up_to ms i m = (case created_at ms i of None \<Rightarrow> False | Some a \<Rightarrow> pos m \<le> (a, i))"

definition unanswered :: "message list \<Rightarrow> (int \<times> nat) option \<Rightarrow> message list" where
  "unanswered ms mark = filter (\<lambda>m. user_message m \<and> after_mark ms mark m) ms"

definition newest_unanswered :: "message list \<Rightarrow> (int \<times> nat) option \<Rightarrow> message option" where
  "newest_unanswered ms mark = best_by (\<lambda>x y. pos y < pos x) None (unanswered ms mark)"

definition oldest_unanswered :: "message list \<Rightarrow> (int \<times> nat) option \<Rightarrow> nat option \<Rightarrow> message option" where
  "oldest_unanswered ms mark bound =
     best_by (\<lambda>x y. pos x < pos y) None
       (filter (\<lambda>m. case bound of None \<Rightarrow> True | Some i \<Rightarrow> up_to ms i m) (unanswered ms mark))"

definition newest_first :: "message list \<Rightarrow> message list" where
  "newest_first ms = rev (sort_key pos ms)"

definition unanswered_text_up_to :: "message list \<Rightarrow> (int \<times> nat) option \<Rightarrow> nat \<Rightarrow> nat \<Rightarrow> message list" where
  "unanswered_text_up_to ms mark hwm limit =
     take limit (sort_key pos
       (filter (\<lambda>m. ms_type m = Text \<and> up_to ms hwm m) (unanswered ms mark)))"

definition unanswered_bounds :: "message list \<Rightarrow> (int \<times> nat) option \<Rightarrow> (int \<times> int \<times> int) option" where
  "unanswered_bounds ms mark =
     (let us = unanswered ms mark
      in if us = [] then None
         else Some (int (length us), Min (set (map ms_at us)), Max (set (map ms_at us))))"

text \<open>
  The window the guardrails vet: the newest eleven unanswered user messages up to the message being
  answered, oldest first.
\<close>

definition unanswered_user_window :: "message list \<Rightarrow> (int \<times> nat) option \<Rightarrow> nat \<Rightarrow> message list" where
  "unanswered_user_window ms mark hwm =
     rev (take 11 (newest_first (filter (\<lambda>m. up_to ms hwm m) (unanswered ms mark))))"

text \<open>What the agent sees before the live message: at most ten visible rows, no leading greeting.\<close>

datatype role = UserRole | AssistantRole

definition history_rows :: "message list \<Rightarrow> nat \<Rightarrow> message list" where
  "history_rows ms hwm =
     take 11 (newest_first
       (filter (\<lambda>m. \<not> ms_deleted m \<and> ai_visible m \<and> \<not> ms_flagged m \<and> ms_id m \<noteq> hwm \<and> up_to ms hwm m) ms))"

definition history_turn :: "(message \<Rightarrow> string) \<Rightarrow> message \<Rightarrow> role \<times> string" where
  "history_turn doc m =
     ((if ms_sender m = Bot then AssistantRole else UserRole),
      (let text = ms_content m
       in case ms_type m of
            Image \<Rightarrow> if text \<noteq> [] then ''[Image] '' @ text else ''[Image]''
          | File \<Rightarrow> if text \<noteq> [] then text @ [CHR 0x0A, CHR 0x0A] @ doc m else doc m
          | _ \<Rightarrow> text))"

definition coalesced_history :: "(message \<Rightarrow> string) \<Rightarrow> message list \<Rightarrow> nat \<Rightarrow> (role \<times> string) list" where
  "coalesced_history doc ms hwm =
     (let rows = history_rows ms hwm;
          turns = map (history_turn doc) (rev (take 10 rows))
      in if length rows > 10 then turns else dropWhile (\<lambda>t. fst t = AssistantRole) turns)"

definition has_pending_extraction :: "int \<Rightarrow> message list \<Rightarrow> bool" where
  "has_pending_extraction now ms =
     list_ex (\<lambda>m. \<not> ms_deleted m \<and> ms_type m = File \<and> ms_sender m = User \<and> ms_extraction m = Some Pending
               \<and> (case ms_extract_started m of None \<Rightarrow> False | Some t \<Rightarrow> now - 180000000 < t * 1000)) ms"

section \<open>The session lock\<close>

type_synonym lock = "(nat \<times> int) option"

definition lock_holder :: "int \<Rightarrow> lock \<Rightarrow> nat option" where
  "lock_holder now l = (case l of None \<Rightarrow> None | Some (t, x) \<Rightarrow> if now < x then Some t else None)"

text \<open>\<open>SET NX PX\<close>, and the two scripts that compare the owner token first.\<close>

definition acquire_lock :: "int \<Rightarrow> nat \<Rightarrow> int \<Rightarrow> lock \<Rightarrow> lock \<times> bool" where
  "acquire_lock now tok ttl l =
     (case lock_holder now l of None \<Rightarrow> (Some (tok, now + ttl), True) | Some _ \<Rightarrow> (l, False))"

definition refresh_lock :: "int \<Rightarrow> nat \<Rightarrow> int \<Rightarrow> lock \<Rightarrow> lock" where
  "refresh_lock now tok ttl l = (if lock_holder now l = Some tok then Some (tok, now + ttl) else l)"

definition release_lock :: "int \<Rightarrow> nat \<Rightarrow> lock \<Rightarrow> lock" where
  "release_lock now tok l = (if lock_holder now l = Some tok then None else l)"

section \<open>Committing a reply\<close>

definition newer_user_message :: "message list \<Rightarrow> nat \<Rightarrow> bool" where
  "newer_user_message ms hwm =
     (case created_at ms hwm of
        None \<Rightarrow> False
      | Some a \<Rightarrow> list_ex (\<lambda>m. \<not> ms_deleted m \<and> (ms_type m = Text \<or> ms_type m = Image) \<and> ms_sender m = User
                             \<and> \<not> ms_flagged m \<and> (a, hwm) < pos m) ms)"

definition bot_message :: "cmd_env \<Rightarrow> string \<Rightarrow> message" where
  "bot_message e content =
     \<lparr>ms_id = ce_message_id e, ms_at = ce_now e, ms_sender = Bot, ms_type = Text, ms_extraction = None,
      ms_extract_started = None, ms_deleted = False, ms_flagged = False, ms_checked = False,
      ms_content = content, ms_client = None, ms_external = None\<rparr>"

definition mark_before :: "(int \<times> nat) option \<Rightarrow> int \<times> nat \<Rightarrow> bool" where
  "mark_before mark p = (case mark of None \<Rightarrow> True | Some mk \<Rightarrow> mk < p)"

datatype 'a fin = Answered 'a | Stale

text \<open>
  \<open>finalizeReply\<close>: one transaction that inserts the reply and advances the watermark under the
  finalize predicate; a failed predicate, or an address question that can no longer be asked, rolls
  the reply back.
\<close>

definition finalize_reply ::
    "cmd_env \<Rightarrow> bool \<Rightarrow> string \<Rightarrow> nat \<Rightarrow> bool \<Rightarrow> int \<Rightarrow> chat \<Rightarrow> conv_error + chat fin" where
  "finalize_reply e question_ok content hwm stale_guard version c =
     (let s = ch_session c; ms = ch_messages c
      in if stale_guard \<and> newer_user_message ms hwm then Inr Stale
         else if ce_message_id e \<in> set (map ms_id ms) then Inl UniqueViolation
         else
           (case created_at ms hwm of
              None \<Rightarrow> Inr Stale
            | Some a \<Rightarrow>
                if \<not> (cs_auto s \<and> (cs_status s = BotStatus \<or> cs_status s = Waiting) \<and> cs_version s = version
                      \<and> mark_before (cs_mark s) (a, hwm)
                      \<and> (stale_guard \<longrightarrow> \<not> newer_user_message (ms @ [bot_message e content]) hwm))
                then Inr Stale
                else if \<not> question_ok then Inr Stale
                else Inr (Answered (add_message e (bot_message e content)
                       (on_session (\<lambda>s. s\<lparr>cs_mark := Some (a, hwm)\<rparr>) c)))))"

text \<open>The legacy path advances the same watermark after its own reply.\<close>

definition advance_watermark :: "nat \<Rightarrow> chat \<Rightarrow> chat" where
  "advance_watermark i c =
     (case created_at (ch_messages c) i of
        None \<Rightarrow> c
      | Some a \<Rightarrow> if mark_before (cs_mark (ch_session c)) (a, i)
                  then on_session (\<lambda>s. s\<lparr>cs_mark := Some (a, i)\<rparr>) c else c)"

text \<open>The legacy reply: the row is locked and the version compared in the persist transaction.\<close>

definition send_bot_message :: "cmd_env \<Rightarrow> string \<Rightarrow> int option \<Rightarrow> bool \<Rightarrow> chat \<Rightarrow> conv_error + chat fin" where
  "send_bot_message e content expected question_ok c =
     (if (case expected of None \<Rightarrow> False | Some v \<Rightarrow> cs_version (ch_session c) \<noteq> v) then Inr Stale
      else if ce_message_id e \<in> set (map ms_id (ch_messages c)) then Inl UniqueViolation
      else if \<not> question_ok then Inl QuestionChanged
      else Inr (Answered (add_message e (bot_message e content) c)))"

section \<open>The outcome of an agent run\<close>

datatype agent_kind =
  Response string | AwaitingConfirmation string | AgentError string bool
| BudgetExceeded string | MaxIterations string

record agent_result =
  ar_kind :: agent_kind
  ar_handoff :: bool

record turn_reply =
  tr_content :: string
  tr_reason :: "handoff_reason option"
  tr_stale_guard :: bool

definition map_agent_result :: "agent_result \<Rightarrow> turn_reply" where
  "map_agent_result r =
     (case ar_kind r of
        Response t \<Rightarrow> \<lparr>tr_content = t, tr_reason = None, tr_stale_guard = True\<rparr>
      | AwaitingConfirmation t \<Rightarrow> \<lparr>tr_content = t, tr_reason = None, tr_stale_guard = True\<rparr>
      | AgentError t infra \<Rightarrow>
          \<lparr>tr_content = t, tr_reason = (if infra then None else Some BotError), tr_stale_guard = False\<rparr>
      | BudgetExceeded t \<Rightarrow> \<lparr>tr_content = t, tr_reason = Some BotError, tr_stale_guard = False\<rparr>
      | MaxIterations t \<Rightarrow> \<lparr>tr_content = t, tr_reason = Some BotError, tr_stale_guard = False\<rparr>)"

text \<open>The output guardrails answer whether the reply is blocked and what is to be sent.\<close>

definition guard_turn_reply :: "(string \<Rightarrow> bool \<times> string) \<Rightarrow> agent_result \<Rightarrow> turn_reply \<Rightarrow> turn_reply" where
  "guard_turn_reply output_guard r reply =
     (case ar_kind r of
        AgentError _ _ \<Rightarrow> reply | BudgetExceeded _ \<Rightarrow> reply | MaxIterations _ \<Rightarrow> reply
      | _ \<Rightarrow> (case output_guard (tr_content reply) of
               (False, t) \<Rightarrow> reply\<lparr>tr_content := t\<rparr>
             | (True, t) \<Rightarrow> \<lparr>tr_content = t, tr_reason = Some BotError, tr_stale_guard = False\<rparr>))"

definition resolve_turn_outcome :: "(string \<Rightarrow> bool \<times> string) \<Rightarrow> agent_result \<Rightarrow> turn_reply" where
  "resolve_turn_outcome output_guard r =
     (let guarded = guard_turn_reply output_guard r (map_agent_result r)
      in if ar_handoff r then guarded\<lparr>tr_reason := Some EscalationTrigger, tr_stale_guard := False\<rparr> else guarded)"

text \<open>
  The legacy dispatch of the same result: the text it sends, the handoff it makes, if any, and
  whether the drain stops. Its canned texts go through the translation \<open>loc\<close> first.
\<close>

definition dispatch_legacy ::
    "(string \<Rightarrow> bool \<times> string) \<Rightarrow> (string \<Rightarrow> string) \<Rightarrow> agent_result \<Rightarrow> string \<times> handoff_reason option \<times> bool" where
  "dispatch_legacy output_guard loc r =
     (let explicit = ar_handoff r;
          base = (case ar_kind r of
             Response t \<Rightarrow> (case output_guard t of
                 (True, u) \<Rightarrow> (u, if \<not> explicit then Some BotError else None, False)
               | (False, u) \<Rightarrow> (u, None, False))
           | AgentError t infra \<Rightarrow>
               (loc t, if infra then None else if \<not> explicit then Some BotError else None, infra)
           | BudgetExceeded t \<Rightarrow> (loc t, if \<not> explicit then Some BotError else None, False)
           | MaxIterations t \<Rightarrow> (loc t, if \<not> explicit then Some BotError else None, False)
           | AwaitingConfirmation t \<Rightarrow> (case output_guard t of
                 (True, u) \<Rightarrow> (u, if \<not> explicit then Some BotError else None, False)
               | (False, u) \<Rightarrow> (u, None, False)))
      in case base of (t, why, stop) \<Rightarrow> (t, if explicit then Some EscalationTrigger else why, stop))"

section \<open>One turn\<close>

record turn_env =
  te_cmd :: cmd_env
  te_after :: cmd_env
  te_gate :: gate_env
  te_config_ok :: bool
  te_keywords :: bool
  te_escalates :: "string \<Rightarrow> bool"
  te_fallback :: string
  te_warn_text :: "warn_language \<Rightarrow> string"
  te_localize :: "string \<Rightarrow> string"
  te_doc :: "message \<Rightarrow> string"
  te_output_guard :: "string \<Rightarrow> bool \<times> string"
  te_question_ok :: bool

text \<open>
  The inbound check for a timed control that has run out: the JavaScript clock decides whether to
  try, the command decides on the database clock, and the session in memory takes the fields of the
  answer. An error leaves everything as it was.
\<close>

definition sync_session :: "summary \<Rightarrow> session \<Rightarrow> session" where
  "sync_session u s =
     s\<lparr>cs_owner := su_owner u, cs_status := su_status u, cs_version := su_version u, cs_agent := su_agent u,
       cs_mode := su_mode u, cs_hours := su_hours u, cs_until := map_option (\<lambda>t. t * 1000) (su_until u),
       cs_since := map_option (\<lambda>t. t * 1000) (su_since u)\<rparr>"

definition release_on_inbound :: "cmd_env \<Rightarrow> session \<Rightarrow> chat \<Rightarrow> chat \<times> session" where
  "release_on_inbound e s c =
     (if cs_owner s \<noteq> HumanOwned \<or> cs_mode s \<noteq> Some Timed
         \<or> (case cs_until s of None \<Rightarrow> True | Some t \<Rightarrow> ce_js e < t div 1000)
      then (c, s)
      else (case run_command (e\<lparr>ce_tenant := None\<rparr>) None ExpireCmd c of
              Inl _ \<Rightarrow> (c, s)
            | Inr (c', r) \<Rightarrow> (c', sync_session (rp_summary r) s)))"

fun gate_window ::
    "gate_env \<Rightarrow> message list \<Rightarrow> gate_memory \<Rightarrow> gate_world \<Rightarrow> category option \<Rightarrow> warn_language option
       \<Rightarrow> gate_error + (gate_world \<times> gate_memory \<times> category option \<times> warn_language option)" where
  "gate_window e [] m w blocked reply = Inr (w, m, blocked, reply)"
| "gate_window e (x # xs) m w blocked reply =
     and_then (run_inbound_gate e (ms_id x) (ms_content x) m w) (\<lambda>(w', m', g).
       if \<not> gr_proceed g
       then gate_window e xs m' w' (case blocked of None \<Rightarrow> Some (gr_category g) | Some b \<Rightarrow> Some b) reply
       else gate_window e xs m' w' blocked
              (if blocked = None then (case reply of None \<Rightarrow> gr_reply g | Some r \<Rightarrow> Some r) else reply))"

datatype autoresponse = GuardrailReply string | EscalationReply string

definition local_autoresponse :: "turn_env \<Rightarrow> session \<Rightarrow> msg_type \<Rightarrow> string \<Rightarrow> autoresponse option" where
  "local_autoresponse te s ty content =
     (if cs_status s \<noteq> BotStatus \<or> ty \<noteq> Text \<or> \<not> te_config_ok te then None
      else if te_escalates te content then Some (EscalationReply (te_fallback te)) else None)"

definition turn_autoresponse ::
    "turn_env \<Rightarrow> session \<Rightarrow> message \<Rightarrow> message list \<Rightarrow> warn_language option \<Rightarrow> message list \<Rightarrow> autoresponse option" where
  "turn_autoresponse te s pending window reply ms =
     (case (case reply of Some l \<Rightarrow> Some (GuardrailReply (te_warn_text te l))
            | None \<Rightarrow> local_autoresponse te s (ms_type pending) (ms_content pending)) of
        Some a \<Rightarrow> Some a
      | None \<Rightarrow>
          (let scan = (if te_keywords te \<and> 11 \<le> length window
                       then unanswered_text_up_to ms (cs_mark s) (ms_id pending) 200 else window)
           in case find (\<lambda>m. ms_id m \<noteq> ms_id pending \<and> ms_type m = Text
                             \<and> local_autoresponse te s Text (ms_content m) \<noteq> None) scan of
                None \<Rightarrow> None
              | Some m \<Rightarrow> local_autoresponse te s Text (ms_content m)))"

datatype run_status = RsAnswered | RsStale | RsNoop | RsPendingDocument

datatype turn_error = GateError | ConvError conv_error | AgentThrew

text \<open>
  The first half of \<open>runTurn\<close>: the gates, up to the point where an answer is to be made. The plan of
  a run holds what the second half needs: the message to answer, the ownership version of the start
  and the session in memory.
\<close>

record plan =
  pl_hwm :: message
  pl_version :: int
  pl_session :: session
  pl_auto :: "autoresponse option"
  pl_history :: "(role \<times> string) list"

datatype begun = BegunStop run_status | BegunRun plan

definition begin_turn ::
    "turn_env \<Rightarrow> session \<Rightarrow> message \<Rightarrow> gate_world \<Rightarrow> gate_error + (gate_world \<times> begun)" where
  "begin_turn te s0 pending w0 =
     (case release_on_inbound (te_cmd te) s0 (gw_chat w0) of
        (c, s) \<Rightarrow>
          (let w = w0\<lparr>gw_chat := c\<rparr>; version = cs_version s
           in if cs_status s \<noteq> BotStatus \<and> cs_status s \<noteq> Waiting then Inr (w, BegunStop RsNoop)
              else if cs_owner s \<noteq> BotOwned then Inr (w, BegunStop RsNoop)
              else if \<not> te_config_ok te then Inr (w, BegunStop RsNoop)
              else if has_pending_extraction (ce_now (te_cmd te)) (ch_messages c)
              then Inr (w, BegunStop RsPendingDocument)
              else
                (let window = unanswered_user_window (ch_messages c) (cs_mark s) (ms_id pending)
                 in case gate_window (te_gate te) window \<lparr>gm_auto = cs_auto s, gm_status = cs_guard s\<rparr> w None None of
                      Inl err \<Rightarrow> Inl err
                    | Inr (w', m', blocked, reply) \<Rightarrow>
                        (let s' = s\<lparr>cs_auto := gm_auto m', cs_guard := gm_status m'\<rparr>; ms = ch_messages (gw_chat w')
                         in if blocked \<noteq> None \<or> \<not> cs_auto s' then Inr (w', BegunStop RsNoop)
                            else Inr (w', BegunRun
                              \<lparr>pl_hwm = pending, pl_version = version, pl_session = s',
                               pl_auto = turn_autoresponse te s' pending window reply ms,
                               pl_history = coalesced_history (te_doc te) ms (ms_id pending)\<rparr>)))))"

text \<open>\<open>handleBotHandoff\<close>: with handoffs off the fallback is sent instead, without a fence.\<close>

definition handle_bot_handoff :: "turn_env \<Rightarrow> handoff_reason \<Rightarrow> chat \<Rightarrow> conv_error + chat" where
  "handle_bot_handoff te why c =
     (let e = te_after te
      in if ce_handoff_disabled e
         then and_then (send_bot_message e (te_fallback te) None True c) (\<lambda>f.
                Inr (case f of Answered c' \<Rightarrow> c' | Stale \<Rightarrow> c))
         else and_then (run_command (e\<lparr>ce_tenant := None\<rparr>) None (RequestHandoff why None True) c)
                (\<lambda>(c', _). Inr c'))"

definition waiting_to_bot :: "session \<Rightarrow> chat \<Rightarrow> chat" where
  "waiting_to_bot s c =
     (if cs_status s \<noteq> Waiting then c
      else on_session (\<lambda>t. if cs_status t = Waiting then t\<lparr>cs_status := BotStatus\<rparr> else t) c)"

text \<open>
  The session in memory after a handoff: the status of the answer. It decides whether the
  transition to \<open>bot\<close> is tried.
\<close>

definition after_handoff :: "turn_env \<Rightarrow> chat \<Rightarrow> session \<Rightarrow> session" where
  "after_handoff te c s =
     (if ce_handoff_disabled (te_after te) then s else s\<lparr>cs_status := cs_status (ch_session c)\<rparr>)"

text \<open>
  The second half of \<open>runTurn\<close>, on the conversation as it is when the agent has answered. A commit
  that went through stays even when the handoff after it throws.
\<close>

definition finish_turn ::
    "turn_env \<Rightarrow> plan \<Rightarrow> agent_result option \<Rightarrow> chat \<Rightarrow> chat \<times> (turn_error + run_status)" where
  "finish_turn te p result c =
     (let hwm = ms_id (pl_hwm p); s = pl_session p;
          commit = (\<lambda>content guard ok.
            finalize_reply (te_cmd te) ok content hwm guard (pl_version p) c);
          hand = (\<lambda>why c'. handle_bot_handoff te why c')
      in case pl_auto p of
           Some (GuardrailReply t) \<Rightarrow>
             (case commit t True True of
                Inl err \<Rightarrow> (c, Inl (ConvError err)) | Inr Stale \<Rightarrow> (c, Inr RsStale)
              | Inr (Answered c') \<Rightarrow> (c', Inr RsAnswered))
         | Some (EscalationReply t) \<Rightarrow>
             (case commit (te_localize te t) False True of
                Inl err \<Rightarrow> (c, Inl (ConvError err)) | Inr Stale \<Rightarrow> (c, Inr RsStale)
              | Inr (Answered c') \<Rightarrow>
                  (case hand BotEscalationKeyword c' of
                     Inl err \<Rightarrow> (c', Inl (ConvError err)) | Inr c2 \<Rightarrow> (c2, Inr RsAnswered)))
         | None \<Rightarrow>
             (case result of
                None \<Rightarrow> (c, Inl AgentThrew)
              | Some r \<Rightarrow>
                  (let out = resolve_turn_outcome (te_output_guard te) r
                   in case commit (tr_content out) (tr_stale_guard out) (te_question_ok te) of
                        Inl err \<Rightarrow> (c, Inl (ConvError err)) | Inr Stale \<Rightarrow> (c, Inr RsStale)
                      | Inr (Answered c') \<Rightarrow>
                          (case tr_reason out of
                             None \<Rightarrow> (waiting_to_bot s c', Inr RsAnswered)
                           | Some why \<Rightarrow>
                               (case hand why c' of
                                  Inl err \<Rightarrow> (c', Inl (ConvError err))
                                | Inr c2 \<Rightarrow> (waiting_to_bot (after_handoff te c2 s) c2, Inr RsAnswered))))))"

section \<open>The queue\<close>

definition state_ttl_ms :: int where "state_ttl_ms = 120000"
definition lock_ttl_ms :: int where "lock_ttl_ms = 60000"
definition rearm_ms :: int where "rearm_ms = 500"
definition max_rearm_backoff_ms :: int where "max_rearm_backoff_ms = 30000"
definition max_rearm_attempts :: nat where "max_rearm_attempts = 12"
definition pending_stale_ms :: int where "pending_stale_ms = 180000"

record turn_hash =
  th_first :: int
  th_first_id :: nat
  th_last :: int
  th_last_id :: nat
  th_count :: int
  th_due :: "int option"
  th_expires :: int

record job =
  jb_at :: int
  jb_attempt :: nat

record turn_world =
  tw_gate :: gate_world
  tw_state :: "turn_hash option"
  tw_lock :: lock
  tw_jobs :: "job list"
  tw_forwarded :: "nat list"

text \<open>The hash of a session as Redis reads it, and the three scripts on it.\<close>

definition live_state :: "int \<Rightarrow> turn_hash option \<Rightarrow> turn_hash option" where
  "live_state now k = (case k of None \<Rightarrow> None | Some h \<Rightarrow> if now < th_expires h then Some h else None)"

definition state_update :: "int \<Rightarrow> int \<Rightarrow> nat \<Rightarrow> int \<Rightarrow> turn_hash option \<Rightarrow> turn_hash" where
  "state_update now created i ttl k =
     (case live_state now k of
        None \<Rightarrow> \<lparr>th_first = created, th_first_id = i, th_last = created, th_last_id = i, th_count = 1,
                 th_due = None, th_expires = now + ttl\<rparr>
      | Some h \<Rightarrow> h\<lparr>th_last := created, th_last_id := i, th_count := th_count h + 1, th_expires := now + ttl\<rparr>)"

definition clear_if_consumed :: "int \<Rightarrow> nat \<Rightarrow> turn_hash option \<Rightarrow> turn_hash option" where
  "clear_if_consumed now i k =
     (case live_state now k of None \<Rightarrow> k | Some h \<Rightarrow> if th_last_id h = i then None else k)"

definition add_job :: "int \<Rightarrow> int \<Rightarrow> nat \<Rightarrow> turn_world \<Rightarrow> turn_world" where
  "add_job now delay attempt w =
     w\<lparr>tw_jobs := tw_jobs w @ [\<lparr>jb_at = now + max 0 delay, jb_attempt = attempt\<rparr>]\<rparr>"

definition backoff_delay :: "int \<Rightarrow> nat \<Rightarrow> int" where
  "backoff_delay jitter attempt = min (rearm_ms * 2 ^ attempt) max_rearm_backoff_ms + jitter"

text \<open>
  Scheduling an inbound message: \<open>forward\<close> is the legacy path, taken when the coalescer is off, for
  other message types, for a tenant with its own webhook, and when the queue is missing.
\<close>

record job_env =
  je_enabled :: bool
  je_redis :: bool
  je_queue :: bool
  je_ready :: bool
  je_token :: nat
  je_custom :: bool
  je_turn :: turn_env
  je_agent :: "agent_result option"
  je_meanwhile :: "chat \<Rightarrow> chat"
  je_jitter :: int
  je_forward :: "nat \<Rightarrow> chat \<Rightarrow> chat"

definition job_now :: "job_env \<Rightarrow> int" where
  "job_now je = ce_js (te_cmd (je_turn je))"

text \<open>A new delayed job for the session; without a queue there is none.\<close>

definition rearm :: "job_env \<Rightarrow> int \<Rightarrow> nat \<Rightarrow> turn_world \<Rightarrow> turn_world" where
  "rearm je delay attempt w = (if je_queue je then add_job (job_now je) delay attempt w else w)"

definition rearm_with_backoff :: "job_env \<Rightarrow> nat \<Rightarrow> turn_world \<Rightarrow> turn_world" where
  "rearm_with_backoff je attempt w =
     (if attempt + 1 > max_rearm_attempts then w
      else rearm je (backoff_delay (je_jitter je) attempt) (attempt + 1) w)"

definition forward_message :: "job_env \<Rightarrow> nat \<Rightarrow> turn_world \<Rightarrow> turn_world" where
  "forward_message je i w =
     w\<lparr>tw_gate := on_chat (je_forward je i) (tw_gate w), tw_forwarded := tw_forwarded w @ [i]\<rparr>"

definition schedule_turn :: "job_env \<Rightarrow> message \<Rightarrow> turn_world \<Rightarrow> turn_world" where
  "schedule_turn je m w =
     (if \<not> je_enabled je \<or> \<not> je_redis je \<or> ms_type m = OtherType \<or> je_custom je
      then forward_message je (ms_id m) w
      else
        (let now = job_now je; created = ms_at m div 1000;
             h = state_update now created (ms_id m) state_ttl_ms (tw_state w);
             due = compute_due_at \<lparr>tt_first = th_first h, tt_last = created, tt_count = th_count h,
                                   tt_capture = is_contact_fragment (ms_content m)\<rparr>;
             w1 = w\<lparr>tw_state := Some (h\<lparr>th_due := Some due\<rparr>)\<rparr>
         in if je_queue je then add_job now (max 0 (due - now)) 0 w1
            else forward_message je (ms_id m) w1))"

text \<open>The due time under the lock: the stored one, or recomputed from the messages.\<close>

definition resolve_due_at :: "int \<Rightarrow> turn_hash option \<Rightarrow> message list \<Rightarrow> (int \<times> nat) option \<Rightarrow> message \<Rightarrow> int" where
  "resolve_due_at now k ms mark pending =
     (case (case live_state now k of None \<Rightarrow> None | Some h \<Rightarrow> th_due h) of
        Some d \<Rightarrow> d
      | None \<Rightarrow>
          (case unanswered_bounds ms mark of
             None \<Rightarrow> 0
           | Some (n, a, b) \<Rightarrow>
               compute_due_at \<lparr>tt_first = a div 1000, tt_last = b div 1000, tt_count = n,
                               tt_capture = is_contact_fragment (ms_content pending)\<rparr>))"

text \<open>
  The recovery drain of a tenant that has moved to its own webhook: oldest first, the watermark
  advanced after each message, at most 200 rounds.
\<close>

fun drain :: "nat \<Rightarrow> job_env \<Rightarrow> nat \<Rightarrow> (int \<times> nat) option \<Rightarrow> turn_world \<Rightarrow> turn_world" where
  "drain 0 je bound mark w = w"
| "drain (Suc n) je bound mark w =
     (case oldest_unanswered (ch_messages (gw_chat (tw_gate w))) mark (Some bound) of
        None \<Rightarrow> w
      | Some m \<Rightarrow>
          (let w1 = forward_message je (ms_id m) w;
               w2 = w1\<lparr>tw_gate := on_chat (advance_watermark (ms_id m)) (tw_gate w1)\<rparr>
           in drain n je bound (Some (ms_at m div 1000 * 1000, ms_id m)) w2))"

definition pending_document_delay :: "int \<Rightarrow> message list \<Rightarrow> int" where
  "pending_document_delay now ms =
     (case best_by (\<lambda>x y. ms_at x < ms_at y) None
             (filter (\<lambda>m. \<not> ms_deleted m \<and> ms_type m = File \<and> ms_sender m = User \<and> ms_extraction m = Some Pending) ms) of
        None \<Rightarrow> pending_stale_ms
      | Some m \<Rightarrow> (case ms_extract_started m of None \<Rightarrow> pending_stale_ms
                   | Some t \<Rightarrow> max 0 (t + pending_stale_ms - now)))"

text \<open>One run with the lock held: what became of the job.\<close>

datatype job_end =
  JobGone | JobNotReady | JobLocked | JobNothingPending | JobExtracting | JobDrained | JobNotDue
| JobRan run_status | JobFailed turn_error

definition run_job :: "job_env \<Rightarrow> nat \<Rightarrow> turn_world \<Rightarrow> turn_world \<times> job_end" where
  "run_job je attempt w =
     (let now = job_now je; te = je_turn je; c = gw_chat (tw_gate w); s = ch_session c; ms = ch_messages c
      in case newest_unanswered ms (cs_mark s) of
           None \<Rightarrow>
             if has_pending_extraction (ce_now (te_cmd te)) ms
             then (rearm je (min (pending_document_delay now ms) 2000) 0 w, JobExtracting)
             else (w, JobNothingPending)
         | Some pending \<Rightarrow>
             if je_custom je
             then (drain 200 je (case live_state now (tw_state w) of Some h \<Rightarrow> th_last_id h | None \<Rightarrow> ms_id pending)
                     (cs_mark s) w, JobDrained)
             else
               (let due = resolve_due_at now (tw_state w) ms (cs_mark s) pending
                in if now < due then (rearm je (due - now) 0 w, JobNotDue)
                   else
                     (case begin_turn te s pending (tw_gate w) of
                        Inl (FlagNotWritten g) \<Rightarrow>
                          (rearm_with_backoff je attempt (w\<lparr>tw_gate := g\<rparr>), JobFailed GateError)
                      | Inr (g, BegunStop st) \<Rightarrow>
                          ((if st = RsPendingDocument
                            then rearm je (pending_document_delay now ms) 0 (w\<lparr>tw_gate := g\<rparr>)
                            else w\<lparr>tw_gate := g\<rparr>), JobRan st)
                      | Inr (g, BegunRun p) \<Rightarrow>
                          (case finish_turn te p (je_agent je) (je_meanwhile je (gw_chat g)) of
                             (c', r) \<Rightarrow>
                               (let w1 = w\<lparr>tw_gate := g\<lparr>gw_chat := c'\<rparr>\<rparr>
                                in case r of
                                     Inl err \<Rightarrow> (rearm_with_backoff je attempt w1, JobFailed err)
                                   | Inr st \<Rightarrow>
                                       ((if st = RsAnswered
                                         then w1\<lparr>tw_state := clear_if_consumed now (ms_id pending) (tw_state w1)\<rparr>
                                         else if st = RsStale
                                         then rearm_with_backoff je attempt w1 else w1),
                                        JobRan st))))))"

definition process_job :: "job_env \<Rightarrow> nat \<Rightarrow> turn_world \<Rightarrow> turn_world \<times> job_end" where
  "process_job je attempt w =
     (let now = job_now je
      in if \<not> je_redis je then (w, JobGone)
         else if \<not> je_ready je then (rearm je rearm_ms 0 w, JobNotReady)
         else
           (case acquire_lock now (je_token je) lock_ttl_ms (tw_lock w) of
              (l, False) \<Rightarrow> (rearm je rearm_ms 0 (w\<lparr>tw_lock := l\<rparr>), JobLocked)
            | (l, True) \<Rightarrow>
                (case run_job je attempt (w\<lparr>tw_lock := l\<rparr>) of
                   (w', r) \<Rightarrow> (w'\<lparr>tw_lock := release_lock now (je_token je) (tw_lock w')\<rparr>, r))))"

section \<open>A small turn\<close>

definition demo_turn_env :: turn_env where
  "demo_turn_env =
     \<lparr>te_cmd = (demo_env 5)\<lparr>ce_message_id := 50\<rparr>, te_after = (demo_env 6)\<lparr>ce_message_id := 60\<rparr>,
      te_gate = demo_gate_env, te_config_ok = True, te_keywords = False, te_escalates = (\<lambda>_. False),
      te_fallback = ''hold on'', te_warn_text = (\<lambda>_. ''thanks''), te_localize = (\<lambda>t. t),
      te_doc = (\<lambda>_. []), te_output_guard = (\<lambda>t. (False, t)), te_question_ok = True\<rparr>"

definition demo_message :: "nat \<Rightarrow> int \<Rightarrow> string \<Rightarrow> message" where
  "demo_message i t content =
     \<lparr>ms_id = i, ms_at = t, ms_sender = User, ms_type = Text, ms_extraction = None,
      ms_extract_started = None, ms_deleted = False, ms_flagged = False, ms_checked = False,
      ms_content = content, ms_client = None, ms_external = None\<rparr>"

end
