(* ===== verification/ConversationProps.thy ===== *)
theory ConversationProps
  imports Conversation
begin

text \<open>
  What the conversation commands guarantee: the shape of a conversation is kept by every command,
  the ownership version fences every change of owner, a retried command is replayed, a closed
  conversation stays closed, an operator keeps the conversation against the others, and an expired
  timed control is never renewed.
\<close>

section \<open>The frame of each step\<close>

lemma on_session_simps [simp]:
  "ch_session (on_session f c) = f (ch_session c)" "ch_handoffs (on_session f c) = ch_handoffs c"
  "ch_results (on_session f c) = ch_results c" "ch_messages (on_session f c) = ch_messages c"
  by (simp_all add: on_session_def)

lemma apply_transition_simps [simp]:
  "ch_session (apply_transition n p c) =
     p ((ch_session c)\<lparr>cs_owner := n, cs_status := transition_status n (cs_status (ch_session c)),
                      cs_version := cs_version (ch_session c) + 1\<rparr>)"
  "ch_handoffs (apply_transition n p c) = ch_handoffs c"
  "ch_results (apply_transition n p c) = ch_results c"
  "ch_messages (apply_transition n p c) = ch_messages c"
  by (simp_all add: apply_transition_def)

lemma persist_event_simps [simp]:
  "ch_session (persist_event t c) = ch_session c" "ch_handoffs (persist_event t c) = ch_handoffs c"
  "ch_results (persist_event t c) = ch_results c" "ch_messages (persist_event t c) = ch_messages c"
  by (simp_all add: persist_event_def)

lemma on_newest_simps [simp]:
  "ch_session (on_newest sts f c) = ch_session c" "ch_results (on_newest sts f c) = ch_results c"
  "ch_messages (on_newest sts f c) = ch_messages c"
  by (simp_all add: on_newest_def update_handoff_def split: option.splits)

lemma accept_open_simps [simp]:
  "ch_session (accept_open e a c) = ch_session c" "ch_results (accept_open e a c) = ch_results c"
  "ch_messages (accept_open e a c) = ch_messages c"
  by (simp_all add: accept_open_def)

lemma add_message_simps [simp]:
  "ch_session (add_message e m c) =
     (ch_session c)\<lparr>cs_count := cs_count (ch_session c) + 1, cs_activity := ce_now e\<rparr>"
  "ch_handoffs (add_message e m c) = ch_handoffs c"
  "ch_results (add_message e m c) = ch_results c"
  "ch_messages (add_message e m c) = ch_messages c @ [m]"
  by (simp_all add: add_message_def)

lemma clear_human_control_simps [simp]:
  "cs_mode (clear_human_control s) = None" "cs_hours (clear_human_control s) = None"
  "cs_until (clear_human_control s) = None" "cs_since (clear_human_control s) = None"
  "cs_owner (clear_human_control s) = cs_owner s" "cs_status (clear_human_control s) = cs_status s"
  "cs_version (clear_human_control s) = cs_version s" "cs_agent (clear_human_control s) = cs_agent s"
  "cs_auto (clear_human_control s) = cs_auto s" "cs_mark (clear_human_control s) = cs_mark s"
  "cs_tenant (clear_human_control s) = cs_tenant s"
  by (simp_all add: clear_human_control_def)

lemma own_if_unassigned_simps [simp]:
  "ch_handoffs (own_if_unassigned a c) = ch_handoffs c"
  "ch_results (own_if_unassigned a c) = ch_results c"
  "ch_messages (own_if_unassigned a c) = ch_messages c"
  "cs_owner (ch_session (own_if_unassigned a c)) = cs_owner (ch_session c)"
  "cs_status (ch_session (own_if_unassigned a c)) = cs_status (ch_session c)"
  "cs_version (ch_session (own_if_unassigned a c)) = cs_version (ch_session c)"
  "cs_mode (ch_session (own_if_unassigned a c)) = cs_mode (ch_session c)"
  "cs_hours (ch_session (own_if_unassigned a c)) = cs_hours (ch_session c)"
  "cs_until (ch_session (own_if_unassigned a c)) = cs_until (ch_session c)"
  "cs_since (ch_session (own_if_unassigned a c)) = cs_since (ch_session c)"
  "cs_auto (ch_session (own_if_unassigned a c)) = cs_auto (ch_session c)"
  "cs_mark (ch_session (own_if_unassigned a c)) = cs_mark (ch_session c)"
  "cs_agent (ch_session (own_if_unassigned a c)) =
     (if cs_agent (ch_session c) = None then Some a else cs_agent (ch_session c))"
  by (simp_all add: own_if_unassigned_def)

lemma transition_status_simps [simp]:
  "transition_status HumanOwned st = Handoff" "transition_status HandoffRequested st = Handoff"
  "transition_status ClosedOwned st = ClosedStatus"
  "transition_status BotOwned st = (if st = Waiting then Waiting else BotStatus)"
  by (cases st; simp add: transition_status_def)+

section \<open>Counting the handoffs\<close>

definition in_status :: "handoff_status set \<Rightarrow> chat \<Rightarrow> nat" where
  "in_status S c = length (filter (\<lambda>h. ho_status h \<in> S) (ch_handoffs c))"

lemma in_status_frame [simp]:
  "in_status S (on_session f c) = in_status S c"
  "in_status S (apply_transition n p c) = in_status S c"
  "in_status S (persist_event t c) = in_status S c"
  "in_status S (add_message e m c) = in_status S c"
  "in_status S (own_if_unassigned a c) = in_status S c"
  by (simp_all add: in_status_def)

lemma lock_handoff_mem:
  "lock_handoff sts c = Some h \<Longrightarrow> h \<in> set (ch_handoffs c) \<and> ho_status h \<in> set sts"
  using best_by_mem [of _ None _ h] by (fastforce simp: lock_handoff_def)

lemma lock_handoff_None:
  "lock_handoff sts c = None \<longleftrightarrow> in_status (set sts) c = 0"
  by (simp add: lock_handoff_def in_status_def best_by_None)

lemma update_one:
  assumes "distinct (map ho_id hs)" "h \<in> set hs"
  obtains xs ys where "hs = xs @ h # ys"
    "map (\<lambda>k. if ho_id k = ho_id h then f k else k) hs = xs @ f h # ys"
proof -
  from assms(2) obtain xs ys where hs: "hs = xs @ h # ys" by (auto simp: in_set_conv_decomp)
  with assms(1) have "\<forall>k \<in> set xs \<union> set ys. ho_id k \<noteq> ho_id h"
    by (auto simp: image_iff)
  then have "map (\<lambda>k. if ho_id k = ho_id h then f k else k) xs = xs"
    "map (\<lambda>k. if ho_id k = ho_id h then f k else k) ys = ys"
    by (auto intro: map_idI)
  with hs show ?thesis by (intro that) auto
qed

lemma on_newest_ids [simp]:
  "(\<And>h. ho_id (f h) = ho_id h) \<Longrightarrow> map ho_id (ch_handoffs (on_newest sts f c)) = map ho_id (ch_handoffs c)"
  by (auto simp: on_newest_def update_handoff_def split: option.splits)

lemma on_newest_count:
  assumes "distinct (map ho_id (ch_handoffs c))"
  shows "in_status S (on_newest sts f c) =
    (case lock_handoff sts c of None \<Rightarrow> in_status S c
     | Some h \<Rightarrow> in_status S c - (if ho_status h \<in> S then 1 else 0) + (if ho_status (f h) \<in> S then 1 else 0))"
proof (cases "lock_handoff sts c")
  case (Some h)
  then have "h \<in> set (ch_handoffs c)" using lock_handoff_mem by blast
  then obtain xs ys where "ch_handoffs c = xs @ h # ys"
    "map (\<lambda>k. if ho_id k = ho_id h then f k else k) (ch_handoffs c) = xs @ f h # ys"
    using update_one [OF assms] by blast
  with Some show ?thesis by (simp add: on_newest_def update_handoff_def in_status_def)
qed (simp add: on_newest_def)

lemma in_status_two:
  "in_status {Requested, Accepted} c = in_status {Requested} c + in_status {Accepted} c"
proof -
  have "length (filter (\<lambda>h. ho_status h = Requested \<or> ho_status h = Accepted) hs) =
      length (filter (\<lambda>h. ho_status h = Requested) hs) + length (filter (\<lambda>h. ho_status h = Accepted) hs)" for hs
    by (induction hs) auto
  then show ?thesis by (simp add: in_status_def)
qed

lemma on_newest_clears:
  assumes "distinct (map ho_id (ch_handoffs c))" "in_status (set sts) c \<le> 1"
    and "\<And>h. ho_status h \<in> set sts \<Longrightarrow> ho_status (f h) \<notin> set sts"
  shows "in_status (set sts) (on_newest sts f c) = 0"
proof -
  have "in_status (set sts) c = (if lock_handoff sts c = None then 0 else 1)"
    using assms(2) lock_handoff_None [of sts c] by (cases "in_status (set sts) c") auto
  then show ?thesis
    using assms lock_handoff_mem [of sts c] by (auto simp: on_newest_count split: option.splits)
qed

text \<open>Moving the only handoff in one of the statuses \<open>sts\<close> to the status \<open>t\<close>.\<close>

lemma on_newest_moves:
  assumes "distinct (map ho_id (ch_handoffs c))" "in_status (set sts) c \<le> 1"
    and "\<And>h. ho_status h \<in> set sts \<Longrightarrow> ho_status (f h) = t" "t \<notin> set sts"
  shows "in_status (set sts) (on_newest sts f c) = 0"
    and "s \<notin> set sts \<Longrightarrow> in_status {s} (on_newest sts f c) =
           in_status {s} c + (if s = t then in_status (set sts) c else 0)"
proof -
  have *: "in_status (set sts) c = (if lock_handoff sts c = None then 0 else 1)"
    using assms(2) lock_handoff_None [of sts c] by (cases "in_status (set sts) c") auto
  show "in_status (set sts) (on_newest sts f c) = 0"
    using * assms lock_handoff_mem [of sts c]
    by (auto simp: on_newest_count split: option.splits)
  show "in_status {s} (on_newest sts f c) =
          in_status {s} c + (if s = t then in_status (set sts) c else 0)" if "s \<notin> set sts"
    using * assms that lock_handoff_mem [of sts c]
    by (auto simp: on_newest_count split: option.splits)
qed

section \<open>The shape of a conversation\<close>

definition session_ok :: "session \<Rightarrow> bool" where
  "session_ok s =
     ((cs_status s = Handoff) = (cs_owner s = HumanOwned \<or> cs_owner s = HandoffRequested)
      \<and> (cs_status s = ClosedStatus) = (cs_owner s = ClosedOwned) \<and> cs_status s \<noteq> Active
      \<and> (cs_agent s \<noteq> None \<longrightarrow> cs_owner s = HumanOwned \<or> cs_owner s = ClosedOwned)
      \<and> (cs_mode s \<noteq> None) = (cs_owner s = HumanOwned)
      \<and> (cs_since s \<noteq> None) = (cs_mode s \<noteq> None)
      \<and> (cs_hours s \<noteq> None) = (cs_mode s = Some Timed)
      \<and> (cs_until s \<noteq> None) = (cs_mode s = Some Timed)
      \<and> (case cs_hours s of None \<Rightarrow> True | Some h \<Rightarrow> 1 \<le> h \<and> h \<le> 24))"

definition handoffs_ok :: "chat \<Rightarrow> bool" where
  "handoffs_ok c =
     (distinct (map ho_id (ch_handoffs c))
      \<and> in_status {Requested} c = (if cs_owner (ch_session c) = HandoffRequested then 1 else 0)
      \<and> in_status {Accepted} c \<le> (if cs_owner (ch_session c) = HumanOwned then 1 else 0))"

definition chat_ok :: "chat \<Rightarrow> bool" where
  "chat_ok c = (session_ok (ch_session c) \<and> handoffs_ok c)"

lemma accept_handoff_simps [simp]:
  "ho_id (accept_handoff e a h) = ho_id h" "ho_status (accept_handoff e a h) = Accepted"
  "ho_id (complete_handoff e h) = ho_id h" "ho_status (complete_handoff e h) = Completed"
  "ho_id (close_open e h) = ho_id h"
  "ho_status (close_open e h) = (if ho_status h = Requested then Rejected else Completed)"
  "ho_id (cancel_open e act r h) = ho_id h"
  "ho_status (cancel_open e act r h) = (case act of SystemActor \<Rightarrow> TimedOut | _ \<Rightarrow> Rejected)"
  by (auto simp: accept_handoff_def complete_handoff_def close_open_def cancel_open_def split: actor.splits)

lemma accept_open_count:
  assumes "distinct (map ho_id (ch_handoffs c))" "in_status {Requested} c \<le> 1"
  shows "in_status {Requested} (accept_open e a c) = 0"
    "in_status {Accepted} (accept_open e a c) = in_status {Accepted} c + in_status {Requested} c"
  using on_newest_moves(1) [of c "[Requested]" "accept_handoff e a" Accepted] on_newest_moves(2) [of c "[Requested]" "accept_handoff e a" Accepted Accepted] assms
  by (simp_all add: accept_open_def)

lemma accept_open_ids [simp]: "map ho_id (ch_handoffs (accept_open e a c)) = map ho_id (ch_handoffs c)"
  by (simp add: accept_open_def)

lemma release_count:
  assumes "distinct (map ho_id (ch_handoffs c))" "in_status {Accepted} c \<le> 1"
  shows "in_status {Accepted} (on_newest [Accepted] (complete_handoff e) c) = 0"
    "in_status {Requested} (on_newest [Accepted] (complete_handoff e) c) = in_status {Requested} c"
  using on_newest_moves(1) [of c "[Accepted]" "complete_handoff e" Completed] on_newest_moves(2) [of c "[Accepted]" "complete_handoff e" Completed Requested] assms
  by simp_all

lemma reject_count:
  assumes "distinct (map ho_id (ch_handoffs c))" "in_status {Requested} c \<le> 1"
    and "\<And>h. ho_status h = Requested \<Longrightarrow> ho_status (f h) = t" "t \<noteq> Requested" "t \<noteq> Accepted"
  shows "in_status {Requested} (on_newest [Requested] f c) = 0"
    "in_status {Accepted} (on_newest [Requested] f c) = in_status {Accepted} c"
  using on_newest_moves(1) [of c "[Requested]" f t] on_newest_moves(2) [of c "[Requested]" f t Accepted] assms by simp_all

lemma columns_ok:
  assumes "human_control_columns now p = Inr cols" "session_ok s" "cs_owner s = HumanOwned"
  shows "session_ok (cols s)" "cs_owner (cols s) = HumanOwned"
  using assms
  by (auto simp: human_control_columns_def session_ok_def split: control_policy.splits if_splits)

lemma columns_frame:
  assumes "human_control_columns now p = Inr cols"
  shows "cs_owner (cols s) = cs_owner s" "cs_status (cols s) = cs_status s"
    "cs_version (cols s) = cs_version s" "cs_agent (cols s) = cs_agent s"
    "cs_auto (cols s) = cs_auto s" "cs_mark (cols s) = cs_mark s"
    "cs_tenant (cols s) = cs_tenant s"
  using assms by (auto simp: human_control_columns_def split: control_policy.splits if_splits)

lemma claim_ok:
  assumes "chat_ok c" "cs_owner (ch_session c) = BotOwned \<or> cs_owner (ch_session c) = HandoffRequested"
    and "apply_claim e a p c = Inr (c', ho)"
  shows "chat_ok c'"
proof -
  from assms(3) obtain cols where cols: "human_control_columns (ce_now e) p = Inr cols"
    and c': "c' = persist_event ''An agent has joined the conversation''
      (apply_transition HumanOwned (\<lambda>s. cols (s\<lparr>cs_agent := Some a\<rparr>)) (accept_open e (Some a) c))"
    by (auto simp: apply_claim_def and_then_Inr)
  have "session_ok (ch_session c')"
    using cols by (auto simp: c' human_control_columns_def session_ok_def split: control_policy.splits if_splits)
  moreover have "handoffs_ok c'"
    using assms(1,2) accept_open_count [of c e "Some a"]
    by (auto simp: c' chat_ok_def handoffs_ok_def columns_frame [OF cols] split: if_splits)
  ultimately show ?thesis by (simp add: chat_ok_def)
qed

lemma pause_ok:
  assumes "chat_ok c" "cs_owner (ch_session c) = BotOwned \<or> cs_owner (ch_session c) = HandoffRequested"
  shows "chat_ok (apply_unassigned_pause e t c)"
  using assms accept_open_count [of c e None]
  by (auto simp: apply_unassigned_pause_def chat_ok_def handoffs_ok_def session_ok_def split: if_splits)

lemma release_ok:
  assumes "chat_ok c" "cs_owner (ch_session c) = HumanOwned"
  shows "chat_ok (apply_release e t c)" "cs_owner (ch_session (apply_release e t c)) = BotOwned"
  using assms release_count [of c e]
  by (auto simp: apply_release_def chat_ok_def handoffs_ok_def session_ok_def split: if_splits)

lemma own_if_unassigned_ok:
  "chat_ok c \<Longrightarrow> cs_owner (ch_session c) = HumanOwned \<Longrightarrow> chat_ok (own_if_unassigned a c)"
  by (auto simp: chat_ok_def handoffs_ok_def session_ok_def split: option.splits)

lemma add_message_ok [simp]: "chat_ok (add_message e m c) = chat_ok c"
  by (simp add: chat_ok_def handoffs_ok_def session_ok_def)

section \<open>Commands as sequences of moves\<close>

text \<open>
  The moves a command is made of, each under the condition the command checked before it. Every
  successful command is a sequence of moves, so a fact about all commands is a fact about moves.
\<close>

inductive move :: "cmd_env \<Rightarrow> chat \<Rightarrow> chat \<Rightarrow> bool" for e :: cmd_env where
  dangling: "cs_owner (ch_session c) = BotOwned \<Longrightarrow>
    move e c (on_newest [Requested] (\<lambda>h. h\<lparr>ho_status := Rejected, ho_rejection := r\<rparr>) c)"
| assign: "cs_owner (ch_session c) = HumanOwned \<Longrightarrow>
    cs_agent (ch_session c) = None \<or> cs_agent (ch_session c) = Some a \<Longrightarrow>
    move e c (own_if_unassigned a c)"
| policy: "cs_owner (ch_session c) = HumanOwned \<Longrightarrow> human_control_columns (ce_now e) p = Inr cols \<Longrightarrow>
    \<not> (cs_mode (ch_session c) = Some Timed \<and> cs_until (ch_session c) \<noteq> None
       \<and> timed_deadline_passed (ce_now e) (ch_session c)) \<Longrightarrow>
    move e c (on_session cols c)"
| slide: "cs_owner (ch_session c) = HumanOwned \<Longrightarrow> cs_mode (ch_session c) = Some Timed \<Longrightarrow>
    cs_hours (ch_session c) = Some h \<Longrightarrow> cs_until (ch_session c) = Some t \<Longrightarrow> ce_now e < t \<Longrightarrow>
    move e c (on_session (\<lambda>s. s\<lparr>cs_until := Some (ce_now e + h * hour_us)\<rparr>) c)"
| claim: "cs_owner (ch_session c) = BotOwned \<or> cs_owner (ch_session c) = HandoffRequested \<Longrightarrow>
    apply_claim e a p c = Inr (c', ho) \<Longrightarrow> move e c c'"
| pause: "cs_owner (ch_session c) = BotOwned \<or> cs_owner (ch_session c) = HandoffRequested \<Longrightarrow>
    move e c (apply_unassigned_pause e t c)"
| release: "cs_owner (ch_session c) = HumanOwned \<Longrightarrow> move e c (apply_release e t c)"
| repair: "cs_owner (ch_session c) = BotOwned \<Longrightarrow> open_id c \<noteq> None \<Longrightarrow>
    move e c (apply_transition HandoffRequested (\<lambda>s. s) c)"
| request: "cs_owner (ch_session c) = BotOwned \<Longrightarrow> open_id c = None \<Longrightarrow>
    ce_handoff_id e \<notin> set (map ho_id (ch_handoffs c)) \<Longrightarrow>
    move e c (persist_event t (apply_transition HandoffRequested (\<lambda>s. s)
                (c\<lparr>ch_handoffs := ch_handoffs c @ [new_handoff e r]\<rparr>)))"
| outbox: "cs_owner (ch_session c) \<noteq> ClosedOwned \<Longrightarrow> move e c (c\<lparr>ch_outbox := xs\<rparr>)"
| cancel: "cs_owner (ch_session c) = HandoffRequested \<Longrightarrow>
    move e c (persist_event t (apply_transition BotOwned (\<lambda>s. clear_human_control (s\<lparr>cs_agent := None\<rparr>))
                (on_newest [Requested] (cancel_open e act r) c)))"
| close: "cs_owner (ch_session c) \<noteq> ClosedOwned \<Longrightarrow>
    move e c (persist_event t (apply_transition ClosedOwned
                (\<lambda>s. clear_human_control (s\<lparr>cs_ended := Some (ce_js e), cs_seconds := d s\<rparr>))
                (on_newest [Requested, Accepted] (close_open e) c)))"
| transfer: "cs_owner (ch_session c) \<noteq> ClosedOwned \<Longrightarrow>
    keep = (cs_owner (ch_session c) = HumanOwned \<and> cs_mode (ch_session c) \<noteq> None) \<Longrightarrow>
    move e c (persist_event t (apply_transition HumanOwned
                (\<lambda>s. (if keep then (\<lambda>s. s) else
                        (\<lambda>s. s\<lparr>cs_mode := Some Indefinite, cs_hours := None, cs_since := Some (ce_now e),
                              cs_until := None\<rparr>)) (s\<lparr>cs_agent := Some a\<rparr>))
                (accept_open e (Some a) c)))"
| message: "cs_owner (ch_session c) \<noteq> ClosedOwned \<Longrightarrow>
    ce_message_id e \<notin> set (map ms_id (ch_messages c)) \<Longrightarrow>
    m = agent_message e ty content cl ext \<Longrightarrow> move e c (add_message e m c)"

abbreviation moves :: "cmd_env \<Rightarrow> chat \<Rightarrow> chat \<Rightarrow> bool" where
  "moves e \<equiv> (move e)\<^sup>*\<^sup>*"

lemma moves_step: "move e c c' \<Longrightarrow> moves e c c'"
  by (rule r_into_rtranclp)

lemma moves_then: "moves e c c1 \<Longrightarrow> move e c1 c' \<Longrightarrow> moves e c c'"
  by (rule rtranclp.rtrancl_into_rtrancl)

lemma release_owner [simp]: "cs_owner (ch_session (apply_release e t c)) = BotOwned"
  by (simp add: apply_release_def)

lemma apply_claim_owner:
  "apply_claim e a p c = Inr (c', ho) \<Longrightarrow> cs_owner (ch_session c') = HumanOwned"
  by (auto simp: apply_claim_def and_then_Inr columns_frame)

lemma request_handoff_moves:
  assumes "request_handoff e r note notify c = Inr (c', rp)" shows "moves e c c'"
proof (cases "c' = c")
  case False
  let ?c2 = "\<lambda>t. persist_event t (apply_transition HandoffRequested (\<lambda>s. s)
                (c\<lparr>ch_handoffs := ch_handoffs c @ [new_handoff e r]\<rparr>))"
  have own: "cs_owner (ch_session c) = BotOwned"
    using assms False by (cases "cs_owner (ch_session c)") (auto simp: request_handoff_def Let_def split: if_splits)
  show ?thesis
  proof (cases "open_id c")
    case None
    then obtain t xs where c': "c' = ?c2 t \<or> c' = (?c2 t)\<lparr>ch_outbox := xs\<rparr>"
      and new: "ce_handoff_id e \<notin> set (map ho_id (ch_handoffs c))"
      using assms own False by (simp add: request_handoff_def Let_def split: if_splits) blast+
    have "moves e c (?c2 t)" using own None new by (intro moves_step request)
    moreover have "move e (?c2 t) ((?c2 t)\<lparr>ch_outbox := xs\<rparr>)" by (rule outbox) simp
    ultimately show ?thesis using c' moves_then by blast
  next
    case (Some i)
    then show ?thesis using assms own False
      by (simp add: request_handoff_def Let_def split: if_splits) (blast intro: moves_step repair)
  qed
qed simp

lemma claim_conversation_moves:
  assumes "claim_conversation e a p upd c = Inr (c', rp)" shows "moves e c c'"
proof (cases "cs_owner (ch_session c) = HumanOwned")
  case False
  then show ?thesis using assms
    by (cases "cs_owner (ch_session c)")
      (auto simp: claim_conversation_def Let_def and_then_Inr split: if_splits intro!: moves_step claim)
next
  case True
  let ?c0 = "own_if_unassigned a c"
  have m: "moves e c ?c0" if "cs_agent (ch_session c) = None \<or> cs_agent (ch_session c) = Some a"
    using True that by (intro moves_step assign) auto
  have r: "move e ?c0 (apply_release e expiry_event ?c0)"
    using True by (intro release) simp
  consider (a) "cs_agent (ch_session c) = None \<or> cs_agent (ch_session c) = Some a" "c' = ?c0"
    | (b) ho where "cs_agent (ch_session c) = None \<or> cs_agent (ch_session c) = Some a"
      "apply_claim e a p (apply_release e expiry_event ?c0) = Inr (c', ho)"
    | (c) cols where "cs_agent (ch_session c) = None \<or> cs_agent (ch_session c) = Some a"
      "human_control_columns (ce_now e) p = Inr cols" "c' = on_session cols ?c0"
      "\<not> (cs_mode (ch_session c) = Some Timed \<and> cs_until (ch_session c) \<noteq> None
       \<and> timed_deadline_passed (ce_now e) (ch_session c))"
    using assms True by (auto simp: claim_conversation_def Let_def and_then_Inr split: if_splits)
  then show ?thesis
  proof cases
    case a
    then show ?thesis using m by simp
  next
    case b
    then have "moves e c (apply_release e expiry_event ?c0)" using m r moves_then by blast
    moreover have "move e (apply_release e expiry_event ?c0) c'" using b(2) by (intro claim) auto
    ultimately show ?thesis by (rule moves_then)
  next
    case c
    have "move e ?c0 c'" unfolding c(3)
      using True c(2,4) by (intro policy) (auto simp: timed_deadline_passed_def)
    then show ?thesis using m c(1) moves_then by blast
  qed
qed

lemma claim_for_reply_moves:
  assumes "claim_for_reply e a c = Inr (c', b)" "cs_owner (ch_session c) \<noteq> ClosedOwned"
  shows "moves e c c'"
proof (cases "cs_owner (ch_session c) = HumanOwned")
  case False
  then obtain ho where "apply_claim e a IndefinitePolicy c = Inr (c', ho)"
    using assms by (auto simp: claim_for_reply_def Let_def and_then_Inr)
  moreover have "cs_owner (ch_session c) = BotOwned \<or> cs_owner (ch_session c) = HandoffRequested"
    using False assms(2) by (cases "cs_owner (ch_session c)") auto
  ultimately show ?thesis by (intro moves_step claim)
next
  case True
  let ?c0 = "own_if_unassigned a c"
  let ?s = "ch_session c"
  let ?live = "case cs_until ?s of None \<Rightarrow> False | Some t \<Rightarrow> ce_now e < t"
  have ag: "cs_agent ?s = None \<or> cs_agent ?s = Some a"
    using assms(1) True by (auto simp: claim_for_reply_def Let_def split: if_splits)
  then have m: "moves e c ?c0" using True by (intro moves_step assign) auto
  have eq: "claim_for_reply e a c =
     (if cs_mode ?s = Some Timed \<and> truthy_num (cs_hours ?s) then
        (if ?live then Inr (on_session (\<lambda>s. s\<lparr>cs_until := Some (ce_now e + the (cs_hours s) * hour_us)\<rparr>) ?c0, False)
         else and_then (apply_claim e a IndefinitePolicy (apply_release e expiry_event ?c0)) (\<lambda>(c', _). Inr (c', True)))
      else Inr (?c0, False))"
    using ag True by (auto simp: claim_for_reply_def Let_def)
  consider (plain) "\<not> (cs_mode ?s = Some Timed \<and> truthy_num (cs_hours ?s))"
    | (live) "cs_mode ?s = Some Timed" "truthy_num (cs_hours ?s)" ?live
    | (over) "cs_mode ?s = Some Timed" "truthy_num (cs_hours ?s)" "\<not> ?live"
    by blast
  then show ?thesis
  proof cases
    case plain
    have "c' = ?c0" using assms(1) unfolding eq if_not_P [OF plain] by simp
    then show ?thesis using m by simp
  next
    case live
    then obtain h t where *: "cs_hours ?s = Some h" "cs_until ?s = Some t" "ce_now e < t"
      by (cases "cs_hours ?s"; cases "cs_until ?s") auto
    have "c' = on_session (\<lambda>s. s\<lparr>cs_until := Some (ce_now e + the (cs_hours s) * hour_us)\<rparr>) ?c0"
      using assms(1) eq live by simp
    then have "c' = on_session (\<lambda>s. s\<lparr>cs_until := Some (ce_now e + h * hour_us)\<rparr>) ?c0"
      using *(1) by (simp add: on_session_def)
    moreover have "move e ?c0 (on_session (\<lambda>s. s\<lparr>cs_until := Some (ce_now e + h * hour_us)\<rparr>) ?c0)"
      by (rule slide [where t = t]) (use True live * in simp_all)
    ultimately show ?thesis using m moves_then by blast
  next
    case over
    then obtain ho where "apply_claim e a IndefinitePolicy (apply_release e expiry_event ?c0) = Inr (c', ho)"
      using assms(1) eq by (auto simp: and_then_Inr)
    then have "move e (apply_release e expiry_event ?c0) c'" by (intro claim) auto
    moreover have "move e ?c0 (apply_release e expiry_event ?c0)" using True by (intro release) simp
    ultimately show ?thesis using m moves_then by blast
  qed
qed

lemma claim_for_reply_owner:
  assumes "claim_for_reply e a c = Inr (c', b)" shows "cs_owner (ch_session c') = HumanOwned"
proof (cases "cs_owner (ch_session c) = HumanOwned")
  case True
  then show ?thesis using assms
    by (auto simp: claim_for_reply_def Let_def and_then_Inr split: if_splits dest: apply_claim_owner)
qed (use assms in \<open>auto simp: claim_for_reply_def Let_def and_then_Inr dest: apply_claim_owner\<close>)

lemma claim_for_reply_messages:
  assumes "claim_for_reply e a c = Inr (c', b)" shows "ch_messages c' = ch_messages c"
  using assms
  by (auto simp: claim_for_reply_def Let_def and_then_Inr apply_claim_def apply_release_def split: if_splits)

lemma send_human_message_moves:
  assumes "send_human_message e a cl content att c = Inr (c', rp)" shows "moves e c c'"
proof (cases "find (\<lambda>m. ms_client m = Some cl) (ch_messages c)")
  case None
  then obtain c1 b where c1: "claim_for_reply e a c = Inr (c1, b)"
    and c': "c' = add_message e (agent_message e (attachment_type att) content (Some cl) None) c1"
    and own: "cs_owner (ch_session c) \<noteq> ClosedOwned"
    and new: "ce_message_id e \<notin> set (map ms_id (ch_messages c))"
    using assms by (auto simp: send_human_message_def Let_def and_then_Inr split: if_splits)
  have "move e c1 c'"
    unfolding c' using claim_for_reply_owner [OF c1] new claim_for_reply_messages [OF c1]
    by (intro message) auto
  then show ?thesis using claim_for_reply_moves [OF c1 own] moves_then by blast
qed (use assms in \<open>auto simp: send_human_message_def Let_def split: if_splits\<close>)

lemma ingest_page_reply_moves:
  assumes "ingest_page_reply e content ext ig c = Inr (c', rp)" shows "moves e c c'"
proof (cases "c' = c")
  case False
  then obtain t where c': "c' = add_message e (agent_message e Text content None (Some ext))
      (if cs_owner (ch_session c) = BotOwned \<or> cs_owner (ch_session c) = HandoffRequested
       then apply_unassigned_pause e t c else c)" and own: "cs_owner (ch_session c) \<noteq> ClosedOwned"
    and new: "ce_message_id e \<notin> set (map ms_id (ch_messages c))"
    using assms unfolding ingest_page_reply_def Let_def by (simp split: if_splits) blast+
  show ?thesis
  proof (cases "cs_owner (ch_session c) = BotOwned \<or> cs_owner (ch_session c) = HandoffRequested")
    case True
    have "move e (apply_unassigned_pause e t c) c'"
      using True new unfolding c' by (simp, intro message) (auto simp: apply_unassigned_pause_def)
    then show ?thesis using moves_then [OF moves_step [OF pause [OF True]]] by blast
  next
    case False
    then show ?thesis using own new unfolding c' by (simp, intro moves_step message) auto
  qed
qed simp

lemma release_conversation_moves:
  "release_conversation e a reason c = Inr (c', rp) \<Longrightarrow> moves e c c'"
  by (auto simp: release_conversation_def Let_def split: if_splits intro!: moves_step release)

lemma release_expired_moves:
  "release_expired e c = Inr (c', rp) \<Longrightarrow> moves e c c'"
  by (auto simp: release_expired_def Let_def split: if_splits intro!: moves_step release)

lemma cancel_handoff_moves:
  "cancel_handoff e act reason c = Inr (c', rp) \<Longrightarrow> moves e c c'"
  by (auto simp: cancel_handoff_def Let_def split: if_splits intro!: moves_step dangling cancel)

lemma close_conversation_moves:
  assumes "close_conversation e act reason c = Inr (c', rp)" shows "moves e c c'"
  using assms
  by (auto simp: close_conversation_def Let_def split: if_splits
      intro!: moves_step close [where d = "\<lambda>s. case cs_started s of None \<Rightarrow> cs_seconds s
                                               | Some t \<Rightarrow> Some (seconds_between (ce_js e) t)"])

lemma transfer_conversation_moves:
  assumes "transfer_conversation e a c = Inr (c', rp)" shows "moves e c c'"
  using assms transfer [of c _ e "''Conversation transferred to another agent''" a]
  by (auto simp: transfer_conversation_def Let_def split: if_splits intro!: moves_step)

lemma apply_command_moves:
  "apply_command e cmd c = Inr (c', rp) \<Longrightarrow> moves e c c'"
  by (cases cmd)
    (simp_all add: request_handoff_moves claim_conversation_moves send_human_message_moves
      ingest_page_reply_moves release_conversation_moves release_expired_moves cancel_handoff_moves
      close_conversation_moves transfer_conversation_moves)

section \<open>What a move can change\<close>

lemma move_ok: "move e c c' \<Longrightarrow> chat_ok c \<Longrightarrow> chat_ok c'"
proof (induction rule: move.induct)
  case (dangling c r)
  then show ?case
    using reject_count [of c "\<lambda>h. h\<lparr>ho_status := Rejected, ho_rejection := r\<rparr>" Rejected]
    by (auto simp: chat_ok_def handoffs_ok_def session_ok_def)
next
  case (policy c p cols)
  then show ?case using columns_ok [OF policy(2)]
    by (auto simp: chat_ok_def handoffs_ok_def columns_frame [OF policy(2)])
next
  case (cancel c t act r)
  then show ?case
    using reject_count [of c "cancel_open e act r" "case act of SystemActor \<Rightarrow> TimedOut | _ \<Rightarrow> Rejected"]
    by (auto simp: chat_ok_def handoffs_ok_def session_ok_def split: actor.splits)
next
  case (close c t d)
  then have "in_status {Requested, Accepted} c \<le> 1"
    by (auto simp: in_status_two chat_ok_def handoffs_ok_def split: if_splits)
  then have "in_status {Requested, Accepted} (on_newest [Requested, Accepted] (close_open e) c) = 0"
    using on_newest_clears [of c "[Requested, Accepted]" "close_open e"] close
    by (auto simp: chat_ok_def handoffs_ok_def)
  then show ?case
    using close by (auto simp: in_status_two chat_ok_def handoffs_ok_def session_ok_def)
next
  case (transfer c keep t a)
  have "session_ok (ch_session c)" using transfer by (simp add: chat_ok_def)
  then have "session_ok (ch_session (persist_event t (apply_transition HumanOwned
                (\<lambda>s. (if keep then (\<lambda>s. s) else
                        (\<lambda>s. s\<lparr>cs_mode := Some Indefinite, cs_hours := None, cs_since := Some (ce_now e),
                              cs_until := None\<rparr>)) (s\<lparr>cs_agent := Some a\<rparr>))
                (accept_open e (Some a) c))))"
    using transfer(2) by (auto simp: session_ok_def)
  moreover have "in_status {Accepted} c + in_status {Requested} c \<le> 1"
    using transfer by (auto simp: chat_ok_def handoffs_ok_def split: if_splits)
  ultimately show ?case
    using transfer accept_open_count [of c e "Some a"]
    by (auto simp: chat_ok_def handoffs_ok_def split: if_splits)
next
  case (request c t r)
  then show ?case
    by (auto simp: chat_ok_def handoffs_ok_def session_ok_def in_status_def new_handoff_def)
next
  case (repair c)
  then have "lock_handoff [Requested] c \<noteq> None" by (simp add: open_id_def)
  then have "in_status {Requested} c \<noteq> 0" using lock_handoff_None [of "[Requested]" c] by simp
  then show ?case using repair by (simp add: chat_ok_def handoffs_ok_def)
next
  case (slide c h t)
  then show ?case by (auto simp: chat_ok_def handoffs_ok_def session_ok_def)
next
  case (outbox c xs)
  then show ?case by (simp add: chat_ok_def handoffs_ok_def in_status_def)
qed (auto simp: claim_ok pause_ok release_ok own_if_unassigned_ok)

lemma columns_keep:
  assumes "human_control_columns now p = Inr cols"
  shows "cs_version (cols s) = cs_version s" using columns_frame(3) [OF assms] .

text \<open>The version never decreases, and a move of the owner or of the status bumps it.\<close>

lemma move_version:
  assumes "move e c c'"
  shows "cs_version (ch_session c) \<le> cs_version (ch_session c')
    \<and> ((cs_owner (ch_session c'), cs_status (ch_session c')) \<noteq> (cs_owner (ch_session c), cs_status (ch_session c))
        \<longrightarrow> cs_version (ch_session c) < cs_version (ch_session c'))"
  using assms
  by cases (auto simp: apply_claim_def and_then_Inr apply_unassigned_pause_def apply_release_def columns_frame)

lemma moves_version:
  assumes "moves e c c'"
  shows "cs_version (ch_session c) \<le> cs_version (ch_session c')
    \<and> ((cs_owner (ch_session c'), cs_status (ch_session c')) \<noteq> (cs_owner (ch_session c), cs_status (ch_session c))
        \<longrightarrow> cs_version (ch_session c) < cs_version (ch_session c'))"
  using assms
proof (induction rule: rtranclp_induct)
  case (step y z)
  then show ?case using move_version [of e y z] by auto
qed simp

text \<open>No command writes the answer watermark, the pause flag or the stored results.\<close>

lemma move_frame:
  assumes "move e c c'"
  shows "cs_auto (ch_session c') = cs_auto (ch_session c)" "cs_mark (ch_session c') = cs_mark (ch_session c)"
    "cs_tenant (ch_session c') = cs_tenant (ch_session c)" "ch_results c' = ch_results c"
  using assms
  by (cases; auto simp: apply_claim_def and_then_Inr apply_unassigned_pause_def apply_release_def
      columns_frame own_if_unassigned_def)+

lemma moves_frame:
  assumes "moves e c c'"
  shows "cs_auto (ch_session c') = cs_auto (ch_session c) \<and> cs_mark (ch_session c') = cs_mark (ch_session c)
    \<and> cs_tenant (ch_session c') = cs_tenant (ch_session c) \<and> ch_results c' = ch_results c"
  using assms by (induction rule: rtranclp_induct) (auto simp: move_frame)

lemma moves_ok: "moves e c c' \<Longrightarrow> chat_ok c \<Longrightarrow> chat_ok c'"
  by (induction rule: rtranclp_induct) (auto intro: move_ok)

lemma closed_stuck: "moves e c c' \<Longrightarrow> cs_owner (ch_session c) = ClosedOwned \<Longrightarrow> c' = c"
  by (induction rule: converse_rtranclp_induct) (auto elim: move.cases)

section \<open>Commands and their sequences\<close>

lemma run_command_shape:
  "run_command e key cmd c =
     (case cmd of
        SendCmd _ client _ _ \<Rightarrow> if client = [] \<or> 128 < length client then Inl BadRequest
          else with_conversation e (command_name_of cmd) (key_of cmd key) (apply_command e cmd) c
      | _ \<Rightarrow> with_conversation e (command_name_of cmd) (key_of cmd key) (apply_command e cmd) c)"
  by (cases cmd) (simp_all add: run_command_def key_of_def)

text \<open>A successful command is a replay that changes nothing, or moves and then at most one stored result.\<close>

lemma run_command_cases:
  assumes "run_command e key cmd c = Inr (c', r)"
  obtains (replay) prior where "c' = c" "truthy_str (key_of cmd key)"
      "map_of (ch_results c) (command_name_of cmd, the (key_of cmd key)) = Some prior"
      "r = prior\<lparr>rp_replayed := True\<rparr>"
    | (moved) c1 where "apply_command e cmd c = Inr (c1, r)" "moves e c c1"
      "\<not> truthy_str (key_of cmd key) \<Longrightarrow> c' = c1"
      "truthy_str (key_of cmd key) \<Longrightarrow>
         map_of (ch_results c) (command_name_of cmd, the (key_of cmd key)) = None
         \<and> c' = c1\<lparr>ch_results := ((command_name_of cmd, the (key_of cmd key)), r) # ch_results c1\<rparr>"
proof -
  have w: "with_conversation e (command_name_of cmd) (key_of cmd key) (apply_command e cmd) c = Inr (c', r)"
    using assms unfolding run_command_shape by (auto split: command.splits if_splits)
  show ?thesis
  proof (cases "if truthy_str (key_of cmd key)
                then map_of (ch_results c) (command_name_of cmd, the (key_of cmd key)) else None")
    case (Some prior)
    then show ?thesis using w replay by (auto simp: with_conversation_def split: if_splits)
  next
    case None
    then obtain c1 where "apply_command e cmd c = Inr (c1, r)"
      "c' = (if truthy_str (key_of cmd key)
             then c1\<lparr>ch_results := ((command_name_of cmd, the (key_of cmd key)), r) # ch_results c1\<rparr> else c1)"
      using w by (auto simp: with_conversation_def and_then_Inr split: if_splits)
    then show ?thesis using moved None apply_command_moves by (auto split: if_splits)
  qed
qed

text \<open>Facts about the session and the handoffs lift from moves to commands.\<close>

lemma chat_ok_results [simp]: "chat_ok (c\<lparr>ch_results := xs\<rparr>) = chat_ok c"
  by (simp add: chat_ok_def handoffs_ok_def in_status_def)

lemma after_command_moves:
  obtains c1 xs where "moves e c c1" "after_command e key cmd c = c1 \<or> after_command e key cmd c = c1\<lparr>ch_results := xs\<rparr>"
proof (cases "run_command e key cmd c")
  case (Inr p)
  obtain c' r where p: "p = (c', r)" by force
  from Inr p have run: "run_command e key cmd c = Inr (c', r)" by simp
  from run show ?thesis
  proof (cases rule: run_command_cases)
    case (replay prior)
    then show ?thesis using that [of c] run by (simp add: after_command_def)
  next
    case (moved c1)
    then show ?thesis using that [of c1] run
      by (cases "truthy_str (key_of cmd key)") (auto simp: after_command_def)
  qed
qed (use that [of c] in \<open>simp add: after_command_def\<close>)

lemma after_command_ok: "chat_ok c \<Longrightarrow> chat_ok (after_command e key cmd c)"
  by (rule after_command_moves [of e c key cmd]) (auto dest: moves_ok)

lemma after_command_version:
  "cs_version (ch_session c) \<le> cs_version (ch_session (after_command e key cmd c))
    \<and> ((cs_owner (ch_session (after_command e key cmd c)), cs_status (ch_session (after_command e key cmd c)))
         \<noteq> (cs_owner (ch_session c), cs_status (ch_session c))
        \<longrightarrow> cs_version (ch_session c) < cs_version (ch_session (after_command e key cmd c)))"
  by (rule after_command_moves [of e c key cmd]) (auto dest: moves_version)

section \<open>Version fences\<close>

text \<open>
  A version that never decreases and that every change of a view bumps: between two readings of
  the same version the view has not moved, whatever happened in between.
\<close>

locale fence =
  fixes step :: "'op \<Rightarrow> 's \<Rightarrow> 's" and ver :: "'s \<Rightarrow> int" and view :: "'s \<Rightarrow> 'v"
  assumes ver_mono: "ver s \<le> ver (step x s)"
    and view_bumps: "view (step x s) \<noteq> view s \<Longrightarrow> ver s < ver (step x s)"
begin

lemma fold_mono: "ver s \<le> ver (fold step xs s)"
proof (induction xs arbitrary: s)
  case (Cons x xs)
  then show ?case using order_trans [OF ver_mono [of s x] Cons.IH [of "step x s"]] by simp
qed simp

lemma unmoved: "ver (fold step xs s) = ver s \<Longrightarrow> view (fold step xs s) = view s"
proof (induction xs arbitrary: s)
  case (Cons x xs)
  have "ver s \<le> ver (step x s)" "ver (step x s) \<le> ver (fold step xs (step x s))"
    by (rule ver_mono, rule fold_mono)
  with Cons.prems have "ver (step x s) = ver s" "ver (fold step xs (step x s)) = ver (step x s)" by simp_all
  with Cons.IH [of "step x s"] show ?case using view_bumps [of x s] by auto
qed simp

lemma unmoved_between: "ver (fold step (xs @ ys) s) = ver s \<Longrightarrow> view (fold step xs s) = view s"
  using fold_mono [where s = "fold step xs s" and xs = ys] fold_mono [of s xs] unmoved [of xs s] by simp

end

interpretation conv: fence "\<lambda>(e, key, cmd). after_command e key cmd" "\<lambda>c. cs_version (ch_session c)"
  "\<lambda>c. (cs_owner (ch_session c), cs_status (ch_session c))"
  by unfold_locales (use after_command_version in \<open>auto split: prod.splits\<close>)

lemma after_commands_simps [simp]:
  "after_commands [] c = c"
  "after_commands ((e, key, cmd) # xs) c = after_commands xs (after_command e key cmd c)"
  by (simp_all add: after_commands_def)

lemma after_commands_append: "after_commands (xs @ ys) c = after_commands ys (after_commands xs c)"
  by (simp add: after_commands_def)

lemma after_commands_ok: "chat_ok c \<Longrightarrow> chat_ok (after_commands xs c)"
proof (induction xs arbitrary: c)
  case (Cons x xs)
  then show ?case by (cases x) (simp add: after_command_ok)
qed simp

section \<open>Retries\<close>

lemma after_command_stored:
  assumes "map_of (ch_results c) k = Some r" shows "map_of (ch_results (after_command e key cmd c)) k = Some r"
proof (cases "run_command e key cmd c")
  case (Inr p)
  obtain c' r' where "p = (c', r')" by force
  with Inr have run: "run_command e key cmd c = Inr (c', r')" by simp
  from run show ?thesis
  proof (cases rule: run_command_cases)
    case (moved c1)
    then show ?thesis using assms run moves_frame [OF moved(2)]
      by (cases "truthy_str (key_of cmd key)") (auto simp: after_command_def)
  qed (use assms run in \<open>simp add: after_command_def\<close>)
qed (use assms in \<open>simp add: after_command_def\<close>)

lemma after_commands_stored:
  "map_of (ch_results c) k = Some r \<Longrightarrow> map_of (ch_results (after_commands xs c)) k = Some r"
  by (induction xs arbitrary: c) (auto simp: after_command_stored)

lemma after_command_tenant: "cs_tenant (ch_session (after_command e key cmd c)) = cs_tenant (ch_session c)"
  by (rule after_command_moves [of e c key cmd]) (auto dest: moves_frame)

lemma after_commands_tenant: "cs_tenant (ch_session (after_commands xs c)) = cs_tenant (ch_session c)"
  by (induction xs arbitrary: c) (auto simp: after_command_tenant)

lemma stored_after_run:
  assumes "run_command e key cmd c = Inr (c', r)" "truthy_str (key_of cmd key)"
  obtains s where "map_of (ch_results c') (command_name_of cmd, the (key_of cmd key)) = Some s"
    "s\<lparr>rp_replayed := True\<rparr> = r\<lparr>rp_replayed := True\<rparr>"
  using assms(1)
proof (cases rule: run_command_cases)
  case (replay prior)
  then show ?thesis using that [of prior] by simp
next
  case (moved c1)
  then show ?thesis using that [of r] assms(2) by simp
qed

lemma run_replays:
  assumes "map_of (ch_results c) (command_name_of cmd, the (key_of cmd key)) = Some s"
    "truthy_str (key_of cmd key)" "ce_tenant e = None \<or> ce_tenant e = Some (cs_tenant (ch_session c))"
  shows "run_command e key cmd c = Inr (c, s\<lparr>rp_replayed := True\<rparr>)"
proof -
  have "run_command e key cmd c =
      with_conversation e (command_name_of cmd) (key_of cmd key) (apply_command e cmd) c"
    using assms(2) unfolding run_command_shape by (cases cmd) (auto simp: key_of_def)
  with assms show ?thesis by (auto simp: with_conversation_def)
qed

section \<open>Keeping a conversation\<close>

text \<open>Commands that are not those of operator \<open>a\<close>, nor a transfer or a close, and no expiry that is due.\<close>

definition others_command :: "nat \<Rightarrow> int option \<Rightarrow> cmd_env \<times> string option \<times> command \<Rightarrow> bool" where
  "others_command a due x =
     (case x of (e, _, cmd) \<Rightarrow>
        (case cmd of
           ClaimCmd b _ _ \<Rightarrow> b \<noteq> a
         | SendCmd b _ _ _ \<Rightarrow> b \<noteq> a
         | ReleaseCmd b _ \<Rightarrow> b \<noteq> a
         | ExpireCmd \<Rightarrow> (case due of None \<Rightarrow> True | Some t \<Rightarrow> ce_now e < t)
         | CloseCmd _ _ \<Rightarrow> False
         | TransferCmd _ \<Rightarrow> False
         | _ \<Rightarrow> True))"

lemma request_handoff_held:
  assumes "cs_owner (ch_session c) = HumanOwned"
  shows "request_handoff e r nt nf c =
    Inr (c, reply_of (if ce_handoff_disabled e then OutHandoffDisabled else OutAlreadyHumanOwned) c None)"
  unfolding request_handoff_def Let_def assms by simp

lemma ingest_page_reply_held:
  assumes "cs_owner (ch_session c) = HumanOwned"
  shows "ingest_page_reply e content ext ig c =
    (let m = agent_message e Text content None (Some ext); c2 = add_message e m c
     in if list_ex (\<lambda>m. ms_external m = Some ext) (ch_messages c) then Inr (c, reply_of OutDuplicate c None)
        else if ext \<in> set (ce_delivered e) then Inr (c, reply_of OutIgnored c None)
        else if ce_message_id e \<in> set (map ms_id (ch_messages c)) then Inl UniqueViolation
        else Inr (c2, (reply_of OutIngested c2 None)\<lparr>rp_message := Some (ms_id m, ms_at m div 1000)\<rparr>))"
  unfolding ingest_page_reply_def Let_def assms by simp

lemma others_leave_it:
  assumes "cs_owner (ch_session c) = HumanOwned" "cs_agent (ch_session c) = Some a"
    and "others_command a (cs_until (ch_session c)) (e, key, cmd)"
    and "apply_command e cmd c = Inr (c', r)"
  shows "cs_owner (ch_session c') = HumanOwned \<and> cs_agent (ch_session c') = Some a
    \<and> cs_until (ch_session c') = cs_until (ch_session c)"
proof (cases cmd)
  case (RequestHandoff r nt nf)
  then show ?thesis using assms(4) unfolding RequestHandoff apply_command.simps request_handoff_held [OF assms(1)]
    using assms by (auto split: if_splits)
next
  case (ClaimCmd b p upd)
  then show ?thesis using assms by (simp add: claim_conversation_def Let_def others_command_def split: if_splits)
next
  case (SendCmd b client content att)
  then show ?thesis using assms
    by (simp add: send_human_message_def claim_for_reply_def Let_def others_command_def split: option.splits if_splits)
next
  case (IngestCmd content ext ig)
  then show ?thesis using assms(4) unfolding IngestCmd apply_command.simps ingest_page_reply_held [OF assms(1)]
      Let_def using assms by (auto split: if_splits)
next
  case (ReleaseCmd b reason)
  then show ?thesis using assms by (simp add: release_conversation_def Let_def others_command_def split: if_splits)
next
  case ExpireCmd
  then show ?thesis using assms
    by (auto simp: release_expired_def Let_def others_command_def timed_deadline_passed_def split: if_splits)
next
  case (CancelCmd act reason)
  then show ?thesis using assms by (simp add: cancel_handoff_def Let_def split: if_splits)
qed (use assms in \<open>simp_all add: others_command_def\<close>)

lemma others_leave_it_run:
  assumes "cs_owner (ch_session c) = HumanOwned" "cs_agent (ch_session c) = Some a"
    and "others_command a (cs_until (ch_session c)) (e, key, cmd)"
  shows "cs_owner (ch_session (after_command e key cmd c)) = HumanOwned
    \<and> cs_agent (ch_session (after_command e key cmd c)) = Some a
    \<and> cs_until (ch_session (after_command e key cmd c)) = cs_until (ch_session c)"
proof (cases "run_command e key cmd c")
  case (Inr p)
  obtain c' r where "p = (c', r)" by force
  with Inr have run: "run_command e key cmd c = Inr (c', r)" by simp
  from run show ?thesis
  proof (cases rule: run_command_cases)
    case (moved c1)
    have "cs_owner (ch_session c1) = HumanOwned \<and> cs_agent (ch_session c1) = Some a
        \<and> cs_until (ch_session c1) = cs_until (ch_session c)"
      by (rule others_leave_it [OF assms moved(1)])
    then show ?thesis using moved run
      by (cases "truthy_str (key_of cmd key)") (auto simp: after_command_def)
  qed (use assms run in \<open>simp add: after_command_def\<close>)
qed (use assms in \<open>simp add: after_command_def\<close>)

lemma others_leave_them:
  assumes "cs_owner (ch_session c) = HumanOwned" "cs_agent (ch_session c) = Some a"
    and "\<forall>x \<in> set xs. others_command a (cs_until (ch_session c)) x"
  shows "cs_owner (ch_session (after_commands xs c)) = HumanOwned
    \<and> cs_agent (ch_session (after_commands xs c)) = Some a"
  using assms
proof (induction xs arbitrary: c)
  case (Cons x xs)
  obtain e key cmd where x: "x = (e, key, cmd)" by (cases x)
  have *: "cs_owner (ch_session (after_command e key cmd c)) = HumanOwned
    \<and> cs_agent (ch_session (after_command e key cmd c)) = Some a
    \<and> cs_until (ch_session (after_command e key cmd c)) = cs_until (ch_session c)"
    using others_leave_it_run Cons.prems x by simp
  show ?case using Cons.IH [of "after_command e key cmd c"] * Cons.prems x by simp
qed simp

section \<open>Expired control\<close>

definition expired_at :: "int \<Rightarrow> int \<Rightarrow> chat \<Rightarrow> bool" where
  "expired_at v t c =
     (cs_version (ch_session c) = v \<and> cs_owner (ch_session c) = HumanOwned
      \<and> cs_mode (ch_session c) = Some Timed \<and> cs_until (ch_session c) = Some t)"

lemma move_expired:
  assumes "move e c c'" "t \<le> ce_now e" "expired_at v t c"
  shows "expired_at v t c' \<or> v < cs_version (ch_session c')"
  using assms
  by cases (auto simp: expired_at_def apply_claim_def and_then_Inr apply_unassigned_pause_def
      apply_release_def columns_frame timed_deadline_passed_def)

lemma moves_expired:
  assumes "moves e c c'" "t \<le> ce_now e" "expired_at v t c"
  shows "expired_at v t c' \<or> v < cs_version (ch_session c')"
  using assms(1)
proof (induction rule: rtranclp_induct)
  case (step y z)
  then show ?case using move_expired [OF step(2) assms(2)] move_version [OF step(2)] by fastforce
qed (use assms in simp)

lemma commands_expired:
  assumes "\<forall>(e, key, cmd) \<in> set xs. t \<le> ce_now e" "expired_at v t c \<or> v < cs_version (ch_session c)"
  shows "expired_at v t (after_commands xs c) \<or> v < cs_version (ch_session (after_commands xs c))"
  using assms
proof (induction xs arbitrary: c)
  case (Cons x xs)
  obtain e key cmd where x: "x = (e, key, cmd)" by (cases x)
  have "expired_at v t (after_command e key cmd c) \<or> v < cs_version (ch_session (after_command e key cmd c))"
  proof (cases "expired_at v t c")
    case True
    obtain c1 ys where c1: "moves e c c1"
      "after_command e key cmd c = c1 \<or> after_command e key cmd c = c1\<lparr>ch_results := ys\<rparr>"
      by (rule after_command_moves)
    have "t \<le> ce_now e" using Cons.prems(1) x by simp
    then have "expired_at v t c1 \<or> v < cs_version (ch_session c1)"
      by (rule moves_expired [OF c1(1) _ True])
    then show ?thesis using c1(2) by (auto simp: expired_at_def)
  next
    case False
    then show ?thesis using Cons.prems(2) after_command_version [of c e key cmd] by auto
  qed
  then show ?case using Cons x by simp
qed simp

section \<open>The desk\<close>

lemma desk_of_simps:
  "cs_owner (ch_session c) = BotOwned \<Longrightarrow> desk_of c = WithBot"
  "cs_owner (ch_session c) = HandoffRequested \<Longrightarrow> desk_of c = Asked"
  "cs_owner (ch_session c) = HumanOwned \<Longrightarrow> desk_of c = Held (cs_agent (ch_session c))"
  "cs_owner (ch_session c) = ClosedOwned \<Longrightarrow> desk_of c = Gone"
  by (simp_all add: desk_of_def)

lemma desk_of_eq [simp]:
  "desk_of (add_message e m c) = desk_of c" "desk_of (c\<lparr>ch_results := xs\<rparr>) = desk_of c"
  by (simp_all add: desk_of_def split: ownership.split)

lemma claim_desk: "apply_claim e a p c = Inr (c', ho) \<Longrightarrow> desk_of c' = Held (Some a)"
  by (auto simp: apply_claim_def and_then_Inr desk_of_def columns_frame)

lemma policy_desk:
  "human_control_columns now p = Inr cols \<Longrightarrow> desk_of (on_session cols c) = desk_of c"
  by (auto simp: desk_of_def columns_frame split: ownership.split)

lemma assign_desk:
  "cs_owner (ch_session c) = HumanOwned \<Longrightarrow> cs_agent (ch_session c) = None \<or> cs_agent (ch_session c) = Some a \<Longrightarrow>
   desk_of (own_if_unassigned a c) = Held (Some a)"
  by (auto simp: desk_of_def)

lemma release_desk: "desk_of (apply_release e t c) = WithBot"
  by (simp add: desk_of_def)

lemma request_handoff_desk:
  assumes "request_handoff e r nt nf c = Inr (c', rp)"
  shows "desk_spec (RequestHandoff r nt nf) (ce_handoff_disabled e) over (desk_of c) = Some (desk_of c')"
proof (cases "cs_owner (ch_session c)")
  case BotOwned
  have "c' = c" if "ce_handoff_disabled e" using assms that BotOwned by (simp add: request_handoff_def Let_def)
  moreover have "cs_owner (ch_session c') = HandoffRequested" if "\<not> ce_handoff_disabled e"
    using assms that BotOwned by (auto simp: request_handoff_def Let_def split: if_splits)
  ultimately show ?thesis using BotOwned by (cases "ce_handoff_disabled e") (simp_all add: desk_of_simps)
next
  case HandoffRequested
  have "c' = c" using assms HandoffRequested by (auto simp: request_handoff_def Let_def split: if_splits)
  then show ?thesis using HandoffRequested by (simp add: desk_of_simps)
next
  case HumanOwned
  then show ?thesis using assms by (simp add: request_handoff_held desk_of_simps)
qed (use assms in \<open>simp add: request_handoff_def Let_def\<close>)

lemma claim_conversation_desk:
  assumes "claim_conversation e a p upd c = Inr (c', rp)"
  shows "desk_spec (ClaimCmd a p upd) skip over (desk_of c) = Some (desk_of c')"
proof (cases "cs_owner (ch_session c)")
  case HumanOwned
  then have ag: "cs_agent (ch_session c) = None \<or> cs_agent (ch_session c) = Some a"
    using assms by (auto simp: claim_conversation_def Let_def split: if_splits)
  have "desk_of c' = Held (Some a)"
    using assms HumanOwned ag assign_desk [OF HumanOwned ag] claim_desk policy_desk
    by (simp add: claim_conversation_def Let_def and_then_Inr split: if_splits) (metis)+
  then show ?thesis using HumanOwned ag by (auto simp: desk_of_simps)
qed (use assms claim_desk in \<open>auto simp: claim_conversation_def Let_def and_then_Inr desk_of_simps split: if_splits\<close>)

lemma claim_for_reply_desk:
  assumes "claim_for_reply e a c = Inr (c', b)"
  shows "desk_of c' = Held (Some a)
    \<and> (cs_owner (ch_session c) = HumanOwned \<longrightarrow> cs_agent (ch_session c) = None \<or> cs_agent (ch_session c) = Some a)"
proof (cases "cs_owner (ch_session c) = HumanOwned")
  case True
  then have ag: "cs_agent (ch_session c) = None \<or> cs_agent (ch_session c) = Some a"
    using assms by (auto simp: claim_for_reply_def Let_def split: if_splits)
  have "desk_of c' = Held (Some a)"
  proof (cases "cs_mode (ch_session c) = Some Timed \<and> truthy_num (cs_hours (ch_session c))
      \<and> \<not> (case cs_until (ch_session c) of None \<Rightarrow> False | Some t \<Rightarrow> ce_now e < t)")
    case True
    then show ?thesis using assms \<open>cs_owner (ch_session c) = HumanOwned\<close> ag
      by (auto simp: claim_for_reply_def Let_def and_then_Inr claim_desk split: if_splits)
  next
    case False
    then have "c' = own_if_unassigned a c
        \<or> c' = on_session (\<lambda>s. s\<lparr>cs_until := Some (ce_now e + the (cs_hours s) * hour_us)\<rparr>) (own_if_unassigned a c)"
      using assms \<open>cs_owner (ch_session c) = HumanOwned\<close> ag
      unfolding claim_for_reply_def Let_def by (auto split: if_splits)
    then show ?thesis using \<open>cs_owner (ch_session c) = HumanOwned\<close> ag
      by (auto simp: desk_of_def)
  qed
  with ag show ?thesis by simp
qed (use assms claim_desk in \<open>auto simp: claim_for_reply_def Let_def and_then_Inr\<close>)

lemma find_list_ex: "find P xs = None \<longleftrightarrow> \<not> list_ex P xs"
  by (auto simp: find_None_iff list_ex_iff)

lemma send_human_message_desk:
  assumes "send_human_message e a cl content att c = Inr (c', rp)"
  shows "desk_spec (SendCmd a cl content att) (list_ex (\<lambda>m. ms_client m = Some cl) (ch_messages c)) over (desk_of c)
    = Some (desk_of c')"
proof (cases "find (\<lambda>m. ms_client m = Some cl) (ch_messages c)")
  case None
  have own: "cs_owner (ch_session c) \<noteq> ClosedOwned"
    using assms by (auto simp: send_human_message_def Let_def split: if_splits)
  obtain c1 b m where "claim_for_reply e a c = Inr (c1, b)" "c' = add_message e m c1"
    using assms None by (auto simp: send_human_message_def Let_def and_then_Inr split: if_splits)
  then have "desk_of c' = Held (Some a)"
    "cs_owner (ch_session c) = HumanOwned \<longrightarrow> cs_agent (ch_session c) = None \<or> cs_agent (ch_session c) = Some a"
    using claim_for_reply_desk by auto
  then show ?thesis using own None by (cases "cs_owner (ch_session c)") (auto simp: desk_of_simps find_list_ex)
next
  case (Some m)
  then have "c' = c" "cs_owner (ch_session c) \<noteq> ClosedOwned"
    using assms by (auto simp: send_human_message_def Let_def split: if_splits)
  moreover have "list_ex (\<lambda>m. ms_client m = Some cl) (ch_messages c)"
    using Some find_list_ex [of "\<lambda>m. ms_client m = Some cl" "ch_messages c"] by auto
  ultimately show ?thesis by (cases "cs_owner (ch_session c)") (auto simp: desk_of_simps)
qed

lemma pause_desk: "desk_of (apply_unassigned_pause e t c) = Held None"
  by (simp add: apply_unassigned_pause_def desk_of_def)

lemma ingest_page_reply_desk:
  assumes "ingest_page_reply e content ext ig c = Inr (c', rp)"
  shows "desk_spec (IngestCmd content ext ig)
     (list_ex (\<lambda>m. ms_external m = Some ext) (ch_messages c) \<or> ext \<in> set (ce_delivered e)) over (desk_of c)
    = Some (desk_of c')"
  using assms
  by (cases "cs_owner (ch_session c)")
    (auto simp: ingest_page_reply_def Let_def desk_of_simps pause_desk split: if_splits)

lemma apply_command_desk:
  assumes "apply_command e cmd c = Inr (c', r)" "chat_ok c"
  shows "desk_spec cmd (nothing_to_do e cmd c) (control_over e c) (desk_of c) = Some (desk_of c')"
proof (cases cmd)
  case (ReleaseCmd a reason)
  then show ?thesis using assms
    by (cases "cs_owner (ch_session c)")
      (auto simp: release_conversation_def Let_def desk_of_simps release_desk split: if_splits)
next
  case ExpireCmd
  then show ?thesis using assms(1)
    by (cases "cs_owner (ch_session c)")
      (auto simp: release_expired_def Let_def desk_of_simps release_desk control_over_def
         timed_deadline_passed_def split: if_splits)
next
  case (CancelCmd act reason)
  then show ?thesis using assms(1)
    by (cases "cs_owner (ch_session c)")
      (auto simp: cancel_handoff_def Let_def desk_of_simps desk_of_def split: if_splits)
next
  case (CloseCmd act reason)
  then show ?thesis using assms(1)
    by (cases "cs_owner (ch_session c)")
      (auto simp: close_conversation_def Let_def desk_of_simps desk_of_def split: if_splits)
next
  case (TransferCmd a)
  then show ?thesis using assms(1)
    by (cases "cs_owner (ch_session c)")
      (auto simp: transfer_conversation_def Let_def desk_of_def split: if_splits)
qed (use assms(1) in \<open>simp_all add: nothing_to_do_def request_handoff_desk claim_conversation_desk
      send_human_message_desk ingest_page_reply_desk\<close>)

section \<open>A small conversation\<close>

abbreviation demo_request :: "int \<Rightarrow> cmd_env \<times> string option \<times> command" where
  "demo_request t \<equiv> (demo_env t, Some ''r'', RequestHandoff UserRequest None True)"

abbreviation demo_claim :: "int \<Rightarrow> nat \<Rightarrow> cmd_env \<times> string option \<times> command" where
  "demo_claim t a \<equiv> (demo_env t, Some ''k'', ClaimCmd a (TimedPolicy 1) False)"

section \<open>What the commands guarantee\<close>



text \<open>
  The ownership version fences every change of hands: when the version read before and after
  a sequence of commands is the same, owner and status were the same all the way through, so a
  reply committed under the version it started with was never overtaken by a take-over, not even
  by one that was released again.
\<close>

theorem ownership_is_fenced_by_the_version:
  assumes "cs_version (ch_session (after_commands (xs @ ys) c)) = cs_version (ch_session c)"
  shows "cs_owner (ch_session (after_commands xs c)) = cs_owner (ch_session c)
    \<and> cs_status (ch_session (after_commands xs c)) = cs_status (ch_session c)"
  using conv.unmoved_between [of xs ys c] assms by (simp add: after_commands_def)

theorem ownership_is_fenced_by_the_version_witness:
  "cs_owner (ch_session (after_commands [(demo_env 20, None, CancelCmd CustomerActor None)] demo_chat)) = BotOwned"
  using ownership_is_fenced_by_the_version
    [of "[(demo_env 20, None, CancelCmd CustomerActor None)]" "[(demo_env 30, None, ExpireCmd)]" demo_chat]
  by code_simp

text \<open>
  A command retried with the key of a committed one returns the stored result, marked as
  replayed, and changes nothing, whatever happened to the conversation in between.
\<close>

theorem retried_command_is_replayed:
  assumes "run_command e key cmd c = Inr (c', r)" "truthy_str (key_of cmd key)"
    and "ce_tenant e' = None \<or> ce_tenant e' = Some (cs_tenant (ch_session c'))"
  shows "run_command e' key cmd (after_commands xs c') = Inr (after_commands xs c', r\<lparr>rp_replayed := True\<rparr>)"
proof -
  obtain s where s: "map_of (ch_results c') (command_name_of cmd, the (key_of cmd key)) = Some s"
    "s\<lparr>rp_replayed := True\<rparr> = r\<lparr>rp_replayed := True\<rparr>"
    using stored_after_run [OF assms(1,2)] by blast
  show ?thesis
    using run_replays [OF after_commands_stored [OF s(1)] assms(2), of e' xs] assms(3) s(2)
    by (simp add: after_commands_tenant)
qed

theorem retried_command_is_replayed_witness:
  "case run_command (demo_env 20) (Some ''k'') (ClaimCmd 1 (TimedPolicy 1) False) demo_chat of
     Inl _ \<Rightarrow> False
   | Inr (c, r) \<Rightarrow>
       (let later = after_commands [(demo_env 30, None, ReleaseCmd 1 None)] c
        in run_command (demo_env 40) (Some ''k'') (ClaimCmd 1 (TimedPolicy 1) False) later
             = Inr (later, r\<lparr>rp_replayed := True\<rparr>))"
proof (cases "run_command (demo_env 20) (Some ''k'') (ClaimCmd 1 (TimedPolicy 1) False) demo_chat")
  case (Inl e)
  moreover have "(case run_command (demo_env 20) (Some ''k'') (ClaimCmd 1 (TimedPolicy 1) False) demo_chat of
     Inl _ \<Rightarrow> False | Inr _ \<Rightarrow> True)" by code_simp
  ultimately show ?thesis by simp
next
  case (Inr p)
  obtain c r where p: "p = (c, r)" by force
  have "cs_tenant (ch_session (after_command (demo_env 20) (Some ''k'') (ClaimCmd 1 (TimedPolicy 1) False) demo_chat)) = 9"
    by code_simp
  then have "cs_tenant (ch_session c) = 9" using Inr p by (simp add: after_command_def)
  then show ?thesis
    using retried_command_is_replayed [of "demo_env 20" "Some ''k''" "ClaimCmd 1 (TimedPolicy 1) False" demo_chat
        c r "demo_env 40" "[(demo_env 30, None, ReleaseCmd 1 None)]"] Inr p
    by (simp add: key_of_def demo_env_def)
qed

text \<open>
  A closed conversation stays exactly as it was closed: no command moves its owner, its
  handoffs, its messages or its events; only results of keyed commands are still stored.
\<close>

theorem closed_conversation_stays_closed:
  assumes "cs_owner (ch_session c) = ClosedOwned"
  shows "(after_commands xs c)\<lparr>ch_results := ch_results c\<rparr> = c"
proof -
  have "(after_commands xs d)\<lparr>ch_results := ch_results c\<rparr> = c" if "d\<lparr>ch_results := ch_results c\<rparr> = c" for d
    using that
  proof (induction xs arbitrary: d)
    case (Cons x xs)
    obtain e key cmd where x: "x = (e, key, cmd)" by (cases x)
    obtain c1 ys where c1: "moves e d c1"
      "after_command e key cmd d = c1 \<or> after_command e key cmd d = c1\<lparr>ch_results := ys\<rparr>"
      by (rule after_command_moves)
    have "ch_session d = ch_session c" using Cons.prems by (metis chat.select_convs(1) chat.update_convs(3) chat.surjective)
    then have "c1 = d" using closed_stuck [OF c1(1)] assms by simp
    then show ?case using Cons.IH [of "after_command e key cmd d"] Cons.prems c1(2) x by auto
  qed simp
  then show ?thesis by simp
qed

theorem closed_conversation_stays_closed_witness:
  "let c = after_commands [(demo_env 10, None, CloseCmd CustomerActor None)] demo_chat
   in (after_commands [demo_claim 20 1, (demo_env 30, None, SendCmd 1 ''m'' ''hi'' None)] c)\<lparr>ch_results := ch_results c\<rparr> = c"
proof -
  let ?c = "after_commands [(demo_env 10, None, CloseCmd CustomerActor None)] demo_chat"
  have "cs_owner (ch_session ?c) = ClosedOwned" by code_simp
  then show ?thesis unfolding Let_def by (rule closed_conversation_stays_closed)
qed

text \<open>
  C35: An operator keeps the conversation they own against everyone else: while nobody transfers
  or closes it and no timed deadline has passed, no command of another operator, of the customer,
  of the page inbox or of the sweep takes it from them.
\<close>

theorem operator_keeps_the_conversation:
  assumes "cs_owner (ch_session c) = HumanOwned" "cs_agent (ch_session c) = Some a"
    and "\<forall>x \<in> set xs. others_command a (cs_until (ch_session c)) x"
  shows "cs_owner (ch_session (after_commands xs c)) = HumanOwned
    \<and> cs_agent (ch_session (after_commands xs c)) = Some a"
  by (rule others_leave_them [OF assms])

theorem operator_keeps_the_conversation_witness:
  "let c = after_commands [demo_claim 10 1] demo_chat
   in cs_agent (ch_session (after_commands
        [demo_claim 20 2, demo_request 30, (demo_env 40, None, SendCmd 2 ''m'' ''hi'' None),
         (demo_env 50, None, ReleaseCmd 2 None), (demo_env 60, None, ExpireCmd)] c)) = Some 1"
proof -
  let ?c = "after_commands [demo_claim 10 1] demo_chat"
  have "cs_owner (ch_session ?c) = HumanOwned" "cs_agent (ch_session ?c) = Some 1"
    "cs_until (ch_session ?c) = Some 3600010000"
    by code_simp+
  note * = this
  show ?thesis unfolding Let_def
    by (rule operator_keeps_the_conversation [OF *(1,2), THEN conjunct2])
      (unfold *(3), simp add: others_command_def demo_env_def)
qed

text \<open>
  An expired timed control is never renewed in place: once its deadline has passed on the
  database clock, no reply, no new policy and no expiry check moves the deadline without a new
  ownership version, that is, without releasing the old control first.
\<close>

theorem expired_control_is_never_renewed:
  assumes "cs_owner (ch_session c) = HumanOwned" "cs_mode (ch_session c) = Some Timed"
    and "cs_until (ch_session c) = Some t" "\<forall>(e, key, cmd) \<in> set xs. t \<le> ce_now e"
    and "cs_version (ch_session (after_commands xs c)) = cs_version (ch_session c)"
  shows "cs_mode (ch_session (after_commands xs c)) = Some Timed
    \<and> cs_until (ch_session (after_commands xs c)) = Some t"
  using commands_expired [of xs t "cs_version (ch_session c)" c] assms by (auto simp: expired_at_def)

theorem expired_control_is_never_renewed_witness:
  "let c = after_commands [demo_claim 10 1] demo_chat
   in cs_until (ch_session (after_commands [(demo_env 3600011, None, RequestHandoff UserRequest None False)] c))
        = Some 3600010000"
proof -
  let ?c = "after_commands [demo_claim 10 1] demo_chat"
  let ?xs = "[(demo_env 3600011, None, RequestHandoff UserRequest None False)]"
  have *: "cs_owner (ch_session ?c) = HumanOwned" "cs_mode (ch_session ?c) = Some Timed"
    "cs_until (ch_session ?c) = Some 3600010000"
    "cs_version (ch_session (after_commands ?xs ?c)) = cs_version (ch_session ?c)"
    by code_simp+
  show ?thesis unfolding Let_def
    by (rule expired_control_is_never_renewed [OF *(1,2,3) _ *(4), THEN conjunct2]) (simp add: demo_env_def)
qed

text \<open>
  C21: The commands refine the abstract desk: on a well-formed conversation a command that succeeds
  and is not a replay moves the desk exactly as its specification says, and a command the
  specification refuses does not succeed.
\<close>

theorem commands_refine_the_desk:
  assumes "run_command e key cmd c = Inr (c', r)" "\<not> rp_replayed r" "chat_ok c"
  shows "desk_spec cmd (nothing_to_do e cmd c) (control_over e c) (desk_of c) = Some (desk_of c')"
  using assms(1)
proof (cases rule: run_command_cases)
  case (moved c1)
  then show ?thesis using apply_command_desk [OF moved(1) assms(3)]
    by (cases "truthy_str (key_of cmd key)") auto
qed (use assms(2) in simp)

theorem commands_refine_the_desk_witness:
  "case run_command (demo_env 20) None (ClaimCmd 1 (TimedPolicy 1) False) demo_chat of
     Inl _ \<Rightarrow> False
   | Inr (c, r) \<Rightarrow> desk_spec (ClaimCmd 1 (TimedPolicy 1) False) False False WithBot = Some (desk_of c)"
proof (cases "run_command (demo_env 20) None (ClaimCmd 1 (TimedPolicy 1) False) demo_chat")
  case (Inl e)
  moreover have "(case run_command (demo_env 20) None (ClaimCmd 1 (TimedPolicy 1) False) demo_chat of
     Inl _ \<Rightarrow> False | Inr _ \<Rightarrow> True)" by code_simp
  ultimately show ?thesis by simp
next
  case (Inr p)
  obtain c r where p: "p = (c, r)" by force
  have "(case run_command (demo_env 20) None (ClaimCmd 1 (TimedPolicy 1) False) demo_chat of
     Inl _ \<Rightarrow> False | Inr (c, r) \<Rightarrow> \<not> rp_replayed r)" by code_simp
  moreover have "chat_ok demo_chat" by code_simp
  moreover have "nothing_to_do (demo_env 20) (ClaimCmd 1 (TimedPolicy 1) False) demo_chat = False"
    "control_over (demo_env 20) demo_chat = False" "desk_of demo_chat = WithBot" by code_simp+
  ultimately show ?thesis
    using commands_refine_the_desk [of "demo_env 20" None "ClaimCmd 1 (TimedPolicy 1) False" demo_chat c r] Inr p
    by (simp only: sum.case prod.case) simp
qed

end
