(* ===== verification/TurnProps.thy ===== *)
theory TurnProps
  imports Turns ConversationProps
begin

text \<open>
  What the coalesced turns guarantee: nothing the agent reads escapes the guardrails, a reply is
  committed only under the ownership it started with, no message is answered twice, the recovery
  drain forwards every message once and in order, and no job is dropped while a message waits.
\<close>

section \<open>Positions and windows\<close>

lemma pos_inj: "distinct (map ms_id ms) \<Longrightarrow> inj_on pos (set ms)"
  by (auto simp: pos_def inj_on_def distinct_map)

lemma newest_first_set [simp]: "set (newest_first ms) = set ms"
  by (simp add: newest_first_def)

lemma newest_first_sorted:
  assumes "distinct (map ms_id ms)"
  shows "sorted_wrt (\<lambda>x y. pos y < pos x) (newest_first ms)"
proof -
  have "distinct ms" using assms by (simp add: distinct_map)
  then have d: "distinct (map pos (sort_key pos ms))"
    using pos_inj [OF assms] by (simp add: distinct_map)
  have "sorted_wrt (<) (map pos (sort_key pos ms))"
    using d sorted_sort_key [of pos ms] by (intro sorted_distinct_strict) auto
  then have "sorted_wrt (\<lambda>x y. pos x < pos y) (sort_key pos ms)" by (simp add: sorted_wrt_map)
  then show ?thesis by (simp add: newest_first_def sorted_wrt_rev)
qed

lemma newest_first_distinct: "distinct ms \<Longrightarrow> distinct (newest_first ms)"
  by (simp add: newest_first_def)

text \<open>In a strictly descending list the elements above a given one are those before it.\<close>

lemma above_count:
  assumes "sorted_wrt (\<lambda>x y. pos y < pos x) xs" "i < length xs"
  shows "{y \<in> set xs. pos (xs ! i) < pos y} = set (take i xs)"
proof
  show "{y \<in> set xs. pos (xs ! i) < pos y} \<subseteq> set (take i xs)"
  proof
    fix y assume "y \<in> {y \<in> set xs. pos (xs ! i) < pos y}"
    then obtain j where j: "j < length xs" "y = xs ! j" "pos (xs ! i) < pos (xs ! j)"
      by (auto simp: in_set_conv_nth)
    have "j < i"
    proof (rule ccontr)
      assume "\<not> j < i"
      then have "i = j \<or> pos (xs ! j) < pos (xs ! i)"
        using sorted_wrt_nth_less [OF assms(1), of i j] j(1) by (cases "i = j") auto
      then show False using j(3) by auto
    qed
    then show "y \<in> set (take i xs)" using j(1,2) assms(2) by (auto simp: in_set_conv_nth)
  qed
  show "set (take i xs) \<subseteq> {y \<in> set xs. pos (xs ! i) < pos y}"
  proof
    fix y assume "y \<in> set (take i xs)"
    then obtain j where "j < i" "y = xs ! j" using assms(2) by (auto simp: in_set_conv_nth)
    then show "y \<in> {y \<in> set xs. pos (xs ! i) < pos y}"
      using sorted_wrt_nth_less [OF assms(1), of j i] assms(2) by (simp add: nth_mem)
  qed
qed

lemma taken_iff:
  assumes "sorted_wrt (\<lambda>x y. pos y < pos x) xs" "distinct xs" "x \<in> set xs"
  shows "x \<in> set (take n xs) \<longleftrightarrow> card {y \<in> set xs. pos x < pos y} < n"
proof -
  obtain i where i: "i < length xs" "x = xs ! i" using assms(3) by (auto simp: in_set_conv_nth)
  have "card {y \<in> set xs. pos x < pos y} = i"
    unfolding i(2) above_count [OF assms(1) i(1)]
    using i(1) assms(2) by (simp add: distinct_card)
  moreover have "x \<in> set (take n xs) \<longleftrightarrow> i < n"
    using i assms(2) by (auto simp: in_set_conv_nth nth_eq_iff_index_eq)
  ultimately show ?thesis by simp
qed

lemma card_two_parts:
  assumes "A \<subseteq> B \<union> C" "card C \<le> 1" "finite B" "finite C" shows "card A \<le> card B + 1"
proof -
  have "card A \<le> card (B \<union> C)" using assms by (intro card_mono) auto
  also have "\<dots> \<le> card B + card C" by (rule card_Un_le)
  finally show ?thesis using assms(2) by simp
qed

text \<open>
  C26: Every customer message the agent can read is vetted first: any unanswered customer message
  that enters the history of a turn (the ten rows before the live message) lies in the window of
  eleven messages the guardrails gate, and so does the live message itself.
\<close>

theorem agent_reads_only_vetted_messages:
  assumes "distinct (map ms_id ms)"
    and "m \<in> set (take 10 (history_rows ms hwm)) \<or> (m \<in> set ms \<and> ms_id m = hwm \<and> user_message m)"
    and "ms_sender m = User" "after_mark ms mark m"
  shows "m \<in> set (unanswered_user_window ms mark hwm)"
proof -
  let ?H = "filter (\<lambda>m. \<not> ms_deleted m \<and> ai_visible m \<and> \<not> ms_flagged m \<and> ms_id m \<noteq> hwm \<and> up_to ms hwm m) ms"
  let ?U = "filter (\<lambda>m. up_to ms hwm m) (unanswered ms mark)"
  have dH: "distinct (map ms_id ?H)" and dU: "distinct (map ms_id ?U)"
    using assms(1) by (auto simp: unanswered_def distinct_map_filter)
  have sU: "sorted_wrt (\<lambda>x y. pos y < pos x) (newest_first ?U)" "distinct (newest_first ?U)"
    using newest_first_sorted [OF dU] dU by (auto simp: newest_first_distinct distinct_map)
  have sH: "sorted_wrt (\<lambda>x y. pos y < pos x) (newest_first ?H)" "distinct (newest_first ?H)"
    using newest_first_sorted [OF dH] dH by (auto simp: newest_first_distinct distinct_map)
  have at: "created_at ms i = Some (ms_at x)" if "x \<in> set ms" "ms_id x = i" for x i
  proof -
    have "find (\<lambda>m. ms_id m = i) ms \<noteq> None" using that by (auto simp: find_None_iff)
    then obtain y where y: "find (\<lambda>m. ms_id m = i) ms = Some y" by auto
    then have "y \<in> set ms" "ms_id y = i" by (auto simp: find_Some_iff)
    then have "y = x" using that assms(1) by (auto simp: distinct_map inj_on_def)
    then show ?thesis using y by (simp add: created_at_def)
  qed
  have mU: "m \<in> set (newest_first ?U)"
  proof -
    from assms(2) consider "m \<in> set ?H" | "m \<in> set ms" "ms_id m = hwm" "user_message m"
      by (auto simp: history_rows_def dest!: in_set_takeD)
    then show ?thesis
    proof cases
      case 1
      then show ?thesis using assms(3,4) by (auto simp: unanswered_def user_message_def)
    next
      case 2
      then show ?thesis using assms(4) at [OF 2(1,2)] by (auto simp: unanswered_def up_to_def pos_def)
    qed
  qed
  let ?above = "{y \<in> set (newest_first ?U). pos m < pos y}"
  have "card ?above < 11"
  proof (cases "ms_id m = hwm")
    case True
    then have mm: "m \<in> set ms" using mU by (auto simp: unanswered_def)
    have "?above = {}" using at [OF mm True] True by (auto simp: up_to_def pos_def)
    then show ?thesis by (metis card.empty zero_less_numeral)
  next
    case False
    then have m10: "m \<in> set (take 10 (newest_first ?H))"
      using assms(2) by (auto simp: history_rows_def min_def)
    then have "m \<in> set (newest_first ?H)" by (rule in_set_takeD)
    then have c10: "card {y \<in> set (newest_first ?H). pos m < pos y} < 10"
      using taken_iff [OF sH] m10 by blast
    have "?above \<subseteq> {y \<in> set (newest_first ?H). pos m < pos y} \<union> {y \<in> set ms. ms_id y = hwm}"
      by (auto simp: unanswered_def user_message_def)
    moreover have "card {y \<in> set ms. ms_id y = hwm} \<le> 1"
      using assms(1) by (intro card_le_Suc0_iff_eq [THEN iffD2, unfolded One_nat_def [symmetric]])
        (auto simp: distinct_map inj_on_def)
    ultimately have "card ?above \<le> card {y \<in> set (newest_first ?H). pos m < pos y} + 1"
      by (rule card_two_parts) auto
    with c10 show ?thesis by linarith
  qed
  then have "m \<in> set (take 11 (newest_first ?U))" using taken_iff [OF sU mU] by blast
  then show ?thesis by (simp add: unanswered_user_window_def)
qed

theorem agent_reads_only_vetted_messages_witness:
  "demo_message 3 1000 ''a'' \<in> set (unanswered_user_window
     [demo_message 5 3000 ''b'', demo_message 3 1000 ''a''] None 5)"
proof (rule agent_reads_only_vetted_messages)
  show "distinct (map ms_id [demo_message 5 3000 ''b'', demo_message 3 1000 ''a''])" by code_simp
  have "history_rows [demo_message 5 3000 ''b'', demo_message 3 1000 ''a''] 5 = [demo_message 3 1000 ''a'']"
    by code_simp
  then show "demo_message 3 1000 ''a'' \<in> set (take 10 (history_rows
      [demo_message 5 3000 ''b'', demo_message 3 1000 ''a''] 5))
    \<or> (demo_message 3 1000 ''a'' \<in> set [demo_message 5 3000 ''b'', demo_message 3 1000 ''a'']
       \<and> ms_id (demo_message 3 1000 ''a'') = 5 \<and> user_message (demo_message 3 1000 ''a''))"
    by simp
qed (simp_all add: demo_message_def after_mark_def)

section \<open>Everything that writes a conversation\<close>

text \<open>
  The steps of a conversation under all its writers at once, in any order: ownership commands,
  guardrail runs, rows inserted, edited, flagged or removed, replies committed by any run under any
  version, legacy replies and watermark moves, and the step from waiting to bot. The creation time
  of a row is a function \<open>born\<close> of its id: the database sets it once. Committed answers are logged
  with the position of the message they answered.
\<close>

record live =
  lv_chat :: chat
  lv_answers :: "(int \<times> nat) list"

definition rows_born :: "(nat \<Rightarrow> int) \<Rightarrow> chat \<Rightarrow> bool" where
  "rows_born born c = (\<forall>m \<in> set (ch_messages c). ms_at m = born (ms_id m))"

inductive live_step :: "(nat \<Rightarrow> int) \<Rightarrow> live \<Rightarrow> live \<Rightarrow> bool" for born where
  command: "ce_now e = born (ce_message_id e) \<Longrightarrow>
    live_step born v (v\<lparr>lv_chat := after_command e key cmd (lv_chat v)\<rparr>)"
| rows: "rows_born born (lv_chat v\<lparr>ch_messages := ms\<rparr>) \<Longrightarrow>
    live_step born v (v\<lparr>lv_chat := (lv_chat v)\<lparr>ch_messages := ms\<rparr>\<rparr>)"
| gated: "gw_chat w = lv_chat v \<Longrightarrow> run_inbound_gate e i content m w = Inr (w', m', r) \<Longrightarrow>
    live_step born v (v\<lparr>lv_chat := gw_chat w'\<rparr>)"
| answer: "ce_now e = born (ce_message_id e) \<Longrightarrow>
    finalize_reply e ok content hwm guard version (lv_chat v) = Inr (Answered c') \<Longrightarrow>
    created_at (ch_messages (lv_chat v)) hwm = Some a \<Longrightarrow>
    live_step born v \<lparr>lv_chat = c', lv_answers = lv_answers v @ [(a, hwm)]\<rparr>"
| legacy_reply: "ce_now e = born (ce_message_id e) \<Longrightarrow>
    send_bot_message e content version ok (lv_chat v) = Inr (Answered c') \<Longrightarrow>
    live_step born v (v\<lparr>lv_chat := c'\<rparr>)"
| legacy_mark: "live_step born v (v\<lparr>lv_chat := advance_watermark i (lv_chat v)\<rparr>)"
| served: "live_step born v (v\<lparr>lv_chat := waiting_to_bot s (lv_chat v)\<rparr>)"

abbreviation live_steps :: "(nat \<Rightarrow> int) \<Rightarrow> live \<Rightarrow> live \<Rightarrow> bool" where
  "live_steps born \<equiv> (live_step born)\<^sup>*\<^sup>*"

definition mark_of :: "live \<Rightarrow> (int \<times> nat) option" where
  "mark_of v = cs_mark (ch_session (lv_chat v))"

definition answers_ok :: "(nat \<Rightarrow> int) \<Rightarrow> live \<Rightarrow> bool" where
  "answers_ok born v =
     (rows_born born (lv_chat v) \<and> sorted_wrt (<) (lv_answers v)
      \<and> (\<forall>p \<in> set (lv_answers v). fst p = born (snd p) \<and> (\<exists>mk. mark_of v = Some mk \<and> p \<le> mk)))"

subsection \<open>Rows and watermark under each step\<close>

lemma move_messages:
  assumes "move e c c'"
  shows "ch_messages c' = ch_messages c
    \<or> (\<exists>m. ms_id m = ce_message_id e \<and> ms_at m = ce_now e \<and> ch_messages c' = ch_messages c @ [m])"
  using assms
  by cases (auto simp: apply_claim_def and_then_Inr apply_unassigned_pause_def apply_release_def
      agent_message_def)

lemma moves_rows:
  assumes "moves e c c'" "rows_born born c" "ce_now e = born (ce_message_id e)"
  shows "rows_born born c'"
  using assms(1,2)
proof (induction rule: rtranclp_induct)
  case (step y z)
  then show ?case using move_messages [OF step(2)] assms(3) by (auto simp: rows_born_def)
qed simp

lemma after_command_rows:
  assumes "rows_born born c" "ce_now e = born (ce_message_id e)"
  shows "rows_born born (after_command e key cmd c)
    \<and> cs_mark (ch_session (after_command e key cmd c)) = cs_mark (ch_session c)"
proof -
  obtain c1 ys where c1: "moves e c c1"
    "after_command e key cmd c = c1 \<or> after_command e key cmd c = c1\<lparr>ch_results := ys\<rparr>"
    by (rule after_command_moves)
  then show ?thesis using moves_rows [OF c1(1) assms] moves_frame [OF c1(1)] by (auto simp: rows_born_def)
qed

lemma on_message_rows:
  "rows_born born c \<Longrightarrow> (\<And>m. ms_id (f m) = ms_id m \<and> ms_at (f m) = ms_at m) \<Longrightarrow> rows_born born (on_message i f c)"
  by (auto simp: rows_born_def on_message_def)

lemma enforce_block_rows:
  assumes "enforce_block e i cat m w = Inr (w', m', r)" "rows_born born (gw_chat w)"
  shows "rows_born born (gw_chat w') \<and> cs_mark (ch_session (gw_chat w')) = cs_mark (ch_session (gw_chat w))"
  using assms
  by (auto simp: enforce_block_def atomic_disable_def mark_message_flagged_def Let_def rows_born_def
      on_message_def split: if_splits)

lemma gate_rows:
  assumes "run_inbound_gate e i content m w = Inr (w', m', r)" "rows_born born (gw_chat w)"
  shows "rows_born born (gw_chat w') \<and> cs_mark (ch_session (gw_chat w')) = cs_mark (ch_session (gw_chat w))"
  using assms(1)
proof (cases rule: run_gate_cases)
  case disabled
  then show ?thesis using assms(2) by (simp add: mark_message_flagged_def on_message_rows)
next
  case replay
  show ?thesis
  proof (cases "\<exists>cat. enforce_block e i cat m w = Inr (w', m', r)")
    case True
    then show ?thesis using enforce_block_rows assms(2) by blast
  next
    case False
    then have "gw_chat w' = gw_chat w" using replay_again [OF replay(3) order_refl] by blast
    then show ?thesis using assms(2) by simp
  qed
next
  case (first w1 k st)
  have "rows_born born (gw_chat w1)" "cs_mark (ch_session (gw_chat w1)) = cs_mark (ch_session (gw_chat w))"
    using first(2) assms(2) by (auto simp: claim_message_def on_message_rows split: option.splits if_splits)
  then show ?thesis
    using first(4) enforce_block_rows [of e i _ m "w1\<lparr>gw_loop := k\<rparr>" w' m' r born]
      warn_solicitation_again [of e i m "w1\<lparr>gw_loop := k\<rparr>" w' m' r]
    by (elim disjE) auto
qed

lemma finalize_answered:
  assumes "finalize_reply e ok content hwm guard version c = Inr (Answered c')"
  obtains a where "created_at (ch_messages c) hwm = Some a"
    "c' = add_message e (bot_message e content) (on_session (\<lambda>s. s\<lparr>cs_mark := Some (a, hwm)\<rparr>) c)"
    "cs_auto (ch_session c)" "cs_status (ch_session c) = BotStatus \<or> cs_status (ch_session c) = Waiting"
    "cs_version (ch_session c) = version" "mark_before (cs_mark (ch_session c)) (a, hwm)"
    "guard \<longrightarrow> \<not> newer_user_message (ch_messages c) hwm" "ok"
    "ce_message_id e \<notin> set (map ms_id (ch_messages c))"
  using assms by (auto simp: finalize_reply_def Let_def split: option.splits if_splits)

lemma waiting_to_bot_frame [simp]:
  "ch_messages (waiting_to_bot s c) = ch_messages c" "ch_handoffs (waiting_to_bot s c) = ch_handoffs c"
  "cs_mark (ch_session (waiting_to_bot s c)) = cs_mark (ch_session c)"
  "cs_owner (ch_session (waiting_to_bot s c)) = cs_owner (ch_session c)"
  "cs_version (ch_session (waiting_to_bot s c)) = cs_version (ch_session c)"
  by (simp_all add: waiting_to_bot_def)

lemma advance_watermark_cases:
  "advance_watermark i c = c
   \<or> (\<exists>a. created_at (ch_messages c) i = Some a \<and> mark_before (cs_mark (ch_session c)) (a, i)
        \<and> advance_watermark i c = on_session (\<lambda>s. s\<lparr>cs_mark := Some (a, i)\<rparr>) c)"
  by (auto simp: advance_watermark_def split: option.splits)

lemma created_at_mem:
  "created_at ms i = Some a \<Longrightarrow> \<exists>m \<in> set ms. ms_id m = i \<and> ms_at m = a"
  using find_Some_iff [of "\<lambda>m. ms_id m = i" ms] nth_mem by (fastforce simp: created_at_def)

lemma rows_born_created: "rows_born born c \<Longrightarrow> created_at (ch_messages c) i = Some a \<Longrightarrow> a = born i"
  by (auto simp: rows_born_def dest: created_at_mem)

lemma answers_ok_same_mark:
  assumes "answers_ok born v" "rows_born born c" "cs_mark (ch_session c) = mark_of v"
  shows "answers_ok born (v\<lparr>lv_chat := c\<rparr>)"
  using assms by (simp add: answers_ok_def mark_of_def)

lemma answers_ok_later_mark:
  assumes "answers_ok born v" "rows_born born c" "cs_mark (ch_session c) = Some p" "mark_before (mark_of v) p"
  shows "answers_ok born (v\<lparr>lv_chat := c\<rparr>)"
proof -
  have "q \<le> p" if q: "q \<in> set (lv_answers v)" for q
  proof -
    obtain mk where "mark_of v = Some mk" "q \<le> mk" using assms(1) q by (auto simp: answers_ok_def)
    then show ?thesis using assms(4) by (auto simp: mark_before_def intro: order.trans less_imp_le)
  qed
  then show ?thesis using assms by (auto simp: answers_ok_def mark_of_def)
qed

lemma live_step_ok:
  assumes "live_step born v v'" "answers_ok born v" shows "answers_ok born v'"
  using assms(1)
proof cases
  case (command e key cmd)
  have "rows_born born (lv_chat v)" using assms(2) by (simp add: answers_ok_def)
  then show ?thesis unfolding command(1)
    using after_command_rows [of born "lv_chat v" e key cmd] command(2) by (intro answers_ok_same_mark assms(2)) (auto simp: mark_of_def)
next
  case (rows ms)
  then show ?thesis using assms(2) by (simp add: answers_ok_def mark_of_def)
next
  case (gated w e i content m w' m' r)
  have "rows_born born (gw_chat w)" using assms(2) gated(2) by (simp add: answers_ok_def)
  then show ?thesis unfolding gated(1)
    using gate_rows [OF gated(3)] gated(2) by (intro answers_ok_same_mark assms(2)) (auto simp: mark_of_def)
next
  case (answer e ok content hwm guard version c' a)
  obtain a' where a': "created_at (ch_messages (lv_chat v)) hwm = Some a'"
    "c' = add_message e (bot_message e content) (on_session (\<lambda>s. s\<lparr>cs_mark := Some (a', hwm)\<rparr>) (lv_chat v))"
    "mark_before (cs_mark (ch_session (lv_chat v))) (a', hwm)"
    by (rule finalize_answered [OF answer(3)])
  then have [simp]: "a' = a" using answer(4) by simp
  have rows: "rows_born born c'"
    using assms(2) answer(2) by (auto simp: a'(2) answers_ok_def rows_born_def bot_message_def)
  have before: "\<forall>q \<in> set (lv_answers v). q < (a, hwm)"
    using assms(2) a'(3) by (force simp: answers_ok_def mark_of_def mark_before_def)
  have "a = born hwm" using rows_born_created assms(2) answer(4) by (auto simp: answers_ok_def)
  then show ?thesis unfolding answer(1)
    using assms(2) rows before by (auto simp: answers_ok_def mark_of_def a'(2) sorted_wrt_append less_imp_le)
next
  case (legacy_reply e content version ok c')
  then have "c' = add_message e (bot_message e content) (lv_chat v)"
    by (auto simp: send_bot_message_def split: if_splits)
  then show ?thesis unfolding legacy_reply(1) using assms(2) legacy_reply(2)
    by (intro answers_ok_same_mark assms(2)) (auto simp: answers_ok_def rows_born_def mark_of_def bot_message_def)
next
  case (legacy_mark i)
  have rows: "rows_born born (advance_watermark i (lv_chat v))"
    using assms(2) advance_watermark_cases [of i "lv_chat v"] by (auto simp: answers_ok_def rows_born_def)
  show ?thesis
    using advance_watermark_cases [of i "lv_chat v"]
  proof (elim disjE exE conjE)
    assume "advance_watermark i (lv_chat v) = lv_chat v"
    then show ?thesis using legacy_mark assms(2) by simp
  next
    fix a assume "mark_before (cs_mark (ch_session (lv_chat v))) (a, i)"
      "advance_watermark i (lv_chat v) = on_session (\<lambda>s. s\<lparr>cs_mark := Some (a, i)\<rparr>) (lv_chat v)"
    then show ?thesis unfolding legacy_mark(1)
      using rows by (intro answers_ok_later_mark [OF assms(2), where p = "(a, i)"]) (auto simp: mark_of_def)
  qed
next
  case (served s)
  then show ?thesis using assms(2) unfolding served(1)
    by (intro answers_ok_same_mark assms(2)) (auto simp: answers_ok_def rows_born_def mark_of_def)
qed

text \<open>
  C3: No customer message is answered twice: whatever the interleaving of runs, ownership commands,
  guardrails, inserted, edited and deleted rows and legacy replies, the messages answered by
  committed coalesced replies come in strictly increasing order of creation, each at most once.
\<close>

theorem no_message_answered_twice:
  assumes "live_steps born v v'" "rows_born born (lv_chat v)" "lv_answers v = []"
  shows "sorted_wrt (<) (lv_answers v') \<and> distinct (map snd (lv_answers v'))"
proof -
  have "answers_ok born v'"
    using assms(1)
  proof (induction rule: rtranclp_induct)
    case base
    then show ?case using assms(2,3) by (simp add: answers_ok_def)
  next
    case (step y z)
    then show ?case using live_step_ok by blast
  qed
  then have s: "sorted_wrt (<) (lv_answers v')" "\<forall>p \<in> set (lv_answers v'). fst p = born (snd p)"
    by (auto simp: answers_ok_def)
  have "distinct (lv_answers v')" using s(1) by (simp add: strict_sorted_iff)
  moreover have "inj_on snd (set (lv_answers v'))"
    using s(2) by (auto simp: inj_on_def prod_eq_iff)
  ultimately show ?thesis using s(1) by (simp add: distinct_map)
qed

subsection \<open>The handlers are made of these steps\<close>

lemma command_steps:
  assumes "ce_now e = born (ce_message_id e)" "run_command e key cmd (lv_chat v) = Inr (c', r)"
  shows "live_steps born v (v\<lparr>lv_chat := c'\<rparr>)"
  using r_into_rtranclp [of "live_step born", OF command [of e born v key cmd, OF assms(1)]] assms(2)
  by (simp add: after_command_def)

lemma handle_bot_handoff_steps:
  assumes "ce_now (te_after te) = born (ce_message_id (te_after te))"
    and "handle_bot_handoff te why (lv_chat v) = Inr c'"
  shows "live_steps born v (v\<lparr>lv_chat := c'\<rparr>)"
proof (cases "ce_handoff_disabled (te_after te)")
  case True
  then obtain f where f: "send_bot_message (te_after te) (te_fallback te) None True (lv_chat v) = Inr f"
    "c' = (case f of Answered c \<Rightarrow> c | Stale \<Rightarrow> lv_chat v)"
    using assms(2) by (auto simp: handle_bot_handoff_def Let_def and_then_Inr)
  show ?thesis
  proof (cases f)
    case (Answered c)
    then show ?thesis using f legacy_reply [where born = born, OF assms(1)] by (auto intro!: r_into_rtranclp)
  qed (use f in simp)
next
  case False
  then obtain r where "run_command ((te_after te)\<lparr>ce_tenant := None\<rparr>) None (RequestHandoff why None True) (lv_chat v)
      = Inr (c', r)"
    using assms(2) by (auto simp: handle_bot_handoff_def Let_def and_then_Inr)
  then show ?thesis by (rule command_steps [rotated]) (simp add: assms(1))
qed

lemma answer_steps:
  assumes "ce_now e = born (ce_message_id e)"
    and "finalize_reply e ok content hwm guard version (lv_chat v) = Inr (Answered c')"
  shows "\<exists>a. live_steps born v \<lparr>lv_chat = c', lv_answers = lv_answers v @ [(a, hwm)]\<rparr>"
proof -
  obtain a where "created_at (ch_messages (lv_chat v)) hwm = Some a"
    by (rule finalize_answered [OF assms(2)])
  then show ?thesis using answer [where born = born, OF assms] by blast
qed

lemma handoff_after:
  assumes "live_steps born v u" "ce_now (te_after te) = born (ce_message_id (te_after te))"
    and "handle_bot_handoff te why (lv_chat u) = Inr c2"
  shows "live_steps born v (u\<lparr>lv_chat := c2\<rparr>)"
  using assms(1) handle_bot_handoff_steps [where born = born, OF assms(2,3)] by (rule rtranclp_trans)

lemma served_after:
  assumes "live_steps born v (u\<lparr>lv_chat := c2\<rparr>)" shows "live_steps born v (u\<lparr>lv_chat := waiting_to_bot s c2\<rparr>)"
  using rtranclp.rtrancl_into_rtrancl [OF assms served [of born "u\<lparr>lv_chat := c2\<rparr>" s]] by simp

text \<open>The commit half of a turn takes such steps, and logs its message at most once.\<close>

lemma finish_turn_steps:
  assumes "ce_now (te_cmd te) = born (ce_message_id (te_cmd te))"
    and "ce_now (te_after te) = born (ce_message_id (te_after te))"
    and "finish_turn te p result (lv_chat v) = (c', r)"
  shows "(c' = lv_chat v \<and> r \<noteq> Inr RsAnswered)
    \<or> (\<exists>a. live_steps born v \<lparr>lv_chat = c', lv_answers = lv_answers v @ [(a, ms_id (pl_hwm p))]\<rparr>)"
proof -
  let ?hwm = "ms_id (pl_hwm p)"
  let ?fin = "\<lambda>content guard ok. finalize_reply (te_cmd te) ok content ?hwm guard (pl_version p) (lv_chat v)"
  have logged: "\<exists>a. live_steps born v \<lparr>lv_chat = c1, lv_answers = lv_answers v @ [(a, ?hwm)]\<rparr>"
    if "?fin content guard ok = Inr (Answered c1)" for content guard ok c1
    using answer_steps [where born = born, OF assms(1) that] .
  have handed: "\<exists>a. live_steps born v \<lparr>lv_chat = c2, lv_answers = lv_answers v @ [(a, ?hwm)]\<rparr>"
    if "?fin content guard ok = Inr (Answered c1)" "handle_bot_handoff te why c1 = Inr c2" for content guard ok c1 c2 why
  proof -
    note l = logged [OF that(1)]
    obtain a where a: "live_steps born v \<lparr>lv_chat = c1, lv_answers = lv_answers v @ [(a, ?hwm)]\<rparr>"
      using l by blast
    show ?thesis using handoff_after [OF a assms(2), of why c2] that(2) by auto
  qed
  have bot: "\<exists>a. live_steps born v \<lparr>lv_chat = waiting_to_bot s c1, lv_answers = lv_answers v @ [(a, ?hwm)]\<rparr>"
    if "\<exists>a. live_steps born v \<lparr>lv_chat = c1, lv_answers = lv_answers v @ [(a, ?hwm)]\<rparr>" for s c1
  proof -
    from that obtain a where a: "live_steps born v \<lparr>lv_chat = c1, lv_answers = lv_answers v @ [(a, ?hwm)]\<rparr>" by blast
    show ?thesis
      using served_after [of born v c1 "\<lparr>lv_chat = c1, lv_answers = lv_answers v @ [(a, ?hwm)]\<rparr>" s] a by auto
  qed
  show ?thesis
  proof (cases "pl_auto p")
    case None
    show ?thesis
    proof (cases result)
      case (Some res)
      let ?out = "resolve_turn_outcome (te_output_guard te) res"
      show ?thesis
      proof (cases "?fin (tr_content ?out) (tr_stale_guard ?out) (te_question_ok te)")
        case (Inr f)
        show ?thesis
        proof (cases f)
          case (Answered c1)
          note fin = Inr [unfolded Answered]
          show ?thesis
          proof (cases "tr_reason ?out")
            case None
            then have "c' = waiting_to_bot (pl_session p) c1"
              using assms(3) Some fin \<open>pl_auto p = None\<close> by (simp add: finish_turn_def Let_def)
            then show ?thesis using bot logged [OF fin] by blast
          next
            case (Some why)
            show ?thesis
            proof (cases "handle_bot_handoff te why c1")
              case (Inl err)
              then have "c' = c1"
                using assms(3) Some \<open>result = Some res\<close> fin \<open>pl_auto p = None\<close>
                by (simp add: finish_turn_def Let_def)
              then show ?thesis using logged [OF fin] by blast
            next
              case (Inr c2)
              then have "c' = waiting_to_bot (after_handoff te c2 (pl_session p)) c2"
                using assms(3) Some \<open>result = Some res\<close> fin \<open>pl_auto p = None\<close>
                by (simp add: finish_turn_def Let_def)
              then show ?thesis using bot handed [OF fin Inr] by blast
            qed
          qed
        qed (use assms(3) None Some Inr in \<open>auto simp: finish_turn_def Let_def\<close>)
      qed (use assms(3) None Some in \<open>auto simp: finish_turn_def Let_def\<close>)
    qed (use assms(3) None in \<open>auto simp: finish_turn_def Let_def\<close>)
  next
    case (Some a)
    show ?thesis
    proof (cases a)
      case (GuardrailReply t)
      then show ?thesis using assms(3) Some logged [where content = t and guard = True and ok = True]
        by (auto simp: finish_turn_def Let_def split: sum.splits fin.splits)
    next
      case (EscalationReply t)
      then show ?thesis using assms(3) Some logged [where content = "te_localize te t" and guard = False and ok = True]
          handed [where content = "te_localize te t" and guard = False and ok = True and why = BotEscalationKeyword]
        by (auto simp: finish_turn_def Let_def split: sum.splits fin.splits)
    qed
  qed
qed

theorem no_message_answered_twice_witness:
  "\<exists>c'. distinct (map snd (lv_answers
     \<lparr>lv_chat = c', lv_answers = [] @ [(2000, 3)]\<rparr>)) \<and> cs_mark (ch_session c') = Some (2000, 3)"
proof -
  let ?e = "(demo_env 5)\<lparr>ce_message_id := 50\<rparr>"
  let ?c = "demo_chat\<lparr>ch_messages := [demo_message 3 2000 ''hi'']\<rparr>"
  let ?born = "\<lambda>i. if i = 50 then 5000 else 2000 :: int"
  let ?v = "\<lparr>lv_chat = ?c, lv_answers = []\<rparr>"
  obtain r where r: "finalize_reply ?e True ''hello'' 3 True 0 ?c = r" by simp
  have "(case finalize_reply ?e True ''hello'' 3 True 0 ?c of Inr (Answered c') \<Rightarrow> True | _ \<Rightarrow> False)"
    by code_simp
  then obtain c' where c': "finalize_reply ?e True ''hello'' 3 True 0 ?c = Inr (Answered c')"
    by (auto split: sum.splits fin.splits)
  have at: "created_at (ch_messages ?c) 3 = Some 2000" by code_simp
  have "live_step ?born ?v \<lparr>lv_chat = c', lv_answers = lv_answers ?v @ [(2000, 3)]\<rparr>"
    by (rule answer [of ?e ?born True "''hello''" 3 True 0]) (use c' at in \<open>simp_all add: demo_env_def\<close>)
  then have steps: "live_steps ?born ?v \<lparr>lv_chat = c', lv_answers = [] @ [(2000, 3)]\<rparr>" by auto
  have "rows_born ?born (lv_chat ?v)" by (simp add: rows_born_def demo_message_def)
  moreover obtain a where "created_at (ch_messages ?c) 3 = Some a"
    "c' = add_message ?e (bot_message ?e ''hello'') (on_session (\<lambda>s. s\<lparr>cs_mark := Some (a, 3)\<rparr>) ?c)"
    by (rule finalize_answered [OF c'])
  then have "cs_mark (ch_session c') = Some (2000, 3)" using at by simp
  ultimately show ?thesis using no_message_answered_twice [OF steps] by auto
qed

section \<open>The ownership fence\<close>

lemma finish_turn_answered:
  assumes "finish_turn te p result c = (c', Inr RsAnswered)"
  obtains content guard ok c1 where
    "finalize_reply (te_cmd te) ok content (ms_id (pl_hwm p)) guard (pl_version p) c = Inr (Answered c1)"
  using assms
  by (auto simp: finish_turn_def Let_def split: option.splits autoresponse.splits sum.splits fin.splits)

text \<open>
  C5: A committed reply was never overtaken: when a turn that started under some ownership version
  commits its answer after any commands of operators, customers and sweeps in between, the bot owned
  the conversation at every moment of the run, and the automatic replies were on at the commit.
\<close>

theorem committed_reply_was_never_overtaken:
  assumes "finish_turn te p result (after_commands (xs @ ys) c) = (c', Inr RsAnswered)"
    and "pl_version p = cs_version (ch_session c)" "chat_ok c"
  shows "cs_owner (ch_session (after_commands xs c)) = BotOwned
    \<and> cs_auto (ch_session (after_commands (xs @ ys) c))"
proof -
  let ?d = "after_commands (xs @ ys) c"
  obtain content guard ok c1 where fin:
    "finalize_reply (te_cmd te) ok content (ms_id (pl_hwm p)) guard (pl_version p) ?d = Inr (Answered c1)"
    by (rule finish_turn_answered [OF assms(1)])
  have d: "cs_auto (ch_session ?d)" "cs_status (ch_session ?d) = BotStatus \<or> cs_status (ch_session ?d) = Waiting"
    "cs_version (ch_session ?d) = cs_version (ch_session c)"
    using finalize_answered [OF fin] assms(2) by metis+
  have "chat_ok ?d" by (rule after_commands_ok [OF assms(3)])
  then have "cs_owner (ch_session ?d) = BotOwned"
    using d(2) by (cases "cs_owner (ch_session ?d)") (auto simp: chat_ok_def session_ok_def)
  moreover have "cs_owner (ch_session ?d) = cs_owner (ch_session c)"
    "cs_owner (ch_session (after_commands xs c)) = cs_owner (ch_session c)"
    using conv.unmoved [of "xs @ ys" c] conv.unmoved_between [of xs ys c] d(3) by (simp_all add: after_commands_def)
  ultimately show ?thesis using d(1) by simp
qed

definition demo_plan :: plan where
  "demo_plan =
     \<lparr>pl_hwm = demo_message 3 2000 ''hi'', pl_version = 0, pl_session = ch_session demo_chat, pl_auto = None,
      pl_history = []\<rparr>"

theorem committed_reply_was_never_overtaken_witness:
  "cs_owner (ch_session (after_commands [(demo_env 20, None, CancelCmd CustomerActor None)]
     (demo_chat\<lparr>ch_messages := [demo_message 3 2000 ''hi'']\<rparr>))) = BotOwned"
proof -
  let ?c = "demo_chat\<lparr>ch_messages := [demo_message 3 2000 ''hi'']\<rparr>"
  let ?x = "(demo_env 20, None, CancelCmd CustomerActor None)"
  let ?r = "Some \<lparr>ar_kind = Response ''hello'', ar_handoff = False\<rparr>"
  obtain c' r where f: "finish_turn demo_turn_env demo_plan ?r (after_commands ([?x] @ []) ?c) = (c', r)" by force
  have "snd (finish_turn demo_turn_env demo_plan ?r (after_commands ([?x] @ []) ?c)) = Inr RsAnswered"
    by code_simp
  then have r: "r = Inr RsAnswered" unfolding f by simp
  have "pl_version demo_plan = cs_version (ch_session ?c)" "chat_ok ?c" by code_simp+
  from committed_reply_was_never_overtaken [OF f [unfolded r] this] show ?thesis by blast
qed

end
