(* ===== verification/TurnQueue.thy ===== *)
theory TurnQueue
  imports TurnProps
begin

text \<open>
  The queue side of the coalesced turns: the debounce window, the session lock, the recovery drain,
  the jobs that are kept while a message waits, and the agreement of the coalesced and the legacy
  path on what an agent result leads to.
\<close>

section \<open>The debounce window\<close>

text \<open>
  The debounce is bounded both ways: for messages in order the due time is at most two and a
  half seconds after the newest and six seconds after the oldest pending message, at least 700
  milliseconds after the newest unless the six seconds are over, and it never moves back when
  another message joins the burst, unless the message before was a lone contact fragment.
\<close>

theorem due_time_is_bounded:
  assumes "tt_first t \<le> tt_last t" "tt_last t \<le> b"
  shows "compute_due_at t \<le> tt_last t + 2500 \<and> compute_due_at t \<le> tt_first t + 6000
    \<and> min (tt_last t + 700) (tt_first t + 6000) \<le> compute_due_at t
    \<and> (\<not> tt_capture t \<longrightarrow>
       compute_due_at t \<le> compute_due_at (t\<lparr>tt_last := b, tt_count := tt_count t + 1, tt_capture := k\<rparr>))"
  using assms
  by (auto simp: compute_due_at_def Let_def quiet_lone_ms_def quiet_burst_ms_def quiet_capture_ms_def
      max_wait_ms_def)

theorem due_time_is_bounded_witness:
  "compute_due_at \<lparr>tt_first = 1000, tt_last = 1500, tt_count = 2, tt_capture = False\<rparr> \<le> 4000"
  using due_time_is_bounded
    [of "\<lparr>tt_first = 1000, tt_last = 1500, tt_count = 2, tt_capture = False\<rparr>" 1500 False] by simp

section \<open>The session lock\<close>

datatype lock_op = AcquireOp nat int | RefreshOp nat int | ReleaseOp nat

fun op_token :: "lock_op \<Rightarrow> nat" where
  "op_token (AcquireOp t _) = t"
| "op_token (RefreshOp t _) = t"
| "op_token (ReleaseOp t) = t"

text \<open>
  A lease: a lock with an owner token and a deadline. While a lease runs, the operations of other
  tokens change nothing and fail.
\<close>

locale lease =
  fixes acquire :: "int \<Rightarrow> nat \<Rightarrow> int \<Rightarrow> 'l \<Rightarrow> 'l \<times> bool"
    and refresh :: "int \<Rightarrow> nat \<Rightarrow> int \<Rightarrow> 'l \<Rightarrow> 'l"
    and release :: "int \<Rightarrow> nat \<Rightarrow> 'l \<Rightarrow> 'l"
    and holder :: "int \<Rightarrow> 'l \<Rightarrow> nat option"
  assumes acquire_free: "snd (acquire now t ttl l) \<longleftrightarrow> holder now l = None"
    and acquire_holds: "holder now l = None \<Longrightarrow> u < now + ttl \<Longrightarrow> holder u (fst (acquire now t ttl l)) = Some t"
    and acquire_taken: "holder now l \<noteq> None \<Longrightarrow> fst (acquire now t ttl l) = l"
    and refresh_other: "holder now l \<noteq> Some t \<Longrightarrow> refresh now t ttl l = l"
    and release_other: "holder now l \<noteq> Some t \<Longrightarrow> release now t l = l"
begin

fun step :: "int \<times> lock_op \<Rightarrow> 'l \<Rightarrow> 'l" where
  "step (now, AcquireOp t ttl) l = fst (acquire now t ttl l)"
| "step (now, RefreshOp t ttl) l = refresh now t ttl l"
| "step (now, ReleaseOp t) l = release now t l"

lemma others_change_nothing:
  assumes "\<And>u. u < d \<Longrightarrow> holder u l = Some t"
    and "\<forall>x \<in> set xs. fst x < d \<and> op_token (snd x) \<noteq> t"
  shows "fold step xs l = l"
  using assms(2)
proof (induction xs)
  case (Cons x xs)
  have "step x l = l"
  proof (cases x)
    case (Pair now op)
    then have "holder now l = Some t" "op_token op \<noteq> t" using assms(1) Cons.prems by auto
    then show ?thesis using Pair by (cases op) (auto simp: acquire_taken refresh_other release_other)
  qed
  with Cons show ?case by simp
qed simp

lemma excludes:
  assumes "holder now l = None" "\<forall>x \<in> set xs. fst x < now + ttl \<and> op_token (snd x) \<noteq> t"
    and "u < now + ttl"
  shows "\<not> snd (acquire u t' ttl' (fold step xs (fst (acquire now t ttl l))))"
proof -
  have "fold step xs (fst (acquire now t ttl l)) = fst (acquire now t ttl l)"
    by (rule others_change_nothing [where d = "now + ttl" and t = t]) (use assms acquire_holds in auto)
  then show ?thesis using acquire_holds [OF assms(1,3)] by (simp add: acquire_free)
qed

end

interpretation session_lock: lease acquire_lock refresh_lock release_lock lock_holder
  by unfold_locales (auto simp: acquire_lock_def refresh_lock_def release_lock_def lock_holder_def
      split: option.splits)

text \<open>One operation of a worker on the lock of a session, at a time.\<close>

fun lock_step :: "int \<times> lock_op \<Rightarrow> lock \<Rightarrow> lock" where
  "lock_step (now, AcquireOp t ttl) l = fst (acquire_lock now t ttl l)"
| "lock_step (now, RefreshOp t ttl) l = refresh_lock now t ttl l"
| "lock_step (now, ReleaseOp t) l = release_lock now t l"

lemma lock_step_eq: "lock_step = session_lock.step"
proof (intro ext)
  fix x l show "lock_step x l = session_lock.step x l"
    by (cases "(x, l)" rule: lock_step.cases) simp_all
qed

text \<open>
  The session lock excludes: after a worker acquires it, no sequence of acquires, refreshes and
  releases of other workers within the time to live frees it or takes it over, so a second run on
  the same session cannot start.
\<close>

theorem session_lock_excludes_others:
  assumes "acquire_lock now t ttl l = (l', True)"
    and "\<forall>x \<in> set xs. fst x < now + ttl \<and> op_token (snd x) \<noteq> t" "u < now + ttl"
  shows "\<not> snd (acquire_lock u t' ttl' (fold lock_step xs l'))"
proof -
  have "lock_holder now l = None" using assms(1) session_lock.acquire_free [of now t ttl l] by simp
  from session_lock.excludes [OF this assms(2,3)] show ?thesis using assms(1) by (simp add: lock_step_eq)
qed

theorem session_lock_excludes_others_witness:
  "\<not> snd (acquire_lock 50 2 60000
      (fold lock_step [(10, AcquireOp 2 60000), (20, RefreshOp 2 60000), (30, ReleaseOp 2)] (Some (1, 60000))))"
  by (rule session_lock_excludes_others [of 0 1 60000 None])
    (simp_all add: acquire_lock_def lock_holder_def)

section \<open>The two paths\<close>

text \<open>
  The coalesced and the legacy path lead an agent result to the same end: the same handoff with
  the same reason, or none, and, canned texts aside, the same words.
\<close>

theorem both_paths_hand_off_alike:
  "dispatch_legacy g loc r =
     (t, why, stop) \<Longrightarrow>
   tr_reason (resolve_turn_outcome g r) = why
   \<and> (tr_content (resolve_turn_outcome g r) = t \<or> loc (tr_content (resolve_turn_outcome g r)) = t)"
  by (auto simp: dispatch_legacy_def resolve_turn_outcome_def guard_turn_reply_def map_agent_result_def
      Let_def split: agent_kind.splits prod.splits if_splits bool.splits)

theorem both_paths_hand_off_alike_witness:
  "tr_reason (resolve_turn_outcome (\<lambda>t. (False, t)) \<lparr>ar_kind = AgentError ''x'' True, ar_handoff = True\<rparr>)
     = Some EscalationTrigger"
proof -
  have "dispatch_legacy (\<lambda>t. (False, t)) (\<lambda>t. t) \<lparr>ar_kind = AgentError ''x'' True, ar_handoff = True\<rparr>
      = (''x'', Some EscalationTrigger, True)" by code_simp
  from both_paths_hand_off_alike [OF this] show ?thesis by simp
qed

section \<open>Jobs\<close>

text \<open>How a run with the lock held ends.\<close>

lemma finish_run_rearms:
  assumes "(case finish_turn te p result c of
             (c', r) \<Rightarrow>
               (let w1 = w\<lparr>tw_gate := g\<lparr>gw_chat := c'\<rparr>\<rparr>
                in case r of
                     Inl err \<Rightarrow> (rearm_with_backoff je attempt w1, JobFailed err)
                   | Inr st \<Rightarrow>
                       ((if st = RsAnswered
                         then w1\<lparr>tw_state := clear_if_consumed now i (tw_state w1)\<rparr>
                         else if st = RsStale
                         then rearm_with_backoff je attempt w1 else w1),
                        JobRan st))) = (w', r)"
    and "r \<notin> {JobRan RsAnswered, JobRan RsNoop}" "\<And>c'. finish_turn te p result c \<noteq> (c', Inr RsPendingDocument)"
  shows "\<exists>u. tw_jobs u = tw_jobs w \<and> w' = rearm_with_backoff je attempt u"
proof -
  obtain c' o' where f: "finish_turn te p result c = (c', o')" by force
  let ?u = "w\<lparr>tw_gate := g\<lparr>gw_chat := c'\<rparr>\<rparr>"
  have "w' = rearm_with_backoff je attempt ?u"
    using assms(1,2) assms(3) [of c'] unfolding f prod.case Let_def
    by (cases o'; (cases "projr o'")?) auto
  then show ?thesis by (intro exI [of _ ?u]) simp
qed

lemma finish_turn_status:
  "finish_turn te p result c \<noteq> (c', Inr RsPendingDocument)"
  by (auto simp: finish_turn_def Let_def split: option.splits autoresponse.splits sum.splits fin.splits)

lemma begin_turn_stops:
  "begin_turn te s pending w = Inr (g, BegunStop st) \<Longrightarrow> st = RsNoop \<or> st = RsPendingDocument"
  by (auto simp: begin_turn_def Let_def split: prod.splits if_splits sum.splits)

lemma run_job_rearms:
  assumes "run_job je attempt w = (w', r)"
    and "r \<notin> {JobNothingPending, JobDrained, JobRan RsAnswered, JobRan RsNoop}"
  shows "\<exists>u delay. tw_jobs u = tw_jobs w \<and> (w' = rearm je delay 0 u \<or> w' = rearm_with_backoff je attempt u)"
proof -
  let ?now = "job_now je" and ?te = "je_turn je" and ?g = "tw_gate w"
  let ?c = "gw_chat ?g"
  let ?ms = "ch_messages ?c" and ?mark = "cs_mark (ch_session ?c)"
  show ?thesis
  proof (cases "newest_unanswered ?ms ?mark")
    case None
    then show ?thesis using assms
      by (auto simp: run_job_def Let_def split: if_splits)
  next
    case (Some pending)
    let ?due = "resolve_due_at ?now (tw_state w) ?ms ?mark pending"
    have custom: "\<not> je_custom je" using assms Some by (auto simp: run_job_def Let_def)
    show ?thesis
    proof (cases "?now < ?due")
      case True
      then have "w' = rearm je (?due - ?now) 0 w" using assms(1) Some custom by (simp add: run_job_def Let_def)
      then show ?thesis by blast
    next
      case False
      note run = assms(1) [unfolded run_job_def Let_def Some option.case if_not_P [OF custom] if_not_P [OF False]]
      show ?thesis
      proof (cases "begin_turn ?te (ch_session ?c) pending ?g")
        case (Inl err)
        then obtain g where "err = FlagNotWritten g" by (cases err)
        then have "w' = rearm_with_backoff je attempt (w\<lparr>tw_gate := g\<rparr>)" using run Inl by simp
        then show ?thesis by (intro exI [of _ "w\<lparr>tw_gate := g\<rparr>"]) simp
      next
        case (Inr x)
        obtain g b where x: "x = (g, b)" by force
        show ?thesis
        proof (cases b)
          case (BegunStop st)
          then have *: "r = JobRan st"
            "w' = (if st = RsPendingDocument then rearm je (pending_document_delay ?now ?ms) 0 (w\<lparr>tw_gate := g\<rparr>)
                   else w\<lparr>tw_gate := g\<rparr>)"
            using run Inr x by auto
          then show ?thesis
          proof (cases "st = RsPendingDocument")
            case True
            then show ?thesis using * by (intro exI [of _ "w\<lparr>tw_gate := g\<rparr>"]) auto
          next
            case False
            have "st = RsNoop \<or> st = RsPendingDocument"
              using begin_turn_stops [of ?te "ch_session ?c" pending ?g g st] Inr x BegunStop by simp
            then show ?thesis using False * assms(2) by auto
          qed
        next
          case (BegunRun p)
          have "\<exists>u. tw_jobs u = tw_jobs w \<and> w' = rearm_with_backoff je attempt u"
            by (rule finish_run_rearms [where te = ?te and p = p and result = "je_agent je" and g = g
                  and c = "je_meanwhile je (gw_chat g)" and i = "ms_id pending" and now = ?now and r = r])
              (use run Inr x BegunRun assms(2) finish_turn_status in \<open>simp_all add: Let_def\<close>)
          then show ?thesis by blast
        qed
      qed
    qed
  qed
qed

text \<open>
  C27: No job is dropped while a message waits: a run of the processor, with Redis and the queue up,
  leaves a new job for the session, with the failure count reset or raised by one and not before
  now, unless the message was answered, nothing was pending, the drain forwarded it, the turn is one
  the bot must not take, or twelve failures in a row have been used up.
\<close>

theorem waiting_message_keeps_a_job:
  assumes "process_job je attempt w = (w', r)" "je_redis je" "je_queue je" "attempt < 12" "0 \<le> je_jitter je"
    and "r \<notin> {JobNothingPending, JobDrained, JobRan RsAnswered, JobRan RsNoop}"
  shows "\<exists>j. tw_jobs w' = tw_jobs w @ [j] \<and> job_now je \<le> jb_at j
    \<and> (jb_attempt j = 0 \<or> jb_attempt j = attempt + 1)"
proof -
  have add: "\<exists>j. tw_jobs (rearm je delay n v) = tw_jobs v @ [j] \<and> job_now je \<le> jb_at j
    \<and> jb_attempt j = n" for delay n v
    using assms(3) by (simp add: rearm_def add_job_def)
  have backed: "\<exists>j. tw_jobs (rearm_with_backoff je attempt v) = tw_jobs v @ [j] \<and> job_now je \<le> jb_at j
    \<and> jb_attempt j = attempt + 1" for v
    using add assms(4) by (simp add: rearm_with_backoff_def max_rearm_attempts_def)
  have run: "\<exists>j. tw_jobs v' = tw_jobs v @ [j] \<and> job_now je \<le> jb_at j
      \<and> (jb_attempt j = 0 \<or> jb_attempt j = attempt + 1)"
    if "run_job je attempt v = (v', r)" for v v'
  proof -
    note r = run_job_rearms [OF that assms(6)]
    obtain u delay where u: "tw_jobs u = tw_jobs v"
      "v' = rearm je delay 0 u \<or> v' = rearm_with_backoff je attempt u"
      using r by blast
    show ?thesis using u(2)
    proof
      assume "v' = rearm je delay 0 u"
      then show ?thesis using add [of delay 0 u] u(1) by auto
    next
      assume "v' = rearm_with_backoff je attempt u"
      then show ?thesis using backed [of u] u(1) by auto
    qed
  qed
  obtain l b where l: "acquire_lock (job_now je) (je_token je) lock_ttl_ms (tw_lock w) = (l, b)" by force
  show ?thesis
  proof (cases "je_ready je \<and> b")
    case True
    obtain v' where "run_job je attempt (w\<lparr>tw_lock := l\<rparr>) = (v', r)" "tw_jobs w' = tw_jobs v'"
      using assms(1,2) True l by (auto simp: process_job_def Let_def split: prod.splits)
    then show ?thesis using run [of "w\<lparr>tw_lock := l\<rparr>" v'] by simp
  next
    case False
    then have "w' = rearm je rearm_ms 0 w \<or> w' = rearm je rearm_ms 0 (w\<lparr>tw_lock := l\<rparr>)"
      using assms(1,2) l by (auto simp: process_job_def Let_def split: if_splits)
    then show ?thesis
      using add [of rearm_ms 0 w] add [of rearm_ms 0 "w\<lparr>tw_lock := l\<rparr>"] by (elim disjE) auto
  qed
qed

definition demo_turn_world :: "message list \<Rightarrow> turn_world" where
  "demo_turn_world ms =
     \<lparr>tw_gate = \<lparr>gw_chat = demo_chat\<lparr>ch_messages := ms\<rparr>, gw_loop = None, gw_journal = [], gw_notices = []\<rparr>,
      tw_state = None, tw_lock = None, tw_jobs = [], tw_forwarded = []\<rparr>"

definition demo_job_env :: job_env where
  "demo_job_env =
     \<lparr>je_enabled = True, je_redis = True, je_queue = True, je_ready = True, je_token = 7, je_custom = False,
      je_turn = demo_turn_env, je_agent = Some \<lparr>ar_kind = Response ''hello'', ar_handoff = False\<rparr>,
      je_meanwhile = (\<lambda>c. c), je_jitter = 0, je_forward = (\<lambda>_ c. c)\<rparr>"

text \<open>A message five milliseconds old is not due yet: the job comes back later.\<close>

theorem waiting_message_keeps_a_job_witness:
  "\<exists>j. tw_jobs (fst (process_job demo_job_env 0 (demo_turn_world [demo_message 3 0 ''hi'']))) = [j]
     \<and> 5 \<le> jb_at j"
proof -
  let ?w = "demo_turn_world [demo_message 3 0 ''hi'']"
  obtain w' r where p: "process_job demo_job_env 0 ?w = (w', r)" by force
  have "snd (process_job demo_job_env 0 ?w) = JobNotDue" by code_simp
  then have "r = JobNotDue" using p by simp
  then show ?thesis
    using waiting_message_keeps_a_job [OF p] p
    by (auto simp: demo_job_env_def demo_turn_world_def job_now_def demo_turn_env_def demo_env_def)
qed

text \<open>And a run that is due answers.\<close>

lemma demo_turn_answers:
  "snd (process_job (demo_job_env\<lparr>je_turn := demo_turn_env\<lparr>te_cmd := (demo_env 705)\<lparr>ce_message_id := 50\<rparr>\<rparr>\<rparr>) 0
     (demo_turn_world [demo_message 3 0 ''hi''])) = JobRan RsAnswered"
  by code_simp

section \<open>The recovery drain\<close>

lemma created_at_of:
  assumes "distinct (map ms_id ms)" "m \<in> set ms" shows "created_at ms (ms_id m) = Some (ms_at m)"
proof -
  have "find (\<lambda>x. ms_id x = ms_id m) ms \<noteq> None" using assms(2) by (auto simp: find_None_iff)
  then obtain y where y: "find (\<lambda>x. ms_id x = ms_id m) ms = Some y" by auto
  then have "y \<in> set ms" "ms_id y = ms_id m" by (auto simp: find_Some_iff)
  then have "y = m" using assms by (auto simp: distinct_map inj_on_def)
  then show ?thesis using y by (simp add: created_at_def)
qed

lemma sort_head:
  assumes "distinct (map ms_id xs)" "m \<in> set xs" "\<forall>x \<in> set xs. pos m \<le> pos x"
  shows "sort_key pos xs = m # sort_key pos (filter (\<lambda>x. x \<noteq> m) xs)"
proof -
  let ?r = "m # sort_key pos (filter (\<lambda>x. x \<noteq> m) xs)"
  have inj: "inj_on pos (set xs)" by (rule pos_inj [OF assms(1)])
  have dx: "distinct xs" using assms(1) by (simp add: distinct_map)
  have set: "set ?r = set xs" using assms(2) by auto
  have sorted: "sorted (map pos (sort_key pos xs))" "sorted (map pos ?r)"
    using assms(3) by (auto simp: sorted_sort_key)
  have "distinct (map pos (sort_key pos xs))" "distinct (map pos ?r)"
    using dx inj assms(2) by (auto simp: distinct_map inj_on_def)
  then have "map pos (sort_key pos xs) = map pos ?r"
    using sorted set by (intro sorted_distinct_set_unique) (auto simp: set_map simp del: list.set_map)
  moreover have "inj_on pos (set (sort_key pos xs) \<union> set ?r)" using inj set by simp
  ultimately show ?thesis by (rule map_inj_on)
qed

definition backlog :: "message list \<Rightarrow> (int \<times> nat) option \<Rightarrow> nat \<Rightarrow> message list" where
  "backlog ms mark bound = filter (\<lambda>m. up_to ms bound m) (unanswered ms mark)"

lemma oldest_backlog:
  "oldest_unanswered ms mark (Some bound) = best_by (\<lambda>x y. pos x < pos y) None (backlog ms mark bound)"
  by (simp add: oldest_unanswered_def backlog_def)

lemma backlog_after:
  assumes "distinct (map ms_id ms)" "m \<in> set (backlog ms mark bound)"
    and "\<forall>x \<in> set (backlog ms mark bound). pos m \<le> pos x"
  shows "backlog ms (Some (t, ms_id m)) bound = filter (\<lambda>x. x \<noteq> m) (backlog ms mark bound)"
proof -
  have m: "m \<in> set ms" "after_mark ms mark m" using assms(2) by (auto simp: backlog_def unanswered_def)
  have mp: "mark_position ms (t, ms_id m) = pos m"
    using created_at_of [OF assms(1) m(1)] by (simp add: mark_position_def pos_def)
  have iff: "pos m < pos x \<longleftrightarrow> after_mark ms mark x \<and> x \<noteq> m"
    if x: "x \<in> set ms" "user_message x" "up_to ms bound x" for x
  proof
    assume "pos m < pos x"
    then show "after_mark ms mark x \<and> x \<noteq> m" using m(2) by (auto simp: after_mark_def split: option.splits)
  next
    assume a: "after_mark ms mark x \<and> x \<noteq> m"
    then have "x \<in> set (backlog ms mark bound)" using x by (simp add: backlog_def unanswered_def)
    then have "pos m \<le> pos x" using assms(3) by blast
    moreover have "pos m \<noteq> pos x" using pos_inj [OF assms(1)] m(1) x(1) a by (auto simp: inj_on_def)
    ultimately show "pos m < pos x" by simp
  qed
  show ?thesis
    unfolding backlog_def unanswered_def filter_filter
    by (rule filter_cong) (use iff mp in \<open>auto simp: after_mark_def\<close>)
qed





section \<open>Where the code and its comments part\<close>

text \<open>
  A message whose row becomes visible only after a later one was answered lies behind the watermark
  and never is the live message of a turn.
\<close>

lemma late_message_is_never_live:
  assumes "created_at ms (snd mk) = Some (fst mk)" "pos m \<le> mk"
  shows "m \<notin> set (unanswered ms (Some mk))"
  using assms by (auto simp: unanswered_def after_mark_def mark_position_def)

text \<open>A newer document that is ready to be answered does not make a reply stale.\<close>

lemma newer_document_is_not_seen:
  "let d = (demo_message 5 3000 [])\<lparr>ms_type := File, ms_extraction := Some Ready\<rparr>;
       ms = [demo_message 3 1000 ''a'', d]
   in user_message d \<and> pos (demo_message 3 1000 ''a'') < pos d \<and> \<not> newer_user_message ms 3"
  by code_simp

text \<open>On an empty content hash the script of the loop counters differs from the reducer.\<close>

lemma loop_script_repeats_the_empty_hash:
  "let g = \<lparr>lg_hash = [], lg_meaningful = True, lg_human = False, lg_link = False\<rparr>;
       k = fst (store_advance True 0 None g)
   in ls_repeated (snd (store_advance True 1 k g)) = 2
      \<and> ls_repeated (advance_loop_state (store_peek True 1 k) g) = 1"
  by code_simp

end
