(* ===== verification/Entitlements.thy ===== *)
theory Entitlements
  imports Prelude
begin

text \<open>
  What a tenant may use: the plan catalog (\<open>billing/plans.ts\<close>), the taxonomy of features and its
  dependency pass (\<open>billing/feature-taxonomy.ts\<close>), the tenant's own switches
  (\<open>billing/feature-toggles.ts\<close>), the resolver that combines them (\<open>billing/entitlements.ts\<close>) and
  the gates that read it (\<open>billing/enforce.ts\<close>). A feature map is a predicate on the feature keys.
  The two stored JSON columns are association lists in the order of \<open>Object.entries\<close>; an entry that
  is not a boolean is \<^term>\<open>None\<close>. Warnings are not modelled. A key such as \<open>toString\<close>, which
  \<open>in\<close> finds on the prototype, is an unknown key here: the write it leads to touches no feature.
\<close>

section \<open>Features\<close>

datatype feature =
  Bookings | CalendarSync | TravelTime
  | ChannelWhatsapp | ChannelMessenger | ChannelInstagram | ChannelTelegram | ChannelLinkedin
  | ChannelTiktok | ChannelX
  | LeadCapture | LeadEnrichment | ProactiveLeadCapture | Crm
  | UnifiedInbox | HumanHandoff | PlatformAssistant
  | GapInsights | GapEvidence | AiBusinessInsights
  | HideWidgetAttribution | CustomWidgetAppearance | FileUpload | CloudImport

type_synonym features = "feature \<Rightarrow> bool"

text \<open>The keys of \<open>FEATURE_TAXONOMY\<close>, in its order.\<close>

definition all_features :: "feature list" where
  "all_features =
     [Bookings, CalendarSync, TravelTime, ChannelWhatsapp, ChannelMessenger, ChannelInstagram,
      ChannelTelegram, ChannelLinkedin, ChannelTiktok, ChannelX, LeadCapture, LeadEnrichment,
      ProactiveLeadCapture, Crm, UnifiedInbox, HumanHandoff, PlatformAssistant, GapInsights,
      GapEvidence, AiBusinessInsights, HideWidgetAttribution, CustomWidgetAppearance, FileUpload,
      CloudImport]"

fun feature_key :: "feature \<Rightarrow> string" where
  "feature_key Bookings = ''bookings''"
| "feature_key CalendarSync = ''calendarSync''"
| "feature_key TravelTime = ''travelTime''"
| "feature_key ChannelWhatsapp = ''channelWhatsapp''"
| "feature_key ChannelMessenger = ''channelMessenger''"
| "feature_key ChannelInstagram = ''channelInstagram''"
| "feature_key ChannelTelegram = ''channelTelegram''"
| "feature_key ChannelLinkedin = ''channelLinkedin''"
| "feature_key ChannelTiktok = ''channelTiktok''"
| "feature_key ChannelX = ''channelX''"
| "feature_key LeadCapture = ''leadCapture''"
| "feature_key LeadEnrichment = ''leadEnrichment''"
| "feature_key ProactiveLeadCapture = ''proactiveLeadCapture''"
| "feature_key Crm = ''crm''"
| "feature_key UnifiedInbox = ''unifiedInbox''"
| "feature_key HumanHandoff = ''handoff''"
| "feature_key PlatformAssistant = ''platformAssistant''"
| "feature_key GapInsights = ''gapInsights''"
| "feature_key GapEvidence = ''gapEvidence''"
| "feature_key AiBusinessInsights = ''aiBusinessInsights''"
| "feature_key HideWidgetAttribution = ''hideWidgetAttribution''"
| "feature_key CustomWidgetAppearance = ''customWidgetAppearance''"
| "feature_key FileUpload = ''fileUpload''"
| "feature_key CloudImport = ''cloudImport''"

definition feature_of_key :: "string \<Rightarrow> feature option" where
  "feature_of_key k = find (\<lambda>f. feature_key f = k) all_features"

text \<open>The \<open>requires\<close> column of the taxonomy.\<close>

fun requires :: "feature \<Rightarrow> feature option" where
  "requires CalendarSync = Some Bookings"
| "requires TravelTime = Some Bookings"
| "requires LeadEnrichment = Some LeadCapture"
| "requires ProactiveLeadCapture = Some LeadCapture"
| "requires Crm = Some LeadCapture"
| "requires GapEvidence = Some GapInsights"
| "requires AiBusinessInsights = Some GapInsights"
| "requires CloudImport = Some FileUpload"
| "requires _ = None"

text \<open>One round of \<open>enforceFeatureDependencies\<close>, with its \<open>changed\<close> flag.\<close>

fun dependency_round :: "feature list \<Rightarrow> features \<times> bool \<Rightarrow> features \<times> bool" where
  "dependency_round [] st = st"
| "dependency_round (k # ks) (fs, changed) =
     (case requires k of
        None \<Rightarrow> dependency_round ks (fs, changed)
      | Some p \<Rightarrow> if fs k \<and> \<not> fs p then dependency_round ks (fs(k := False), True)
                  else dependency_round ks (fs, changed))"

definition features_on :: "features \<Rightarrow> nat" where
  "features_on fs = length (filter fs all_features)"

lemma all_features_all [simp]: "f \<in> set all_features"
  by (cases f) (simp_all add: all_features_def)

lemma filter_upd_False:
  "length (filter (fs(k := False)) xs) \<le> length (filter fs xs)"
  "fs k \<Longrightarrow> k \<in> set xs \<Longrightarrow> length (filter (fs(k := False)) xs) < length (filter fs xs)"
proof -
  show le: "length (filter (fs(k := False)) ys) \<le> length (filter fs ys)" for ys
    by (induction ys) auto
  show "fs k \<Longrightarrow> k \<in> set xs \<Longrightarrow> length (filter (fs(k := False)) xs) < length (filter fs xs)"
    by (induction xs) (auto simp: le less_Suc_eq_le)
qed

lemma dependency_round_Cons:
  "dependency_round (k # ks) (fs, changed) =
     (if \<exists>p. requires k = Some p \<and> fs k \<and> \<not> fs p then dependency_round ks (fs(k := False), True)
      else dependency_round ks (fs, changed))"
  by (simp split: option.split)

lemma dependency_round_le:
  "features_on (fst (dependency_round ks (fs, changed))) \<le> features_on fs"
proof (induction ks arbitrary: fs changed)
  case (Cons k ks)
  have "features_on (fs(k := False)) \<le> features_on fs"
    unfolding features_on_def by (rule filter_upd_False)
  with Cons.IH have "features_on (fst (dependency_round ks (fs(k := False), True))) \<le> features_on fs"
    by (rule order_trans)
  with Cons.IH [of fs changed] show ?case unfolding dependency_round_Cons by presburger
qed simp

lemma dependency_round_shrinks:
  "snd (dependency_round ks (fs, False)) \<Longrightarrow> features_on (fst (dependency_round ks (fs, False))) < features_on fs"
proof (induction ks arbitrary: fs)
  case (Cons k ks)
  show ?case
  proof (cases "\<exists>p. requires k = Some p \<and> fs k \<and> \<not> fs p")
    case True
    have "features_on (fst (dependency_round ks (fs(k := False), True))) \<le> features_on (fs(k := False))"
      by (rule dependency_round_le)
    also have "\<dots> < features_on fs"
      unfolding features_on_def using True by (auto intro!: filter_upd_False)
    finally show ?thesis unfolding dependency_round_Cons if_P [OF True] .
  next
    case False
    show ?thesis using Cons unfolding dependency_round_Cons if_not_P [OF False] by blast
  qed
qed simp

function enforce_feature_dependencies :: "features \<Rightarrow> features" where
  "enforce_feature_dependencies fs =
     (let (fs', changed) = dependency_round all_features (fs, False)
      in if changed then enforce_feature_dependencies fs' else fs')"
  by auto

termination
proof (relation "measure features_on")
  fix fs fs' changed and r :: "features \<times> bool"
  assume "r = dependency_round all_features (fs, False)" "(fs', changed) = r" changed
  then show "(fs', fs) \<in> measure features_on"
    using dependency_round_shrinks [of all_features fs] by (metis fst_conv in_measure snd_conv)
qed simp

declare enforce_feature_dependencies.simps [simp del]

section \<open>Plans\<close>

datatype tier = FreeTier | EssentialTier | ProTier | EnterpriseTier

datatype support = NoSupport | EmailSupport | PrioritySupport

text \<open>\<^term>\<open>None\<close> is unlimited.\<close>

record limits =
  lm_agents :: "int option"
  lm_bots :: "int option"
  lm_sessions :: "int option"
  lm_daily_llm_calls :: "int option"
  lm_monthly_tokens :: "int option"

record plan_definition =
  pl_id :: tier
  pl_name :: string
  pl_rank :: int
  pl_price_cents :: "int option"
  pl_self_serve :: bool
  pl_limits :: limits
  pl_features :: features
  pl_support :: support

definition essential_features :: "feature list" where
  "essential_features =
     [UnifiedInbox, LeadCapture, CustomWidgetAppearance, HumanHandoff, FileUpload, CloudImport,
      ChannelWhatsapp, ChannelMessenger, ChannelInstagram, ChannelTelegram, ChannelLinkedin,
      ChannelTiktok, ChannelX, GapInsights]"

definition pro_features :: "feature list" where
  "pro_features = essential_features @
     [Bookings, CalendarSync, TravelTime, LeadEnrichment, ProactiveLeadCapture, PlatformAssistant,
      HideWidgetAttribution, GapEvidence]"

definition enterprise_features :: "feature list" where
  "enterprise_features = pro_features @ [Crm, AiBusinessInsights]"

fun plans :: "tier \<Rightarrow> plan_definition" where
  "plans FreeTier = \<lparr>pl_id = FreeTier, pl_name = ''Cancelled'', pl_rank = 0, pl_price_cents = None,
     pl_self_serve = False,
     pl_limits = \<lparr>lm_agents = Some 0, lm_bots = Some 0, lm_sessions = Some 0,
                  lm_daily_llm_calls = Some 0, lm_monthly_tokens = Some 0\<rparr>,
     pl_features = (\<lambda>_. False), pl_support = NoSupport\<rparr>"
| "plans EssentialTier = \<lparr>pl_id = EssentialTier, pl_name = ''Essential'', pl_rank = 1,
     pl_price_cents = Some 4999, pl_self_serve = True,
     pl_limits = \<lparr>lm_agents = Some 1, lm_bots = Some 1, lm_sessions = None,
                  lm_daily_llm_calls = None, lm_monthly_tokens = Some 5000000\<rparr>,
     pl_features = (\<lambda>f. f \<in> set essential_features), pl_support = EmailSupport\<rparr>"
| "plans ProTier = \<lparr>pl_id = ProTier, pl_name = ''Pro'', pl_rank = 2,
     pl_price_cents = Some 9999, pl_self_serve = True,
     pl_limits = \<lparr>lm_agents = Some 1, lm_bots = Some 1, lm_sessions = None,
                  lm_daily_llm_calls = None, lm_monthly_tokens = Some 15000000\<rparr>,
     pl_features = (\<lambda>f. f \<in> set pro_features), pl_support = EmailSupport\<rparr>"
| "plans EnterpriseTier = \<lparr>pl_id = EnterpriseTier, pl_name = ''Enterprise'', pl_rank = 3,
     pl_price_cents = Some 14900, pl_self_serve = True,
     pl_limits = \<lparr>lm_agents = Some 2, lm_bots = Some 3, lm_sessions = None,
                  lm_daily_llm_calls = None, lm_monthly_tokens = Some 40000000\<rparr>,
     pl_features = (\<lambda>f. f \<in> set enterprise_features), pl_support = PrioritySupport\<rparr>"

text \<open>Does switching a feature on for a tenant give more than its plan does?\<close>

definition override_exceeds_tier :: "tier \<Rightarrow> feature \<Rightarrow> bool \<Rightarrow> bool" where
  "override_exceeds_tier tr k v = (v \<and> \<not> pl_features (plans tr) k)"

definition self_serve_plans :: "plan_definition list" where
  "self_serve_plans = filter pl_self_serve (map plans [FreeTier, EssentialTier, ProTier, EnterpriseTier])"

section \<open>Switches\<close>

definition tenant_toggleable_features :: "feature list" where
  "tenant_toggleable_features =
     [ChannelWhatsapp, ChannelMessenger, ChannelInstagram, ChannelTelegram, ChannelLinkedin,
      ChannelTiktok, ChannelX, LeadCapture, ProactiveLeadCapture, Bookings, GapInsights]"

definition is_opt_in_feature :: "feature \<Rightarrow> bool" where
  "is_opt_in_feature f = (f \<in> set [ProactiveLeadCapture])"

type_synonym raw_switches = "(string \<times> bool option) list"
type_synonym switches = "feature \<Rightarrow> bool option"

fun sanitize_entries :: "raw_switches \<Rightarrow> switches \<Rightarrow> switches" where
  "sanitize_entries [] clean = clean"
| "sanitize_entries ((key, v) # rest) clean =
     (case feature_of_key key of
        None \<Rightarrow> sanitize_entries rest clean
      | Some f \<Rightarrow>
          if f \<notin> set tenant_toggleable_features then sanitize_entries rest clean
          else (case v of None \<Rightarrow> sanitize_entries rest clean
                | Some b \<Rightarrow> sanitize_entries rest (clean(f := Some b))))"

definition sanitize_feature_toggles :: "raw_switches option \<Rightarrow> switches" where
  "sanitize_feature_toggles raw =
     (case raw of None \<Rightarrow> (\<lambda>_. None) | Some entries \<Rightarrow> sanitize_entries entries (\<lambda>_. None))"

fun apply_toggle_list :: "switches \<Rightarrow> feature list \<Rightarrow> features \<Rightarrow> features" where
  "apply_toggle_list sw [] fs = fs"
| "apply_toggle_list sw (k # ks) fs =
     apply_toggle_list sw ks
       (if sw k = Some False then fs(k := False)
        else if sw k \<noteq> Some True \<and> is_opt_in_feature k then fs(k := False) else fs)"

definition apply_tenant_toggles :: "switches \<Rightarrow> features \<Rightarrow> features" where
  "apply_tenant_toggles sw fs = apply_toggle_list sw tenant_toggleable_features fs"

fun apply_feature_overrides :: "raw_switches \<Rightarrow> features \<Rightarrow> features" where
  "apply_feature_overrides [] fs = fs"
| "apply_feature_overrides ((key, v) # rest) fs =
     (case feature_of_key key of
        None \<Rightarrow> apply_feature_overrides rest fs
      | Some f \<Rightarrow>
          (case v of None \<Rightarrow> apply_feature_overrides rest fs
           | Some b \<Rightarrow> apply_feature_overrides rest (fs(f := b))))"

section \<open>The resolver\<close>

datatype tenant_status = TenantActive | TenantSuspended | TenantCancelled

text \<open>The columns of a tenant that decide what it may use.\<close>

record tenant =
  tn_tier :: tier
  tn_status :: tenant_status
  tn_max_sessions :: "int option"
  tn_daily_llm_call_limit :: "int option"
  tn_monthly_token_limit :: "int option"
  tn_overrides :: raw_switches
  tn_toggles :: raw_switches

record entitlements =
  en_plan :: tier
  en_billable :: bool
  en_limits :: limits
  en_features :: features
  en_entitled :: features
  en_toggles :: switches
  en_support :: support

definition resolve_limits :: "tier \<Rightarrow> int option \<Rightarrow> int option \<Rightarrow> int option \<Rightarrow> limits" where
  "resolve_limits tr max_sessions daily monthly =
     (let l = pl_limits (plans tr) in
      if monthly = Some (-1) then l\<lparr>lm_monthly_tokens := None\<rparr>
      else if tr = EnterpriseTier then
        l\<lparr>lm_sessions := (if max_sessions \<noteq> None then max_sessions else lm_sessions l),
          lm_daily_llm_calls := (if daily \<noteq> None then daily else lm_daily_llm_calls l),
          lm_monthly_tokens := (if monthly \<noteq> None then monthly else lm_monthly_tokens l)\<rparr>
      else l)"

definition entitlements_for :: "tenant \<Rightarrow> entitlements" where
  "entitlements_for t =
     (let tr = tn_tier t; plan = plans tr;
          billable = (tr \<noteq> FreeTier \<and> tn_status t = TenantActive);
          base = (if billable then apply_feature_overrides (tn_overrides t) (pl_features plan)
                  else (\<lambda>_. False));
          entitled = enforce_feature_dependencies base;
          sw = sanitize_feature_toggles (Some (tn_toggles t));
          effective = (if billable
                       then enforce_feature_dependencies (apply_tenant_toggles sw entitled)
                       else entitled)
      in \<lparr>en_plan = pl_id plan, en_billable = billable,
          en_limits = resolve_limits tr (tn_max_sessions t) (tn_daily_llm_call_limit t)
                        (tn_monthly_token_limit t),
          en_features = effective, en_entitled = entitled, en_toggles = sw,
          en_support = pl_support plan\<rparr>)"

section \<open>Gates\<close>

datatype refusal_reason = DisabledByTenant | NotEntitled

datatype gate_error =
  TenantNotFound
  | PlanLimit "int option" int
  | FeatureRefused feature refusal_reason

text \<open>
  \<open>enforceCountLimit\<close> runs under the lock of the tenant row: the tenant it reads and the count are
  those of the transaction that inserts the row. It returns the limit and the count.
\<close>

definition enforce_count_limit ::
  "tenant option \<Rightarrow> (limits \<Rightarrow> int option) \<Rightarrow> int \<Rightarrow> gate_error + int option \<times> int" where
  "enforce_count_limit t capability current =
     (case t of
        None \<Rightarrow> Inl TenantNotFound
      | Some tn \<Rightarrow>
          (let limit = capability (en_limits (entitlements_for tn)) in
           case limit of
             None \<Rightarrow> Inr (None, current)
           | Some n \<Rightarrow> if n \<le> current then Inl (PlanLimit (Some n) current) else Inr (Some n, current)))"

definition require_feature :: "entitlements option \<Rightarrow> feature \<Rightarrow> gate_error + unit" where
  "require_feature e f =
     (case e of
        None \<Rightarrow> Inl TenantNotFound
      | Some en \<Rightarrow>
          if \<not> en_features en f
          then Inl (FeatureRefused f (if en_entitled en f then DisabledByTenant else NotEntitled))
          else Inr ())"

end
