(* ===== verification/EntitlementProps.thy ===== *)
theory EntitlementProps
  imports Entitlements
begin

text \<open>
  What the entitlement resolver guarantees: the dependency pass keeps as much as it can, a tenant's
  own switches never lift it above what it was granted, and a refused feature is blamed on the
  right party.
\<close>

section \<open>The dependency pass\<close>

text \<open>A feature map in which no feature is on without the one it requires.\<close>

definition closed_features :: "features \<Rightarrow> bool" where
  "closed_features g = (\<forall>k p. requires k = Some p \<longrightarrow> g k \<longrightarrow> g p)"

lemma dependency_round_below: "fst (dependency_round ks (fs, changed)) \<le> fs"
proof (induction ks arbitrary: fs changed)
  case (Cons k ks)
  have "fs(k := False) \<le> fs" by (simp add: le_fun_def)
  with Cons.IH have "fst (dependency_round ks (fs(k := False), True)) \<le> fs" by (rule order_trans)
  with Cons.IH [of fs changed] show ?case unfolding dependency_round_Cons by presburger
qed simp

lemma dependency_round_keeps_closed:
  "closed_features g \<Longrightarrow> g \<le> fs \<Longrightarrow> g \<le> fst (dependency_round ks (fs, changed))"
proof (induction ks arbitrary: fs changed)
  case (Cons k ks)
  show ?case
  proof (cases "\<exists>p. requires k = Some p \<and> fs k \<and> \<not> fs p")
    case True
    then have "\<not> g k" using Cons.prems unfolding closed_features_def le_fun_def le_bool_def by blast
    then have "g \<le> fs(k := False)" using Cons.prems(2) by (simp add: le_fun_def)
    with Cons.IH [OF Cons.prems(1)] show ?thesis unfolding dependency_round_Cons if_P [OF True] by blast
  next
    case False
    show ?thesis using Cons.IH [OF Cons.prems] unfolding dependency_round_Cons if_not_P [OF False] .
  qed
qed simp

lemma dependency_round_changed: "snd (dependency_round ks (fs, True))"
  by (induction ks arbitrary: fs) (simp_all split: option.split)

lemma dependency_round_unchanged:
  "\<not> snd (dependency_round ks (fs, False)) \<Longrightarrow>
     fst (dependency_round ks (fs, False)) = fs
     \<and> (\<forall>k \<in> set ks. \<not> (\<exists>p. requires k = Some p \<and> fs k \<and> \<not> fs p))"
proof (induction ks)
  case (Cons k ks)
  show ?case
  proof (cases "\<exists>p. requires k = Some p \<and> fs k \<and> \<not> fs p")
    case True
    then show ?thesis using Cons.prems dependency_round_changed
      unfolding dependency_round_Cons if_P [OF True] by blast
  next
    case False
    have "\<not> snd (dependency_round ks (fs, False))"
      using Cons.prems unfolding dependency_round_Cons if_not_P [OF False] .
    from Cons.IH [OF this] False show ?thesis
      unfolding dependency_round_Cons if_not_P [OF False] set_simps by blast
  qed
qed simp

lemma enforce_step:
  "enforce_feature_dependencies fs =
     (if snd (dependency_round all_features (fs, False))
      then enforce_feature_dependencies (fst (dependency_round all_features (fs, False)))
      else fst (dependency_round all_features (fs, False)))"
  by (subst enforce_feature_dependencies.simps) (simp only: Let_def case_prod_beta)

lemma enforce_closed: "closed_features (enforce_feature_dependencies fs)"
proof (induction fs rule: measure_induct_rule [where f = features_on])
  case (less fs)
  let ?r = "dependency_round all_features (fs, False)"
  show ?case
  proof (cases "snd ?r")
    case True
    with less [OF dependency_round_shrinks] show ?thesis by (subst enforce_step) simp
  next
    case False
    then have "fst ?r = fs" "closed_features fs"
      using dependency_round_unchanged [OF False] by (auto simp: closed_features_def)
    with False show ?thesis by (subst enforce_step) simp
  qed
qed

lemma enforce_below: "enforce_feature_dependencies fs \<le> fs"
proof (induction fs rule: measure_induct_rule [where f = features_on])
  case (less fs)
  let ?r = "dependency_round all_features (fs, False)"
  have "fst ?r \<le> fs" by (rule dependency_round_below)
  moreover have "enforce_feature_dependencies (fst ?r) \<le> fst ?r" if "snd ?r"
    by (rule less [OF dependency_round_shrinks [OF that]])
  ultimately have "(if snd ?r then enforce_feature_dependencies (fst ?r) else fst ?r) \<le> fs"
    by (auto intro: order_trans)
  then show ?case by (simp only: enforce_step [symmetric])
qed

lemma enforce_greatest: "closed_features g \<Longrightarrow> g \<le> fs \<Longrightarrow> g \<le> enforce_feature_dependencies fs"
proof (induction fs rule: measure_induct_rule [where f = features_on])
  case (less fs)
  let ?r = "dependency_round all_features (fs, False)"
  have g: "g \<le> fst ?r" using less.prems by (rule dependency_round_keeps_closed)
  have "g \<le> enforce_feature_dependencies (fst ?r)" if "snd ?r"
    by (rule less.IH [OF dependency_round_shrinks [OF that] less.prems(1) g])
  with g have "g \<le> (if snd ?r then enforce_feature_dependencies (fst ?r) else fst ?r)" by simp
  then show ?case by (simp only: enforce_step [symmetric])
qed

lemma enforce_fixed: "closed_features fs \<Longrightarrow> enforce_feature_dependencies fs = fs"
  using enforce_below enforce_greatest [of fs fs] by (simp add: antisym)

lemma enforce_mono: "f \<le> g \<Longrightarrow> enforce_feature_dependencies f \<le> enforce_feature_dependencies g"
  by (intro enforce_greatest enforce_closed) (use enforce_below order_trans in blast)

text \<open>
  C34: The dependency pass ends and leaves the largest feature map in which every feature that is on
  has the one it requires: it switches a feature off only if no such map could keep it, whatever
  the order of the taxonomy.
\<close>

theorem dependency_pass_keeps_the_most:
  "enforce_feature_dependencies fs k \<longleftrightarrow> (\<exists>g. closed_features g \<and> g \<le> fs \<and> g k)"
  using enforce_closed enforce_below enforce_greatest [THEN le_funD, THEN le_boolD] by blast

section \<open>Switches\<close>

lemma feature_of_key_id [simp]: "feature_of_key (feature_key f) = Some f"
  by (cases f) (simp_all add: feature_of_key_def all_features_def)

lemma feature_of_key_Some: "feature_of_key k = Some f \<longleftrightarrow> feature_key f = k"
proof
  show "feature_key f = k" if "feature_of_key k = Some f"
    using that by (auto simp: feature_of_key_def find_Some_iff)
qed auto

lemma sanitize_entries_toggleable:
  "sanitize_entries raw clean f = Some b \<Longrightarrow> clean f = Some b \<or> f \<in> set tenant_toggleable_features"
proof (induction raw arbitrary: clean)
  case (Cons x rest)
  obtain key v where x: "x = (key, v)" by (cases x)
  show ?case
    using Cons.prems Cons.IH
    by (auto simp: x split: option.splits if_splits) (metis fun_upd_apply)
qed simp

lemma sanitized_toggleable:
  "sanitize_feature_toggles raw f = Some b \<Longrightarrow> f \<in> set tenant_toggleable_features"
  using sanitize_entries_toggleable [of _ "\<lambda>_. None"]
  by (auto simp: sanitize_feature_toggles_def split: option.splits)

text \<open>What the loop over the toggleable features computes.\<close>

lemma apply_toggle_list_iff:
  "apply_toggle_list sw ks fs f \<longleftrightarrow>
     fs f \<and> (f \<in> set ks \<longrightarrow> sw f \<noteq> Some False \<and> (is_opt_in_feature f \<longrightarrow> sw f = Some True))"
  by (induction sw ks fs rule: apply_toggle_list.induct) auto

lemma apply_toggles_iff:
  "apply_tenant_toggles sw fs f \<longleftrightarrow>
     fs f \<and> (f \<in> set tenant_toggleable_features \<longrightarrow>
               sw f \<noteq> Some False \<and> (is_opt_in_feature f \<longrightarrow> sw f = Some True))"
  by (simp add: apply_tenant_toggles_def apply_toggle_list_iff)

lemma apply_toggles_below: "apply_tenant_toggles sw fs \<le> fs"
  by (simp add: le_fun_def apply_toggles_iff)

lemma entitlements_simps:
  "en_billable (entitlements_for t) \<longleftrightarrow> tn_tier t \<noteq> FreeTier \<and> tn_status t = TenantActive"
  "en_toggles (entitlements_for t) = sanitize_feature_toggles (Some (tn_toggles t))"
  "en_limits (entitlements_for t) =
     resolve_limits (tn_tier t) (tn_max_sessions t) (tn_daily_llm_call_limit t) (tn_monthly_token_limit t)"
  by (simp_all add: entitlements_for_def Let_def)

lemma entitled_eq:
  "en_entitled (entitlements_for t) =
     enforce_feature_dependencies
       (if en_billable (entitlements_for t)
        then apply_feature_overrides (tn_overrides t) (pl_features (plans (tn_tier t))) else (\<lambda>_. False))"
  by (simp add: entitlements_for_def Let_def)

lemma effective_eq:
  "en_features (entitlements_for t) =
     (if en_billable (entitlements_for t)
      then enforce_feature_dependencies
             (apply_tenant_toggles (en_toggles (entitlements_for t)) (en_entitled (entitlements_for t)))
      else en_entitled (entitlements_for t))"
  by (simp add: entitlements_for_def Let_def)

lemma entitled_closed: "closed_features (en_entitled (entitlements_for t))"
  by (simp add: entitled_eq enforce_closed)

lemma effective_closed: "closed_features (en_features (entitlements_for t))"
  by (simp add: effective_eq enforce_closed entitled_closed)

lemma effective_below_entitled: "en_features (entitlements_for t) \<le> en_entitled (entitlements_for t)"
  using order_trans [OF enforce_below apply_toggles_below] by (simp add: effective_eq)

lemma entitled_needs_billable: "en_entitled (entitlements_for t) f \<Longrightarrow> en_billable (entitlements_for t)"
  using enforce_below [of "\<lambda>_. False"] by (auto simp: entitled_eq le_fun_def split: if_splits)

lemma effective_obeys_switch:
  assumes "en_features (entitlements_for t) f"
  shows "en_toggles (entitlements_for t) f \<noteq> Some False"
    and "is_opt_in_feature f \<Longrightarrow> en_toggles (entitlements_for t) f = Some True"
proof -
  have b: "en_billable (entitlements_for t)"
    using assms effective_below_entitled [of t] entitled_needs_billable by (auto simp: le_fun_def)
  then have on: "apply_tenant_toggles (en_toggles (entitlements_for t)) (en_entitled (entitlements_for t)) f"
    using assms enforce_below by (auto simp: effective_eq le_fun_def)
  show "en_toggles (entitlements_for t) f \<noteq> Some False"
    using on sanitized_toggleable [of "Some (tn_toggles t)" f] by (auto simp: apply_toggles_iff entitlements_simps(2))
  assume "is_opt_in_feature f"
  then show "en_toggles (entitlements_for t) f = Some True"
    using on by (auto simp: apply_toggles_iff is_opt_in_feature_def tenant_toggleable_features_def)
qed


section \<open>Who is to blame for a refusal\<close>

definition all_switched_on :: raw_switches where
  "all_switched_on = map (\<lambda>f. (feature_key f, Some True)) tenant_toggleable_features"

lemma sanitize_keys:
  "set ks \<subseteq> set tenant_toggleable_features \<Longrightarrow>
     sanitize_entries (map (\<lambda>f. (feature_key f, Some True)) ks) clean f
     = (if f \<in> set ks then Some True else clean f)"
  by (induction ks arbitrary: clean) auto

lemma all_switched_on:
  "f \<in> set tenant_toggleable_features \<Longrightarrow> sanitize_feature_toggles (Some all_switched_on) f = Some True"
  by (simp add: sanitize_feature_toggles_def all_switched_on_def sanitize_keys)

lemma entitled_any_switches:
  "en_entitled (entitlements_for (t\<lparr>tn_toggles := sw\<rparr>)) = en_entitled (entitlements_for t)"
  by (simp add: entitled_eq entitlements_simps(1))

lemma all_on_is_the_ceiling:
  "en_features (entitlements_for (t\<lparr>tn_toggles := all_switched_on\<rparr>)) = en_entitled (entitlements_for t)"
proof -
  let ?t = "t\<lparr>tn_toggles := all_switched_on\<rparr>"
  have "apply_tenant_toggles (en_toggles (entitlements_for ?t)) (en_entitled (entitlements_for ?t))
        = en_entitled (entitlements_for ?t)"
    by (rule ext) (use all_switched_on in \<open>auto simp: apply_toggles_iff entitlements_simps(2)\<close>)
  then show ?thesis
    using entitled_any_switches [where t = t and sw = all_switched_on]
    by (simp add: effective_eq enforce_fixed entitled_closed)
qed

text \<open>
  The feature gate blames the right party: it answers \<open>disabled_by_tenant\<close> exactly when some
  choice of the tenant's own switches would open the gate, and \<open>not_entitled\<close> exactly when none would.
\<close>

theorem refusal_blames_the_right_party:
  "require_feature (Some (entitlements_for t)) f =
     (if en_features (entitlements_for t) f then Inr ()
      else Inl (FeatureRefused f
        (if \<exists>sw. require_feature (Some (entitlements_for (t\<lparr>tn_toggles := sw\<rparr>))) f = Inr ()
         then DisabledByTenant else NotEntitled)))"
proof -
  have "(\<exists>sw. en_features (entitlements_for (t\<lparr>tn_toggles := sw\<rparr>)) f) \<longleftrightarrow> en_entitled (entitlements_for t) f"
  proof
    assume "\<exists>sw. en_features (entitlements_for (t\<lparr>tn_toggles := sw\<rparr>)) f"
    then obtain sw where "en_features (entitlements_for (t\<lparr>tn_toggles := sw\<rparr>)) f" ..
    then have "en_entitled (entitlements_for (t\<lparr>tn_toggles := sw\<rparr>)) f"
      using effective_below_entitled by (auto simp: le_fun_def)
    then show "en_entitled (entitlements_for t) f" by (simp only: entitled_any_switches)
  next
    assume "en_entitled (entitlements_for t) f"
    then have "en_features (entitlements_for (t\<lparr>tn_toggles := all_switched_on\<rparr>)) f"
      by (simp only: all_on_is_the_ceiling)
    then show "\<exists>sw. en_features (entitlements_for (t\<lparr>tn_toggles := sw\<rparr>)) f" ..
  qed
  then have key: "(\<exists>sw. require_feature (Some (entitlements_for (t\<lparr>tn_toggles := sw\<rparr>))) f = Inr ())
      \<longleftrightarrow> en_entitled (entitlements_for t) f"
    by (auto simp: require_feature_def)
  show ?thesis unfolding key by (simp add: require_feature_def)
qed

section \<open>Counts\<close>

text \<open>A row is inserted only below the cap, so the count never passes it.\<close>

lemma count_gate_keeps_the_cap:
  assumes "enforce_count_limit t capability current = Inr (limit, n)"
  shows "n = current \<and> (\<forall>cap. limit = Some cap \<longrightarrow> current + 1 \<le> cap)"
  using assms by (auto simp: enforce_count_limit_def Let_def split: option.splits if_splits)

end
