(* ===== verification/StripeEvents.thy ===== *)
theory StripeEvents
  imports Entitlements
begin

text \<open>
  What Stripe sends and how it is read (\<open>billing/providers/stripe.ts\<close>, \<open>billing/types.ts\<close> and the
  price mapping of \<open>billing/plans.ts\<close>): the objects of the webhook payloads with the fields the code
  reads, and their normalisation. Ids of Stripe objects are naturals; the empty string the code
  falls back to for a missing customer is \<^term>\<open>None\<close>, as is a missing id. Times are Stripe's
  seconds until they are normalised.
\<close>

section \<open>Stripe's objects\<close>

datatype stripe_status =
  StTrialing | StActive | StPastDue | StPaused | StUnpaid | StIncomplete | StIncompleteExpired | StCanceled

text \<open>A reference: absent, an id, or the expanded object with its id and its \<open>metadata.tenantId\<close>.\<close>

datatype stripe_ref = NoRef | IdRef nat | ObjRef nat "nat option"

record schedule_phase =
  ph_price :: "nat option"
  ph_start :: int

record schedule =
  sch_id :: nat
  sch_phases :: "schedule_phase list"

datatype schedule_ref = NoSchedule | ScheduleId nat | ScheduleObj schedule

record stripe_sub =
  su_id :: nat
  su_customer :: nat
  su_status :: stripe_status
  su_item_count :: nat
  su_price :: "nat option"
  su_schedule :: schedule_ref
  su_period_end :: "int option"
  su_item_period_end :: "int option"
  su_cancel_at_end :: bool
  su_trial_end :: "int option"

datatype session_mode = PaymentMode | SubscriptionMode | SetupMode

text \<open>\<open>se_tokens\<close> is \<open>Number(metadata.tokens)\<close>, \<^term>\<open>None\<close> when it is not finite.\<close>

record checkout_session =
  se_id :: nat
  se_mode :: session_mode
  se_top_up :: bool
  se_tokens :: "int option"
  se_meta_tenant :: "nat option"
  se_customer :: stripe_ref
  se_subscription :: stripe_ref

record invoice =
  in_id :: nat
  in_customer :: stripe_ref
  in_subscription :: stripe_ref
  in_parent_subscription :: stripe_ref

record charge =
  ch_id :: nat
  ch_customer :: stripe_ref
  ch_invoice :: stripe_ref
  ch_refunds :: "(nat \<times> int) list"
  ch_amount_refunded :: int

record dispute =
  dp_id :: nat
  dp_lost :: bool
  dp_charge :: stripe_ref
  dp_amount :: int

datatype stripe_payload =
  SubCreated stripe_sub | SubUpdated stripe_sub | SubDeleted stripe_sub | TrialWillEnd stripe_sub
| SessionCompleted checkout_session | SessionExpired checkout_session
| PaidInvoice invoice | FailedInvoice invoice
| ChargeRefunded charge | DisputeClosed dispute | OtherPayload

record stripe_event =
  sv_id :: nat
  sv_created :: int
  sv_payload :: stripe_payload

section \<open>Normal form\<close>

datatype bill_status = Trialing | ActiveSub | PastDue | CancelledSub | NoSub

record normalized_sub =
  ns_customer :: nat
  ns_subscription :: "nat option"
  ns_status :: bill_status
  ns_plan :: tier
  ns_period_end :: "instant option"
  ns_cancel_at_end :: bool
  ns_pending_plan :: "tier option"
  ns_pending_at :: "instant option"
  ns_trial_end :: "instant option"

datatype event_type =
  SubscriptionCreated | SubscriptionUpdated | SubscriptionDeleted | SubscriptionTrialWillEnd
| CheckoutCompleted | CheckoutExpired | InvoicePaid | InvoicePaymentFailed | RefundRecorded

record normalized_event =
  ne_id :: nat
  ne_type :: event_type
  ne_customer :: "nat option"
  ne_subscription :: "nat option"
  ne_session :: "nat option"
  ne_sub :: "normalized_sub option"
  ne_invoice :: "nat option"
  ne_refund :: "nat option"
  ne_refund_amount :: "int option"
  ne_charge :: "nat option"
  ne_occurred :: instant
  ne_raw :: stripe_payload

section \<open>Prices\<close>

text \<open>The price ids of the environment; an unset one is \<^term>\<open>None\<close> and matches no price.\<close>

record price_config =
  pc_essential :: "nat option"
  pc_pro :: "nat option"
  pc_enterprise :: "nat option"

definition plan_of_price :: "price_config \<Rightarrow> nat option \<Rightarrow> tier option" where
  "plan_of_price cfg price =
     (if price = None then None
      else if price = pc_essential cfg then Some EssentialTier
      else if price = pc_pro cfg then Some ProTier
      else if price = pc_enterprise cfg then Some EnterpriseTier
      else None)"

fun stripe_price_for :: "price_config \<Rightarrow> tier \<Rightarrow> nat option" where
  "stripe_price_for cfg EssentialTier = pc_essential cfg"
| "stripe_price_for cfg ProTier = pc_pro cfg"
| "stripe_price_for cfg EnterpriseTier = pc_enterprise cfg"
| "stripe_price_for cfg FreeTier = None"

section \<open>Reading the objects\<close>

fun ref_id :: "stripe_ref \<Rightarrow> nat option" where
  "ref_id NoRef = None" | "ref_id (IdRef i) = Some i" | "ref_id (ObjRef i _) = Some i"

fun ref_tenant :: "stripe_ref \<Rightarrow> nat option" where
  "ref_tenant (ObjRef _ t) = t" | "ref_tenant _ = None"

definition seconds :: "int \<Rightarrow> instant" where
  "seconds s = s * 1000"

text \<open>A JavaScript time that is missing or zero is falsy.\<close>

definition truthy_seconds :: "int option \<Rightarrow> instant option" where
  "truthy_seconds s = (case s of None \<Rightarrow> None | Some v \<Rightarrow> if v = 0 then None else Some (seconds v))"

definition read_current_period_end :: "stripe_sub \<Rightarrow> int option" where
  "read_current_period_end s =
     (case su_period_end s of Some e \<Rightarrow> Some e | None \<Rightarrow> su_item_period_end s)"

definition read_invoice_subscription_id :: "invoice \<Rightarrow> nat option" where
  "read_invoice_subscription_id i =
     (case ref_id (in_subscription i) of Some s \<Rightarrow> Some s | None \<Rightarrow> ref_id (in_parent_subscription i))"

fun status_from_stripe :: "stripe_status \<Rightarrow> bill_status" where
  "status_from_stripe StTrialing = Trialing"
| "status_from_stripe StActive = ActiveSub"
| "status_from_stripe StPastDue = PastDue"
| "status_from_stripe StPaused = PastDue"
| "status_from_stripe StUnpaid = PastDue"
| "status_from_stripe StIncomplete = NoSub"
| "status_from_stripe StIncompleteExpired = NoSub"
| "status_from_stripe StCanceled = CancelledSub"

text \<open>The plan and the start of the second phase of a schedule.\<close>

definition pending_of_phases :: "price_config \<Rightarrow> schedule_phase list \<Rightarrow> tier option \<times> instant option" where
  "pending_of_phases cfg phases =
     (case phases of
        _ # p # _ \<Rightarrow> (plan_of_price cfg (ph_price p), truthy_seconds (Some (ph_start p)))
      | _ \<Rightarrow> (None, None))"

definition to_normalized_subscription :: "price_config \<Rightarrow> stripe_sub \<Rightarrow> nat \<Rightarrow> normalized_sub" where
  "to_normalized_subscription cfg s customer =
     (let pending = (case su_schedule s of ScheduleObj sc \<Rightarrow> pending_of_phases cfg (sch_phases sc)
                     | _ \<Rightarrow> (None, None))
      in \<lparr>ns_customer = customer, ns_subscription = Some (su_id s),
          ns_status = status_from_stripe (su_status s),
          ns_plan = nullish (plan_of_price cfg (su_price s)) FreeTier,
          ns_period_end = truthy_seconds (read_current_period_end s),
          ns_cancel_at_end = su_cancel_at_end s,
          ns_pending_plan = fst pending, ns_pending_at = snd pending,
          ns_trial_end = truthy_seconds (su_trial_end s)\<rparr>)"

section \<open>Events\<close>

text \<open>An event of a type with nothing optional set.\<close>

definition bare_event :: "stripe_event \<Rightarrow> event_type \<Rightarrow> normalized_event" where
  "bare_event e ty =
     \<lparr>ne_id = sv_id e, ne_type = ty, ne_customer = None, ne_subscription = None, ne_session = None,
      ne_sub = None, ne_invoice = None, ne_refund = None, ne_refund_amount = None, ne_charge = None,
      ne_occurred = seconds (sv_created e), ne_raw = sv_payload e\<rparr>"

definition subscription_event :: "price_config \<Rightarrow> stripe_event \<Rightarrow> event_type \<Rightarrow> stripe_sub \<Rightarrow> normalized_event" where
  "subscription_event cfg e ty s =
     (bare_event e ty)\<lparr>ne_customer := Some (su_customer s), ne_subscription := Some (su_id s),
       ne_sub := Some (to_normalized_subscription cfg s (su_customer s))\<rparr>"

definition normalize_trial_will_end :: "stripe_event \<Rightarrow> stripe_sub \<Rightarrow> normalized_event" where
  "normalize_trial_will_end e s =
     (bare_event e SubscriptionTrialWillEnd)\<lparr>ne_customer := Some (su_customer s),
       ne_subscription := Some (su_id s)\<rparr>"

definition normalize_checkout_completed :: "stripe_event \<Rightarrow> checkout_session \<Rightarrow> normalized_event" where
  "normalize_checkout_completed e c =
     (bare_event e CheckoutCompleted)\<lparr>ne_customer := ref_id (se_customer c),
       ne_subscription := ref_id (se_subscription c), ne_session := Some (se_id c)\<rparr>"

definition normalize_checkout_expired :: "stripe_event \<Rightarrow> checkout_session \<Rightarrow> normalized_event" where
  "normalize_checkout_expired e c =
     (bare_event e CheckoutExpired)\<lparr>ne_customer := ref_id (se_customer c), ne_session := Some (se_id c)\<rparr>"

definition normalize_invoice_event :: "stripe_event \<Rightarrow> event_type \<Rightarrow> invoice \<Rightarrow> normalized_event" where
  "normalize_invoice_event e ty i =
     (bare_event e ty)\<lparr>ne_customer := ref_id (in_customer i),
       ne_subscription := read_invoice_subscription_id i, ne_invoice := Some (in_id i)\<rparr>"

definition normalize_charge_refunded :: "stripe_event \<Rightarrow> charge \<Rightarrow> normalized_event" where
  "normalize_charge_refunded e c =
     (bare_event e RefundRecorded)\<lparr>ne_customer := ref_id (ch_customer c),
       ne_invoice := ref_id (ch_invoice c),
       ne_refund := (if ch_refunds c = [] then None else Some (fst (last (ch_refunds c)))),
       ne_refund_amount := Some (if ch_refunds c = [] then ch_amount_refunded c
                                 else snd (last (ch_refunds c))),
       ne_charge := Some (ch_id c)\<rparr>"

definition normalize_dispute_closed :: "stripe_event \<Rightarrow> dispute \<Rightarrow> normalized_event option" where
  "normalize_dispute_closed e d =
     (if \<not> dp_lost d then None
      else Some ((bare_event e RefundRecorded)\<lparr>ne_refund := Some (dp_id d),
             ne_refund_amount := Some (dp_amount d), ne_charge := ref_id (dp_charge d)\<rparr>))"

definition normalize_webhook_event :: "price_config \<Rightarrow> stripe_event \<Rightarrow> normalized_event option" where
  "normalize_webhook_event cfg e =
     (case sv_payload e of
        SubCreated s \<Rightarrow> Some (subscription_event cfg e SubscriptionCreated s)
      | SubUpdated s \<Rightarrow> Some (subscription_event cfg e SubscriptionUpdated s)
      | SubDeleted s \<Rightarrow> Some (subscription_event cfg e SubscriptionDeleted s)
      | TrialWillEnd s \<Rightarrow> Some (normalize_trial_will_end e s)
      | SessionCompleted c \<Rightarrow> Some (normalize_checkout_completed e c)
      | SessionExpired c \<Rightarrow> Some (normalize_checkout_expired e c)
      | PaidInvoice i \<Rightarrow> Some (normalize_invoice_event e InvoicePaid i)
      | FailedInvoice i \<Rightarrow> Some (normalize_invoice_event e InvoicePaymentFailed i)
      | ChargeRefunded c \<Rightarrow> Some (normalize_charge_refunded e c)
      | DisputeClosed d \<Rightarrow> normalize_dispute_closed e d
      | OtherPayload \<Rightarrow> None)"

lemma plan_of_price_paid: "plan_of_price cfg price = Some p \<Longrightarrow> p \<noteq> FreeTier"
  by (auto simp: plan_of_price_def split: if_splits)

text \<open>A configured price is read back as the plan it was configured for, unless two plans share it.\<close>

lemma price_roundtrip:
  assumes "stripe_price_for cfg p = Some price"
    and "distinct [pc_essential cfg, pc_pro cfg, pc_enterprise cfg]"
  shows "plan_of_price cfg (Some price) = Some p"
  using assms by (cases p) (auto simp: plan_of_price_def)

end
