(* ===== verification/TokenBudget.thy ===== *)
theory TokenBudget
  imports Zones
begin

text \<open>
  The monthly token budget of a tenant (\<open>billing/token-budget.service.ts\<close>): one row of
  \<open>tenant_token_balance\<close>, the SQL statements that touch it and the functions composed of them.
  Statements of different workers interleave, each statement is atomic. Token counts are the
  \<open>bigint\<close> columns; the two thresholds are floors of \<open>0.8\<close> and \<open>1.1\<close> times the pool, which the
  code computes in doubles and which agree with the exact quotients below for pools under \<open>2 ^ 45\<close>.
  A tenant whose entitlements cannot be read is an error of the outer \<open>try\<close>.
\<close>

section \<open>Periods\<close>

text \<open>JavaScript's UTC calendar: a month index may leave \<open>1\<close> to \<open>12\<close> and carries into the year.\<close>

definition month_carry :: "int \<Rightarrow> int \<Rightarrow> int \<times> int" where
  "month_carry y m = ((y * 12 + (m - 1)) div 12, (y * 12 + (m - 1)) mod 12 + 1)"

definition utc_midnight :: "int \<Rightarrow> int \<Rightarrow> int \<Rightarrow> instant" where
  "utc_midnight y m d = (case month_carry y m of (y', m') \<Rightarrow> days_of_civil y' m' d * day_ms)"

definition last_day_of_month :: "int \<Rightarrow> int \<Rightarrow> int" where
  "last_day_of_month y m = (case civil_of_days (utc_midnight y (m + 1) 1 div day_ms - 1) of (_, _, d) \<Rightarrow> d)"

definition subtract_one_utc_month :: "instant \<Rightarrow> instant" where
  "subtract_one_utc_month t =
     (case civil_of_days (t div day_ms) of (y, m, d) \<Rightarrow>
      (case month_carry y (m - 1) of (y', m') \<Rightarrow>
         utc_midnight y' m' (min d (last_day_of_month y' m')) + t mod day_ms))"

definition resolve_billing_period :: "instant option \<Rightarrow> instant \<Rightarrow> instant \<times> instant" where
  "resolve_billing_period current_period_end now =
     (case current_period_end of
        Some e \<Rightarrow> if now < e then (subtract_one_utc_month e, e)
                  else (case civil_of_days (now div day_ms) of (y, m, _) \<Rightarrow>
                          (utc_midnight y m 1, utc_midnight y (m + 1) 1))
      | None \<Rightarrow> (case civil_of_days (now div day_ms) of (y, m, _) \<Rightarrow>
                   (utc_midnight y m 1, utc_midnight y (m + 1) 1)))"

section \<open>Thresholds\<close>

definition token_budget_thresholds :: "int \<Rightarrow> int \<Rightarrow> int \<times> int" where
  "token_budget_thresholds allowance top_up =
     (let pool = allowance + top_up in (pool * 4 div 5, pool * 11 div 10))"

section \<open>The row and its statements\<close>

record balance =
  tb_used :: int
  tb_top_up :: int
  tb_start :: instant
  tb_end :: instant
  tb_warned :: "instant option"

record budget_snapshot =
  sn_allowance :: int
  sn_top_up :: int
  sn_used :: int
  sn_warn :: int
  sn_hard_stop :: int
  sn_start :: instant
  sn_end :: instant
  sn_unlimited :: bool

text \<open>
  The statements: the insert that does nothing on conflict, the roll of an ended period, the
  increment, the claim of the warning, the administrator's reset and the upsert of a top-up.
\<close>

datatype budget_stmt =
  EnsureRow instant instant
  | RollPeriod instant instant instant int
  | AddUsage int
  | ClaimWarning instant
  | ResetUsage
  | CreditTopUp instant instant int

definition rolled :: "instant \<Rightarrow> instant \<Rightarrow> int \<Rightarrow> balance \<Rightarrow> balance" where
  "rolled ps pe allowance b =
     b\<lparr>tb_top_up := max 0 (tb_top_up b - max 0 (tb_used b - allowance)), tb_used := 0,
       tb_start := ps, tb_end := pe, tb_warned := None\<rparr>"

text \<open>The table after the statement, and whether it touched the row.\<close>

fun run_stmt :: "budget_stmt \<Rightarrow> balance option \<Rightarrow> balance option \<times> bool" where
  "run_stmt (EnsureRow ps pe) None =
     (Some \<lparr>tb_used = 0, tb_top_up = 0, tb_start = ps, tb_end = pe, tb_warned = None\<rparr>, True)"
| "run_stmt (EnsureRow ps pe) (Some b) = (Some b, False)"
| "run_stmt (RollPeriod now ps pe allowance) (Some b) =
     (if tb_end b \<le> now then (Some (rolled ps pe allowance b), True) else (Some b, False))"
| "run_stmt (AddUsage n) (Some b) = (Some (b\<lparr>tb_used := tb_used b + n\<rparr>), True)"
| "run_stmt (ClaimWarning now) (Some b) =
     (if tb_warned b = None then (Some (b\<lparr>tb_warned := Some now\<rparr>), True) else (Some b, False))"
| "run_stmt ResetUsage (Some b) = (Some (b\<lparr>tb_used := 0, tb_warned := None\<rparr>), True)"
| "run_stmt (CreditTopUp ps pe n) None =
     (Some \<lparr>tb_used = 0, tb_top_up = n, tb_start = ps, tb_end = pe, tb_warned = None\<rparr>, True)"
| "run_stmt (CreditTopUp ps pe n) (Some b) = (Some (b\<lparr>tb_top_up := tb_top_up b + n\<rparr>), True)"
| "run_stmt _ None = (None, False)"

section \<open>The functions\<close>

text \<open>\<^term>\<open>cpe\<close> is the \<open>current_period_end\<close> of the primary billing row.\<close>

definition load_or_roll_period ::
  "instant option \<Rightarrow> instant \<Rightarrow> int \<Rightarrow> balance option \<Rightarrow> balance option" where
  "load_or_roll_period cpe now allowance row =
     (case resolve_billing_period cpe now of (ps, pe) \<Rightarrow>
        fst (run_stmt (RollPeriod now ps pe allowance) (fst (run_stmt (EnsureRow ps pe) row))))"

definition snapshot_from :: "balance \<Rightarrow> int \<Rightarrow> bool \<Rightarrow> budget_snapshot" where
  "snapshot_from b allowance unlimited =
     (case token_budget_thresholds allowance (tb_top_up b) of (warn, stop) \<Rightarrow>
        \<lparr>sn_allowance = allowance, sn_top_up = tb_top_up b, sn_used = tb_used b, sn_warn = warn,
         sn_hard_stop = stop, sn_start = tb_start b, sn_end = tb_end b, sn_unlimited = unlimited\<rparr>)"

definition max_safe_integer :: int where "max_safe_integer = 2 ^ 53 - 1"

text \<open>\<^term>\<open>monthly\<close> is the limit of the entitlements, \<^term>\<open>None\<close> unlimited.\<close>

definition get_token_budget ::
  "int option \<Rightarrow> instant option \<Rightarrow> instant \<Rightarrow> balance option \<Rightarrow> balance option \<times> budget_snapshot option" where
  "get_token_budget monthly cpe now row =
     (let row' = load_or_roll_period cpe now (nullish monthly max_safe_integer) row
      in (row', map_option (\<lambda>b. snapshot_from b (nullish monthly 0) (monthly = None)) row'))"

text \<open>The outer \<^typ>\<open>'a option\<close> is a failed read of the entitlements: the check lets the call through.\<close>

definition is_token_budget_exhausted ::
  "int option option \<Rightarrow> instant option \<Rightarrow> instant \<Rightarrow> balance option \<Rightarrow> balance option \<times> bool" where
  "is_token_budget_exhausted monthly cpe now row =
     (case monthly of
        None \<Rightarrow> (row, False)
      | Some None \<Rightarrow> (row, False)
      | Some (Some allowance) \<Rightarrow>
          (let row' = load_or_roll_period cpe now allowance row
           in (row', case row' of None \<Rightarrow> False
                     | Some b \<Rightarrow> snd (token_budget_thresholds allowance (tb_top_up b)) < tb_used b)))"

text \<open>The row after the increment decides whether the threshold was crossed by it.\<close>

definition crossed_warning :: "int \<Rightarrow> int \<Rightarrow> balance \<Rightarrow> bool" where
  "crossed_warning allowance spent b =
     (let warn = fst (token_budget_thresholds allowance (tb_top_up b))
      in tb_used b - spent < warn \<and> warn \<le> tb_used b)"

text \<open>\<open>recordTokenUsage\<close>: the row, and the snapshot the warning email is sent with, if it is.\<close>

definition record_token_usage ::
  "int option option \<Rightarrow> instant option \<Rightarrow> instant \<Rightarrow> int \<Rightarrow> int \<Rightarrow> balance option \<Rightarrow>
   balance option \<times> budget_snapshot option" where
  "record_token_usage monthly cpe now prompt completion row =
     (case monthly of
        None \<Rightarrow> (row, None)
      | Some None \<Rightarrow> (row, None)
      | Some (Some allowance) \<Rightarrow>
          (let spent = prompt + completion in
           if spent = 0 then (row, None)
           else (case run_stmt (AddUsage spent) (load_or_roll_period cpe now allowance row) of
               (None, _) \<Rightarrow> (None, None)
             | (Some b, _) \<Rightarrow>
                 if \<not> crossed_warning allowance spent b then (Some b, None)
                 else (case run_stmt (ClaimWarning now) (Some b) of
                     (row', claimed) \<Rightarrow>
                       (row', if claimed then Some (snapshot_from b allowance False) else None)))))"

definition reset_token_usage :: "balance option \<Rightarrow> balance option" where
  "reset_token_usage row = fst (run_stmt ResetUsage row)"

definition credit_token_top_up ::
  "instant option \<Rightarrow> instant \<Rightarrow> int \<Rightarrow> balance option \<Rightarrow> balance option" where
  "credit_token_top_up cpe now tokens row =
     (case resolve_billing_period cpe now of (ps, pe) \<Rightarrow> fst (run_stmt (CreditTopUp ps pe tokens) row))"

section \<open>Runs of statements\<close>

fun run_stmts :: "budget_stmt list \<Rightarrow> balance option \<Rightarrow> balance option" where
  "run_stmts [] row = row"
| "run_stmts (s # ss) row = run_stmts ss (fst (run_stmt s row))"

text \<open>Did the statement start a new count: a roll that applied, a reset, or the first row?\<close>

definition starts_period :: "budget_stmt \<Rightarrow> balance option \<Rightarrow> bool" where
  "starts_period s row =
     (case s of RollPeriod _ _ _ _ \<Rightarrow> snd (run_stmt s row) | ResetUsage \<Rightarrow> snd (run_stmt s row)
      | EnsureRow _ _ \<Rightarrow> row = None | CreditTopUp _ _ _ \<Rightarrow> row = None | _ \<Rightarrow> False)"

fun warnings_sent :: "budget_stmt list \<Rightarrow> balance option \<Rightarrow> nat" where
  "warnings_sent [] row = 0"
| "warnings_sent (s # ss) row =
     (case s of ClaimWarning _ \<Rightarrow> if snd (run_stmt s row) then 1 else 0 | _ \<Rightarrow> 0)
     + warnings_sent ss (fst (run_stmt s row))"

fun periods_started :: "budget_stmt list \<Rightarrow> balance option \<Rightarrow> nat" where
  "periods_started [] row = 0"
| "periods_started (s # ss) row =
     (if starts_period s row then 1 else 0) + periods_started ss (fst (run_stmt s row))"

fun tokens_credited :: "budget_stmt list \<Rightarrow> int" where
  "tokens_credited [] = 0"
| "tokens_credited (CreditTopUp ps pe n # ss) = n + tokens_credited ss"
| "tokens_credited (_ # ss) = tokens_credited ss"

text \<open>What the ended periods used beyond the allowance they were rolled with.\<close>

fun tokens_overdrawn :: "budget_stmt list \<Rightarrow> balance option \<Rightarrow> int" where
  "tokens_overdrawn [] row = 0"
| "tokens_overdrawn (s # ss) row =
     (case (s, row) of
        (RollPeriod now _ _ allowance, Some b) \<Rightarrow> if tb_end b \<le> now then max 0 (tb_used b - allowance) else 0
      | _ \<Rightarrow> 0)
     + tokens_overdrawn ss (fst (run_stmt s row))"

definition top_up_of :: "balance option \<Rightarrow> int" where
  "top_up_of row = (case row of None \<Rightarrow> 0 | Some b \<Rightarrow> tb_top_up b)"

section \<open>Guarantees\<close>

text \<open>May this row still be claimed for a warning?\<close>

definition claimable :: "balance option \<Rightarrow> nat" where
  "claimable row = (case row of None \<Rightarrow> 0 | Some b \<Rightarrow> if tb_warned b = None then 1 else 0)"

lemma claim_step:
  "(case s of ClaimWarning _ \<Rightarrow> if snd (run_stmt s row) then 1 else 0 | _ \<Rightarrow> 0)
     + claimable (fst (run_stmt s row))
   \<le> claimable row + (if starts_period s row then 1 else (0 :: nat))"
  by (cases row; cases s) (auto simp: claimable_def starts_period_def rolled_def)

lemma warnings_bound: "warnings_sent ss row \<le> claimable row + periods_started ss row"
proof (induction ss arbitrary: row)
  case (Cons s ss)
  show ?case using Cons.IH [of "fst (run_stmt s row)"] claim_step [of s row] by simp
qed simp


text \<open>One call of \<open>recordTokenUsage\<close> is such a run, and sends what the run sends.\<close>

lemma record_is_a_run:
  "\<exists>ss. run_stmts ss row = fst (record_token_usage monthly cpe now prompt completion row)
      \<and> warnings_sent ss row = (if snd (record_token_usage monthly cpe now prompt completion row) = None then 0 else 1)"
proof -
  obtain ps pe where per: "resolve_billing_period cpe now = (ps, pe)" by fastforce
  show ?thesis
  proof (cases "\<exists>allowance. monthly = Some (Some allowance) \<and> prompt + completion \<noteq> 0")
    case False
    then show ?thesis
      by (intro exI [of _ "[]"]) (auto simp: record_token_usage_def Let_def split: option.splits)
  next
    case True
    then obtain allowance where m: "monthly = Some (Some allowance)" and nz: "prompt + completion \<noteq> 0" by auto
    let ?pre = "[EnsureRow ps pe, RollPeriod now ps pe allowance, AddUsage (prompt + completion)]"
    have pre: "run_stmts ?pre row = fst (run_stmt (AddUsage (prompt + completion))
                 (load_or_roll_period cpe now allowance row))" "warnings_sent ?pre row = 0"
      by (simp_all add: load_or_roll_period_def per)
    have "load_or_roll_period cpe now allowance row \<noteq> None"
      by (cases row) (simp_all add: load_or_roll_period_def per)
    then obtain b where b: "run_stmt (AddUsage (prompt + completion)) (load_or_roll_period cpe now allowance row) = (Some b, True)"
      by auto
    show ?thesis
    proof (cases "crossed_warning allowance (prompt + completion) b")
      case False
      then show ?thesis using pre m nz b
        by (intro exI [of _ ?pre]) (simp add: record_token_usage_def Let_def)
    next
      case True
      have "run_stmts (?pre @ [ClaimWarning now]) row = fst (run_stmt (ClaimWarning now) (Some b))"
        "warnings_sent (?pre @ [ClaimWarning now]) row = (if snd (run_stmt (ClaimWarning now) (Some b)) then 1 else 0)"
        using pre b by (simp_all del: run_stmt.simps)
      then show ?thesis using True m nz b
        by (intro exI [of _ "?pre @ [ClaimWarning now]"]) (auto simp: record_token_usage_def Let_def)
    qed
  qed
qed

fun credits_tokens :: "budget_stmt \<Rightarrow> bool" where
  "credits_tokens (CreditTopUp _ _ n) = (0 \<le> n)"
| "credits_tokens _ = True"

lemma top_up_run:
  "list_all credits_tokens ss \<Longrightarrow> 0 \<le> top_up_of row \<Longrightarrow>
     0 \<le> top_up_of (run_stmts ss row)
     \<and> top_up_of (run_stmts ss row) \<le> top_up_of row + tokens_credited ss
     \<and> top_up_of row + tokens_credited ss - tokens_overdrawn ss row \<le> top_up_of (run_stmts ss row)"
proof (induction ss arbitrary: row)
  case (Cons s ss)
  let ?row = "fst (run_stmt s row)"
  have step: "0 \<le> top_up_of ?row \<and> top_up_of ?row \<le> top_up_of row + tokens_credited [s]
      \<and> top_up_of row + tokens_credited [s] - tokens_overdrawn [s] row \<le> top_up_of ?row"
    using Cons.prems by (cases row; cases s) (auto simp: top_up_of_def rolled_def)
  have "tokens_credited (s # ss) = tokens_credited [s] + tokens_credited ss"
    "tokens_overdrawn (s # ss) row = tokens_overdrawn [s] row + tokens_overdrawn ss ?row"
    by (cases s; simp)+
  moreover have "0 \<le> top_up_of (run_stmts ss ?row)
     \<and> top_up_of (run_stmts ss ?row) \<le> top_up_of ?row + tokens_credited ss
     \<and> top_up_of ?row + tokens_credited ss - tokens_overdrawn ss ?row \<le> top_up_of (run_stmts ss ?row)"
    by (rule Cons.IH) (use Cons.prems step in auto)
  ultimately show ?case using step by simp
qed (simp add: top_up_of_def)

text \<open>
  Bought tokens are spent after the allowance and only for what went beyond it: over any
  interleaving of the statements the balance of top-ups is never negative, never more than was
  credited, and never less than the credits minus what the ended periods used beyond their allowance.
\<close>

theorem top_ups_pay_only_the_excess:
  assumes "list_all credits_tokens ss"
  shows "0 \<le> top_up_of (run_stmts ss None)
    \<and> top_up_of (run_stmts ss None) \<le> tokens_credited ss
    \<and> tokens_credited ss - tokens_overdrawn ss None \<le> top_up_of (run_stmts ss None)"
  using top_up_run [OF assms, of None] by (simp add: top_up_of_def)

definition demo_budget_run :: "budget_stmt list" where
  "demo_budget_run =
     [EnsureRow 0 100, AddUsage 120, CreditTopUp 0 100 50, RollPeriod 100 100 200 100, AddUsage 10]"

lemma top_ups_pay_only_the_excess_witness:
  "top_up_of (run_stmts demo_budget_run None) = 30 \<and> tokens_overdrawn demo_budget_run None = 20
   \<and> tokens_credited demo_budget_run - tokens_overdrawn demo_budget_run None
       \<le> top_up_of (run_stmts demo_budget_run None)"
  using top_ups_pay_only_the_excess [of demo_budget_run]
  by (simp add: demo_budget_run_def top_up_of_def rolled_def)

text \<open>
  A top-up bought after a period ended and before anything rolled it is charged with the overrun of
  the ended period; bought after the roll, it is not. \<open>creditTokenTopUp\<close> does not roll.
\<close>

lemma top_up_before_the_roll_pays_the_old_overrun:
  "top_up_of (run_stmts [EnsureRow 0 100, AddUsage 110, CreditTopUp 100 200 50, RollPeriod 105 100 200 100] None) = 40"
  "top_up_of (run_stmts [EnsureRow 0 100, AddUsage 110, RollPeriod 105 100 200 100, CreditTopUp 100 200 50] None) = 50"
  by (simp_all add: top_up_of_def rolled_def)

end
