(* ===== verification/BillingAccounts.thy ===== *)
theory BillingAccounts
  imports StripeEvents TokenBudget
begin

text \<open>
  Billing accounts: the rows of \<open>tenant_billing_accounts\<close> with their unique indexes
  (\<open>database/entities/TenantBillingAccount.ts\<close>), the trial reservations, the webhook handler
  (\<open>billing/events.ts\<close>), its idempotency wrapper and route (\<open>webhooks/billing-webhook.routes.ts\<close>),
  the service operations (\<open>billing/service.ts\<close>, \<open>billing/onboarding-trial.ts\<close>) and the dunning
  sweep (\<open>billing/dunning.ts\<close>). Stripe's replies are arguments. The list of rows is in the order a
  statement scans them; Postgres checks a unique index as each row is written, so a statement that
  passes through a duplicate fails even if its end state has none.
\<close>

section \<open>Rows\<close>

datatype provider = Stripe | Manual

record account =
  ac_id :: nat
  ac_tenant :: nat
  ac_provider :: provider
  ac_customer :: "nat option"
  ac_subscription :: "nat option"
  ac_status :: bill_status
  ac_plan :: tier
  ac_period_end :: "instant option"
  ac_cancel_at_end :: bool
  ac_pending_plan :: "tier option"
  ac_pending_at :: "instant option"
  ac_trial_end :: "instant option"
  ac_primary :: bool
  ac_email :: "string option"
  ac_vat :: "string option"
  ac_dunning :: "instant option"
  ac_schedule :: "nat option"

text \<open>Do two rows violate the primary key or one of the four unique indexes?\<close>

definition clashes :: "account \<Rightarrow> account \<Rightarrow> bool" where
  "clashes a b =
     (ac_id a = ac_id b
      \<or> (ac_tenant a = ac_tenant b \<and> ac_provider a = ac_provider b)
      \<or> (ac_tenant a = ac_tenant b \<and> ac_primary a \<and> ac_primary b)
      \<or> (ac_provider a = ac_provider b \<and> ac_customer a \<noteq> None \<and> ac_customer a = ac_customer b)
      \<or> (ac_provider a = ac_provider b \<and> ac_subscription a \<noteq> None \<and> ac_subscription a = ac_subscription b))"

text \<open>An UPDATE over the rows that satisfy a condition, each written and checked in scan order.\<close>

fun update_scan ::
  "(account \<Rightarrow> bool) \<Rightarrow> (account \<Rightarrow> account) \<Rightarrow> account list \<Rightarrow> account list \<Rightarrow> account list option" where
  "update_scan p f seen [] = Some seen"
| "update_scan p f seen (r # rs) =
     (if \<not> p r then update_scan p f (seen @ [r]) rs
      else if list_ex (clashes (f r)) (seen @ rs) then None
      else update_scan p f (seen @ [f r]) rs)"

definition update_rows :: "(account \<Rightarrow> bool) \<Rightarrow> (account \<Rightarrow> account) \<Rightarrow> account list \<Rightarrow> account list option" where
  "update_rows p f rows = update_scan p f [] rows"

definition insert_row :: "account \<Rightarrow> account list \<Rightarrow> account list option" where
  "insert_row a rows = (if list_ex (clashes a) rows then None else Some (rows @ [a]))"

text \<open>\<open>INSERT \<dots> ON CONFLICT (tenant_id, provider) DO UPDATE\<close>.\<close>

definition upsert_row :: "account \<Rightarrow> (account \<Rightarrow> account) \<Rightarrow> account list \<Rightarrow> account list option" where
  "upsert_row a f rows =
     (if \<exists>r \<in> set rows. ac_tenant r = ac_tenant a \<and> ac_provider r = ac_provider a
      then update_rows (\<lambda>r. ac_tenant r = ac_tenant a \<and> ac_provider r = ac_provider a) f rows
      else insert_row a rows)"

record reservation =
  rv_tenant :: nat
  rv_session :: "nat option"
  rv_subscription :: "nat option"

datatype audit_entry = TenantCancelledAudit nat nat | BillingEventRow nat string

text \<open>The tables billing works on; \<open>bl_next\<close> gives fresh row ids.\<close>

record billing =
  bl_accounts :: "account list"
  bl_tiers :: "nat \<Rightarrow> tier"
  bl_reservations :: "reservation list"
  bl_balances :: "nat \<Rightarrow> balance option"
  bl_audit :: "audit_entry list"
  bl_next :: nat

datatype billing_error =
  UniqueViolation | StripeFailure | RowGone
| CheckoutPlanInvalid | SubscriptionExists | BillingEmailUnresolvable | NoActiveAccount
| NoStripeSubscription | PastDueBlock | PendingChangeExists | CheckoutInProgress | CheckoutSessionNoUrl
| TokenPackUnavailable | NoPendingChange | NoOpPlanChange | SubscriptionShapeUnexpected

text \<open>Writes the accounts, or throws.\<close>

definition with_rows :: "billing \<Rightarrow> account list option \<Rightarrow> billing_error + billing" where
  "with_rows b rows = (case rows of None \<Rightarrow> Inl UniqueViolation | Some rs \<Rightarrow> Inr (b\<lparr>bl_accounts := rs\<rparr>))"

definition update_account :: "nat \<Rightarrow> (account \<Rightarrow> account) \<Rightarrow> billing \<Rightarrow> billing_error + billing" where
  "update_account i f b = with_rows b (update_rows (\<lambda>r. ac_id r = i) f (bl_accounts b))"

definition set_tier :: "nat \<Rightarrow> tier \<Rightarrow> billing \<Rightarrow> billing" where
  "set_tier t tr b = b\<lparr>bl_tiers := (bl_tiers b)(t := tr)\<rparr>"

definition primary_row :: "account list \<Rightarrow> nat \<Rightarrow> account option" where
  "primary_row rows t = find (\<lambda>r. ac_tenant r = t \<and> ac_primary r) rows"

definition provider_row :: "account list \<Rightarrow> provider \<Rightarrow> nat \<Rightarrow> account option" where
  "provider_row rows p t = find (\<lambda>r. ac_tenant r = t \<and> ac_provider r = p) rows"

definition current_period_end_for :: "billing \<Rightarrow> nat \<Rightarrow> instant option" where
  "current_period_end_for b t =
     (case primary_row (bl_accounts b) t of None \<Rightarrow> None | Some r \<Rightarrow> ac_period_end r)"

section \<open>Stripe\<close>

datatype stripe_reply = Found | ResourceMissing | ApiError

text \<open>What the API answers while a handler runs; \<^term>\<open>None\<close> is a call that throws.\<close>

record stripe_api =
  api_retrieve :: "nat \<Rightarrow> stripe_reply"
  api_schedule :: "nat \<Rightarrow> schedule option"
  api_session :: "nat \<Rightarrow> checkout_session option"
  api_cancel :: "nat \<Rightarrow> stripe_reply"

section \<open>The row of an event\<close>

definition resolve_event_row :: "account list \<Rightarrow> normalized_event \<Rightarrow> account option" where
  "resolve_event_row rows ev =
     (let by_sub = (case ne_subscription ev of None \<Rightarrow> None
                    | Some s \<Rightarrow> find (\<lambda>r. ac_provider r = Stripe \<and> ac_subscription r = Some s) rows)
      in case by_sub of
        Some r \<Rightarrow> Some r
      | None \<Rightarrow>
          (case ne_customer ev of None \<Rightarrow> None
           | Some c \<Rightarrow>
               (case find (\<lambda>r. ac_provider r = Stripe \<and> ac_customer r = Some c) rows of
                  None \<Rightarrow> None
                | Some r \<Rightarrow>
                    if ne_type ev = SubscriptionCreated then Some r
                    else if ne_type ev \<in> {SubscriptionUpdated, SubscriptionDeleted} then
                      (if ac_subscription r = None then Some r else None)
                    else if ne_type ev \<in> {InvoicePaid, InvoicePaymentFailed} then
                      (if ne_subscription ev = None \<or> ac_subscription r = None then Some r else None)
                    else Some r)))"

section \<open>Outcomes\<close>

datatype outcome =
  AuditOnlyRefund | TrialWillEndLogged | NoMatchingRow
| CheckoutSessionNoId | TokenTopUpUnresolvedTenant | TokenTopUpInvalidTokens | TokenTopUpCredited
| CheckoutSessionNonSubscription | CheckoutSessionUnresolvedTenant | CheckoutSessionNoRow
| CheckoutBookkeepingApplied
| CheckoutExpiredNoSessionId | CheckoutExpiredNoTenantId | ReservationNotReleased | ReservationReleased
| InvoiceSubscriptionMismatch | SubscriptionDeletedStale | TenantWasCancelled
| SubscriptionEventNoPayload | SubscriptionMismatch | UnknownPrice
| PromotedPrimary | TierCascaded | PastDueGrace | PrimaryNonEntitlement | NonPrimaryRowUpdated
| PastDueRecovered | InvoicePaidNoStateChange | MarkedPastDue | InvoiceFailedNoStateChange

type_synonym handled = "billing_error + billing \<times> outcome"

definition then_outcome :: "outcome \<Rightarrow> billing_error + billing \<Rightarrow> handled" where
  "then_outcome out r = and_then r (\<lambda>b. Inr (b, out))"

section \<open>Deleted subscriptions\<close>

text \<open>A refetch that fails otherwise than with \<open>resource_missing\<close> is thrown again.\<close>

definition confirm_deleted_subscription :: "stripe_api \<Rightarrow> nat \<Rightarrow> billing_error + bool" where
  "confirm_deleted_subscription api s =
     (case api_retrieve api s of Found \<Rightarrow> Inr False | ResourceMissing \<Rightarrow> Inr True | ApiError \<Rightarrow> Inl StripeFailure)"

definition cancelled_row :: "account \<Rightarrow> account" where
  "cancelled_row r = r\<lparr>ac_status := CancelledSub, ac_plan := FreeTier, ac_pending_plan := None,
     ac_pending_at := None, ac_trial_end := None, ac_period_end := None, ac_cancel_at_end := False,
     ac_subscription := None, ac_dunning := None\<rparr>"

definition handle_subscription_deleted ::
  "stripe_api \<Rightarrow> stripe_sub \<Rightarrow> nat \<Rightarrow> account \<Rightarrow> billing \<Rightarrow> handled" where
  "handle_subscription_deleted api s event_id row b =
     (if ac_subscription row \<noteq> None \<and> ac_subscription row \<noteq> Some (su_id s)
      then Inr (b, SubscriptionDeletedStale)
      else and_then (confirm_deleted_subscription api (su_id s)) (\<lambda>_.
           and_then (update_account (ac_id row) cancelled_row b) (\<lambda>b1.
             let b2 = (if ac_primary row then set_tier (ac_tenant row) FreeTier b1 else b1)
             in Inr (b2\<lparr>bl_audit := bl_audit b2 @ [TenantCancelledAudit (ac_tenant row) event_id]\<rparr>,
                     TenantWasCancelled))))"

section \<open>Created and updated subscriptions\<close>

definition resolve_new_plan ::
  "price_config \<Rightarrow> normalized_sub \<Rightarrow> account \<Rightarrow> bool \<Rightarrow> nat option \<Rightarrow> tier" where
  "resolve_new_plan cfg s row is_past_due raw_price =
     (if is_past_due then ac_plan row
      else if ns_status s = NoSub \<and> raw_price \<noteq> None then nullish (plan_of_price cfg raw_price) FreeTier
      else if ns_status s \<in> {CancelledSub, NoSub} then FreeTier
      else ns_plan s)"

datatype schedule_enrichment = ClearSchedule | SetSchedule "tier option" "instant option" nat

definition resolve_schedule_enrichment ::
  "price_config \<Rightarrow> stripe_api \<Rightarrow> schedule_ref \<Rightarrow> normalized_sub \<Rightarrow> billing_error + schedule_enrichment" where
  "resolve_schedule_enrichment cfg api raw s =
     (case raw of
        ScheduleId i \<Rightarrow>
          (case api_schedule api i of
             None \<Rightarrow> Inl StripeFailure
           | Some sc \<Rightarrow> (case pending_of_phases cfg (sch_phases sc) of (plan, at) \<Rightarrow>
               Inr (SetSchedule plan at (sch_id sc))))
      | NoSchedule \<Rightarrow> Inr ClearSchedule
      | ScheduleObj sc \<Rightarrow> Inr (SetSchedule (ns_pending_plan s) (ns_pending_at s) (sch_id sc)))"

definition subscription_row ::
  "normalized_sub \<Rightarrow> bool \<Rightarrow> tier \<Rightarrow> schedule_enrichment \<Rightarrow> account \<Rightarrow> account" where
  "subscription_row s is_past_due plan enrichment row =
     (let r1 = row\<lparr>ac_subscription := (if ns_subscription s \<noteq> None then ns_subscription s else ac_subscription row),
                   ac_status := ns_status s, ac_period_end := ns_period_end s,
                   ac_cancel_at_end := ns_cancel_at_end s, ac_trial_end := ns_trial_end s\<rparr>;
          r2 = (if is_past_due then r1
                else if ns_status s \<in> {ActiveSub, Trialing} then r1\<lparr>ac_plan := plan, ac_dunning := None\<rparr>
                else r1\<lparr>ac_plan := plan\<rparr>)
      in case enrichment of
           ClearSchedule \<Rightarrow> r2\<lparr>ac_pending_plan := None, ac_pending_at := None\<rparr>
         | SetSchedule p at _ \<Rightarrow> r2\<lparr>ac_pending_plan := p, ac_pending_at := at\<rparr>)"

definition schedule_raw_row :: "schedule_enrichment \<Rightarrow> account \<Rightarrow> account" where
  "schedule_raw_row enrichment row =
     (case enrichment of ClearSchedule \<Rightarrow> row\<lparr>ac_schedule := None\<rparr>
      | SetSchedule _ _ i \<Rightarrow> row\<lparr>ac_schedule := Some i\<rparr>)"

text \<open>The claim of a pending trial reservation.\<close>

definition claim_reservation :: "nat \<Rightarrow> nat option \<Rightarrow> billing \<Rightarrow> billing" where
  "claim_reservation t s b =
     (if s = None then b
      else b\<lparr>bl_reservations := map (\<lambda>v. if rv_tenant v = t \<and> rv_subscription v = None
                                        then v\<lparr>rv_subscription := s\<rparr> else v) (bl_reservations b)\<rparr>)"

text \<open>The single statement of the primary switch: the row is promoted, the old primary demoted.\<close>

definition promote_primary_and_cascade_tier :: "account \<Rightarrow> tier \<Rightarrow> billing \<Rightarrow> billing_error + billing" where
  "promote_primary_and_cascade_tier row plan b =
     and_then (with_rows b (update_rows
         (\<lambda>r. ac_tenant r = ac_tenant row \<and> (ac_id r = ac_id row \<or> ac_primary r))
         (\<lambda>r. r\<lparr>ac_primary := (ac_id r = ac_id row)\<rparr>) (bl_accounts b)))
       (\<lambda>b1. Inr (set_tier (ac_tenant row) plan b1))"

definition resolve_subscription_outcome ::
  "instant \<Rightarrow> account \<Rightarrow> normalized_sub \<Rightarrow> bool \<Rightarrow> tier \<Rightarrow> billing \<Rightarrow> handled" where
  "resolve_subscription_outcome now row s is_past_due plan b =
     (let granting = ns_status s \<in> {Trialing, ActiveSub} in
      if granting \<and> \<not> ac_primary row then
        then_outcome PromotedPrimary (promote_primary_and_cascade_tier row plan b)
      else if ac_primary row \<and> granting then Inr (set_tier (ac_tenant row) plan b, TierCascaded)
      else if ac_primary row \<and> is_past_due then
        (if ns_subscription s \<noteq> None \<and> ac_dunning row = None
         then then_outcome PastDueGrace (update_account (ac_id row) (\<lambda>r. r\<lparr>ac_dunning := Some now\<rparr>) b)
         else Inr (b, PastDueGrace))
      else if ac_primary row then Inr (b, PrimaryNonEntitlement)
      else Inr (b, NonPrimaryRowUpdated))"

text \<open>The status, the price and the schedule are read off the raw payload.\<close>

definition handle_subscription_upsert ::
  "price_config \<Rightarrow> stripe_api \<Rightarrow> instant \<Rightarrow> normalized_event \<Rightarrow> stripe_sub \<Rightarrow> account \<Rightarrow> billing \<Rightarrow> handled" where
  "handle_subscription_upsert cfg api now ev raw row b =
     (case ne_sub ev of
        None \<Rightarrow> Inr (b, SubscriptionEventNoPayload)
      | Some s \<Rightarrow>
          if ac_subscription row \<noteq> None \<and> ns_subscription s \<noteq> None \<and> ac_subscription row \<noteq> ns_subscription s
          then Inr (b, SubscriptionMismatch)
          else if su_status raw \<notin> {StCanceled, StIncompleteExpired, StUnpaid} \<and> su_price raw \<noteq> None
                  \<and> plan_of_price cfg (su_price raw) = None
          then Inr (b, UnknownPrice)
          else
            (let is_past_due = (ns_status s = PastDue);
                 plan = resolve_new_plan cfg s row is_past_due (su_price raw)
             in and_then (resolve_schedule_enrichment cfg api (su_schedule raw) s) (\<lambda>enrichment.
                and_then (update_account (ac_id row) (subscription_row s is_past_due plan enrichment) b) (\<lambda>b1.
                and_then (update_account (ac_id row) (schedule_raw_row enrichment)
                            (claim_reservation (ac_tenant row) (ns_subscription s) b1)) (\<lambda>b2.
                  resolve_subscription_outcome now row s is_past_due plan b2)))))"

section \<open>Checkout sessions\<close>

text \<open>The session's own metadata, then the customer's, then the subscription's.\<close>

definition resolve_checkout_tenant_id :: "checkout_session \<Rightarrow> nat option" where
  "resolve_checkout_tenant_id c =
     (case se_meta_tenant c of Some t \<Rightarrow> Some t
      | None \<Rightarrow> (case ref_tenant (se_customer c) of Some t \<Rightarrow> Some t
                 | None \<Rightarrow> ref_tenant (se_subscription c)))"

definition bookkeeping_row :: "nat option \<Rightarrow> nat option \<Rightarrow> account \<Rightarrow> account" where
  "bookkeeping_row customer subscription r =
     r\<lparr>ac_customer := (if customer \<noteq> None then customer else ac_customer r),
       ac_subscription := (if subscription \<noteq> None then subscription else ac_subscription r)\<rparr>"

text \<open>An update with nothing to set is not issued.\<close>

definition handle_checkout_session_completed ::
  "stripe_api \<Rightarrow> instant \<Rightarrow> nat \<Rightarrow> billing \<Rightarrow> handled" where
  "handle_checkout_session_completed api now session_id b =
     (case api_session api session_id of
        None \<Rightarrow> Inl StripeFailure
      | Some c \<Rightarrow>
          if se_mode c = PaymentMode \<and> se_top_up c then
            (case resolve_checkout_tenant_id c of
               None \<Rightarrow> Inr (b, TokenTopUpUnresolvedTenant)
             | Some t \<Rightarrow>
                 (case se_tokens c of
                    None \<Rightarrow> Inr (b, TokenTopUpInvalidTokens)
                  | Some n \<Rightarrow>
                      if n \<le> 0 then Inr (b, TokenTopUpInvalidTokens)
                      else Inr (b\<lparr>bl_balances := (bl_balances b)(t :=
                                   credit_token_top_up (current_period_end_for b t) now n (bl_balances b t))\<rparr>,
                                TokenTopUpCredited)))
          else if se_mode c \<noteq> SubscriptionMode \<or> ref_id (se_subscription c) = None then
            Inr (b, CheckoutSessionNonSubscription)
          else
            (case resolve_checkout_tenant_id c of
               None \<Rightarrow> Inr (b, CheckoutSessionUnresolvedTenant)
             | Some t \<Rightarrow>
                 (case provider_row (bl_accounts b) Stripe t of
                    None \<Rightarrow> Inr (b, CheckoutSessionNoRow)
                  | Some r \<Rightarrow>
                      let f = bookkeeping_row (ref_id (se_customer c)) (ref_id (se_subscription c)) in
                      if f r = r then Inr (b, CheckoutBookkeepingApplied)
                      else then_outcome CheckoutBookkeepingApplied (update_account (ac_id r) f b))))"

definition handle_checkout_session_expired ::
  "nat option \<Rightarrow> nat option \<Rightarrow> billing \<Rightarrow> billing \<times> outcome" where
  "handle_checkout_session_expired session meta_tenant b =
     (case session of None \<Rightarrow> (b, CheckoutExpiredNoSessionId)
      | Some sid \<Rightarrow>
          (case meta_tenant of None \<Rightarrow> (b, CheckoutExpiredNoTenantId)
           | Some t \<Rightarrow>
               (let hit = (\<lambda>v. rv_tenant v = t \<and> rv_session v = Some sid \<and> rv_subscription v = None) in
                if list_ex hit (bl_reservations b)
                then (b\<lparr>bl_reservations := filter (\<lambda>v. \<not> hit v) (bl_reservations b)\<rparr>, ReservationReleased)
                else (b, ReservationNotReleased))))"

section \<open>The handler\<close>

fun payload_session :: "stripe_payload \<Rightarrow> checkout_session option" where
  "payload_session (SessionCompleted c) = Some c"
| "payload_session (SessionExpired c) = Some c"
| "payload_session _ = None"

fun payload_sub :: "stripe_payload \<Rightarrow> stripe_sub option" where
  "payload_sub (SubCreated s) = Some s"
| "payload_sub (SubUpdated s) = Some s"
| "payload_sub (SubDeleted s) = Some s"
| "payload_sub (TrialWillEnd s) = Some s"
| "payload_sub _ = None"

definition handle_invoice_paid :: "normalized_event \<Rightarrow> account \<Rightarrow> billing \<Rightarrow> handled" where
  "handle_invoice_paid ev row b =
     (if ac_status row = PastDue \<and> ne_subscription ev \<noteq> None then
        then_outcome PastDueRecovered
          (update_account (ac_id row) (\<lambda>r. r\<lparr>ac_status := ActiveSub, ac_dunning := None\<rparr>) b)
      else if ne_subscription ev \<noteq> None \<and> ac_dunning row \<noteq> None then
        then_outcome InvoicePaidNoStateChange
          (update_account (ac_id row) (\<lambda>r. r\<lparr>ac_dunning := None\<rparr>) b)
      else Inr (b, InvoicePaidNoStateChange))"

definition handle_invoice_failed :: "instant \<Rightarrow> normalized_event \<Rightarrow> account \<Rightarrow> billing \<Rightarrow> handled" where
  "handle_invoice_failed now ev row b =
     (if ne_subscription ev = None then Inr (b, InvoiceFailedNoStateChange)
      else if ac_status row \<in> {ActiveSub, Trialing} then
        then_outcome MarkedPastDue
          (update_account (ac_id row) (\<lambda>r. r\<lparr>ac_status := PastDue,
             ac_dunning := (if ac_dunning row = None then Some now else ac_dunning r)\<rparr>) b)
      else Inr (b, InvoiceFailedNoStateChange))"

text \<open>
  \<^term>\<open>matched\<close> was found before the lock; everything is decided on the row as it is under the lock.
  The subscription events carry the raw subscription, the checkout events the raw session.
\<close>

definition handle_normalized_event ::
  "price_config \<Rightarrow> stripe_api \<Rightarrow> instant \<Rightarrow> normalized_event \<Rightarrow> account option \<Rightarrow> billing \<Rightarrow> handled" where
  "handle_normalized_event cfg api now ev matched b =
     (if ne_type ev = RefundRecorded then Inr (b, AuditOnlyRefund)
      else if ne_type ev = SubscriptionTrialWillEnd then Inr (b, TrialWillEndLogged)
      else if ne_type ev = CheckoutCompleted then
        (case payload_session (ne_raw ev) of
           None \<Rightarrow> Inr (b, CheckoutSessionNoId)
         | Some c \<Rightarrow> handle_checkout_session_completed api now (se_id c) b)
      else if ne_type ev = CheckoutExpired then
        Inr (handle_checkout_session_expired (ne_session ev)
               (case payload_session (ne_raw ev) of None \<Rightarrow> None | Some c \<Rightarrow> se_meta_tenant c) b)
      else (case matched of
          None \<Rightarrow> Inr (b, NoMatchingRow)
        | Some m \<Rightarrow>
            (case find (\<lambda>r. ac_id r = ac_id m) (bl_accounts b) of
               None \<Rightarrow> Inl RowGone
             | Some row \<Rightarrow>
                 if ne_type ev \<in> {InvoicePaid, InvoicePaymentFailed} \<and> ne_subscription ev \<noteq> None
                    \<and> ac_subscription row \<noteq> None \<and> ne_subscription ev \<noteq> ac_subscription row
                 then Inr (b, InvoiceSubscriptionMismatch)
                 else if ne_type ev = InvoicePaid then handle_invoice_paid ev row b
                 else if ne_type ev = InvoicePaymentFailed then handle_invoice_failed now ev row b
                 else (case payload_sub (ne_raw ev) of
                     None \<Rightarrow> Inr (b, SubscriptionEventNoPayload)
                   | Some s \<Rightarrow>
                       if ne_type ev = SubscriptionDeleted
                       then handle_subscription_deleted api s (ne_id ev) row b
                       else handle_subscription_upsert cfg api now ev s row b))))"

end
