(* ===== verification/BillingService.thy ===== *)
theory BillingService
  imports BillingAccounts
begin

text \<open>
  The operations around the billing accounts: the idempotent delivery of a webhook
  (\<open>runStripeWebhookIdempotent\<close> of \<open>billing/events.ts\<close> and the route in
  \<open>webhooks/billing-webhook.routes.ts\<close>), the service (\<open>billing/service.ts\<close>,
  \<open>billing/onboarding-trial.ts\<close>, the operations of \<open>billing/providers/stripe.ts\<close> that it calls) and the
  dunning sweep (\<open>billing/dunning.ts\<close>). An operation that works in two transactions with a call
  to Stripe between them takes the tables of both. Cache invalidation and logging are not modelled.
\<close>

section \<open>Delivery of a webhook\<close>

datatype log_status = LogProcessing | LogProcessed | LogFailed

datatype log_error = HandlerFailed billing_error | CannotResolveTenant

record log_row =
  lg_type :: event_type
  lg_status :: log_status
  lg_attempts :: nat
  lg_error :: "log_error option"
  lg_subscription :: "nat option"
  lg_tenant :: "nat option"

record billing_event_row =
  be_event :: nat
  be_tenant :: "nat option"
  be_type :: event_type
  be_outcome :: "outcome option"

text \<open>The tables a delivery works on: billing, \<open>chatbot_stripe_webhook_events\<close> and \<open>billing_events\<close>.\<close>

record billing_world =
  bw_billing :: billing
  bw_log :: "nat \<Rightarrow> log_row option"
  bw_events :: "billing_event_row list"

datatype delivery = Ignored | LockUnavailable | Replay | Processed outcome | Failed billing_error

text \<open>
  The outer transaction: the advisory lock, the check for a processed event, the upsert of the log
  row, and the callback inside a savepoint. The callback's writes are undone when it throws, the
  log row is kept. \<^term>\<open>got_lock\<close> is the answer of \<open>pg_try_advisory_xact_lock\<close>.
\<close>

definition upsert_log ::
  "event_type \<Rightarrow> nat option \<Rightarrow> nat option \<Rightarrow> log_row option \<Rightarrow> log_row" where
  "upsert_log ty subscription tenant existing =
     (case existing of
        None \<Rightarrow> \<lparr>lg_type = ty, lg_status = LogProcessing, lg_attempts = 1, lg_error = None,
                lg_subscription = subscription, lg_tenant = tenant\<rparr>
      | Some g \<Rightarrow> g\<lparr>lg_type := ty, lg_status := LogProcessing, lg_attempts := lg_attempts g + 1,
                   lg_error := None,
                   lg_subscription := (if subscription \<noteq> None then subscription else lg_subscription g),
                   lg_tenant := (if tenant \<noteq> None then tenant else lg_tenant g)\<rparr>)"

type_synonym callback =
  "billing \<times> billing_event_row list \<Rightarrow> billing_error + (billing \<times> billing_event_row list) \<times> outcome"

definition run_stripe_webhook_idempotent ::
  "bool \<Rightarrow> nat \<Rightarrow> event_type \<Rightarrow> nat option \<Rightarrow> nat option \<Rightarrow> callback \<Rightarrow> billing_world
   \<Rightarrow> billing_world \<times> delivery" where
  "run_stripe_webhook_idempotent got_lock event_id ty subscription tenant callback w =
     (if \<not> got_lock then (w, LockUnavailable)
      else if map_option lg_status (bw_log w event_id) = Some LogProcessed then (w, Replay)
      else
        (let g = upsert_log ty subscription tenant (bw_log w event_id) in
         case callback (bw_billing w, bw_events w) of
           Inl err \<Rightarrow>
             (w\<lparr>bw_log := (bw_log w)(event_id \<mapsto>
                  g\<lparr>lg_status := LogFailed, lg_error := Some (HandlerFailed err)\<rparr>)\<rparr>, Failed err)
         | Inr ((b, events), out) \<Rightarrow>
             (\<lparr>bw_billing = b,
               bw_log = (bw_log w)(event_id \<mapsto>
                  g\<lparr>lg_status := LogProcessed,
                    lg_error := (if out = CheckoutSessionUnresolvedTenant then Some CannotResolveTenant
                                 else None)\<rparr>),
               bw_events = events\<rparr>, Processed out)))"

text \<open>The outcomes the route records nothing more for.\<close>

definition normal_outcomes :: "outcome list" where
  "normal_outcomes =
     [TierCascaded, PromotedPrimary, NonPrimaryRowUpdated, PastDueGrace, PastDueRecovered, MarkedPastDue,
      InvoicePaidNoStateChange, InvoiceFailedNoStateChange, AuditOnlyRefund]"

text \<open>
  The callback of the route: the matching row is looked up in \<^term>\<open>seen\<close>, the accounts before
  the lock; the audit row is inserted once for each provider event.
\<close>

definition webhook_callback ::
  "price_config \<Rightarrow> stripe_api \<Rightarrow> instant \<Rightarrow> account list \<Rightarrow> normalized_event \<Rightarrow> callback" where
  "webhook_callback cfg api now seen ev st =
     (case st of (b, events) \<Rightarrow>
       (let matched = resolve_event_row seen ev;
            fresh = (\<forall>e \<in> set events. be_event e \<noteq> ne_id ev)
        in and_then (handle_normalized_event cfg api now ev matched b) (\<lambda>(b', out).
           Inr ((b', if fresh then events @ [\<lparr>be_event = ne_id ev, be_tenant = map_option ac_tenant matched,
                                              be_type = ne_type ev,
                                              be_outcome = (if out \<in> set normal_outcomes then None else Some out)\<rparr>]
                     else events), out))))"

text \<open>The tenant named by the metadata of the raw payload, for the log row only.\<close>

definition read_metadata_tenant_id :: "stripe_payload \<Rightarrow> nat option" where
  "read_metadata_tenant_id p =
     (case payload_session p of None \<Rightarrow> None | Some c \<Rightarrow>
        (case se_meta_tenant c of Some t \<Rightarrow> Some t
         | None \<Rightarrow> (case ref_tenant (se_subscription c) of Some t \<Rightarrow> Some t
                    | None \<Rightarrow> ref_tenant (se_customer c))))"

text \<open>
  One POST to the route with a verified event: the new tables, the answer, and the tenant whose
  first dunning reminder is sent afterwards.
\<close>

definition deliver_webhook ::
  "price_config \<Rightarrow> stripe_api \<Rightarrow> instant \<Rightarrow> bool \<Rightarrow> account list \<Rightarrow> stripe_event \<Rightarrow> billing_world
   \<Rightarrow> billing_world \<times> delivery \<times> nat option" where
  "deliver_webhook cfg api now got_lock seen e w =
     (case normalize_webhook_event cfg e of
        None \<Rightarrow> (w, Ignored, None)
      | Some ev \<Rightarrow>
          (case run_stripe_webhook_idempotent got_lock (ne_id ev) (ne_type ev) (ne_subscription ev)
                  (read_metadata_tenant_id (ne_raw ev)) (webhook_callback cfg api now seen ev) w of
             (w', d) \<Rightarrow>
               (w', d, if d \<in> {Processed MarkedPastDue, Processed PastDueGrace}
                       then map_option ac_tenant (resolve_event_row seen ev) else None)))"

section \<open>Checkout\<close>

record bill_user =
  us_tenant :: nat
  us_email :: string
  us_super :: bool
  us_admin :: bool
  us_active :: bool
  us_created :: int

text \<open>The primary row's billing email, else the oldest active admin, else the oldest super admin.\<close>

definition resolve_checkout_identity :: "account list \<Rightarrow> bill_user list \<Rightarrow> nat \<Rightarrow> billing_error + string" where
  "resolve_checkout_identity rows users t =
     (case (case primary_row rows t of None \<Rightarrow> None | Some r \<Rightarrow> ac_email r) of
        Some e \<Rightarrow> Inr e
      | None \<Rightarrow>
          (case best_by (\<lambda>u v. us_admin u \<and> \<not> us_admin v \<or> us_admin u = us_admin v \<and> us_created u < us_created v) None
                  (filter (\<lambda>u. us_tenant u = t \<and> (us_admin u \<or> us_super u) \<and> us_active u) users) of
             None \<Rightarrow> Inl BillingEmailUnresolvable
           | Some u \<Rightarrow> Inr (us_email u)))"

definition checkout_guard :: "nat \<Rightarrow> billing \<Rightarrow> billing_error + unit" where
  "checkout_guard t b =
     (case primary_row (bl_accounts b) t of
        None \<Rightarrow> Inr ()
      | Some r \<Rightarrow> if ac_provider r = Stripe \<and> ac_status r \<in> {Trialing, ActiveSub, PastDue}
                  then Inl SubscriptionExists else Inr ())"

definition blank_account :: "nat \<Rightarrow> nat \<Rightarrow> provider \<Rightarrow> account" where
  "blank_account i t p =
     \<lparr>ac_id = i, ac_tenant = t, ac_provider = p, ac_customer = None, ac_subscription = None,
      ac_status = NoSub, ac_plan = FreeTier, ac_period_end = None, ac_cancel_at_end = False,
      ac_pending_plan = None, ac_pending_at = None, ac_trial_end = None, ac_primary = False,
      ac_email = None, ac_vat = None, ac_dunning = None, ac_schedule = None\<rparr>"

text \<open>The COALESCE upsert of the Stripe customer: a stored customer is never overwritten.\<close>

definition persist_customer :: "nat \<Rightarrow> nat \<Rightarrow> billing \<Rightarrow> billing_error + billing" where
  "persist_customer t customer b =
     and_then (with_rows b (upsert_row
         ((blank_account (bl_next b) t Stripe)\<lparr>ac_customer := Some customer\<rparr>)
         (\<lambda>r. r\<lparr>ac_customer := (if ac_customer r \<noteq> None then ac_customer r else Some customer)\<rparr>)
         (bl_accounts b)))
       (\<lambda>b'. Inr (b'\<lparr>bl_next := bl_next b + 1\<rparr>))"

text \<open>
  \<^term>\<open>created\<close> is Stripe's answer to the session request: \<^term>\<open>None\<close> throws, the boolean says whether
  the session has a url. The result has the session id and whether the session grants the trial.
\<close>

definition create_checkout_session ::
  "price_config \<Rightarrow> bool \<Rightarrow> (nat \<times> bool) option \<Rightarrow> nat \<Rightarrow> tier \<Rightarrow> billing \<Rightarrow> billing_error + billing \<times> nat \<times> bool" where
  "create_checkout_session cfg got_lock created t plan b =
     (if \<not> got_lock then Inl CheckoutInProgress
      else (case provider_row (bl_accounts b) Stripe t of
          None \<Rightarrow> Inl NoActiveAccount
        | Some r \<Rightarrow>
            if ac_customer r = None then Inl NoActiveAccount
            else
              (let reserve = (plan = ProTier \<and> (\<forall>v \<in> set (bl_reservations b). rv_tenant v \<noteq> t));
                   rs = (if reserve then bl_reservations b @ [\<lparr>rv_tenant = t, rv_session = None, rv_subscription = None\<rparr>]
                         else bl_reservations b)
               in if stripe_price_for cfg plan = None then Inl CheckoutPlanInvalid
                  else (case created of
                      None \<Rightarrow> Inl StripeFailure
                    | Some (sid, has_url) \<Rightarrow>
                        if \<not> has_url then Inl CheckoutSessionNoUrl
                        else Inr (b\<lparr>bl_reservations :=
                                     (if reserve
                                      then map (\<lambda>v. if rv_tenant v = t \<and> rv_subscription v = None
                                                    then v\<lparr>rv_session := Some sid\<rparr> else v) rs
                                      else rs)\<rparr>, sid, reserve)))))"

text \<open>
  \<open>startCheckout\<close>: guard, identity, Stripe customer, upsert, session; other workers act in the two
  gaps, as the functions \<^term>\<open>gap1\<close> and \<^term>\<open>gap2\<close> say.
\<close>

definition start_checkout ::
  "price_config \<Rightarrow> bill_user list \<Rightarrow> nat option \<Rightarrow> bool \<Rightarrow> (nat \<times> bool) option \<Rightarrow> (billing \<Rightarrow> billing)
   \<Rightarrow> (billing \<Rightarrow> billing) \<Rightarrow> nat \<Rightarrow> tier \<Rightarrow> billing \<Rightarrow> billing_error + billing \<times> nat \<times> bool" where
  "start_checkout cfg users customer got_lock created gap1 gap2 t plan b =
     (if plan = FreeTier then Inl CheckoutPlanInvalid
      else and_then (checkout_guard t b) (\<lambda>_.
           and_then (resolve_checkout_identity (bl_accounts b) users t) (\<lambda>_.
           case customer of None \<Rightarrow> Inl StripeFailure
           | Some c \<Rightarrow>
               and_then (persist_customer t c (gap1 b)) (\<lambda>b1.
                 create_checkout_session cfg got_lock created t plan (gap2 b1)))))"

section \<open>Plan changes at Stripe\<close>

datatype stripe_call =
  SwitchItem nat nat
| ScheduleDowngrade nat nat nat int
| SetCancelAtPeriodEnd nat bool
| ReleaseSchedule nat
| UpdateCustomerEmail nat string
| ReplaceTaxIds nat "string option"

text \<open>The tenant's Stripe row of a live subscription: \<open>loadStripeRow\<close>.\<close>

definition load_stripe_row :: "account list \<Rightarrow> nat \<Rightarrow> billing_error + account \<times> nat" where
  "load_stripe_row rows t =
     (case provider_row rows Stripe t of
        None \<Rightarrow> Inl NoActiveAccount
      | Some r \<Rightarrow> (case ac_subscription r of None \<Rightarrow> Inl NoActiveAccount | Some s \<Rightarrow> Inr (r, s)))"

text \<open>\<^term>\<open>remote s\<close> is the subscription Stripe returns, \<^term>\<open>None\<close> if the call throws.\<close>

definition get_subscription ::
  "price_config \<Rightarrow> (nat \<Rightarrow> stripe_sub option) \<Rightarrow> account list \<Rightarrow> nat \<Rightarrow> billing_error + normalized_sub option" where
  "get_subscription cfg remote rows t =
     (case provider_row rows Stripe t of
        None \<Rightarrow> Inr None
      | Some r \<Rightarrow>
          (case (ac_subscription r, ac_customer r) of
             (Some s, Some c) \<Rightarrow>
               (case remote s of None \<Rightarrow> Inl StripeFailure
                | Some su \<Rightarrow> Inr (Some (to_normalized_subscription cfg su c)))
           | _ \<Rightarrow> Inr None))"

definition change_subscription ::
  "price_config \<Rightarrow> (nat \<Rightarrow> stripe_sub option) \<Rightarrow> account list \<Rightarrow> nat \<Rightarrow> tier \<Rightarrow> billing_error + stripe_call" where
  "change_subscription cfg remote rows t plan =
     and_then (load_stripe_row rows t) (\<lambda>(row, s).
       (let current_rank = pl_rank (plans (ac_plan row)); new_rank = pl_rank (plans plan) in
        if current_rank = new_rank then Inl NoOpPlanChange
        else (case remote s of
            None \<Rightarrow> Inl StripeFailure
          | Some su \<Rightarrow>
              if su_schedule su \<noteq> NoSchedule then Inl PendingChangeExists
              else (case su_price su of
                  None \<Rightarrow> Inl SubscriptionShapeUnexpected
                | Some price \<Rightarrow>
                    if su_item_count su \<noteq> 1 then Inl SubscriptionShapeUnexpected
                    else if current_rank < new_rank then
                      (case stripe_price_for cfg plan of
                         None \<Rightarrow> Inl CheckoutPlanInvalid | Some p \<Rightarrow> Inr (SwitchItem s p))
                    else (case truthy_seconds (read_current_period_end su) of
                        None \<Rightarrow> Inl SubscriptionShapeUnexpected
                      | Some e \<Rightarrow>
                          (case stripe_price_for cfg plan of
                             None \<Rightarrow> Inl CheckoutPlanInvalid
                           | Some p \<Rightarrow> Inr (ScheduleDowngrade s price p e)))))))"

definition primary_stripe_row :: "account list \<Rightarrow> nat \<Rightarrow> billing_error + account" where
  "primary_stripe_row rows t =
     (case primary_row rows t of None \<Rightarrow> Inl NoStripeSubscription
      | Some r \<Rightarrow> if ac_provider r = Stripe then Inr r else Inl NoStripeSubscription)"

text \<open>Each of the four operations gives the call to Stripe, if one is made.\<close>

definition change_plan ::
  "price_config \<Rightarrow> (nat \<Rightarrow> stripe_sub option) \<Rightarrow> account list \<Rightarrow> nat \<Rightarrow> tier \<Rightarrow> billing_error + stripe_call option" where
  "change_plan cfg remote rows t plan =
     (if plan \<notin> {EssentialTier, ProTier} then Inl CheckoutPlanInvalid
      else and_then (primary_stripe_row rows t) (\<lambda>r.
        if ac_status r = PastDue then Inl PastDueBlock
        else if ac_pending_plan r \<noteq> None then Inl PendingChangeExists
        else and_then (get_subscription cfg remote rows t) (\<lambda>sub.
          case sub of None \<Rightarrow> Inl NoStripeSubscription
          | Some s \<Rightarrow>
              if ns_plan s = plan then Inr None
              else if ns_pending_plan s \<noteq> None then Inl PendingChangeExists
              else and_then (change_subscription cfg remote rows t plan) (\<lambda>c. Inr (Some c)))))"

definition cancel_at_period_end ::
  "price_config \<Rightarrow> (nat \<Rightarrow> stripe_sub option) \<Rightarrow> account list \<Rightarrow> nat \<Rightarrow> billing_error + stripe_call option" where
  "cancel_at_period_end cfg remote rows t =
     and_then (primary_stripe_row rows t) (\<lambda>_.
     and_then (get_subscription cfg remote rows t) (\<lambda>sub.
       case sub of None \<Rightarrow> Inl NoStripeSubscription
       | Some s \<Rightarrow> if ns_cancel_at_end s then Inr None
                   else and_then (load_stripe_row rows t) (\<lambda>(_, sid). Inr (Some (SetCancelAtPeriodEnd sid True)))))"

definition undo_cancel ::
  "price_config \<Rightarrow> (nat \<Rightarrow> stripe_sub option) \<Rightarrow> account list \<Rightarrow> nat \<Rightarrow> billing_error + stripe_call option" where
  "undo_cancel cfg remote rows t =
     and_then (primary_stripe_row rows t) (\<lambda>_.
     and_then (get_subscription cfg remote rows t) (\<lambda>sub.
       case sub of None \<Rightarrow> Inl NoStripeSubscription
       | Some s \<Rightarrow> if \<not> ns_cancel_at_end s then Inr None
                   else and_then (load_stripe_row rows t) (\<lambda>(_, sid). Inr (Some (SetCancelAtPeriodEnd sid False)))))"

definition undo_pending_change ::
  "price_config \<Rightarrow> (nat \<Rightarrow> stripe_sub option) \<Rightarrow> account list \<Rightarrow> nat \<Rightarrow> billing_error + stripe_call option" where
  "undo_pending_change cfg remote rows t =
     and_then (primary_stripe_row rows t) (\<lambda>_.
     and_then (get_subscription cfg remote rows t) (\<lambda>sub.
       case sub of None \<Rightarrow> Inl NoStripeSubscription
       | Some s \<Rightarrow>
           if ns_pending_plan s = None then Inr None
           else and_then (load_stripe_row rows t) (\<lambda>(r, _).
             case ac_schedule r of None \<Rightarrow> Inl NoPendingChange | Some sc \<Rightarrow> Inr (Some (ReleaseSchedule sc)))))"

section \<open>Contact data\<close>

text \<open>Both operations call Stripe inside the transaction; \<^term>\<open>stripe_ok\<close> says whether that succeeds.\<close>

definition update_billing_email ::
  "bool \<Rightarrow> nat \<Rightarrow> string \<Rightarrow> billing \<Rightarrow> billing_error + billing \<times> stripe_call option \<times> bool" where
  "update_billing_email stripe_ok t email b =
     (case primary_row (bl_accounts b) t of
        None \<Rightarrow> Inl NoActiveAccount
      | Some r \<Rightarrow>
          if ac_email r = Some email then Inr (b, None, False)
          else and_then (update_account (ac_id r) (\<lambda>x. x\<lparr>ac_email := Some email\<rparr>) b) (\<lambda>b1.
            (let call = (if ac_provider r = Stripe then map_option (\<lambda>c. UpdateCustomerEmail c email) (ac_customer r)
                         else None)
             in if call \<noteq> None \<and> \<not> stripe_ok then Inl StripeFailure
                else Inr (b1\<lparr>bl_audit := bl_audit b1 @ [BillingEventRow t ''billing.email.updated'']\<rparr>, call, True))))"

definition update_vat_id ::
  "bool \<Rightarrow> nat \<Rightarrow> string option \<Rightarrow> billing \<Rightarrow> billing_error + billing \<times> stripe_call option \<times> bool" where
  "update_vat_id stripe_ok t vat b =
     (let new = (if vat = Some [] then None else vat) in
      case primary_row (bl_accounts b) t of
        None \<Rightarrow> Inl NoActiveAccount
      | Some r \<Rightarrow>
          if ac_vat r = new then Inr (b, None, False)
          else and_then (update_account (ac_id r) (\<lambda>x. x\<lparr>ac_vat := new\<rparr>) b) (\<lambda>b1.
            (let call = map_option (\<lambda>c. ReplaceTaxIds c new) (ac_customer r)
             in if call \<noteq> None \<and> \<not> stripe_ok then Inl StripeFailure
                else Inr (b1\<lparr>bl_audit := bl_audit b1 @ [BillingEventRow t ''billing.vat_id.updated'']\<rparr>, call, True))))"

section \<open>Manual tiers and the onboarding trial\<close>

text \<open>
  An option field is \<^term>\<open>None\<close> when it is left out and \<^term>\<open>Some None\<close> when it is null. A date that
  is given never equals the stored one: \<open>!==\<close> compares the identity of two \<open>Date\<close> objects.
\<close>

record manual_opts =
  mo_period_end :: "instant option option"
  mo_email :: "string option option"

definition demote_primaries :: "nat \<Rightarrow> billing \<Rightarrow> billing_error + billing" where
  "demote_primaries t b =
     with_rows b (update_rows (\<lambda>r. ac_tenant r = t \<and> ac_primary r) (\<lambda>r. r\<lparr>ac_primary := False\<rparr>) (bl_accounts b))"

definition manual_target_status :: "tier \<Rightarrow> bill_status" where
  "manual_target_status tr = (if tr = FreeTier then NoSub else ActiveSub)"

definition apply_manual_field_updates_only ::
  "nat \<Rightarrow> manual_opts \<Rightarrow> account \<Rightarrow> billing \<Rightarrow> billing_error + billing \<times> bool" where
  "apply_manual_field_updates_only t opts r b =
     (let new_end = (case mo_period_end opts of None \<Rightarrow> False
                     | Some None \<Rightarrow> ac_period_end r \<noteq> None | Some (Some _) \<Rightarrow> True);
          new_email = (case mo_email opts of None \<Rightarrow> False | Some e \<Rightarrow> e \<noteq> ac_email r)
      in if \<not> new_end \<and> \<not> new_email then Inr (b, False)
         else and_then (update_account (ac_id r) (\<lambda>x. x\<lparr>
                  ac_period_end := (if new_end then the (mo_period_end opts) else ac_period_end x),
                  ac_email := (if new_email then the (mo_email opts) else ac_email x)\<rparr>) b)
           (\<lambda>b1. Inr (b1\<lparr>bl_audit := bl_audit b1 @ [BillingEventRow t ''tier.manual_override'']\<rparr>, True)))"

definition given :: "'a option option \<Rightarrow> 'a option" where
  "given x = (case x of None \<Rightarrow> None | Some v \<Rightarrow> v)"

definition set_tier_manual :: "nat \<Rightarrow> tier \<Rightarrow> manual_opts \<Rightarrow> billing \<Rightarrow> billing_error + billing \<times> bool" where
  "set_tier_manual t tr opts b =
     (let status = manual_target_status tr; existing = provider_row (bl_accounts b) Manual t;
          on_target = (bl_tiers b t = tr \<and> (case existing of None \<Rightarrow> False
            | Some r \<Rightarrow> ac_primary r \<and> ac_plan r = tr \<and> ac_status r = status))
      in if on_target then apply_manual_field_updates_only t opts (the existing) b
         else
           (let pe = given (mo_period_end opts); email = given (mo_email opts) in
            and_then (demote_primaries t b) (\<lambda>b1.
            and_then (with_rows b1 (upsert_row
                ((blank_account (bl_next b1) t Manual)\<lparr>ac_status := status, ac_plan := tr, ac_primary := True,
                   ac_period_end := pe, ac_email := email\<rparr>)
                (\<lambda>r. r\<lparr>ac_status := status, ac_plan := tr, ac_primary := True,
                      ac_period_end := (if pe \<noteq> None then pe else ac_period_end r),
                      ac_email := (if email \<noteq> None then email else ac_email r)\<rparr>)
                (bl_accounts b1))) (\<lambda>b2.
              let b3 = set_tier t tr (b2\<lparr>bl_next := bl_next b2 + 1\<rparr>)
              in Inr (b3\<lparr>bl_audit := bl_audit b3 @ [BillingEventRow t ''tier.manual_override'']\<rparr>, True)))))"

definition grant_onboarding_pro_trial :: "int \<Rightarrow> instant \<Rightarrow> nat \<Rightarrow> billing \<Rightarrow> billing_error + billing \<times> bool" where
  "grant_onboarding_pro_trial trial_days now t b =
     (if \<exists>v \<in> set (bl_reservations b). rv_tenant v = t then Inr (b, False)
      else
        (let b0 = b\<lparr>bl_reservations := bl_reservations b @ [\<lparr>rv_tenant = t, rv_session = None, rv_subscription = None\<rparr>]\<rparr>;
             trial_end = now + trial_days * day_ms
         in and_then (demote_primaries t b0) (\<lambda>b1.
            and_then (with_rows b1 (upsert_row
                ((blank_account (bl_next b1) t Manual)\<lparr>ac_status := Trialing, ac_plan := ProTier,
                   ac_primary := True, ac_trial_end := Some trial_end\<rparr>)
                (\<lambda>r. r\<lparr>ac_status := Trialing, ac_plan := ProTier, ac_primary := True,
                      ac_trial_end := Some trial_end\<rparr>)
                (bl_accounts b1))) (\<lambda>b2.
              Inr (set_tier t ProTier (b2\<lparr>bl_next := bl_next b2 + 1\<rparr>), True)))))"

text \<open>The lazy expiry: one statement over the accounts and the tenant. \<^term>\<open>now\<close> is the database clock.\<close>

definition trial_expired :: "instant \<Rightarrow> nat \<Rightarrow> account \<Rightarrow> bool" where
  "trial_expired now t r =
     (ac_tenant r = t \<and> ac_primary r \<and> ac_provider r = Manual \<and> ac_status r = Trialing
      \<and> (case ac_trial_end r of None \<Rightarrow> False | Some e \<Rightarrow> e \<le> now))"

definition expire_onboarding_pro_trial :: "instant \<Rightarrow> nat \<Rightarrow> billing \<Rightarrow> billing_error + billing \<times> bool" where
  "expire_onboarding_pro_trial now t b =
     (if list_ex (trial_expired now t) (bl_accounts b)
      then and_then (with_rows b (update_rows (trial_expired now t)
               (\<lambda>r. r\<lparr>ac_status := NoSub, ac_plan := FreeTier, ac_trial_end := None\<rparr>) (bl_accounts b)))
             (\<lambda>b1. Inr (set_tier t FreeTier b1, True))
      else Inr (b, False))"

section \<open>Dunning\<close>

definition dunning_grace_ms :: int where "dunning_grace_ms = 3 * day_ms"

definition grace_ends_at :: "instant \<Rightarrow> instant" where
  "grace_ends_at started = started + dunning_grace_ms"

definition highest_due_day :: "int \<Rightarrow> nat" where
  "highest_due_day elapsed = (if 2 * day_ms \<le> elapsed then 2 else if day_ms \<le> elapsed then 1 else 0)"

text \<open>A reminder as it is handed to the mail service, with the parts of its idempotency key.\<close>

record reminder =
  rm_tenant :: nat
  rm_started :: instant
  rm_day :: nat
  rm_plan :: tier
  rm_to :: string

definition send_dunning_reminder ::
  "bill_user list \<Rightarrow> instant \<Rightarrow> nat \<Rightarrow> nat \<Rightarrow> account list \<Rightarrow> reminder option" where
  "send_dunning_reminder users at t day rows =
     (case primary_row rows t of
        None \<Rightarrow> None
      | Some r \<Rightarrow>
          (case ac_dunning r of
             None \<Rightarrow> None
           | Some started \<Rightarrow>
               if ac_status r \<noteq> PastDue \<or> grace_ends_at started \<le> at then None
               else (case resolve_checkout_identity rows users t of
                   Inl _ \<Rightarrow> None
                 | Inr to \<Rightarrow> Some \<lparr>rm_tenant = t, rm_started = started, rm_day = day, rm_plan = ac_plan r,
                                   rm_to = to\<rparr>)))"

text \<open>
  The drop of an unpaid subscription: the decision is taken on \<^term>\<open>seen\<close>, the accounts before
  Stripe is called; the final statement checks the row again on \<^term>\<open>b\<close>.
\<close>

definition cancel_past_due_subscription_now ::
  "stripe_api \<Rightarrow> instant \<Rightarrow> nat \<Rightarrow> account list \<Rightarrow> billing \<Rightarrow> billing_error + billing \<times> bool" where
  "cancel_past_due_subscription_now api at t seen b =
     (case primary_row seen t of
        None \<Rightarrow> Inr (b, False)
      | Some r \<Rightarrow>
          (case (ac_subscription r, ac_dunning r) of
             (Some s, Some started) \<Rightarrow>
               if ac_provider r \<noteq> Stripe \<or> ac_status r \<noteq> PastDue \<or> at < grace_ends_at started
               then Inr (b, False)
               else if api_cancel api s = ApiError then Inr (b, False)
               else
                 (let hit = (\<lambda>x. ac_id x = ac_id r \<and> ac_status x = PastDue \<and> ac_primary x) in
                  if list_ex hit (bl_accounts b)
                  then and_then (with_rows b (update_rows hit cancelled_row (bl_accounts b)))
                         (\<lambda>b1. Inr (set_tier (ac_tenant r) FreeTier b1, True))
                  else Inr (b, False))
           | _ \<Rightarrow> Inr (b, False)))"

text \<open>
  The sweep: the rows are read once, each is handled in turn, an error of one row is logged and the
  next goes on. The result has the reminders sent and the tenants dropped; the code counts a
  reminder also when none was sent.
\<close>

fun sweep_rows ::
  "stripe_api \<Rightarrow> bill_user list \<Rightarrow> instant \<Rightarrow> account list \<Rightarrow> billing \<times> reminder list \<times> nat \<times> nat
   \<Rightarrow> billing \<times> reminder list \<times> nat \<times> nat" where
  "sweep_rows api users at [] st = st"
| "sweep_rows api users at (r # rs) (b, mails, reminded, dropped) =
     sweep_rows api users at rs
       (case ac_dunning r of
          None \<Rightarrow> (b, mails, reminded, dropped)
        | Some started \<Rightarrow>
            if dunning_grace_ms \<le> at - started then
              (case cancel_past_due_subscription_now api at (ac_tenant r) (bl_accounts b) b of
                 Inl _ \<Rightarrow> (b, mails, reminded, dropped)
               | Inr (b', hit) \<Rightarrow> (b', mails, reminded, if hit then dropped + 1 else dropped))
            else
              (b, mails @ (case send_dunning_reminder users at (ac_tenant r)
                               (highest_due_day (at - started)) (bl_accounts b) of
                             None \<Rightarrow> [] | Some m \<Rightarrow> [m]),
               reminded + 1, dropped))"

definition run_dunning_sweep ::
  "stripe_api \<Rightarrow> bill_user list \<Rightarrow> instant \<Rightarrow> bool \<Rightarrow> billing \<Rightarrow> billing \<times> reminder list \<times> nat \<times> nat" where
  "run_dunning_sweep api users at in_flight b =
     (if in_flight then (b, [], 0, 0)
      else sweep_rows api users at
             (filter (\<lambda>r. ac_provider r = Stripe \<and> ac_status r = PastDue \<and> ac_primary r) (bl_accounts b))
             (b, [], 0, 0))"

section \<open>The billing page\<close>

record billing_state =
  bs_tier :: tier
  bs_provider :: provider
  bs_plan :: tier
  bs_status :: bill_status
  bs_has_subscription :: bool
  bs_grace_ends :: "instant option"

definition get_billing_state :: "billing \<Rightarrow> nat \<Rightarrow> billing_state" where
  "get_billing_state b t =
     (case primary_row (bl_accounts b) t of
        None \<Rightarrow> \<lparr>bs_tier = bl_tiers b t, bs_provider = Stripe, bs_plan = FreeTier, bs_status = NoSub,
                bs_has_subscription = False, bs_grace_ends = None\<rparr>
      | Some r \<Rightarrow>
          \<lparr>bs_tier = bl_tiers b t, bs_provider = ac_provider r, bs_plan = ac_plan r, bs_status = ac_status r,
           bs_has_subscription = (ac_provider r = Stripe \<and> ac_subscription r \<noteq> None
                                  \<and> ac_status r \<in> {Trialing, ActiveSub, PastDue}),
           bs_grace_ends = (if ac_status r = PastDue then map_option grace_ends_at (ac_dunning r) else None)\<rparr>)"

end
