(* ===== verification/BillingProps.thy ===== *)
theory BillingProps
  imports BillingService
begin

text \<open>
  What billing guarantees over any sequence of its operations: the accounts stay consistent, the
  tier of a tenant only moves with its primary account, an event takes effect once, a trial is
  granted once, and an unpaid subscription is dropped after its grace period and not before.
\<close>

section \<open>Writing rows\<close>

lemma clashes_swap: "clashes a b \<Longrightarrow> clashes b a"
  unfolding clashes_def by (elim disjE conjE) simp_all

lemma clashes_sym: "clashes a b = clashes b a"
  using clashes_swap by blast

text \<open>No two rows violate a unique index.\<close>

definition rows_ok :: "account list \<Rightarrow> bool" where
  "rows_ok rows = sorted_wrt (\<lambda>a b. \<not> clashes a b) rows"

lemma rows_ok_Nil [simp]: "rows_ok []"
  by (simp add: rows_ok_def)

lemma rows_ok_append:
  "rows_ok (xs @ ys) \<longleftrightarrow> rows_ok xs \<and> rows_ok ys \<and> (\<forall>a \<in> set xs. \<forall>b \<in> set ys. \<not> clashes a b)"
  by (auto simp: rows_ok_def sorted_wrt_append)

lemma rows_ok_Cons: "rows_ok (r # rs) \<longleftrightarrow> (\<forall>b \<in> set rs. \<not> clashes r b) \<and> rows_ok rs"
  by (auto simp: rows_ok_def)

lemma update_scan_map:
  "update_scan p f seen rs = Some out \<Longrightarrow> out = seen @ map (\<lambda>r. if p r then f r else r) rs"
  by (induction p f seen rs rule: update_scan.induct) (auto split: if_splits)

lemma update_scan_ok:
  "update_scan p f seen rs = Some out \<Longrightarrow> rows_ok (seen @ rs) \<Longrightarrow> rows_ok out"
proof (induction p f seen rs rule: update_scan.induct)
  case (2 p f seen r rs)
  show ?case
  proof (cases "p r")
    case False
    with 2 show ?thesis by simp
  next
    case True
    with 2(3) have free: "\<not> list_ex (clashes (f r)) (seen @ rs)" by (auto split: if_splits)
    have "rows_ok ((seen @ [f r]) @ rs)"
      using 2(4) free by (auto simp: list_ex_iff rows_ok_append rows_ok_Cons dest: clashes_swap)
    with 2 True free show ?thesis by simp
  qed
qed simp

lemma update_rows_map: "update_rows p f rows = Some out \<Longrightarrow> out = map (\<lambda>r. if p r then f r else r) rows"
  using update_scan_map [of p f "[]" rows out] by (simp add: update_rows_def)

lemma update_rows_ok: "update_rows p f rows = Some out \<Longrightarrow> rows_ok rows \<Longrightarrow> rows_ok out"
  using update_scan_ok [of p f "[]" rows out] by (simp add: update_rows_def)

text \<open>A write that brings no new key value always succeeds.\<close>

definition fewer_keys :: "(account \<Rightarrow> account) \<Rightarrow> bool" where
  "fewer_keys f = (\<forall>r x. clashes (f r) x \<longrightarrow> clashes r x)"

lemma update_scan_total:
  "fewer_keys f \<Longrightarrow> rows_ok (seen @ rs) \<Longrightarrow> update_scan p f seen rs \<noteq> None"
proof (induction p f seen rs rule: update_scan.induct)
  case (2 p f seen r rs)
  have "\<not> clashes r x" if "x \<in> set (seen @ rs)" for x
    using 2(4) that clashes_swap by (auto simp: rows_ok_append rows_ok_Cons)
  then have "\<not> list_ex (clashes (f r)) (seen @ rs)"
    using 2(3) by (auto simp: fewer_keys_def list_ex_iff)
  moreover from this have "rows_ok ((seen @ [f r]) @ rs)"
    using 2(4) by (auto simp: list_ex_iff rows_ok_append rows_ok_Cons dest: clashes_swap)
  ultimately show ?case using 2 by auto
qed simp

lemma update_rows_total:
  "fewer_keys f \<Longrightarrow> rows_ok rows \<Longrightarrow> update_rows p f rows = Some (map (\<lambda>r. if p r then f r else r) rows)"
  using update_scan_total [of f "[]" rows p] update_rows_map [of p f rows] by (auto simp: update_rows_def)

lemma insert_account_row_ok: "insert_row a rows = Some out \<Longrightarrow> rows_ok rows \<Longrightarrow> rows_ok out"
  using clashes_swap by (fastforce simp: insert_row_def rows_ok_append rows_ok_Cons list_ex_iff split: if_splits)

lemma upsert_row_ok: "upsert_row a f rows = Some out \<Longrightarrow> rows_ok rows \<Longrightarrow> rows_ok out"
  by (auto simp: upsert_row_def insert_account_row_ok update_rows_ok split: if_splits)

text \<open>The rows after an upsert are the old ones, changed where the key matches, or the new one.\<close>

lemma upsert_row_set:
  assumes "upsert_row a f rows = Some out" and "x \<in> set out"
  shows "x \<in> set rows
    \<or> (\<exists>r \<in> set rows. ac_tenant r = ac_tenant a \<and> ac_provider r = ac_provider a \<and> x = f r)
    \<or> x = a"
  using assms
  by (auto simp: upsert_row_def insert_row_def dest!: update_rows_map split: if_splits)

lemma with_rows_Inr:
  "with_rows b rows = Inr b' \<longleftrightarrow> (\<exists>rs. rows = Some rs \<and> b' = b\<lparr>bl_accounts := rs\<rparr>)"
  by (auto simp: with_rows_def split: option.splits)

lemma update_account_Inr:
  assumes "update_account i f b = Inr b'"
  obtains rs where "update_rows (\<lambda>r. ac_id r = i) f (bl_accounts b) = Some rs"
    and "b' = b\<lparr>bl_accounts := rs\<rparr>"
    and "rs = map (\<lambda>r. if ac_id r = i then f r else r) (bl_accounts b)"
  using assms by (auto simp: update_account_def with_rows_Inr dest: update_rows_map)

lemma set_tier_simps [simp]:
  "bl_accounts (set_tier t tr b) = bl_accounts b" "bl_tiers (set_tier t tr b) = (bl_tiers b)(t := tr)"
  "bl_reservations (set_tier t tr b) = bl_reservations b" "bl_balances (set_tier t tr b) = bl_balances b"
  "bl_audit (set_tier t tr b) = bl_audit b" "bl_next (set_tier t tr b) = bl_next b"
  by (simp_all add: set_tier_def)

lemma claim_reservation_simps [simp]:
  "bl_accounts (claim_reservation t s b) = bl_accounts b" "bl_tiers (claim_reservation t s b) = bl_tiers b"
  "bl_balances (claim_reservation t s b) = bl_balances b" "bl_next (claim_reservation t s b) = bl_next b"
  by (simp_all add: claim_reservation_def)

lemma then_outcome_Inr: "then_outcome out r = Inr (b, out') \<longleftrightarrow> r = Inr b \<and> out' = out"
  by (cases r) (auto simp: then_outcome_def)

section \<open>The account invariant\<close>

text \<open>
  A manual row has no Stripe ids and no dunning clock; a Stripe row in a live status has its
  subscription; a paying row has no clock; a primary row that is past due has one.
\<close>

definition account_ok :: "account \<Rightarrow> bool" where
  "account_ok r =
     (case ac_provider r of
        Manual \<Rightarrow> ac_customer r = None \<and> ac_subscription r = None \<and> ac_dunning r = None
                   \<and> ac_status r \<noteq> PastDue
      | Stripe \<Rightarrow> (ac_status r \<in> {Trialing, ActiveSub, PastDue} \<longrightarrow> ac_subscription r \<noteq> None)
                  \<and> (ac_status r \<in> {Trialing, ActiveSub} \<longrightarrow> ac_dunning r = None)
                  \<and> (ac_status r = PastDue \<longrightarrow> ac_primary r \<longrightarrow> ac_dunning r \<noteq> None))"

definition billing_ok :: "billing \<Rightarrow> bool" where
  "billing_ok b =
     (rows_ok (bl_accounts b) \<and> (\<forall>r \<in> set (bl_accounts b). account_ok r)
      \<and> distinct (map rv_tenant (bl_reservations b)))"

text \<open>Earlier rows and later ones agree on what never changes.\<close>

definition same_rows :: "account list \<Rightarrow> account list \<Rightarrow> bool" where
  "same_rows old new =
     (\<forall>m \<in> set old. \<forall>r \<in> set new. ac_id m = ac_id r \<longrightarrow> ac_tenant m = ac_tenant r \<and> ac_provider m = ac_provider r)"

lemma rows_ok_distinct: "rows_ok rows \<Longrightarrow> distinct (map ac_id rows)"
  by (induction rows) (auto simp: rows_ok_Cons clashes_def)

lemma rows_ok_unique:
  assumes "rows_ok rows" "a \<in> set rows" "b \<in> set rows" "clashes a b"
  shows "a = b"
  using assms by (induction rows) (auto simp: rows_ok_Cons clashes_sym [of a b] dest: clashes_swap)

lemma rows_ok_same_rows: "rows_ok rows \<Longrightarrow> same_rows rows rows"
  using rows_ok_unique by (fastforce simp: same_rows_def clashes_def)

text \<open>Every old row is still there, under the same key.\<close>

definition same_key :: "account \<Rightarrow> account \<Rightarrow> bool" where
  "same_key a b = (ac_id a = ac_id b \<and> ac_tenant a = ac_tenant b \<and> ac_provider a = ac_provider b)"

definition kept :: "account list \<Rightarrow> account list \<Rightarrow> bool" where
  "kept old new = (\<forall>m \<in> set old. \<exists>r \<in> set new. same_key m r)"

lemma kept_refl [simp]: "kept rows rows"
  by (auto simp: kept_def same_key_def)

lemma kept_trans: "kept a b \<Longrightarrow> kept b c \<Longrightarrow> kept a c"
  unfolding kept_def same_key_def by metis

lemma kept_map: "(\<And>r. r \<in> set rows \<Longrightarrow> same_key r (g r)) \<Longrightarrow> kept rows (map g rows)"
  by (auto simp: kept_def)

lemma kept_find:
  assumes "kept seen rows" "rows_ok rows" "m \<in> set seen" "find (\<lambda>r. ac_id r = ac_id m) rows = Some row"
  shows "same_key m row" "row \<in> set rows"
proof -
  from assms(4) have row: "row \<in> set rows" "ac_id row = ac_id m" by (auto simp: find_Some_iff)
  then show "row \<in> set rows" by simp
  obtain r where r: "r \<in> set rows" "same_key m r" using assms(1,3) by (auto simp: kept_def)
  then have "r = row" using rows_ok_unique [OF assms(2) r(1) row(1)] row(2)
    by (auto simp: clashes_def same_key_def)
  with r show "same_key m row" by simp
qed

text \<open>The billing tables after a step: consistent again, and nothing lost.\<close>

definition good_step :: "billing \<Rightarrow> billing \<Rightarrow> bool" where
  "good_step b b' = (billing_ok b \<longrightarrow> billing_ok b' \<and> kept (bl_accounts b) (bl_accounts b'))"

lemma good_step_refl [simp]: "good_step b b"
  by (simp add: good_step_def)

lemma good_step_trans: "good_step a b \<Longrightarrow> good_step b c \<Longrightarrow> good_step a c"
  unfolding good_step_def using kept_trans by blast

lemma good_step_rows:
  assumes "rows_ok (bl_accounts b) \<Longrightarrow> rows_ok (bl_accounts b')"
    and "bl_accounts b' = map g (bl_accounts b)"
    and "\<And>r. r \<in> set (bl_accounts b) \<Longrightarrow> billing_ok b \<Longrightarrow> same_key r (g r) \<and> account_ok (g r)"
    and "map rv_tenant (bl_reservations b') = map rv_tenant (bl_reservations b)"
  shows "good_step b b'"
  using assms(1,3,4) kept_map [of "bl_accounts b" g]
  by (auto simp: good_step_def billing_ok_def assms(2))

lemma good_step_same:
  "bl_accounts b' = bl_accounts b \<Longrightarrow> map rv_tenant (bl_reservations b') = map rv_tenant (bl_reservations b)
   \<Longrightarrow> good_step b b'"
  by (rule good_step_rows [of _ _ "\<lambda>r. r"]) (auto simp: same_key_def billing_ok_def)

lemma account_ok_demoted: "account_ok r \<Longrightarrow> account_ok (r\<lparr>ac_primary := False\<rparr>)"
  by (auto simp: account_ok_def split: provider.splits)

lemma good_update:
  assumes "update_account i f b = Inr b'"
    and "\<And>r. r \<in> set (bl_accounts b) \<Longrightarrow> billing_ok b \<Longrightarrow> ac_id r = i \<Longrightarrow> same_key r (f r) \<and> account_ok (f r)"
  shows "good_step b b'"
proof -
  obtain rs where rs: "update_rows (\<lambda>r. ac_id r = i) f (bl_accounts b) = Some rs"
    "b' = b\<lparr>bl_accounts := rs\<rparr>" "rs = map (\<lambda>r. if ac_id r = i then f r else r) (bl_accounts b)"
    using assms(1) by (rule update_account_Inr)
  show ?thesis
  proof (rule good_step_rows [where g = "\<lambda>r. if ac_id r = i then f r else r"])
    show "rows_ok (bl_accounts b')" if "rows_ok (bl_accounts b)"
      using update_rows_ok [OF rs(1) that] by (simp add: rs(2))
    show "bl_accounts b' = map (\<lambda>r. if ac_id r = i then f r else r) (bl_accounts b)"
      by (simp add: rs(2,3))
    show "same_key r (if ac_id r = i then f r else r) \<and> account_ok (if ac_id r = i then f r else r)"
      if "r \<in> set (bl_accounts b)" "billing_ok b" for r
      using assms(2) [OF that] that by (auto simp: billing_ok_def same_key_def)
  qed (simp add: rs(2))
qed

lemma good_upsert:
  assumes "with_rows b (upsert_row a f (bl_accounts b)) = Inr b'" and "account_ok a"
    and "\<And>r. r \<in> set (bl_accounts b) \<Longrightarrow> billing_ok b \<Longrightarrow> ac_tenant r = ac_tenant a \<Longrightarrow>
           ac_provider r = ac_provider a \<Longrightarrow> same_key r (f r) \<and> account_ok (f r)"
  shows "good_step b b'"
proof -
  obtain rs where rs: "upsert_row a f (bl_accounts b) = Some rs" "b' = b\<lparr>bl_accounts := rs\<rparr>"
    using assms(1) by (auto simp: with_rows_Inr)
  show ?thesis unfolding good_step_def
  proof
    assume ok: "billing_ok b"
    then have "rows_ok rs" using upsert_row_ok [OF rs(1)] by (simp add: billing_ok_def)
    moreover have "account_ok x" if "x \<in> set rs" for x
      using upsert_row_set [OF rs(1) that] assms(2,3) ok by (auto simp: billing_ok_def)
    moreover have "kept (bl_accounts b) rs"
    proof (cases "\<exists>r \<in> set (bl_accounts b). ac_tenant r = ac_tenant a \<and> ac_provider r = ac_provider a")
      case True
      then have "rs = map (\<lambda>r. if ac_tenant r = ac_tenant a \<and> ac_provider r = ac_provider a then f r else r) (bl_accounts b)"
        using rs(1) by (auto simp: upsert_row_def dest: update_rows_map)
      then show ?thesis using assms(3) ok by (auto intro!: kept_map simp: same_key_def)
    next
      case False
      then have "rs = bl_accounts b @ [a]"
        using rs(1) unfolding upsert_row_def if_not_P [OF False] by (auto simp: insert_row_def split: if_splits)
      then show ?thesis by (auto simp: kept_def same_key_def)
    qed
    ultimately show "billing_ok b' \<and> kept (bl_accounts b) (bl_accounts b')"
      using ok by (simp add: rs(2) billing_ok_def)
  qed
qed

text \<open>A write by id changes one row.\<close>

lemma good_update_row:
  assumes "update_account (ac_id row) f b = Inr b'" and "row \<in> set (bl_accounts b)"
    and "account_ok row \<Longrightarrow> same_key row (f row) \<and> account_ok (f row)"
  shows "good_step b b'"
proof (rule good_update [OF assms(1)])
  fix r assume r: "r \<in> set (bl_accounts b)" "billing_ok b" "ac_id r = ac_id row"
  then have "r = row"
    using rows_ok_unique [of "bl_accounts b" r row] assms(2) by (auto simp: billing_ok_def clashes_def)
  with r assms(3) show "same_key r (f r) \<and> account_ok (f r)" by (auto simp: billing_ok_def)
qed

lemma account_ok_Stripe:
  "ac_provider r = Stripe \<Longrightarrow> account_ok r \<longleftrightarrow>
     (ac_status r \<in> {Trialing, ActiveSub, PastDue} \<longrightarrow> ac_subscription r \<noteq> None)
     \<and> (ac_status r \<in> {Trialing, ActiveSub} \<longrightarrow> ac_dunning r = None)
     \<and> (ac_status r = PastDue \<longrightarrow> ac_primary r \<longrightarrow> ac_dunning r \<noteq> None)"
  by (simp add: account_ok_def)

lemma account_ok_Manual:
  "ac_provider r = Manual \<Longrightarrow> account_ok r \<longleftrightarrow>
     ac_customer r = None \<and> ac_subscription r = None \<and> ac_dunning r = None \<and> ac_status r \<noteq> PastDue"
  by (simp add: account_ok_def)

lemma good_demote: "demote_primaries t b = Inr b' \<Longrightarrow> good_step b b'"
proof -
  assume "demote_primaries t b = Inr b'"
  then obtain rs where rs: "update_rows (\<lambda>r. ac_tenant r = t \<and> ac_primary r) (\<lambda>r. r\<lparr>ac_primary := False\<rparr>)
      (bl_accounts b) = Some rs" "b' = b\<lparr>bl_accounts := rs\<rparr>"
    by (auto simp: demote_primaries_def with_rows_Inr)
  show ?thesis
    by (rule good_step_rows [where g = "\<lambda>r. if ac_tenant r = t \<and> ac_primary r then r\<lparr>ac_primary := False\<rparr> else r"])
       (use rs update_rows_ok [OF rs(1)] update_rows_map [OF rs(1)] in
         \<open>auto simp: same_key_def billing_ok_def account_ok_demoted\<close>)
qed

section \<open>The handlers\<close>

lemma update_account_shape:
  assumes "update_account i f b = Inr b'"
  shows "bl_accounts b' = map (\<lambda>r. if ac_id r = i then f r else r) (bl_accounts b)"
    and "bl_tiers b' = bl_tiers b" and "bl_reservations b' = bl_reservations b"
    and "bl_balances b' = bl_balances b"
    and "rows_ok (bl_accounts b) \<Longrightarrow> rows_ok (bl_accounts b')"
  using assms update_rows_ok by (auto elim!: update_account_Inr)

text \<open>The tier of a tenant is backed by its primary account.\<close>

definition backed :: "billing \<Rightarrow> nat \<Rightarrow> bool" where
  "backed b t =
     (\<exists>r \<in> set (bl_accounts b). ac_tenant r = t \<and> ac_primary r \<and> ac_plan r = bl_tiers b t
        \<and> (bl_tiers b t = FreeTier \<or> ac_status r \<in> {Trialing, ActiveSub}))"

definition tier_step :: "billing \<Rightarrow> billing \<Rightarrow> bool" where
  "tier_step b b' = (\<forall>t. bl_tiers b' t = bl_tiers b t \<or> backed b' t)"

lemma tier_step_same [simp]: "bl_tiers b' = bl_tiers b \<Longrightarrow> tier_step b b'"
  by (simp add: tier_step_def)

lemma account_ok_cancelled: "account_ok r \<Longrightarrow> same_key r (cancelled_row r) \<and> account_ok (cancelled_row r)"
  by (auto simp: account_ok_def same_key_def cancelled_row_def split: provider.splits)

text \<open>A row of the table that is the only one with its id.\<close>

lemma good_deleted:
  assumes "handle_subscription_deleted api s e row b = Inr (b', out)" and "row \<in> set (bl_accounts b)"
  shows "good_step b b' \<and> tier_step b b' \<and> bl_reservations b' = bl_reservations b"
proof (cases "ac_subscription row \<noteq> None \<and> ac_subscription row \<noteq> Some (su_id s)")
  case True
  with assms(1) show ?thesis by (simp add: handle_subscription_deleted_def)
next
  case False
  then obtain b1 where b1: "update_account (ac_id row) cancelled_row b = Inr b1"
    and b': "b' = (if ac_primary row then set_tier (ac_tenant row) FreeTier b1 else b1)
              \<lparr>bl_audit := bl_audit (if ac_primary row then set_tier (ac_tenant row) FreeTier b1 else b1)
                 @ [TenantCancelledAudit (ac_tenant row) e]\<rparr>"
    using assms(1) unfolding handle_subscription_deleted_def if_not_P [OF False]
    by (auto simp: and_then_Inr Let_def)
  note shape = update_account_shape [OF b1]
  have "good_step b b1"
    by (rule good_update [OF b1]) (use account_ok_cancelled in \<open>auto simp: billing_ok_def\<close>)
  moreover have "good_step b1 b'" by (rule good_step_same) (auto simp: b')
  ultimately have "good_step b b'" by (rule good_step_trans)
  moreover have "tier_step b b'"
  proof (cases "ac_primary row")
    case True
    have "cancelled_row row \<in> set (bl_accounts b')" using assms(2) True by (auto simp: b' shape(1))
    then have "backed b' (ac_tenant row)"
      using True by (auto simp: backed_def b' cancelled_row_def intro!: bexI [of _ "cancelled_row row"])
    then show ?thesis using True by (auto simp: tier_step_def b' shape(2))
  qed (simp add: b' shape(2))
  moreover have "bl_reservations b' = bl_reservations b" by (simp add: b' shape(3))
  ultimately show ?thesis by simp
qed

lemma subscription_row_simps:
  fixes s :: normalized_sub and plan :: tier and en :: schedule_enrichment
  defines "E \<equiv> \<lambda>r. schedule_raw_row en (subscription_row s (ns_status s = PastDue) plan en r)"
  shows "same_key r (E r)" "ac_primary (E r) = ac_primary r" "ac_status (E r) = ns_status s"
    "ac_customer (E r) = ac_customer r"
    "ns_subscription s \<noteq> None \<Longrightarrow> ac_subscription (E r) \<noteq> None"
    "ns_status s \<noteq> PastDue \<Longrightarrow> ac_plan (E r) = plan"
    "ac_dunning (E r) = (if ns_status s \<in> {ActiveSub, Trialing} then None else ac_dunning r)"
  unfolding E_def
  by (cases en; auto simp: same_key_def schedule_raw_row_def subscription_row_def Let_def)+

lemma subscription_row_id: "ac_id (subscription_row s pd plan en r) = ac_id r"
  by (cases en) (auto simp: subscription_row_def Let_def)

text \<open>A subscription row is consistent unless it is past due, primary and without a clock.\<close>

lemma subscription_row_ok:
  assumes "account_ok r" "ac_provider r = Stripe" "ns_subscription s \<noteq> None"
    and "\<not> (ns_status s = PastDue \<and> ac_primary r \<and> ac_dunning r = None)"
  shows "account_ok (schedule_raw_row en (subscription_row s (ns_status s = PastDue) plan en r))"
proof -
  note simps = subscription_row_simps [where r = r and en = en and s = s and plan = plan, unfolded same_key_def]
  show ?thesis
    unfolding account_ok_def using assms simps(1-5,7) by (auto split: provider.splits)
qed

lemma good_promote:
  assumes "promote_primary_and_cascade_tier row plan b = Inr b'" and "row' \<in> set (bl_accounts b)"
    and "same_key row row'" and "ac_status row' \<in> {Trialing, ActiveSub}" and "ac_plan row' = plan"
    and "ac_provider row' = Stripe"
  shows "good_step b b' \<and> tier_step b b' \<and> bl_reservations b' = bl_reservations b"
proof -
  let ?p = "\<lambda>r. ac_tenant r = ac_tenant row \<and> (ac_id r = ac_id row \<or> ac_primary r)"
  let ?f = "\<lambda>r. r\<lparr>ac_primary := (ac_id r = ac_id row)\<rparr>"
  obtain rs where rs: "update_rows ?p ?f (bl_accounts b) = Some rs"
    and b': "b' = set_tier (ac_tenant row) plan (b\<lparr>bl_accounts := rs\<rparr>)"
    using assms(1) by (auto simp: promote_primary_and_cascade_tier_def and_then_Inr with_rows_Inr)
  have map: "rs = map (\<lambda>r. if ?p r then ?f r else r) (bl_accounts b)" using update_rows_map [OF rs] .
  have "good_step b b'"
  proof (rule good_step_rows [where g = "\<lambda>r. if ?p r then ?f r else r"])
    show "rows_ok (bl_accounts b')" if "rows_ok (bl_accounts b)"
      using update_rows_ok [OF rs that] by (simp add: b')
    show "bl_accounts b' = map (\<lambda>r. if ?p r then ?f r else r) (bl_accounts b)" by (simp add: b' map)
    fix r assume r: "r \<in> set (bl_accounts b)" "billing_ok b"
    then have ok: "account_ok r" "account_ok row'" using assms(2) by (auto simp: billing_ok_def)
    show "same_key r (if ?p r then ?f r else r) \<and> account_ok (if ?p r then ?f r else r)"
    proof (cases "ac_id r = ac_id row")
      case True
      then have "r = row'"
        using rows_ok_unique [of "bl_accounts b" r row'] r assms(2,3)
        by (auto simp: billing_ok_def clashes_def same_key_def)
      then show ?thesis using ok assms(4,6)
        by (auto simp: same_key_def account_ok_def split: provider.splits)
    next
      case False
      then show ?thesis using account_ok_demoted [OF ok(1)] ok(1) by (auto simp: same_key_def)
    qed
  qed (simp add: b')
  moreover have "?f row' \<in> set (bl_accounts b')"
    using assms(2,3) by (auto simp: b' map same_key_def intro!: image_eqI [of _ _ row'])
  then have "backed b' (ac_tenant row)"
    using assms(3-5) by (auto simp: backed_def b' same_key_def intro!: bexI [of _ "?f row'"])
  then have "tier_step b b'" by (auto simp: tier_step_def b')
  ultimately show ?thesis by (simp add: b')
qed

text \<open>The two writes of an upserted row, with the claim of the reservation between them.\<close>

definition upsert_written ::
  "account \<Rightarrow> normalized_sub \<Rightarrow> tier \<Rightarrow> schedule_enrichment \<Rightarrow> billing \<Rightarrow> billing \<Rightarrow> bool" where
  "upsert_written row s plan en b b2 =
     (bl_accounts b2 = map (\<lambda>r. if ac_id r = ac_id row
        then schedule_raw_row en (subscription_row s (ns_status s = PastDue) plan en r) else r) (bl_accounts b)
      \<and> (rows_ok (bl_accounts b) \<longrightarrow> rows_ok (bl_accounts b2))
      \<and> bl_tiers b2 = bl_tiers b
      \<and> bl_reservations b2 = bl_reservations (claim_reservation (ac_tenant row) (ns_subscription s) b))"

lemma upsert_shape:
  assumes "handle_subscription_upsert cfg api now ev raw row b = Inr (b', out)"
  shows "b' = b \<or> (\<exists>s plan en b2. ne_sub ev = Some s \<and> upsert_written row s plan en b b2
    \<and> resolve_subscription_outcome now row s (ns_status s = PastDue) plan b2 = Inr (b', out))"
proof (cases "b' = b")
  case False
  obtain s where s: "ne_sub ev = Some s"
    using assms False by (auto simp: handle_subscription_upsert_def split: option.splits)
  let ?plan = "resolve_new_plan cfg s row (ns_status s = PastDue) (su_price raw)"
  obtain en b1 b2 where b1: "update_account (ac_id row) (subscription_row s (ns_status s = PastDue) ?plan en) b = Inr b1"
    and b2: "update_account (ac_id row) (schedule_raw_row en)
               (claim_reservation (ac_tenant row) (ns_subscription s) b1) = Inr b2"
    and out: "resolve_subscription_outcome now row s (ns_status s = PastDue) ?plan b2 = Inr (b', out)"
    using assms False s
    by (auto simp: handle_subscription_upsert_def and_then_Inr Let_def split: if_splits)
  note sh1 = update_account_shape [OF b1] and sh2 = update_account_shape [OF b2]
  have "upsert_written row s ?plan en b b2"
    unfolding upsert_written_def
    using sh1 sh2 by (auto simp: subscription_row_id claim_reservation_def)
  with s out show ?thesis by blast
qed simp

lemma claim_tenants: "map rv_tenant (bl_reservations (claim_reservation t s b)) = map rv_tenant (bl_reservations b)"
  by (auto simp: claim_reservation_def)

lemma written_row_mem:
  assumes "upsert_written row s plan en b b2" "row \<in> set (bl_accounts b)"
  shows "schedule_raw_row en (subscription_row s (ns_status s = PastDue) plan en row) \<in> set (bl_accounts b2)"
  using assms by (auto simp: upsert_written_def intro!: image_eqI [of _ _ row])

text \<open>The writes are a good step unless the clock is still missing.\<close>

lemma good_written:
  assumes w: "upsert_written row s plan en b b2" and mem: "row \<in> set (bl_accounts b)"
    and stripe: "ac_provider row = Stripe" and sub: "ns_subscription s \<noteq> None"
    and clock: "\<not> (ns_status s = PastDue \<and> ac_primary row \<and> ac_dunning row = None)"
  shows "good_step b b2"
proof (rule good_step_rows)
  show "bl_accounts b2 = map (\<lambda>r. if ac_id r = ac_id row
        then schedule_raw_row en (subscription_row s (ns_status s = PastDue) plan en r) else r) (bl_accounts b)"
    using w by (simp add: upsert_written_def)
  show "rows_ok (bl_accounts b2)" if "rows_ok (bl_accounts b)" using w that unfolding upsert_written_def by blast
  show "map rv_tenant (bl_reservations b2) = map rv_tenant (bl_reservations b)"
    using w claim_tenants by (simp add: upsert_written_def)
  fix r assume r: "r \<in> set (bl_accounts b)" "billing_ok b"
  have "r = row" if "ac_id r = ac_id row"
    using rows_ok_unique [of "bl_accounts b" r row] r mem that by (auto simp: billing_ok_def clashes_def)
  then show "same_key r (if ac_id r = ac_id row
        then schedule_raw_row en (subscription_row s (ns_status s = PastDue) plan en r) else r)
      \<and> account_ok (if ac_id r = ac_id row
        then schedule_raw_row en (subscription_row s (ns_status s = PastDue) plan en r) else r)"
    using r subscription_row_ok [OF _ stripe sub clock] subscription_row_simps(1) [of r en s plan] mem
    by (auto simp: billing_ok_def same_key_def)
qed

lemma good_stamped:
  assumes w: "upsert_written row s plan en b b2" and mem: "row \<in> set (bl_accounts b)"
    and stripe: "ac_provider row = Stripe" and sub: "ns_subscription s \<noteq> None" and pd: "ns_status s = PastDue"
    and stamp: "update_account (ac_id row) (\<lambda>r. r\<lparr>ac_dunning := Some now\<rparr>) b2 = Inr b'"
  shows "good_step b b'"
proof (rule good_step_rows)
  note sh = update_account_shape [OF stamp]
  let ?E = "\<lambda>r. schedule_raw_row en (subscription_row s (ns_status s = PastDue) plan en r)"
  show "bl_accounts b' = map (\<lambda>r. if ac_id r = ac_id row then (?E r)\<lparr>ac_dunning := Some now\<rparr> else r) (bl_accounts b)"
    using w sh(1) subscription_row_simps(1) [of _ en s plan] by (auto simp: upsert_written_def same_key_def)
  show "rows_ok (bl_accounts b')" if "rows_ok (bl_accounts b)" using w that sh(5) unfolding upsert_written_def by blast
  show "map rv_tenant (bl_reservations b') = map rv_tenant (bl_reservations b)"
    using w claim_tenants sh(3) by (simp add: upsert_written_def)
  fix r assume r: "r \<in> set (bl_accounts b)" "billing_ok b"
  have eq: "r = row" if "ac_id r = ac_id row"
    using rows_ok_unique [of "bl_accounts b" r row] r mem that by (auto simp: billing_ok_def clashes_def)
  note simps = subscription_row_simps [where r = row and en = en and s = s and plan = plan, unfolded same_key_def]
  have "same_key row ((?E row)\<lparr>ac_dunning := Some now\<rparr>) \<and> account_ok ((?E row)\<lparr>ac_dunning := Some now\<rparr>)"
    using simps(1-5) stripe sub pd by (auto simp: account_ok_def same_key_def split: provider.splits)
  then show "same_key r (if ac_id r = ac_id row then (?E r)\<lparr>ac_dunning := Some now\<rparr> else r)
      \<and> account_ok (if ac_id r = ac_id row then (?E r)\<lparr>ac_dunning := Some now\<rparr> else r)"
    using eq r by (auto simp: billing_ok_def same_key_def)
qed

lemma good_upserted:
  assumes h: "handle_subscription_upsert cfg api now ev raw row b = Inr (b', out)"
    and mem: "row \<in> set (bl_accounts b)" and stripe: "ac_provider row = Stripe"
    and sub: "\<And>s. ne_sub ev = Some s \<Longrightarrow> ns_subscription s \<noteq> None"
  shows "good_step b b' \<and> tier_step b b'
    \<and> (bl_reservations b' = bl_reservations b \<or> (\<exists>s. ne_sub ev = Some s
         \<and> bl_reservations b' = bl_reservations (claim_reservation (ac_tenant row) (ns_subscription s) b)))"
  using upsert_shape [OF h]
proof
  assume "\<exists>s plan en b2. ne_sub ev = Some s \<and> upsert_written row s plan en b b2
    \<and> resolve_subscription_outcome now row s (ns_status s = PastDue) plan b2 = Inr (b', out)"
  then obtain s plan en b2 where s: "ne_sub ev = Some s" and w: "upsert_written row s plan en b b2"
    and out: "resolve_subscription_outcome now row s (ns_status s = PastDue) plan b2 = Inr (b', out)" by blast
  note sub = sub [OF s]
  let ?E = "schedule_raw_row en (subscription_row s (ns_status s = PastDue) plan en row)"
  note simps = subscription_row_simps [where r = row and en = en and s = s and plan = plan]
  have mem2: "?E \<in> set (bl_accounts b2)" by (rule written_row_mem [OF w mem])
  have tiers: "bl_tiers b2 = bl_tiers b"
    and res: "bl_reservations b2 = bl_reservations (claim_reservation (ac_tenant row) (ns_subscription s) b)"
    using w by (simp_all add: upsert_written_def)
  show ?thesis
  proof (cases "ns_status s \<in> {Trialing, ActiveSub}")
    case grants: True
    then have good: "good_step b b2" by (intro good_written [OF w mem stripe sub]) auto
    have E: "same_key row ?E" "ac_status ?E = ns_status s" "ac_plan ?E = plan" "ac_primary ?E = ac_primary row"
      using simps(1-3,6) grants by auto
    show ?thesis
    proof (cases "ac_primary row")
      case True
      then have b': "b' = set_tier (ac_tenant row) plan b2"
        using out grants by (auto simp: resolve_subscription_outcome_def Let_def)
      have "backed b' (ac_tenant row)"
        using mem2 E grants True by (auto simp: backed_def b' same_key_def intro!: bexI [of _ ?E])
      then have "tier_step b b'" by (auto simp: tier_step_def b' tiers)
      moreover have "good_step b2 b'" by (rule good_step_same) (simp_all add: b')
      with good have "good_step b b'" by (rule good_step_trans)
      ultimately show ?thesis using s res by (auto simp: b')
    next
      case False
      then have p: "promote_primary_and_cascade_tier row plan b2 = Inr b'"
        using out grants by (auto simp: resolve_subscription_outcome_def Let_def then_outcome_Inr)
      have "ac_provider ?E = Stripe" using E(1) stripe by (simp add: same_key_def)
      then have "good_step b2 b' \<and> tier_step b2 b' \<and> bl_reservations b' = bl_reservations b2"
        using good_promote [OF p mem2 E(1) _ E(3)] E(2) grants by simp
      then show ?thesis using good good_step_trans [of b b2 b'] s res tiers by (auto simp: tier_step_def)
    qed
  next
    case nogrant: False
    show ?thesis
    proof (cases "ns_status s = PastDue \<and> ac_primary row \<and> ac_dunning row = None")
      case True
      then have stamp: "update_account (ac_id row) (\<lambda>r. r\<lparr>ac_dunning := Some now\<rparr>) b2 = Inr b'"
        using out sub by (auto simp: resolve_subscription_outcome_def Let_def then_outcome_Inr)
      note sh = update_account_shape [OF stamp]
      have "good_step b b'" using good_stamped [OF w mem stripe sub _ stamp] True by simp
      then show ?thesis using s res tiers sh(2,3) by auto
    next
      case False
      then have "b' = b2" using out nogrant by (auto simp: resolve_subscription_outcome_def Let_def split: if_splits)
      with good_written [OF w mem stripe sub False] s res tiers show ?thesis by auto
    qed
  qed
qed simp

lemma good_invoice_paid:
  assumes "handle_invoice_paid ev row b = Inr (b', out)" and "row \<in> set (bl_accounts b)"
    and "ac_provider row = Stripe"
  shows "good_step b b' \<and> bl_tiers b' = bl_tiers b \<and> bl_reservations b' = bl_reservations b"
proof -
  consider "b' = b"
    | "ac_status row = PastDue" "update_account (ac_id row) (\<lambda>r. r\<lparr>ac_status := ActiveSub, ac_dunning := None\<rparr>) b = Inr b'"
    | "ac_status row \<noteq> PastDue" "update_account (ac_id row) (\<lambda>r. r\<lparr>ac_dunning := None\<rparr>) b = Inr b'"
    using assms(1) by (auto simp: handle_invoice_paid_def then_outcome_Inr split: if_splits)
  then show ?thesis
  proof cases
    case 2
    have "good_step b b'"
      by (rule good_update_row [OF 2(2) assms(2)])
         (use 2(1) assms(3) in \<open>auto simp: same_key_def account_ok_Stripe\<close>)
    with update_account_shape [OF 2(2)] show ?thesis by simp
  next
    case 3
    have "good_step b b'"
      by (rule good_update_row [OF 3(2) assms(2)])
         (use 3(1) assms(3) in \<open>auto simp: same_key_def account_ok_Stripe\<close>)
    with update_account_shape [OF 3(2)] show ?thesis by simp
  qed simp
qed

lemma good_invoice_failed:
  assumes "handle_invoice_failed now ev row b = Inr (b', out)" and "row \<in> set (bl_accounts b)"
    and "ac_provider row = Stripe"
  shows "good_step b b' \<and> bl_tiers b' = bl_tiers b \<and> bl_reservations b' = bl_reservations b"
proof -
  consider "b' = b"
    | "ac_status row \<in> {ActiveSub, Trialing}"
      "update_account (ac_id row) (\<lambda>r. r\<lparr>ac_status := PastDue,
         ac_dunning := (if ac_dunning row = None then Some now else ac_dunning r)\<rparr>) b = Inr b'"
    using assms(1) by (auto simp: handle_invoice_failed_def then_outcome_Inr split: if_splits)
  then show ?thesis
  proof cases
    case 2
    have "good_step b b'"
      by (rule good_update_row [OF 2(2) assms(2)])
         (use 2(1) assms(3) in \<open>auto simp: same_key_def account_ok_Stripe\<close>)
    with update_account_shape [OF 2(2)] show ?thesis by simp
  qed simp
qed

lemma provider_row_Some:
  "provider_row rows p t = Some r \<Longrightarrow> r \<in> set rows \<and> ac_tenant r = t \<and> ac_provider r = p"
  by (auto simp: provider_row_def find_Some_iff)

lemma primary_row_Some: "primary_row rows t = Some r \<Longrightarrow> r \<in> set rows \<and> ac_tenant r = t \<and> ac_primary r"
  by (auto simp: primary_row_def find_Some_iff)

lemma good_checkout_completed:
  assumes "handle_checkout_session_completed api now sid b = Inr (b', out)"
  shows "good_step b b' \<and> bl_tiers b' = bl_tiers b \<and> bl_reservations b' = bl_reservations b"
proof -
  consider "bl_accounts b' = bl_accounts b" "bl_tiers b' = bl_tiers b" "bl_reservations b' = bl_reservations b"
    | t r c s where "provider_row (bl_accounts b) Stripe t = Some r"
      "update_account (ac_id r) (bookkeeping_row c s) b = Inr b'"
    using assms
    by (auto simp: handle_checkout_session_completed_def then_outcome_Inr Let_def
          split: option.splits if_splits)
  then show ?thesis
  proof cases
    case 1
    then show ?thesis by (auto intro: good_step_same)
  next
    case (2 t r c s)
    note r = provider_row_Some [OF 2(1)]
    have "good_step b b'"
      by (rule good_update_row [OF 2(2)])
         (use r in \<open>auto simp: same_key_def account_ok_Stripe bookkeeping_row_def\<close>)
    with update_account_shape [OF 2(2)] show ?thesis by simp
  qed
qed

lemma good_reservations:
  assumes "bl_accounts b' = bl_accounts b"
    and "distinct (map rv_tenant (bl_reservations b)) \<Longrightarrow> distinct (map rv_tenant (bl_reservations b'))"
  shows "good_step b b'"
  using assms by (auto simp: good_step_def billing_ok_def)

lemma good_checkout_expired:
  "handle_checkout_session_expired sid t b = (b', out) \<Longrightarrow> good_step b b' \<and> bl_tiers b' = bl_tiers b"
  by (auto simp: handle_checkout_session_expired_def Let_def distinct_map_filter intro!: good_reservations
      split: option.splits if_splits)

text \<open>What the handler is given: the matched row is a Stripe row that an earlier reading saw.\<close>

definition matched_from :: "account list \<Rightarrow> account option \<Rightarrow> bool" where
  "matched_from rows m = (\<forall>r. m = Some r \<longrightarrow> (\<exists>s \<in> set rows. s = r \<and> ac_provider r = Stripe))"

lemma resolve_event_row_matched: "matched_from rows (resolve_event_row rows ev)"
  by (auto simp: matched_from_def resolve_event_row_def Let_def find_Some_iff split: option.splits if_splits)

lemma handled_cases:
  assumes h: "handle_normalized_event cfg api now ev matched b = Inr (b', out)"
  obtains (same) "b' = b"
    | (completed) sid where "handle_checkout_session_completed api now sid b = Inr (b', out)"
    | (expired) sid t where "handle_checkout_session_expired sid t b = (b', out)"
    | (row) r row where "matched = Some r" "find (\<lambda>x. ac_id x = ac_id r) (bl_accounts b) = Some row"
      "handle_invoice_paid ev row b = Inr (b', out) \<or> handle_invoice_failed now ev row b = Inr (b', out)
       \<or> (\<exists>s. handle_subscription_deleted api s (ne_id ev) row b = Inr (b', out))
       \<or> (\<exists>s. handle_subscription_upsert cfg api now ev s row b = Inr (b', out))"
proof -
  note h' = h [unfolded handle_normalized_event_def]
  consider "ne_type ev \<in> {RefundRecorded, SubscriptionTrialWillEnd}" | "ne_type ev = CheckoutCompleted"
    | "ne_type ev = CheckoutExpired"
    | "ne_type ev \<notin> {RefundRecorded, SubscriptionTrialWillEnd, CheckoutCompleted, CheckoutExpired}" by blast
  then show thesis
  proof cases
    case 1
    then show thesis using h' same by auto
  next
    case 2
    then show thesis using h' same completed by (auto split: option.splits)
  next
    case 3
    then show thesis using h' expired by auto
  next
    case 4
    show thesis
    proof (cases matched)
      case None
      then show thesis using h' 4 same by simp
    next
      case (Some r)
      show thesis
      proof (cases "find (\<lambda>x. ac_id x = ac_id r) (bl_accounts b)")
        case None
        then show thesis using h' 4 Some by simp
      next
        case f: (Some x)
        show thesis
        proof (cases "b' = b")
          case False
          have "handle_invoice_paid ev x b = Inr (b', out) \<or> handle_invoice_failed now ev x b = Inr (b', out)
            \<or> (\<exists>s. handle_subscription_deleted api s (ne_id ev) x b = Inr (b', out))
            \<or> (\<exists>s. handle_subscription_upsert cfg api now ev s x b = Inr (b', out))"
            using h' 4 Some f False by (auto split: option.splits if_splits)
          then show thesis by (rule row [OF Some f])
        qed (rule same)
      qed
    qed
  qed
qed

lemma good_handled:
  assumes h: "handle_normalized_event cfg api now ev matched b = Inr (b', out)"
    and m: "matched_from seen matched" and seen: "kept seen (bl_accounts b)" and ok: "billing_ok b"
    and sub: "\<And>s. ne_sub ev = Some s \<Longrightarrow> ns_subscription s \<noteq> None"
  shows "good_step b b' \<and> tier_step b b'"
proof -
  have found: "row \<in> set (bl_accounts b)" "ac_provider row = Stripe"
    if "matched = Some r" "find (\<lambda>x. ac_id x = ac_id r) (bl_accounts b) = Some row" for r row
  proof -
    have "r \<in> set seen" "ac_provider r = Stripe" using m that by (auto simp: matched_from_def)
    then show "row \<in> set (bl_accounts b)" "ac_provider row = Stripe"
      using kept_find [OF seen _ _ that(2)] ok by (auto simp: billing_ok_def same_key_def)
  qed
  from h show ?thesis
  proof (cases rule: handled_cases)
    case completed
    then show ?thesis using good_checkout_completed [OF completed] by simp
  next
    case expired
    then show ?thesis using good_checkout_expired [OF expired] by simp
  next
    case (row r x)
    note x = found [OF row(1,2)]
    show ?thesis
      using row(3) good_invoice_paid [OF _ x] good_invoice_failed [OF _ x] good_deleted [OF _ x(1)]
        good_upserted [OF _ x sub] tier_step_same by metis
  qed simp
qed

lemma normalized_sub_has_id:
  "normalize_webhook_event cfg e = Some ev \<Longrightarrow> ne_sub ev = Some s \<Longrightarrow> ns_subscription s \<noteq> None"
  by (auto simp: normalize_webhook_event_def bare_event_def subscription_event_def
      to_normalized_subscription_def Let_def normalize_trial_will_end_def normalize_checkout_completed_def
      normalize_checkout_expired_def normalize_invoice_event_def normalize_charge_refunded_def
      normalize_dispute_closed_def split: stripe_payload.splits if_splits)

lemma good_delivery:
  assumes "kept seen (bl_accounts (bw_billing w))" "billing_ok (bw_billing w)"
  shows "good_step (bw_billing w) (bw_billing (fst (deliver_webhook cfg api now lock seen e w)))
    \<and> tier_step (bw_billing w) (bw_billing (fst (deliver_webhook cfg api now lock seen e w)))"
proof (cases "bw_billing (fst (deliver_webhook cfg api now lock seen e w)) = bw_billing w")
  case False
  then obtain ev b' evs out where ev: "normalize_webhook_event cfg e = Some ev"
    and cb: "webhook_callback cfg api now seen ev (bw_billing w, bw_events w) = Inr ((b', evs), out)"
    and b': "bw_billing (fst (deliver_webhook cfg api now lock seen e w)) = b'"
    by (auto simp: deliver_webhook_def run_stripe_webhook_idempotent_def Let_def
        split: option.splits if_splits sum.splits prod.splits)
  from cb have "handle_normalized_event cfg api now ev (resolve_event_row seen ev) (bw_billing w) = Inr (b', out)"
    by (auto simp: webhook_callback_def Let_def and_then_Inr)
  from good_handled [OF this resolve_event_row_matched assms normalized_sub_has_id [OF ev]]
  show ?thesis by (simp add: b')
qed simp

section \<open>The service operations\<close>

lemma upsert_row_written:
  assumes "upsert_row a f rows = Some out"
  obtains "a \<in> set out"
    | r where "r \<in> set rows" "ac_tenant r = ac_tenant a" "ac_provider r = ac_provider a" "f r \<in> set out"
  using assms by (auto simp: upsert_row_def insert_row_def dest!: update_rows_map split: if_splits)

lemma blank_account_simps [simp]:
  "ac_tenant (blank_account i t p) = t" "ac_provider (blank_account i t p) = p"
  "ac_status (blank_account i t p) = NoSub" "ac_customer (blank_account i t p) = None"
  "ac_subscription (blank_account i t p) = None" "ac_dunning (blank_account i t p) = None"
  by (simp_all add: blank_account_def)

lemma good_next: "good_step b b' \<Longrightarrow> good_step b (b'\<lparr>bl_next := n\<rparr>)"
  by (simp add: good_step_def billing_ok_def)

lemma good_persist: "persist_customer t c b = Inr b' \<Longrightarrow> good_step b b' \<and> bl_tiers b' = bl_tiers b"
proof -
  assume "persist_customer t c b = Inr b'"
  then obtain b1 where b1: "with_rows b (upsert_row ((blank_account (bl_next b) t Stripe)\<lparr>ac_customer := Some c\<rparr>)
         (\<lambda>r. r\<lparr>ac_customer := (if ac_customer r \<noteq> None then ac_customer r else Some c)\<rparr>) (bl_accounts b)) = Inr b1"
    and b': "b' = b1\<lparr>bl_next := bl_next b + 1\<rparr>"
    by (auto simp: persist_customer_def and_then_Inr)
  have "good_step b b1"
    by (rule good_upsert [OF b1]) (auto simp: billing_ok_def same_key_def account_ok_Stripe)
  with b1 show ?thesis by (auto simp: b' good_next with_rows_Inr)
qed

lemma stamped_tenants:
  "map (rv_tenant \<circ> (\<lambda>v. if P v then v\<lparr>rv_session := x\<rparr> else v)) vs = map rv_tenant vs"
  by (induction vs) auto

lemma session_shape:
  assumes "create_checkout_session cfg lock created t plan b = Inr (b', sid, trial)"
  shows "bl_accounts b' = bl_accounts b \<and> bl_tiers b' = bl_tiers b
    \<and> map rv_tenant (bl_reservations b') = map rv_tenant (bl_reservations b) @ (if trial then [t] else [])
    \<and> (trial \<longrightarrow> t \<notin> rv_tenant ` set (bl_reservations b))"
  using assms
  by (auto simp: create_checkout_session_def Let_def stamped_tenants split: option.splits if_splits)

lemma good_session:
  "create_checkout_session cfg lock created t plan b = Inr (b', sid, trial) \<Longrightarrow>
     good_step b b' \<and> bl_tiers b' = bl_tiers b"
  using session_shape [of cfg lock created t plan b b' sid trial]
  by (auto intro!: good_reservations split: if_splits)

lemma upsert_backed:
  assumes "with_rows b (upsert_row a f (bl_accounts b)) = Inr b'"
    and "ac_tenant a = t" "ac_primary a" "ac_plan a = tr" "tr = FreeTier \<or> ac_status a \<in> {Trialing, ActiveSub}"
    and "\<And>r. ac_tenant (f r) = ac_tenant r \<and> ac_primary (f r) \<and> ac_plan (f r) = tr \<and> ac_status (f r) = ac_status a"
    and "bl_accounts b'' = bl_accounts b'" "bl_tiers b'' = (bl_tiers b)(t := tr)"
  shows "tier_step b b''"
proof -
  obtain rs where rs: "upsert_row a f (bl_accounts b) = Some rs" "bl_accounts b' = rs"
    using assms(1) by (auto simp: with_rows_Inr)
  from rs(1) have "\<exists>x \<in> set rs. ac_tenant x = t \<and> ac_primary x \<and> ac_plan x = tr
      \<and> (tr = FreeTier \<or> ac_status x \<in> {Trialing, ActiveSub})"
    by (rule upsert_row_written) (use assms(2-6) in \<open>blast, metis\<close>)
  then show ?thesis unfolding tier_step_def backed_def assms(7,8) rs(2) by auto
qed

lemma demote_shape: "demote_primaries t b = Inr b' \<Longrightarrow> bl_tiers b' = bl_tiers b \<and> bl_reservations b' = bl_reservations b"
  by (auto simp: demote_primaries_def with_rows_Inr)

lemma good_manual_fields:
  assumes "apply_manual_field_updates_only t opts r b = Inr (b', ch)" "r \<in> set (bl_accounts b)"
  shows "good_step b b' \<and> bl_tiers b' = bl_tiers b"
proof (cases "b' = b")
  case False
  then obtain f b1 where b1: "update_account (ac_id r) f b = Inr b1"
    and f: "f = (\<lambda>x. x\<lparr>ac_period_end := ac_period_end (f x), ac_email := ac_email (f x)\<rparr>)"
    and b': "b' = b1\<lparr>bl_audit := bl_audit b1 @ [BillingEventRow t ''tier.manual_override'']\<rparr>"
    using assms(1) by (auto simp: apply_manual_field_updates_only_def and_then_Inr Let_def split: if_splits)
  have "good_step b b1"
    by (rule good_update_row [OF b1 assms(2)], subst (1 2) f)
       (auto simp: same_key_def account_ok_def split: provider.splits)
  moreover have "good_step b1 b'" by (rule good_step_same) (simp_all add: b')
  ultimately have "good_step b b'" by (rule good_step_trans)
  with update_account_shape(2) [OF b1] show ?thesis by (simp add: b')
qed simp

lemma good_set_tier_manual:
  assumes "set_tier_manual t tr opts b = Inr (b', ch)"
  shows "good_step b b' \<and> tier_step b b'"
proof (cases "bl_tiers b t = tr \<and> (case provider_row (bl_accounts b) Manual t of None \<Rightarrow> False
    | Some r \<Rightarrow> ac_primary r \<and> ac_plan r = tr \<and> ac_status r = manual_target_status tr)")
  case True
  then obtain r where "provider_row (bl_accounts b) Manual t = Some r" by (auto split: option.splits)
  then show ?thesis
    using assms True provider_row_Some [of "bl_accounts b" Manual t r]
      good_manual_fields [of t opts r b b' ch] by (simp add: set_tier_manual_def Let_def)
next
  case False
  let ?pe = "given (mo_period_end opts)" and ?email = "given (mo_email opts)"
  obtain b1 b2 where b1: "demote_primaries t b = Inr b1"
    and b2: "with_rows b1 (upsert_row
        ((blank_account (bl_next b1) t Manual)\<lparr>ac_status := manual_target_status tr, ac_plan := tr,
           ac_primary := True, ac_period_end := ?pe, ac_email := ?email\<rparr>)
        (\<lambda>r. r\<lparr>ac_status := manual_target_status tr, ac_plan := tr, ac_primary := True,
              ac_period_end := (if ?pe \<noteq> None then ?pe else ac_period_end r),
              ac_email := (if ?email \<noteq> None then ?email else ac_email r)\<rparr>) (bl_accounts b1)) = Inr b2"
    and b': "b' = (set_tier t tr (b2\<lparr>bl_next := bl_next b2 + 1\<rparr>))
        \<lparr>bl_audit := bl_audit (set_tier t tr (b2\<lparr>bl_next := bl_next b2 + 1\<rparr>))
           @ [BillingEventRow t ''tier.manual_override'']\<rparr>"
    using assms False by (auto simp: set_tier_manual_def and_then_Inr Let_def)
  have "good_step b1 b2"
    by (rule good_upsert [OF b2])
       (auto simp: billing_ok_def same_key_def account_ok_Manual manual_target_status_def)
  with good_demote [OF b1] have "good_step b b2" by (rule good_step_trans)
  moreover have "good_step b2 b'" by (rule good_step_same) (simp_all add: b')
  ultimately have "good_step b b'" by (rule good_step_trans)
  moreover have "tier_step b1 b'"
    by (rule upsert_backed [OF b2]) (use b2 in \<open>auto simp: b' manual_target_status_def with_rows_Inr\<close>)
  ultimately show ?thesis using demote_shape [OF b1] by (simp add: tier_step_def)
qed

lemma good_grant:
  assumes "grant_onboarding_pro_trial days now t b = Inr (b', ch)"
  shows "good_step b b' \<and> tier_step b b'"
proof (cases "\<exists>v \<in> set (bl_reservations b). rv_tenant v = t")
  case True
  with assms show ?thesis by (simp add: grant_onboarding_pro_trial_def)
next
  case False
  let ?b0 = "b\<lparr>bl_reservations := bl_reservations b @ [\<lparr>rv_tenant = t, rv_session = None, rv_subscription = None\<rparr>]\<rparr>"
  let ?te = "Some (now + days * day_ms)"
  obtain b1 b2 where b1: "demote_primaries t ?b0 = Inr b1"
    and b2: "with_rows b1 (upsert_row
        ((blank_account (bl_next b1) t Manual)\<lparr>ac_status := Trialing, ac_plan := ProTier,
           ac_primary := True, ac_trial_end := ?te\<rparr>)
        (\<lambda>r. r\<lparr>ac_status := Trialing, ac_plan := ProTier, ac_primary := True, ac_trial_end := ?te\<rparr>)
        (bl_accounts b1)) = Inr b2"
    and b': "b' = set_tier t ProTier (b2\<lparr>bl_next := bl_next b2 + 1\<rparr>)"
    using assms False by (auto simp: grant_onboarding_pro_trial_def and_then_Inr Let_def)
  have "good_step b ?b0" by (rule good_reservations) (use False in auto)
  from this good_demote [OF b1] have "good_step b b1" by (rule good_step_trans)
  moreover have "good_step b1 b2"
    by (rule good_upsert [OF b2]) (auto simp: billing_ok_def same_key_def account_ok_Manual)
  ultimately have "good_step b b2" by (rule good_step_trans)
  moreover have "good_step b2 b'" by (rule good_step_same) (simp_all add: b')
  ultimately have "good_step b b'" by (rule good_step_trans)
  moreover have "tier_step b1 b'"
    by (rule upsert_backed [OF b2]) (use b2 in \<open>auto simp: b' with_rows_Inr\<close>)
  ultimately show ?thesis using demote_shape [OF b1] by (simp add: tier_step_def)
qed

lemma good_expire:
  assumes "expire_onboarding_pro_trial now t b = Inr (b', ch)"
  shows "good_step b b' \<and> tier_step b b' \<and> bl_reservations b' = bl_reservations b"
proof (cases "list_ex (trial_expired now t) (bl_accounts b)")
  case False
  with assms show ?thesis by (simp add: expire_onboarding_pro_trial_def)
next
  case True
  let ?f = "\<lambda>r :: account. r\<lparr>ac_status := NoSub, ac_plan := FreeTier, ac_trial_end := None\<rparr>"
  obtain rs where rs: "update_rows (trial_expired now t) ?f (bl_accounts b) = Some rs"
    and b': "b' = set_tier t FreeTier (b\<lparr>bl_accounts := rs\<rparr>)"
    using assms True by (auto simp: expire_onboarding_pro_trial_def and_then_Inr with_rows_Inr)
  note map = update_rows_map [OF rs]
  have "good_step b b'"
    by (rule good_step_rows [where g = "\<lambda>r. if trial_expired now t r then ?f r else r"])
       (use update_rows_ok [OF rs] in
         \<open>auto simp: b' map same_key_def billing_ok_def trial_expired_def account_ok_Manual\<close>)
  moreover obtain r where r: "r \<in> set (bl_accounts b)" "trial_expired now t r"
    using True by (auto simp: list_ex_iff)
  then have "?f r \<in> set rs" by (auto simp: map intro!: image_eqI [of _ _ r])
  then have "backed b' t"
    using r(2) by (auto simp: backed_def b' trial_expired_def intro!: bexI [of _ "?f r"])
  then have "tier_step b b'" by (auto simp: tier_step_def b')
  ultimately show ?thesis by (simp add: b')
qed

lemma good_email:
  "update_billing_email ok t email b = Inr (b', call, ch) \<Longrightarrow> good_step b b' \<and> bl_tiers b' = bl_tiers b
     \<and> bl_reservations b' = bl_reservations b"
proof (cases "b' = b")
  case False
  assume "update_billing_email ok t email b = Inr (b', call, ch)"
  with False obtain r b1 where r: "primary_row (bl_accounts b) t = Some r"
    and b1: "update_account (ac_id r) (\<lambda>x. x\<lparr>ac_email := Some email\<rparr>) b = Inr b1"
    and b': "b' = b1\<lparr>bl_audit := bl_audit b1 @ [BillingEventRow t ''billing.email.updated'']\<rparr>"
    by (auto simp: update_billing_email_def and_then_Inr Let_def split: option.splits if_splits)
  have "good_step b b1"
    by (rule good_update_row [OF b1]) (use primary_row_Some [OF r] in
      \<open>auto simp: same_key_def account_ok_def split: provider.splits\<close>)
  moreover have "good_step b1 b'" by (rule good_step_same) (simp_all add: b')
  ultimately have "good_step b b'" by (rule good_step_trans)
  with update_account_shape [OF b1] show ?thesis by (simp add: b')
qed simp

lemma good_vat:
  "update_vat_id ok t vat b = Inr (b', call, ch) \<Longrightarrow> good_step b b' \<and> bl_tiers b' = bl_tiers b
     \<and> bl_reservations b' = bl_reservations b"
proof (cases "b' = b")
  case False
  assume "update_vat_id ok t vat b = Inr (b', call, ch)"
  with False obtain r b1 v where r: "primary_row (bl_accounts b) t = Some r"
    and b1: "update_account (ac_id r) (\<lambda>x. x\<lparr>ac_vat := v\<rparr>) b = Inr b1"
    and b': "b' = b1\<lparr>bl_audit := bl_audit b1 @ [BillingEventRow t ''billing.vat_id.updated'']\<rparr>"
    by (auto simp: update_vat_id_def and_then_Inr Let_def split: option.splits if_splits)
  have "good_step b b1"
    by (rule good_update_row [OF b1]) (use primary_row_Some [OF r] in
      \<open>auto simp: same_key_def account_ok_def split: provider.splits\<close>)
  moreover have "good_step b1 b'" by (rule good_step_same) (simp_all add: b')
  ultimately have "good_step b b'" by (rule good_step_trans)
  with update_account_shape [OF b1] show ?thesis by (simp add: b')
qed simp

section \<open>Dunning\<close>

definition tenant_rows :: "billing \<Rightarrow> nat \<Rightarrow> account list" where
  "tenant_rows b t = filter (\<lambda>r. ac_tenant r = t) (bl_accounts b)"

lemma backed_tenant_rows:
  "backed b t \<longleftrightarrow> (\<exists>r \<in> set (tenant_rows b t). ac_primary r \<and> ac_plan r = bl_tiers b t
     \<and> (bl_tiers b t = FreeTier \<or> ac_status r \<in> {Trialing, ActiveSub}))"
  by (auto simp: backed_def tenant_rows_def)

text \<open>Each tenant is either untouched or was dropped to the free tier.\<close>

definition settled :: "billing \<Rightarrow> billing \<Rightarrow> bool" where
  "settled b b' =
     (\<forall>t. (bl_tiers b' t = bl_tiers b t \<and> tenant_rows b' t = tenant_rows b t)
        \<or> (bl_tiers b' t = FreeTier \<and> backed b' t))"

lemma settled_refl [simp]: "settled b b"
  by (simp add: settled_def)

lemma settled_trans: "settled a b \<Longrightarrow> settled b c \<Longrightarrow> settled a c"
  unfolding settled_def backed_tenant_rows by metis

lemma settled_tier_step: "settled b b' \<Longrightarrow> tier_step b b'"
  by (auto simp: settled_def tier_step_def)

text \<open>What a drop does: it touches one tenant, and only its primary row.\<close>

lemma drop_cases:
  assumes "cancel_past_due_subscription_now api at t seen b = Inr (b', hit)"
  obtains (skipped) "b' = b" "\<not> hit"
    | (dropped) r s started x where "primary_row seen t = Some r" "ac_subscription r = Some s"
      "ac_dunning r = Some started" "ac_provider r = Stripe" "ac_status r = PastDue"
      "grace_ends_at started \<le> at" "api_cancel api s \<noteq> ApiError" "hit"
      "x \<in> set (bl_accounts b)" "ac_id x = ac_id r" "ac_status x = PastDue" "ac_primary x"
      "update_rows (\<lambda>x. ac_id x = ac_id r \<and> ac_status x = PastDue \<and> ac_primary x) cancelled_row (bl_accounts b)
         = Some (bl_accounts b')"
      "bl_tiers b' = (bl_tiers b)(ac_tenant r := FreeTier)" "bl_reservations b' = bl_reservations b"
proof (cases "hit")
  case False
  have "b' = b"
    using assms False unfolding cancel_past_due_subscription_now_def
    by (auto simp: and_then_Inr Let_def split: option.splits if_splits)
  then show thesis using False by (rule skipped)
next
  case True
  obtain r s started where r: "primary_row seen t = Some r" "ac_subscription r = Some s" "ac_dunning r = Some started"
    using assms True by (auto simp: cancel_past_due_subscription_now_def split: option.splits)
  let ?hit = "\<lambda>x. ac_id x = ac_id r \<and> ac_status x = PastDue \<and> ac_primary x"
  have g: "ac_provider r = Stripe" "ac_status r = PastDue" "grace_ends_at started \<le> at" "api_cancel api s \<noteq> ApiError"
    "list_ex ?hit (bl_accounts b)"
    and upd: "and_then (with_rows b (update_rows ?hit cancelled_row (bl_accounts b)))
        (\<lambda>b1. Inr (set_tier (ac_tenant r) FreeTier b1, True)) = Inr (b', hit)"
    using assms True
    by (simp_all add: cancel_past_due_subscription_now_def r Let_def split: if_splits)
  from g(5) obtain x where "x \<in> set (bl_accounts b)" "ac_id x = ac_id r" "ac_status x = PastDue" "ac_primary x"
    by (auto simp: list_ex_iff)
  then show thesis
    using dropped [OF r g(1-4) True] upd by (auto simp: and_then_Inr with_rows_Inr)
qed

lemma good_drop:
  assumes d: "cancel_past_due_subscription_now api at t seen b = Inr (b', hit)"
    and seen: "kept seen (bl_accounts b)" and ok: "billing_ok b"
  shows "good_step b b'" and "settled b b'" and "bl_reservations b' = bl_reservations b"
    and "\<And>u. u \<noteq> t \<Longrightarrow> bl_tiers b' u = bl_tiers b u \<and> tenant_rows b' u = tenant_rows b u"
proof -
  have "good_step b b' \<and> settled b b' \<and> bl_reservations b' = bl_reservations b
    \<and> (\<forall>u. u \<noteq> t \<longrightarrow> bl_tiers b' u = bl_tiers b u \<and> tenant_rows b' u = tenant_rows b u)"
    using d
  proof (cases rule: drop_cases)
    case (dropped r s started x)
    let ?hit = "\<lambda>x. ac_id x = ac_id r \<and> ac_status x = PastDue \<and> ac_primary x"
    note map = update_rows_map [OF dropped(13)]
    note prim = primary_row_Some [OF dropped(1)]
    have uniq: "y = x" if "y \<in> set (bl_accounts b)" "ac_id y = ac_id r" for y
      using rows_ok_unique [of "bl_accounts b" y x] ok that dropped(9,10) by (auto simp: billing_ok_def clashes_def)
    obtain z where "z \<in> set (bl_accounts b)" "same_key r z" using seen prim by (auto simp: kept_def)
    then have xt: "ac_tenant x = t" using uniq prim by (auto simp: same_key_def)
    have "good_step b b'"
    proof (rule good_step_rows [OF _ map])
      show "rows_ok (bl_accounts b')" if "rows_ok (bl_accounts b)" by (rule update_rows_ok [OF dropped(13) that])
      show "same_key y (if ?hit y then cancelled_row y else y) \<and> account_ok (if ?hit y then cancelled_row y else y)"
        if "y \<in> set (bl_accounts b)" "billing_ok b" for y
        using account_ok_cancelled [of y] that by (simp add: billing_ok_def same_key_def)
    qed (simp add: dropped(15))
    moreover have "cancelled_row x \<in> set (bl_accounts b')"
      using dropped(9-12) by (auto simp: map intro!: image_eqI [of _ _ x])
    then have "backed b' t"
      using dropped(12,14) prim xt
      by (auto simp: backed_def cancelled_row_def intro!: bexI [of _ "cancelled_row x"])
    moreover have other: "bl_tiers b' u = bl_tiers b u \<and> tenant_rows b' u = tenant_rows b u" if "u \<noteq> t" for u
    proof -
      have "filter (\<lambda>r. ac_tenant r = u) (map (\<lambda>r. if ?hit r then cancelled_row r else r) rs)
            = filter (\<lambda>r. ac_tenant r = u) rs" if "set rs \<subseteq> set (bl_accounts b)" for rs
        using that \<open>u \<noteq> t\<close> uniq xt by (induction rs) (auto simp: cancelled_row_def)
      then show ?thesis using that prim dropped(14) by (simp add: tenant_rows_def map)
    qed
    moreover have "bl_tiers b' t = FreeTier" using dropped(14) prim by simp
    ultimately show ?thesis using dropped(15) unfolding settled_def by metis
  qed simp
  then show "good_step b b'" "settled b b'" "bl_reservations b' = bl_reservations b"
    "\<And>u. u \<noteq> t \<Longrightarrow> bl_tiers b' u = bl_tiers b u \<and> tenant_rows b' u = tenant_rows b u" by blast+
qed

text \<open>The tables after a sweep over some rows.\<close>

abbreviation swept :: "stripe_api \<Rightarrow> bill_user list \<Rightarrow> instant \<Rightarrow> account list \<Rightarrow> billing \<Rightarrow> billing" where
  "swept api users at rs b \<equiv> fst (sweep_rows api users at rs (b, [], 0, 0))"

definition sweep_one :: "stripe_api \<Rightarrow> instant \<Rightarrow> account \<Rightarrow> billing \<Rightarrow> billing" where
  "sweep_one api at r b =
     (case ac_dunning r of None \<Rightarrow> b
      | Some started \<Rightarrow>
          if dunning_grace_ms \<le> at - started
          then (case cancel_past_due_subscription_now api at (ac_tenant r) (bl_accounts b) b of
                  Inl _ \<Rightarrow> b | Inr (b', _) \<Rightarrow> b')
          else b)"

lemma sweep_rows_fold:
  "fst (sweep_rows api users at rs (b, m, k, d)) = fold (sweep_one api at) rs b"
proof (induction rs arbitrary: b m k d)
  case (Cons r rs)
  let ?st = "case ac_dunning r of
          None \<Rightarrow> (b, m, k, d)
        | Some started \<Rightarrow>
            if dunning_grace_ms \<le> at - started then
              (case cancel_past_due_subscription_now api at (ac_tenant r) (bl_accounts b) b of
                 Inl _ \<Rightarrow> (b, m, k, d)
               | Inr (b', hit) \<Rightarrow> (b', m, k, if hit then d + 1 else d))
            else
              (b, m @ (case send_dunning_reminder users at (ac_tenant r)
                               (highest_due_day (at - started)) (bl_accounts b) of
                             None \<Rightarrow> [] | Some m \<Rightarrow> [m]),
               k + 1, d)"
  have one: "fst ?st = sweep_one api at r b"
    by (simp add: sweep_one_def split: option.split sum.split prod.split)
  obtain b' m' k' d' where "?st = (b', m', k', d')" by (rule prod_cases4)
  moreover from this one have "b' = sweep_one api at r b" by simp
  ultimately have "?st = (sweep_one api at r b, m', k', d')" by simp
  then show ?case by (simp only: sweep_rows.simps Cons.IH fold_simps)
qed simp

lemma good_sweep_one:
  assumes "billing_ok b"
  shows "good_step b (sweep_one api at r b) \<and> settled b (sweep_one api at r b)
    \<and> bl_reservations (sweep_one api at r b) = bl_reservations b
    \<and> (\<forall>u. u \<noteq> ac_tenant r \<longrightarrow> bl_tiers (sweep_one api at r b) u = bl_tiers b u
          \<and> tenant_rows (sweep_one api at r b) u = tenant_rows b u)"
proof (cases "sweep_one api at r b = b")
  case False
  then obtain b' hit where d: "cancel_past_due_subscription_now api at (ac_tenant r) (bl_accounts b) b = Inr (b', hit)"
    and b': "sweep_one api at r b = b'"
    by (auto simp: sweep_one_def split: option.splits sum.splits if_splits)
  show ?thesis unfolding b' using good_drop [OF d kept_refl assms] by blast
qed simp

lemma good_sweep_fold:
  assumes "billing_ok b"
  shows "good_step b (fold (sweep_one api at) rs b) \<and> settled b (fold (sweep_one api at) rs b)
    \<and> bl_reservations (fold (sweep_one api at) rs b) = bl_reservations b
    \<and> (\<forall>u. u \<notin> ac_tenant ` set rs \<longrightarrow> bl_tiers (fold (sweep_one api at) rs b) u = bl_tiers b u
          \<and> tenant_rows (fold (sweep_one api at) rs b) u = tenant_rows b u)"
  using assms
proof (induction rs arbitrary: b)
  case (Cons r rs)
  let ?b = "sweep_one api at r b"
  note one = good_sweep_one [OF Cons.prems, of api at r]
  then have "billing_ok ?b" using Cons.prems by (simp add: good_step_def)
  note rest = Cons.IH [OF this]
  have "good_step b (fold (sweep_one api at) rs ?b)" "settled b (fold (sweep_one api at) rs ?b)"
    using one rest good_step_trans settled_trans by blast+
  then show ?case using one rest by simp
qed simp

end
