(* ===== verification/BillingRuns.thy ===== *)
theory BillingRuns
  imports BillingProps
begin

text \<open>
  Runs of the billing operations in any order, with pre-lock reads of any earlier accounts, and the
  properties that hold of all of them. At the end, runs in which the code does not do what its
  comments say.
\<close>

section \<open>Operations\<close>

datatype billing_op =
  DeliverOp price_config stripe_api instant bool stripe_event
| PersistOp nat nat
| SessionOp price_config bool "(nat \<times> bool) option" nat tier
| SetTierOp nat tier manual_opts
| GrantOp int instant nat
| ExpireOp instant nat
| EmailOp bool nat string
| VatOp bool nat "string option"
| DropOp stripe_api instant nat
| SweepOp stripe_api "bill_user list" instant bool
| BudgetOp nat budget_stmt

definition store :: "billing_world \<Rightarrow> billing_error + billing \<Rightarrow> billing_world" where
  "store w r = (case r of Inl _ \<Rightarrow> w | Inr b \<Rightarrow> w\<lparr>bw_billing := b\<rparr>)"

definition only_tables :: "billing_error + billing \<times> 'a \<Rightarrow> billing_error + billing" where
  "only_tables r = and_then r (\<lambda>(b, _). Inr b)"

text \<open>\<^term>\<open>seen\<close> is what the pre-lock read of an operation saw; an operation that throws changes nothing.\<close>

fun apply_op :: "billing_op \<Rightarrow> account list \<Rightarrow> billing_world \<Rightarrow> billing_world" where
  "apply_op (DeliverOp cfg api now lock e) seen w = fst (deliver_webhook cfg api now lock seen e w)"
| "apply_op (PersistOp t c) seen w = store w (persist_customer t c (bw_billing w))"
| "apply_op (SessionOp cfg lock created t plan) seen w =
     store w (only_tables (create_checkout_session cfg lock created t plan (bw_billing w)))"
| "apply_op (SetTierOp t tr opts) seen w = store w (only_tables (set_tier_manual t tr opts (bw_billing w)))"
| "apply_op (GrantOp days now t) seen w =
     store w (only_tables (grant_onboarding_pro_trial days now t (bw_billing w)))"
| "apply_op (ExpireOp now t) seen w = store w (only_tables (expire_onboarding_pro_trial now t (bw_billing w)))"
| "apply_op (EmailOp ok t email) seen w = store w (only_tables (update_billing_email ok t email (bw_billing w)))"
| "apply_op (VatOp ok t vat) seen w = store w (only_tables (update_vat_id ok t vat (bw_billing w)))"
| "apply_op (DropOp api at t) seen w =
     store w (only_tables (cancel_past_due_subscription_now api at t seen (bw_billing w)))"
| "apply_op (SweepOp api users at in_flight) seen w =
     w\<lparr>bw_billing := fst (run_dunning_sweep api users at in_flight (bw_billing w))\<rparr>"
| "apply_op (BudgetOp t s) seen w =
     (let b = bw_billing w in
      w\<lparr>bw_billing := b\<lparr>bl_balances := (bl_balances b)(t := fst (run_stmt s (bl_balances b t)))\<rparr>\<rparr>)"

definition new_world :: billing_world where
  "new_world =
     \<lparr>bw_billing = \<lparr>bl_accounts = [], bl_tiers = (\<lambda>_. FreeTier), bl_reservations = [],
                    bl_balances = (\<lambda>_. None), bl_audit = [], bl_next = 0\<rparr>,
      bw_log = (\<lambda>_. None), bw_events = []\<rparr>"

text \<open>The worlds that are reached, with the account tables that were there before.\<close>

inductive billing_run :: "account list list \<Rightarrow> billing_world \<Rightarrow> bool" where
  start: "billing_run [] new_world"
| step: "billing_run hist w \<Longrightarrow> seen \<in> set (bl_accounts (bw_billing w) # hist) \<Longrightarrow>
     billing_run (bl_accounts (bw_billing w) # hist) (apply_op op seen w)"

inductive_cases billing_runE: "billing_run hist w"

lemma bw_billing_store: "bw_billing (store w r) = (case r of Inl _ \<Rightarrow> bw_billing w | Inr b \<Rightarrow> b)"
  by (simp add: store_def split: sum.split)

lemma run_dunning_sweep_fold:
  "fst (run_dunning_sweep api users at in_flight b) =
     (if in_flight then b
      else fold (sweep_one api at)
             (filter (\<lambda>r. ac_provider r = Stripe \<and> ac_status r = PastDue \<and> ac_primary r) (bl_accounts b)) b)"
  by (simp add: run_dunning_sweep_def sweep_rows_fold)

lemma store_good:
  assumes "\<And>b'. r = Inr b' \<Longrightarrow> P (bw_billing w) b'" and "P (bw_billing w) (bw_billing w)"
  shows "P (bw_billing w) (bw_billing (store w r))"
  using assms by (simp add: bw_billing_store split: sum.split)

lemma only_tables_Inr: "only_tables r = Inr b \<longleftrightarrow> (\<exists>x. r = Inr (b, x))"
  by (auto simp: only_tables_def and_then_Inr)

lemma good_op:
  assumes "kept seen (bl_accounts (bw_billing w))" "billing_ok (bw_billing w)"
  shows "good_step (bw_billing w) (bw_billing (apply_op op seen w))
    \<and> tier_step (bw_billing w) (bw_billing (apply_op op seen w))"
proof (cases op)
  case (DeliverOp cfg api now lock e)
  then show ?thesis using good_delivery [OF assms] by simp
next
  case (PersistOp t c)
  then show ?thesis using good_persist
    by (auto intro!: store_good [where P = "\<lambda>b b'. good_step b b' \<and> tier_step b b'"])
next
  case (SessionOp cfg lock created t plan)
  then show ?thesis using good_session
    by (auto simp: only_tables_Inr intro!: store_good [where P = "\<lambda>b b'. good_step b b' \<and> tier_step b b'"])
next
  case (SetTierOp t tr opts)
  then show ?thesis using good_set_tier_manual
    by (auto simp: only_tables_Inr intro!: store_good [where P = "\<lambda>b b'. good_step b b' \<and> tier_step b b'"])
next
  case (GrantOp days now t)
  then show ?thesis using good_grant
    by (auto simp: only_tables_Inr intro!: store_good [where P = "\<lambda>b b'. good_step b b' \<and> tier_step b b'"])
next
  case (ExpireOp now t)
  then show ?thesis using good_expire
    by (auto simp: only_tables_Inr intro!: store_good [where P = "\<lambda>b b'. good_step b b' \<and> tier_step b b'"])
next
  case (EmailOp ok t email)
  then show ?thesis using good_email
    by (auto simp: only_tables_Inr intro!: store_good [where P = "\<lambda>b b'. good_step b b' \<and> tier_step b b'"])
next
  case (VatOp ok t vat)
  then show ?thesis using good_vat
    by (auto simp: only_tables_Inr intro!: store_good [where P = "\<lambda>b b'. good_step b b' \<and> tier_step b b'"])
next
  case (DropOp api at t)
  have "good_step (bw_billing w) b' \<and> tier_step (bw_billing w) b'"
    if "cancel_past_due_subscription_now api at t seen (bw_billing w) = Inr (b', hit)" for b' hit
    using good_drop(1,2) [OF that assms] settled_tier_step by blast
  then show ?thesis using DropOp
    by (auto simp: only_tables_Inr intro!: store_good [where P = "\<lambda>b b'. good_step b b' \<and> tier_step b b'"])
next
  case (SweepOp api users at in_flight)
  then show ?thesis using good_sweep_fold [OF assms(2)] settled_tier_step
    by (simp add: run_dunning_sweep_fold)
next
  case (BudgetOp t s)
  then show ?thesis by (simp add: Let_def good_step_same)
qed

lemma billing_run_inv:
  "billing_run hist w \<Longrightarrow> billing_ok (bw_billing w)
     \<and> (\<forall>rows \<in> set (bl_accounts (bw_billing w) # hist). kept rows (bl_accounts (bw_billing w)))"
proof (induction rule: billing_run.induct)
  case start
  then show ?case by (simp add: new_world_def billing_ok_def)
next
  case (step hist w seen op)
  have "kept seen (bl_accounts (bw_billing w))" using step.IH step.hyps(2) by blast
  then have "good_step (bw_billing w) (bw_billing (apply_op op seen w))"
    using good_op step.IH by blast
  then have ok: "billing_ok (bw_billing (apply_op op seen w))"
    and k: "kept (bl_accounts (bw_billing w)) (bl_accounts (bw_billing (apply_op op seen w)))"
    using step.IH by (auto simp: good_step_def)
  show ?case using ok k step.IH kept_trans [OF _ k] by auto
qed

section \<open>Properties\<close>

definition demo_world :: billing_world where
  "demo_world = apply_op (GrantOp 14 0 1) [] new_world"

lemma demo_run: "billing_run [[]] demo_world"
  using billing_run.step [OF billing_run.start, of "[]" "GrantOp 14 0 1"]
  by (simp add: demo_world_def new_world_def)

text \<open>
  C8: Over any sequence of webhooks, checkouts, tier overrides, trials, expiries, contact updates and
  dunning sweeps, whatever older accounts their pre-lock reads saw: no two accounts share a provider
  of a tenant, the primary place of a tenant, a Stripe customer or a subscription; manual accounts
  have no Stripe ids; live Stripe accounts have a subscription; paying ones have no dunning clock and
  every primary one that is past due has one; a tenant has at most one trial reservation.
\<close>

theorem billing_accounts_stay_consistent:
  assumes "billing_run hist w"
  shows "billing_ok (bw_billing w)"
  using billing_run_inv [OF assms] by blast

lemma billing_accounts_stay_consistent_witness:
  "billing_ok (bw_billing demo_world) \<and> length (bl_accounts (bw_billing demo_world)) = 1"
  using billing_accounts_stay_consistent [OF demo_run] by (simp, code_simp)

text \<open>
  C9: A tenant's tier only moves with its primary account: whenever any operation changes the tier,
  the new tier is the plan of the tenant's primary account, and a paid one is backed by a primary
  account that is active or in its trial.
\<close>

theorem tier_moves_with_the_primary_account:
  assumes "billing_run hist w" "seen \<in> set (bl_accounts (bw_billing w) # hist)"
    and "bl_tiers (bw_billing (apply_op op seen w)) t \<noteq> bl_tiers (bw_billing w) t"
  shows "backed (bw_billing (apply_op op seen w)) t"
  using billing_run_inv [OF assms(1)] good_op [of seen w op] assms(2,3)
  unfolding tier_step_def by blast

lemma tier_moves_with_the_primary_account_witness:
  "backed (bw_billing (apply_op (ExpireOp (20 * day_ms) 1) [] demo_world)) 1
   \<and> bl_tiers (bw_billing demo_world) 1 = ProTier
   \<and> bl_tiers (bw_billing (apply_op (ExpireOp (20 * day_ms) 1) [] demo_world)) 1 = FreeTier"
proof -
  have pro: "bl_tiers (bw_billing demo_world) 1 = ProTier" by code_simp
  have free: "bl_tiers (bw_billing (apply_op (ExpireOp (20 * day_ms) 1) [] demo_world)) 1 = FreeTier"
    by code_simp
  show ?thesis
    using tier_moves_with_the_primary_account [OF demo_run, of "[]" "ExpireOp (20 * day_ms) 1" 1] pro free
    by simp
qed

section \<open>An event takes effect once\<close>

fun run_ops :: "(billing_op \<times> account list) list \<Rightarrow> billing_world \<Rightarrow> billing_world" where
  "run_ops [] w = w"
| "run_ops ((op, seen) # ops) w = run_ops ops (apply_op op seen w)"

text \<open>Is the operation a delivery of event \<^term>\<open>i\<close> that was processed?\<close>

definition processes :: "nat \<Rightarrow> billing_op \<Rightarrow> account list \<Rightarrow> billing_world \<Rightarrow> bool" where
  "processes i op seen w =
     (case op of
        DeliverOp cfg api now lock e \<Rightarrow> sv_id e = i \<and>
          (case fst (snd (deliver_webhook cfg api now lock seen e w)) of Processed _ \<Rightarrow> True | _ \<Rightarrow> False)
      | _ \<Rightarrow> False)"

fun times_processed :: "nat \<Rightarrow> (billing_op \<times> account list) list \<Rightarrow> billing_world \<Rightarrow> nat" where
  "times_processed i [] w = 0"
| "times_processed i ((op, seen) # ops) w =
     (if processes i op seen w then 1 else 0) + times_processed i ops (apply_op op seen w)"

definition log_processed :: "billing_world \<Rightarrow> nat \<Rightarrow> bool" where
  "log_processed w i = (map_option lg_status (bw_log w i) = Some LogProcessed)"

lemma normalized_id: "normalize_webhook_event cfg e = Some ev \<Longrightarrow> ne_id ev = sv_id e"
  by (auto simp: normalize_webhook_event_def bare_event_def subscription_event_def
      normalize_trial_will_end_def normalize_checkout_completed_def
      normalize_checkout_expired_def normalize_invoice_event_def normalize_charge_refunded_def
      normalize_dispute_closed_def split: stripe_payload.splits if_splits)

text \<open>The four ways a delivery ends.\<close>

lemma delivery_cases:
  obtains (quiet) d t where "deliver_webhook cfg api now lock seen e w = (w, d, t)" "d \<in> {Ignored, LockUnavailable, Replay}"
    "d = Replay \<longleftrightarrow> lock \<and> normalize_webhook_event cfg e \<noteq> None \<and> log_processed w (sv_id e)"
  | (failed) ev err g t where "deliver_webhook cfg api now lock seen e w
        = (w\<lparr>bw_log := (bw_log w)(sv_id e \<mapsto> g)\<rparr>, Failed err, t)"
      "lg_status g = LogFailed" "\<not> log_processed w (sv_id e)"
      "webhook_callback cfg api now seen ev (bw_billing w, bw_events w) = Inl err"
      "normalize_webhook_event cfg e = Some ev"
  | (processed) ev b events out g t where "deliver_webhook cfg api now lock seen e w
        = (\<lparr>bw_billing = b, bw_log = (bw_log w)(sv_id e \<mapsto> g), bw_events = events\<rparr>, Processed out, t)"
      "lg_status g = LogProcessed" "\<not> log_processed w (sv_id e)"
      "webhook_callback cfg api now seen ev (bw_billing w, bw_events w) = Inr ((b, events), out)"
      "normalize_webhook_event cfg e = Some ev"
proof (cases "normalize_webhook_event cfg e")
  case None
  then show thesis using quiet [of Ignored None] by (simp add: deliver_webhook_def)
next
  case (Some ev)
  note id = normalized_id [OF Some]
  show thesis
  proof (cases "\<not> lock \<or> log_processed w (sv_id e)")
    case True
    then show thesis
      using quiet [of "if lock then Replay else LockUnavailable" None] Some id
      by (auto simp: deliver_webhook_def run_stripe_webhook_idempotent_def log_processed_def split: if_splits)
  next
    case False
    show thesis
    proof (cases "webhook_callback cfg api now seen ev (bw_billing w, bw_events w)")
      case (Inl err)
      then show thesis
        using failed [of _ err _ ev] False Some id
        by (simp add: deliver_webhook_def run_stripe_webhook_idempotent_def log_processed_def Let_def)
    next
      case (Inr r)
      obtain b events out where r: "r = ((b, events), out)" by (metis prod.exhaust)
      show thesis
        using processed [of b _ events out _ ev] False Some id Inr r
        by (simp add: deliver_webhook_def run_stripe_webhook_idempotent_def log_processed_def Let_def)
    qed
  qed
qed

lemma processed_stays: "log_processed w i \<Longrightarrow> log_processed (apply_op op seen w) i"
proof (cases op)
  case (DeliverOp cfg api now lock e)
  assume "log_processed w i"
  then show ?thesis unfolding DeliverOp apply_op.simps
    by (cases rule: delivery_cases [of cfg api now lock seen e w]) (auto simp: log_processed_def)
qed (auto simp: log_processed_def store_def Let_def split: sum.split)

lemma processes_marks: "processes i op seen w \<Longrightarrow> \<not> log_processed w i \<and> log_processed (apply_op op seen w) i"
proof (cases op)
  case (DeliverOp cfg api now lock e)
  assume "processes i op seen w"
  then show ?thesis unfolding DeliverOp apply_op.simps
    by (cases rule: delivery_cases [of cfg api now lock seen e w]) (auto simp: log_processed_def processes_def)
qed (auto simp: processes_def)

lemma times_processed_bound: "times_processed i ops w \<le> (if log_processed w i then 0 else 1)"
proof (induction ops arbitrary: w)
  case (Cons x ops)
  obtain op seen where x: "x = (op, seen)" by (cases x)
  show ?case
    using Cons.IH [of "apply_op op seen w"] processes_marks [of i op seen w] processed_stays [of w i op seen]
    by (auto simp: x split: if_splits)
qed simp

text \<open>
  C19: A webhook event takes effect at most once: however often and in whatever order Stripe delivers
  it, between any other operations and after any failed attempts, at most one delivery of it is
  processed, and a delivery that is not processed leaves the billing tables and the audit rows as
  they were.
\<close>

theorem event_takes_effect_once:
  "times_processed i ops w \<le> 1
   \<and> (\<not> processes (sv_id e) (DeliverOp cfg api now lock e) seen v \<longrightarrow>
        bw_billing (apply_op (DeliverOp cfg api now lock e) seen v) = bw_billing v
        \<and> bw_events (apply_op (DeliverOp cfg api now lock e) seen v) = bw_events v)"
proof
  show "times_processed i ops w \<le> 1"
    using times_processed_bound [of i ops w] by (simp split: if_splits)
  show "\<not> processes (sv_id e) (DeliverOp cfg api now lock e) seen v \<longrightarrow>
        bw_billing (apply_op (DeliverOp cfg api now lock e) seen v) = bw_billing v
        \<and> bw_events (apply_op (DeliverOp cfg api now lock e) seen v) = bw_events v"
    by (cases rule: delivery_cases [of cfg api now lock seen e v]) (auto simp: processes_def)
qed

definition demo_prices :: price_config where
  "demo_prices = \<lparr>pc_essential = Some 1, pc_pro = Some 2, pc_enterprise = Some 3\<rparr>"

definition demo_session :: checkout_session where
  "demo_session = \<lparr>se_id = 7, se_mode = PaymentMode, se_top_up = True, se_tokens = Some 50,
     se_meta_tenant = Some 1, se_customer = NoRef, se_subscription = NoRef\<rparr>"

definition demo_api :: stripe_api where
  "demo_api = \<lparr>api_retrieve = (\<lambda>_. Found), api_schedule = (\<lambda>_. None),
     api_session = (\<lambda>_. Some demo_session), api_cancel = (\<lambda>_. Found)\<rparr>"

definition dead_api :: stripe_api where
  "dead_api = demo_api\<lparr>api_session := (\<lambda>_. None)\<rparr>"

definition demo_event :: stripe_event where
  "demo_event = \<lparr>sv_id = 5, sv_created = 100, sv_payload = SessionCompleted demo_session\<rparr>"

definition demo_delivery :: "stripe_api \<Rightarrow> billing_op" where
  "demo_delivery api = DeliverOp demo_prices api 100000 True demo_event"

text \<open>A top-up whose first delivery fails at Stripe, is retried and then delivered again: credited once.\<close>

lemma event_takes_effect_once_witness:
  "times_processed 5 [(demo_delivery dead_api, []), (demo_delivery demo_api, []), (demo_delivery demo_api, [])] demo_world = 1
   \<and> times_processed 5 [(demo_delivery dead_api, []), (demo_delivery demo_api, []), (demo_delivery demo_api, [])] demo_world \<le> 1
   \<and> map_option tb_top_up (bl_balances (bw_billing (run_ops [(demo_delivery dead_api, []), (demo_delivery demo_api, []),
        (demo_delivery demo_api, [])] demo_world)) 1) = Some 50
   \<and> bw_billing (apply_op (demo_delivery dead_api) [] demo_world) = bw_billing demo_world"
proof -
  have n: "\<not> processes (sv_id demo_event) (DeliverOp demo_prices dead_api 100000 True demo_event) [] demo_world"
    by code_simp
  have t: "times_processed 5 [(demo_delivery dead_api, []), (demo_delivery demo_api, []), (demo_delivery demo_api, [])] demo_world = 1"
    by code_simp
  have u: "map_option tb_top_up (bl_balances (bw_billing (run_ops [(demo_delivery dead_api, []), (demo_delivery demo_api, []),
        (demo_delivery demo_api, [])] demo_world)) 1) = Some 50"
    by code_simp
  show ?thesis
    using event_takes_effect_once [where i = 5 and w = demo_world and e = demo_event and cfg = demo_prices
        and api = dead_api and now = 100000 and lock = True and seen = "[]" and v = demo_world
        and ops = "[(demo_delivery dead_api, []), (demo_delivery demo_api, []), (demo_delivery demo_api, [])]"] n t u
    by (simp add: demo_delivery_def)
qed

section \<open>Unpaid subscriptions\<close>

lemma primary_row_unique:
  assumes "rows_ok rows" "r \<in> set rows" "ac_primary r"
  shows "primary_row rows (ac_tenant r) = Some r"
proof -
  obtain x where x: "primary_row rows (ac_tenant r) = Some x"
    using assms(2,3) by (cases "primary_row rows (ac_tenant r)") (auto simp: primary_row_def find_None_iff)
  then have "x = r"
    using primary_row_Some [OF x] rows_ok_unique [OF assms(1) _ assms(2)] assms(3) by (auto simp: clashes_def)
  with x show ?thesis by simp
qed

lemma cancelled_fewer_keys: "fewer_keys cancelled_row"
  by (auto simp: fewer_keys_def clashes_def cancelled_row_def)

text \<open>A primary row that is past due and over its grace is dropped by its own step of the sweep.\<close>

lemma sweep_one_drops:
  assumes "billing_ok b" "r \<in> set (bl_accounts b)" "ac_primary r" "ac_provider r = Stripe"
    "ac_status r = PastDue" "ac_subscription r = Some s" "ac_dunning r = Some started"
    "grace_ends_at started \<le> at" "api_cancel api s \<noteq> ApiError"
  shows "bl_tiers (sweep_one api at r b) (ac_tenant r) = FreeTier"
    and "cancelled_row r \<in> set (tenant_rows (sweep_one api at r b) (ac_tenant r))"
proof -
  let ?hit = "\<lambda>x. ac_id x = ac_id r \<and> ac_status x = PastDue \<and> ac_primary x"
  have ok: "rows_ok (bl_accounts b)" using assms(1) by (simp add: billing_ok_def)
  have upd: "update_rows ?hit cancelled_row (bl_accounts b)
      = Some (map (\<lambda>x. if ?hit x then cancelled_row x else x) (bl_accounts b))"
    by (rule update_rows_total [OF cancelled_fewer_keys ok])
  have hit: "list_ex ?hit (bl_accounts b)" using assms(2,3,5) by (auto simp: list_ex_iff)
  have "cancel_past_due_subscription_now api at (ac_tenant r) (bl_accounts b) b =
      Inr (set_tier (ac_tenant r) FreeTier
        (b\<lparr>bl_accounts := map (\<lambda>x. if ?hit x then cancelled_row x else x) (bl_accounts b)\<rparr>), True)"
    using assms(4-9) hit
    by (simp add: cancel_past_due_subscription_now_def primary_row_unique [OF ok assms(2,3)] upd with_rows_def Let_def)
  then have one: "sweep_one api at r b = set_tier (ac_tenant r) FreeTier
        (b\<lparr>bl_accounts := map (\<lambda>x. if ?hit x then cancelled_row x else x) (bl_accounts b)\<rparr>)"
    using assms(7,8) by (simp add: sweep_one_def grace_ends_at_def algebra_simps)
  show "bl_tiers (sweep_one api at r b) (ac_tenant r) = FreeTier" by (simp add: one)
  show "cancelled_row r \<in> set (tenant_rows (sweep_one api at r b) (ac_tenant r))"
    using assms(2,3,5) by (auto simp: one tenant_rows_def cancelled_row_def)
qed

lemma sweep_one_waits: "ac_dunning r = Some started \<Longrightarrow> at < grace_ends_at started \<Longrightarrow> sweep_one api at r b = b"
  by (simp add: sweep_one_def grace_ends_at_def)

text \<open>The rows of a sweep belong to different tenants; each is handled as if it were alone.\<close>

lemma sweep_alone:
  assumes ok: "billing_ok b" and r: "r \<in> set (bl_accounts b)" "P r"
    and P: "\<And>x. P x \<Longrightarrow> ac_primary x"
  obtains b1 where "billing_ok b1" "tenant_rows b1 (ac_tenant r) = tenant_rows b (ac_tenant r)"
    "bl_tiers b1 (ac_tenant r) = bl_tiers b (ac_tenant r)"
    "tenant_rows (fold (sweep_one api at) (filter P (bl_accounts b)) b) (ac_tenant r)
       = tenant_rows (sweep_one api at r b1) (ac_tenant r)"
    "bl_tiers (fold (sweep_one api at) (filter P (bl_accounts b)) b) (ac_tenant r)
       = bl_tiers (sweep_one api at r b1) (ac_tenant r)"
proof -
  have mem: "r \<in> set (filter P (bl_accounts b))" using r by simp
  have dist: "distinct (filter P (bl_accounts b))"
    using ok rows_ok_distinct [of "bl_accounts b"] by (auto simp: billing_ok_def distinct_map)
  obtain xs ys where split: "filter P (bl_accounts b) = xs @ r # ys" using split_list [OF mem] by blast
  have other: "ac_tenant x \<noteq> ac_tenant r" if "x \<in> set xs \<union> set ys" for x
  proof
    assume eq: "ac_tenant x = ac_tenant r"
    have "x \<in> set (filter P (bl_accounts b))" using that split by auto
    then have "x = r"
      using rows_ok_unique [of "bl_accounts b" x r] ok r P eq by (auto simp: billing_ok_def clashes_def)
    with that split dist show False by auto
  qed
  have notin: "ac_tenant r \<notin> ac_tenant ` set xs" "ac_tenant r \<notin> ac_tenant ` set ys"
    using other by (metis UnI1 imageE, metis UnI2 imageE)
  let ?b1 = "fold (sweep_one api at) xs b"
  let ?b2 = "sweep_one api at r ?b1"
  have b1: "billing_ok ?b1" "tenant_rows ?b1 (ac_tenant r) = tenant_rows b (ac_tenant r)"
    "bl_tiers ?b1 (ac_tenant r) = bl_tiers b (ac_tenant r)"
    using good_sweep_fold [OF ok, of api at xs] notin(1) ok by (simp_all add: good_step_def)
  have ok2: "billing_ok ?b2" using good_sweep_one [OF b1(1), of api at r] b1(1) by (simp add: good_step_def)
  have "tenant_rows (fold (sweep_one api at) ys ?b2) (ac_tenant r) = tenant_rows ?b2 (ac_tenant r)"
    "bl_tiers (fold (sweep_one api at) ys ?b2) (ac_tenant r) = bl_tiers ?b2 (ac_tenant r)"
    using good_sweep_fold [OF ok2, of api at ys] notin(2) by simp_all
  then show thesis using that [of ?b1] b1 by (simp add: split)
qed

definition overdue_rows :: "account \<Rightarrow> bool" where
  "overdue_rows r = (ac_provider r = Stripe \<and> ac_status r = PastDue \<and> ac_primary r)"

lemma sweep_eq:
  "fst (run_dunning_sweep api users at False b) = fold (sweep_one api at) (filter overdue_rows (bl_accounts b)) b"
  by (simp add: run_dunning_sweep_fold overdue_rows_def [abs_def])

text \<open>
  C22: An unpaid subscription is dropped after three days and not before: every primary Stripe account
  that is past due has a subscription and a running clock; a sweep before the three days are over
  leaves its tenant's tier and accounts alone, and one after them, if Stripe accepts or already knows
  the cancellation, puts the tenant on the free tier and the account on cancelled, whatever else the
  sweep handles.
\<close>

theorem unpaid_subscription_is_dropped_after_grace:
  assumes "billing_run hist w" and "r \<in> set (bl_accounts (bw_billing w))"
    and "ac_primary r" "ac_provider r = Stripe" "ac_status r = PastDue"
  shows "\<exists>s started. ac_subscription r = Some s \<and> ac_dunning r = Some started
    \<and> (\<forall>api users at. at < grace_ends_at started \<longrightarrow>
         bl_tiers (fst (run_dunning_sweep api users at False (bw_billing w))) (ac_tenant r)
           = bl_tiers (bw_billing w) (ac_tenant r)
         \<and> tenant_rows (fst (run_dunning_sweep api users at False (bw_billing w))) (ac_tenant r)
           = tenant_rows (bw_billing w) (ac_tenant r))
    \<and> (\<forall>api users at. grace_ends_at started \<le> at \<longrightarrow> api_cancel api s \<noteq> ApiError \<longrightarrow>
         bl_tiers (fst (run_dunning_sweep api users at False (bw_billing w))) (ac_tenant r) = FreeTier
         \<and> cancelled_row r \<in> set (tenant_rows (fst (run_dunning_sweep api users at False (bw_billing w))) (ac_tenant r)))"
proof -
  have ok: "billing_ok (bw_billing w)" using billing_run_inv [OF assms(1)] by blast
  then have "account_ok r" using assms(2) by (simp add: billing_ok_def)
  then obtain s started where s: "ac_subscription r = Some s" and started: "ac_dunning r = Some started"
    using assms(3-5) by (auto simp: account_ok_Stripe)
  have P: "overdue_rows r" using assms(3-5) by (simp add: overdue_rows_def)
  show ?thesis
  proof (intro exI conjI allI impI)
    show "ac_subscription r = Some s" "ac_dunning r = Some started" by fact+
  next
    fix api :: stripe_api and users at assume early: "at < grace_ends_at started"
    obtain b1 where b1: "billing_ok b1" "tenant_rows b1 (ac_tenant r) = tenant_rows (bw_billing w) (ac_tenant r)"
      "bl_tiers b1 (ac_tenant r) = bl_tiers (bw_billing w) (ac_tenant r)"
      "tenant_rows (fold (sweep_one api at) (filter overdue_rows (bl_accounts (bw_billing w))) (bw_billing w)) (ac_tenant r)
         = tenant_rows (sweep_one api at r b1) (ac_tenant r)"
      "bl_tiers (fold (sweep_one api at) (filter overdue_rows (bl_accounts (bw_billing w))) (bw_billing w)) (ac_tenant r)
         = bl_tiers (sweep_one api at r b1) (ac_tenant r)"
      by (rule sweep_alone [where P = overdue_rows, OF ok assms(2) P]) (auto simp: overdue_rows_def)
    show "bl_tiers (fst (run_dunning_sweep api users at False (bw_billing w))) (ac_tenant r)
           = bl_tiers (bw_billing w) (ac_tenant r)"
      "tenant_rows (fst (run_dunning_sweep api users at False (bw_billing w))) (ac_tenant r)
           = tenant_rows (bw_billing w) (ac_tenant r)"
      unfolding sweep_eq b1(4,5) sweep_one_waits [OF started early] by (rule b1)+
  next
    fix api :: stripe_api and users at assume late: "grace_ends_at started \<le> at" and api: "api_cancel api s \<noteq> ApiError"
    obtain b1 where b1: "billing_ok b1" "tenant_rows b1 (ac_tenant r) = tenant_rows (bw_billing w) (ac_tenant r)"
      "tenant_rows (fold (sweep_one api at) (filter overdue_rows (bl_accounts (bw_billing w))) (bw_billing w)) (ac_tenant r)
         = tenant_rows (sweep_one api at r b1) (ac_tenant r)"
      "bl_tiers (fold (sweep_one api at) (filter overdue_rows (bl_accounts (bw_billing w))) (bw_billing w)) (ac_tenant r)
         = bl_tiers (sweep_one api at r b1) (ac_tenant r)"
      by (rule sweep_alone [where P = overdue_rows, OF ok assms(2) P]) (auto simp: overdue_rows_def)
    have "r \<in> set (tenant_rows b1 (ac_tenant r))" unfolding b1(2) using assms(2) by (simp add: tenant_rows_def)
    then have mem: "r \<in> set (bl_accounts b1)" by (simp add: tenant_rows_def)
    show "bl_tiers (fst (run_dunning_sweep api users at False (bw_billing w))) (ac_tenant r) = FreeTier"
      "cancelled_row r \<in> set (tenant_rows (fst (run_dunning_sweep api users at False (bw_billing w))) (ac_tenant r))"
      unfolding sweep_eq b1(3,4)
      by (rule sweep_one_drops [OF b1(1) mem assms(3-5) s started late api])+
  qed
qed

definition demo_sub :: stripe_sub where
  "demo_sub = \<lparr>su_id = 4, su_customer = 9, su_status = StActive, su_item_count = 1, su_price = Some 2,
     su_schedule = NoSchedule, su_period_end = Some 1000, su_item_period_end = None,
     su_cancel_at_end = False, su_trial_end = None\<rparr>"

definition demo_invoice :: invoice where
  "demo_invoice = \<lparr>in_id = 8, in_customer = IdRef 9, in_subscription = IdRef 4, in_parent_subscription = NoRef\<rparr>"

definition send_event :: "nat \<Rightarrow> stripe_payload \<Rightarrow> billing_world \<Rightarrow> billing_world" where
  "send_event i p w = apply_op (DeliverOp demo_prices demo_api 100000 True \<lparr>sv_id = i, sv_created = 100, sv_payload = p\<rparr>)
     (bl_accounts (bw_billing w)) w"

definition customer_world :: billing_world where
  "customer_world = apply_op (PersistOp 1 9) [] new_world"

definition past_due_world :: billing_world where
  "past_due_world = send_event 2 (FailedInvoice demo_invoice) (send_event 1 (SubCreated demo_sub) customer_world)"

lemma run_send: "billing_run hist w \<Longrightarrow> \<exists>h. billing_run h (send_event i p w)"
  unfolding send_event_def by (rule exI, erule billing_run.step) simp

lemma past_due_run: "\<exists>h. billing_run h past_due_world"
proof -
  have "billing_run [[]] customer_world"
    using billing_run.step [OF billing_run.start, of "[]" "PersistOp 1 9"]
    by (simp add: customer_world_def new_world_def)
  then show ?thesis using run_send unfolding past_due_world_def by blast
qed

lemma unpaid_subscription_is_dropped_after_grace_witness:
  "bl_tiers (bw_billing past_due_world) 1 = ProTier
   \<and> bl_tiers (fst (run_dunning_sweep demo_api [] 259300000 False (bw_billing past_due_world))) 1 = FreeTier"
proof -
  obtain hist where run: "billing_run hist past_due_world" using past_due_run ..
  let ?r = "hd (bl_accounts (bw_billing past_due_world))"
  have len: "length (bl_accounts (bw_billing past_due_world)) = 1" by code_simp
  then have mem: "?r \<in> set (bl_accounts (bw_billing past_due_world))" by (intro hd_in_set) auto
  have r: "ac_primary ?r" "ac_provider ?r = Stripe" "ac_status ?r = PastDue" "ac_tenant ?r = 1"
    "ac_dunning ?r = Some 100000"
    by code_simp+
  have tier: "bl_tiers (bw_billing past_due_world) 1 = ProTier" by code_simp
  have "grace_ends_at 100000 \<le> 259300000" "\<And>s. api_cancel demo_api s \<noteq> ApiError"
    by (simp_all add: grace_ends_at_def dunning_grace_ms_def demo_api_def)
  then show ?thesis
    using unpaid_subscription_is_dropped_after_grace [OF run mem r(1-3)] r(4,5) tier by auto
qed

section \<open>Trials\<close>

definition reserved :: "billing_world \<Rightarrow> nat \<Rightarrow> bool" where
  "reserved w t = (t \<in> rv_tenant ` set (bl_reservations (bw_billing w)))"

text \<open>A reservation a subscription has used.\<close>

definition claimed :: "billing \<Rightarrow> nat \<Rightarrow> bool" where
  "claimed b t = (\<exists>v \<in> set (bl_reservations b). rv_tenant v = t \<and> rv_subscription v \<noteq> None)"

text \<open>Does the operation grant the tenant a trial: a checkout session with one, or the onboarding trial?\<close>

definition grants_trial :: "nat \<Rightarrow> billing_op \<Rightarrow> billing_world \<Rightarrow> bool" where
  "grants_trial t op w =
     (case op of
        SessionOp cfg lock created u plan \<Rightarrow> u = t \<and>
          (case create_checkout_session cfg lock created u plan (bw_billing w) of
             Inr (_, _, trial) \<Rightarrow> trial | Inl _ \<Rightarrow> False)
      | GrantOp days now u \<Rightarrow> u = t \<and>
          (case grant_onboarding_pro_trial days now u (bw_billing w) of Inr (_, ch) \<Rightarrow> ch | Inl _ \<Rightarrow> False)
      | _ \<Rightarrow> False)"

definition releases_trial :: "nat \<Rightarrow> billing_op \<Rightarrow> account list \<Rightarrow> billing_world \<Rightarrow> bool" where
  "releases_trial t op seen w = (reserved w t \<and> \<not> reserved (apply_op op seen w) t)"

fun trials_granted :: "nat \<Rightarrow> (billing_op \<times> account list) list \<Rightarrow> billing_world \<Rightarrow> nat" where
  "trials_granted t [] w = 0"
| "trials_granted t ((op, seen) # ops) w =
     (if grants_trial t op w then 1 else 0) + trials_granted t ops (apply_op op seen w)"

fun trials_released :: "nat \<Rightarrow> (billing_op \<times> account list) list \<Rightarrow> billing_world \<Rightarrow> nat" where
  "trials_released t [] w = 0"
| "trials_released t ((op, seen) # ops) w =
     (if releases_trial t op seen w then 1 else 0) + trials_released t ops (apply_op op seen w)"

lemma grant_shape:
  assumes "grant_onboarding_pro_trial days now t b = Inr (b', True)"
  shows "t \<notin> rv_tenant ` set (bl_reservations b)"
    and "bl_reservations b' = bl_reservations b @ [\<lparr>rv_tenant = t, rv_session = None, rv_subscription = None\<rparr>]"
  using assms
  by (auto simp: grant_onboarding_pro_trial_def and_then_Inr with_rows_Inr Let_def
      dest!: demote_shape split: if_splits)

lemma grant_reserves: "grants_trial t op w \<Longrightarrow> \<not> reserved w t \<and> reserved (apply_op op seen w) t"
proof (cases op)
  case (SessionOp cfg lock created u plan)
  assume "grants_trial t op w"
  then obtain b sid where u: "u = t" and c: "create_checkout_session cfg lock created u plan (bw_billing w) = Inr (b, sid, True)"
    using SessionOp by (auto simp: grants_trial_def split: sum.splits)
  have "t \<in> set (map rv_tenant (bl_reservations b))" using session_shape [OF c] u by (simp del: set_map)
  then have "t \<in> rv_tenant ` set (bl_reservations b)" by simp
  then show ?thesis using session_shape [OF c] u SessionOp c
    by (simp add: reserved_def only_tables_def store_def)
next
  case (GrantOp days now u)
  assume "grants_trial t op w"
  then obtain b where u: "u = t" and c: "grant_onboarding_pro_trial days now u (bw_billing w) = Inr (b, True)"
    using GrantOp by (auto simp: grants_trial_def split: sum.splits)
  show ?thesis using grant_shape [OF c] u GrantOp c by (auto simp: reserved_def only_tables_def store_def)
qed (auto simp: grants_trial_def)

lemma trials_bound:
  "trials_granted t ops w \<le> (if reserved w t then 0 else 1) + trials_released t ops w"
proof (induction ops arbitrary: w)
  case (Cons x ops)
  obtain op seen where x: "x = (op, seen)" by (cases x)
  show ?case
    using Cons.IH [of "apply_op op seen w"] grant_reserves [of t op w seen]
    by (auto simp: x releases_trial_def split: if_splits)
qed simp

lemma claimed_claim: "claimed b t \<Longrightarrow> claimed (claim_reservation u s b) t"
  by (auto simp: claimed_def claim_reservation_def split: if_splits)

lemma claimed_same: "bl_reservations b' = bl_reservations b \<Longrightarrow> claimed b' t = claimed b t"
  by (simp add: claimed_def)

lemma outcome_reservations:
  "resolve_subscription_outcome now row s pd plan b = Inr (b', out) \<Longrightarrow> bl_reservations b' = bl_reservations b"
  by (auto simp: resolve_subscription_outcome_def Let_def then_outcome_Inr and_then_Inr with_rows_Inr
      promote_primary_and_cascade_tier_def update_account_shape(3) split: if_splits)

lemma handled_claimed:
  assumes "handle_normalized_event cfg api now ev matched b = Inr (b', out)" and "claimed b t"
  shows "claimed b' t"
  using assms(1)
proof (cases rule: handled_cases)
  case same
  with assms(2) show ?thesis by simp
next
  case (completed sid)
  with assms(2) good_checkout_completed [OF completed] show ?thesis by (simp add: claimed_def)
next
  case (expired sid u)
  with assms(2) show ?thesis
    by (auto simp: handle_checkout_session_expired_def claimed_def Let_def split: option.splits if_splits)
next
  case (row r x)
  from row(3) show ?thesis
  proof (elim disjE exE)
    assume "handle_invoice_paid ev x b = Inr (b', out)"
    with assms(2) show ?thesis
      by (auto simp: handle_invoice_paid_def then_outcome_Inr claimed_def update_account_shape(3) split: if_splits)
  next
    assume "handle_invoice_failed now ev x b = Inr (b', out)"
    with assms(2) show ?thesis
      by (auto simp: handle_invoice_failed_def then_outcome_Inr claimed_def update_account_shape(3) split: if_splits)
  next
    fix s assume "handle_subscription_deleted api s (ne_id ev) x b = Inr (b', out)"
    with assms(2) show ?thesis
      by (auto simp: handle_subscription_deleted_def and_then_Inr claimed_def update_account_shape(3) Let_def
          split: if_splits)
  next
    fix s assume "handle_subscription_upsert cfg api now ev s x b = Inr (b', out)"
    from upsert_shape [OF this] show ?thesis
    proof (elim disjE exE conjE)
      fix n plan en b2
      assume "upsert_written x n plan en b b2"
        "resolve_subscription_outcome now x n (ns_status n = PastDue) plan b2 = Inr (b', out)"
      then have "bl_reservations b' = bl_reservations (claim_reservation (ac_tenant x) (ns_subscription n) b)"
        using outcome_reservations by (auto simp: upsert_written_def)
      with claimed_claim [OF assms(2)] show ?thesis by (simp add: claimed_def)
    qed (use assms(2) in simp)
  qed
qed

lemma store_claimed:
  assumes "\<And>b'. r = Inr b' \<Longrightarrow> claimed b' t" and "claimed (bw_billing w) t"
  shows "claimed (bw_billing (store w r)) t"
  using assms by (simp add: bw_billing_store split: sum.split)

lemma upserted_reservations:
  "set_tier_manual u tr opts b = Inr (b', ch) \<Longrightarrow> bl_reservations b' = bl_reservations b"
  by (auto simp: set_tier_manual_def apply_manual_field_updates_only_def and_then_Inr with_rows_Inr Let_def
      update_account_shape(3) dest!: demote_shape split: if_splits)

lemma claimed_stays:
  assumes "claimed (bw_billing w) t"
  shows "claimed (bw_billing (apply_op op seen w)) t"
proof (cases op)
  case (DeliverOp cfg api now lock e)
  show ?thesis unfolding DeliverOp apply_op.simps
  proof (cases rule: delivery_cases [of cfg api now lock seen e w])
    case (processed ev b events out g u)
    then have "handle_normalized_event cfg api now ev (resolve_event_row seen ev) (bw_billing w) = Inr (b, out)"
      by (auto simp: webhook_callback_def Let_def and_then_Inr)
    from handled_claimed [OF this assms] processed(1)
    show "claimed (bw_billing (fst (deliver_webhook cfg api now lock seen e w))) t" by simp
  qed (use assms in simp_all)
next
  case (PersistOp u c)
  show ?thesis unfolding PersistOp apply_op.simps using assms
    by (rule store_claimed [rotated])
       (use assms in \<open>auto simp: persist_customer_def and_then_Inr with_rows_Inr claimed_def\<close>)
next
  case (SessionOp cfg lock created u plan)
  show ?thesis unfolding SessionOp apply_op.simps using assms
    by (rule store_claimed [rotated])
       (use assms in \<open>fastforce simp: only_tables_Inr create_checkout_session_def claimed_def Let_def
          split: option.splits if_splits\<close>)
next
  case (SetTierOp u tr opts)
  show ?thesis unfolding SetTierOp apply_op.simps using assms
    by (rule store_claimed [rotated])
       (use assms in \<open>auto simp: only_tables_Inr claimed_def dest!: upserted_reservations\<close>)
next
  case (GrantOp days now u)
  show ?thesis unfolding GrantOp apply_op.simps using assms
    by (rule store_claimed [rotated])
       (use assms in \<open>auto simp: only_tables_Inr claimed_def grant_onboarding_pro_trial_def and_then_Inr
          with_rows_Inr Let_def dest!: demote_shape split: if_splits\<close>)
next
  case (ExpireOp now u)
  show ?thesis unfolding ExpireOp apply_op.simps using assms
    by (rule store_claimed [rotated])
       (use assms in \<open>auto simp: only_tables_Inr claimed_def dest!: good_expire\<close>)
next
  case (EmailOp ok u email)
  show ?thesis unfolding EmailOp apply_op.simps using assms
    by (rule store_claimed [rotated])
       (use assms in \<open>auto simp: only_tables_Inr claimed_def dest!: good_email\<close>)
next
  case (VatOp ok u vat)
  show ?thesis unfolding VatOp apply_op.simps using assms
    by (rule store_claimed [rotated])
       (use assms in \<open>auto simp: only_tables_Inr claimed_def dest!: good_vat\<close>)
next
  case (DropOp api at u)
  show ?thesis unfolding DropOp apply_op.simps using assms
    by (rule store_claimed [rotated])
       (use assms in \<open>auto simp: only_tables_Inr claimed_def elim!: drop_cases\<close>)
next
  case (SweepOp api users at in_flight)
  have "bl_reservations (sweep_one api at r b) = bl_reservations b" for r b
    by (auto simp: sweep_one_def elim!: drop_cases split: option.splits sum.splits)
  then have "bl_reservations (fold (sweep_one api at) rs b) = bl_reservations b" for rs b
    by (induction rs arbitrary: b) simp_all
  with SweepOp assms show ?thesis by (simp add: run_dunning_sweep_fold claimed_def)
next
  case (BudgetOp u s)
  with assms show ?thesis by (simp add: Let_def claimed_def)
qed

lemma claimed_reserved: "claimed (bw_billing w) t \<Longrightarrow> reserved w t"
  by (auto simp: claimed_def reserved_def)

lemma claimed_grants_none: "claimed (bw_billing w) t \<Longrightarrow> trials_granted t ops w = 0"
proof (induction ops arbitrary: w)
  case (Cons x ops)
  obtain op seen where x: "x = (op, seen)" by (cases x)
  have "\<not> grants_trial t op w"
    using grant_reserves [of t op w seen] claimed_reserved [OF Cons.prems] by blast
  with Cons.IH [OF claimed_stays [OF Cons.prems]] show ?case by (simp add: x)
qed simp


section \<open>Runs that diverge\<close>

text \<open>
  Stripe does not promise the order of its events. After a cancellation the account has no
  subscription, so a late update of the cancelled subscription is found by its customer and applied:
  the tenant is back on the paid tier with nothing to pay for it.
\<close>

definition cancelled_world :: billing_world where
  "cancelled_world =
     send_event 2 (SubDeleted (demo_sub\<lparr>su_status := StCanceled\<rparr>)) (send_event 1 (SubCreated demo_sub) customer_world)"

lemma late_update_revives_a_cancelled_subscription:
  "bl_tiers (bw_billing cancelled_world) 1 = FreeTier"
  "bl_tiers (bw_billing (send_event 3 (SubUpdated demo_sub) cancelled_world)) 1 = ProTier"
  by code_simp+

text \<open>
  A payment that fails while an update is still on its way: the past-due update keeps the plan the
  incomplete one stored, the paid invoice makes the account active without touching the tier.
\<close>

definition second_sub :: "stripe_status \<Rightarrow> stripe_sub" where
  "second_sub st = demo_sub\<lparr>su_id := 6, su_status := st\<rparr>"

definition recovered_world :: billing_world where
  "recovered_world =
     send_event 5 (PaidInvoice (demo_invoice\<lparr>in_subscription := IdRef 6\<rparr>))
       (send_event 4 (SubUpdated (second_sub StPastDue))
         (send_event 3 (SubCreated (second_sub StIncomplete)) cancelled_world))"

lemma recovered_account_without_its_tier:
  "map (\<lambda>r. (ac_status r, ac_plan r, ac_primary r)) (bl_accounts (bw_billing recovered_world))
     = [(ActiveSub, ProTier, True)]"
  "bl_tiers (bw_billing recovered_world) 1 = FreeTier"
  by code_simp+

text \<open>
  The primary switch is one statement, but a unique index is checked as each row is written: when the
  scan meets the promoted row before the old primary the statement fails.
\<close>

definition manual_primary :: account where
  "manual_primary = (blank_account 0 1 Manual)\<lparr>ac_status := Trialing, ac_plan := ProTier, ac_primary := True\<rparr>"

definition stripe_secondary :: account where
  "stripe_secondary = (blank_account 1 1 Stripe)\<lparr>ac_status := ActiveSub, ac_plan := ProTier, ac_subscription := Some 4\<rparr>"

definition two_accounts :: "account list \<Rightarrow> billing" where
  "two_accounts rows = (bw_billing new_world)\<lparr>bl_accounts := rows\<rparr>"

lemma primary_switch_depends_on_the_scan:
  "\<not> isl (promote_primary_and_cascade_tier stripe_secondary ProTier (two_accounts [manual_primary, stripe_secondary]))"
  "isl (promote_primary_and_cascade_tier stripe_secondary ProTier (two_accounts [stripe_secondary, manual_primary]))"
  by code_simp+

text \<open>Setting the same manual tier with the same date again still writes an audit row.\<close>

definition same_override :: "billing \<Rightarrow> billing_error + billing \<times> bool" where
  "same_override = set_tier_manual 1 EnterpriseTier \<lparr>mo_period_end = Some (Some 500), mo_email = None\<rparr>"

lemma repeated_override_is_audited_again:
  "map_sum id (\<lambda>(b, ch). (length (bl_audit b), ch))
     (and_then (same_override (bw_billing new_world)) (\<lambda>(b, _). same_override b)) = Inr (2, True)"
  by code_simp

end
