(* ===== verification/JsRegex.thy ===== *)
theory JsRegex
  imports Zones
begin

text \<open>
  JavaScript's regular expressions. The program recognises clock times, dates, agreement, claims and
  spam by regular expressions, so they are modelled as they run: a pattern is parsed into a
  \<open>regex\<close> and matched by backtracking, alternatives and repetitions in JavaScript's order, so that
  the first match found is the one JavaScript reports. Patterns stand in the definitions as they
  stand in the source, with \<open>%\<close> for the backslash and \<open>%xhh\<close> for a letter with an accent; code
  points above 255, which a \<^typ>\<open>string\<close> does not have, are left out of them. Not covered, because
  the program does not use them: lazy repetition, back references and look-behind.
\<close>

section \<open>Patterns\<close>

text \<open>A position: the character before it and the text after it. A match: where it ends, and its captures.\<close>

type_synonym pos = "char option \<times> string"
type_synonym found = "pos \<times> (nat \<times> string) list"

datatype item = Chr char | Range char char | Digit | Space | Wordc | NotDigit | NotSpace | NotWordc

datatype regex =
    Eps
  | Cls bool "item list"
  | Dot
  | Wordb bool
  | Bos
  | Eos
  | Seq regex regex
  | Alt regex regex
  | Rep nat "nat option" regex
  | Cap nat regex
  | Look bool regex

definition is_word :: "char \<Rightarrow> bool" where
  "is_word c = (let n = of_char c :: nat in 97 \<le> n \<and> n \<le> 122 \<or> 65 \<le> n \<and> n \<le> 90 \<or> 48 \<le> n \<and> n \<le> 57 \<or> n = 95)"

definition lower_char :: "char \<Rightarrow> char" where
  "lower_char c = (let n = of_char c :: nat in
     if 65 \<le> n \<and> n \<le> 90 \<or> 192 \<le> n \<and> n \<le> 222 \<and> n \<noteq> 215 then char_of (n + 32) else c)"

definition upper_char :: "char \<Rightarrow> char" where
  "upper_char c = (let n = of_char c :: nat in
     if 97 \<le> n \<and> n \<le> 122 \<or> 224 \<le> n \<and> n \<le> 254 \<and> n \<noteq> 247 then char_of (n - 32) else c)"

definition js_lower :: "string \<Rightarrow> string" where
  "js_lower s = map lower_char s"

text \<open>The same tests on the bits of a character, for evaluation.\<close>

lemma is_digit_bits [code]:
  "is_digit (Char b0 b1 b2 b3 b4 b5 b6 b7) = (\<not> b7 \<and> \<not> b6 \<and> b5 \<and> b4 \<and> (\<not> b3 \<or> \<not> b2 \<and> \<not> b1))"
  by (cases b0; cases b1; cases b2; cases b3; cases b4; cases b5; cases b6; cases b7; simp add: is_digit_def)

lemma is_ws_bits [code]:
  "is_ws (Char b0 b1 b2 b3 b4 b5 b6 b7) =
     (\<not> b6 \<and> \<not> b4 \<and> (if b5 then \<not> b3 \<and> \<not> b2 \<and> \<not> b1 \<and> \<not> b0
       else \<not> b7 \<and> b3 \<and> (if b2 then \<not> b1 else b1 \<or> b0)))"
  by (cases b0; cases b1; cases b2; cases b3; cases b4; cases b5; cases b6; cases b7; simp add: is_ws_def)

lemma is_word_bits [code]:
  "is_word (Char b0 b1 b2 b3 b4 b5 b6 b7) =
     (\<not> b7 \<and> (if b6 then (b4 \<or> b3 \<or> b2 \<or> b1 \<or> b0) \<and> (\<not> b4 \<or> \<not> b3 \<or> \<not> b2 \<and> (\<not> b1 \<or> \<not> b0))
                       \<or> \<not> b5 \<and> b4 \<and> b3 \<and> b2 \<and> b1 \<and> b0
       else b5 \<and> b4 \<and> (\<not> b3 \<or> \<not> b2 \<and> \<not> b1)))"
  by (cases b0; cases b1; cases b2; cases b3; cases b4; cases b5; cases b6; cases b7; simp add: is_word_def)

definition letter_bits :: "bool \<Rightarrow> bool \<Rightarrow> bool \<Rightarrow> bool \<Rightarrow> bool \<Rightarrow> bool \<Rightarrow> bool" where
  "letter_bits b0 b1 b2 b3 b4 b7 =
     ((b4 \<or> b3 \<or> b2 \<or> b1 \<or> b0 \<or> b7)
      \<and> (if b7 then \<not> (b4 \<and> \<not> b3 \<and> b2 \<and> b1 \<and> b0) \<and> \<not> (b4 \<and> b3 \<and> b2 \<and> b1 \<and> b0)
         else \<not> (b4 \<and> b3 \<and> (b2 \<or> b1 \<and> b0))))"

lemma lower_char_bits [code]:
  "lower_char (Char b0 b1 b2 b3 b4 b5 b6 b7) =
     Char b0 b1 b2 b3 b4 (b5 \<or> b6 \<and> letter_bits b0 b1 b2 b3 b4 b7) b6 b7"
  by (cases b0; cases b1; cases b2; cases b3; cases b4; cases b5; cases b6; cases b7;
      simp add: lower_char_def letter_bits_def char_of_def bit_Suc_0_iff)

lemma upper_char_bits [code]:
  "upper_char (Char b0 b1 b2 b3 b4 b5 b6 b7) =
     Char b0 b1 b2 b3 b4 (b5 \<and> \<not> (b6 \<and> letter_bits b0 b1 b2 b3 b4 b7)) b6 b7"
  by (cases b0; cases b1; cases b2; cases b3; cases b4; cases b5; cases b6; cases b7;
      simp add: upper_char_def letter_bits_def char_of_def bit_Suc_0_iff)

fun item_has :: "item \<Rightarrow> char \<Rightarrow> bool" where
  "item_has (Chr d) c = (c = d)"
| "item_has (Range a b) c = ((of_char a :: nat) \<le> of_char c \<and> (of_char c :: nat) \<le> of_char b)"
| "item_has Digit c = is_digit c"
| "item_has Space c = is_ws c"
| "item_has Wordc c = is_word c"
| "item_has NotDigit c = (\<not> is_digit c)"
| "item_has NotSpace c = (\<not> is_ws c)"
| "item_has NotWordc c = (\<not> is_word c)"

definition class_has :: "bool \<Rightarrow> item list \<Rightarrow> char \<Rightarrow> bool" where
  "class_has ci is c =
     (list_ex (\<lambda>i. item_has i c) is
      \<or> ci \<and> (list_ex (\<lambda>i. item_has i (lower_char c)) is \<or> list_ex (\<lambda>i. item_has i (upper_char c)) is))"

definition bind_found :: "found list \<Rightarrow> (pos \<Rightarrow> found list) \<Rightarrow> found list" where
  "bind_found fs k = concat (map (\<lambda>(p, g). map (\<lambda>(p', g'). (p', g @ g')) (k p)) fs)"

fun re_times :: "nat \<Rightarrow> (pos \<Rightarrow> found list) \<Rightarrow> pos \<Rightarrow> found list" where
  "re_times 0 f p = [(p, [])]"
| "re_times (Suc n) f p = bind_found (f p) (re_times n f)"

fun re_greedy :: "nat \<Rightarrow> (pos \<Rightarrow> found list) \<Rightarrow> pos \<Rightarrow> found list" where
  "re_greedy 0 f p = [(p, [])]"
| "re_greedy (Suc n) f p =
     bind_found (filter (\<lambda>(p', _). length (snd p') < length (snd p)) (f p)) (re_greedy n f) @ [(p, [])]"

definition at_word_edge :: "pos \<Rightarrow> bool" where
  "at_word_edge p = (case p of (b, s) \<Rightarrow>
     (case b of None \<Rightarrow> False | Some c \<Rightarrow> is_word c) \<noteq> (case s of [] \<Rightarrow> False | c # _ \<Rightarrow> is_word c))"

fun re_match :: "bool \<Rightarrow> regex \<Rightarrow> pos \<Rightarrow> found list" where
  "re_match ci Eps p = [(p, [])]"
| "re_match ci (Cls neg is) p = (case snd p of [] \<Rightarrow> [] | c # s \<Rightarrow>
     if class_has ci is c \<noteq> neg then [((Some c, s), [])] else [])"
| "re_match ci Dot p = (case snd p of [] \<Rightarrow> [] | c # s \<Rightarrow>
     if (of_char c :: nat) = 10 \<or> (of_char c :: nat) = 13 then [] else [((Some c, s), [])])"
| "re_match ci (Wordb want) p = (if at_word_edge p = want then [(p, [])] else [])"
| "re_match ci Bos p = (if fst p = None then [(p, [])] else [])"
| "re_match ci Eos p = (if snd p = [] then [(p, [])] else [])"
| "re_match ci (Seq r q) p = bind_found (re_match ci r p) (re_match ci q)"
| "re_match ci (Alt r q) p = re_match ci r p @ re_match ci q p"
| "re_match ci (Rep lo hi r) p =
     bind_found (re_times lo (re_match ci r) p)
       (\<lambda>p'. re_greedy (case hi of None \<Rightarrow> length (snd p') | Some h \<Rightarrow> h - lo) (re_match ci r) p')"
| "re_match ci (Cap k r) p =
     map (\<lambda>(p', g). (p', g @ [(k, take (length (snd p) - length (snd p')) (snd p))])) (re_match ci r p)"
| "re_match ci (Look want r) p = (if (re_match ci r p \<noteq> []) = want then [(p, [])] else [])"

fun re_test_from :: "bool \<Rightarrow> regex \<Rightarrow> char option \<Rightarrow> string \<Rightarrow> bool" where
  "re_test_from ci r b [] = (re_match ci r (b, []) \<noteq> [])"
| "re_test_from ci r b (c # s) = (re_match ci r (b, c # s) \<noteq> [] \<or> re_test_from ci r (Some c) s)"

section \<open>Reading a pattern\<close>



definition esc :: "char \<Rightarrow> item list" where
  "esc c = (if c = CHR ''d'' then [Digit] else if c = CHR ''s'' then [Space] else if c = CHR ''w'' then [Wordc]
    else if c = CHR ''D'' then [NotDigit] else if c = CHR ''S'' then [NotSpace] else if c = CHR ''W'' then [NotWordc]
    else if c = CHR ''n'' then [Chr (char_of (10 :: nat))] else [Chr c])"

definition hex_val :: "char \<Rightarrow> nat" where
  "hex_val c = (if is_digit c then of_char c - 48 else of_char c - 55)"

definition hex_char :: "char \<Rightarrow> char \<Rightarrow> char" where
  "hex_char h l = char_of (16 * hex_val h + hex_val l)"

text \<open>A range whose upper end is an escape does not occur except as \<open>%xhh\<close>.\<close>

fun p_class :: "string \<Rightarrow> item list \<Rightarrow> (item list \<times> string) option" where
  "p_class [] acc = None"
| "p_class (c # s) acc =
     (if c = CHR '']'' then Some (rev acc, s)
      else if c = CHR ''%'' then
        (case s of
           e # s' \<Rightarrow>
             (if e = CHR ''x'' then
                (case s' of h # l # s2 \<Rightarrow> p_class s2 (Chr (hex_char h l) # acc) | _ \<Rightarrow> None)
              else p_class s' (rev (esc e) @ acc))
         | [] \<Rightarrow> None)
      else if c = CHR ''-'' then
        (case s of d # s' \<Rightarrow>
           (case acc of Chr a # acc' \<Rightarrow> if d = CHR '']'' then Some (rev (Chr c # acc), s')
                else if d = CHR ''%'' then
                  (case s' of x # h # l # s2 \<Rightarrow> p_class s2 (Range a (hex_char h l) # acc') | _ \<Rightarrow> None)
                else p_class s' (Range a d # acc')
            | _ \<Rightarrow> p_class s (Chr c # acc))
         | [] \<Rightarrow> None)
      else p_class s (Chr c # acc))"

fun p_num :: "string \<Rightarrow> nat \<Rightarrow> nat \<times> string" where
  "p_num [] n = (n, [])"
| "p_num (c # s) n = (if is_digit c then p_num s (10 * n + nat (digit_val c)) else (n, c # s))"

text \<open>A pattern is first cut into tokens; \<open>{n}\<close>, \<open>{n,}\<close> and \<open>{n,m}\<close> are one token.\<close>

datatype group_kind = Plain | Capture | Ahead bool

datatype re_token = TBar | TOpen group_kind | TClose | TQuant nat "nat option" | TAtom regex

definition p_braces :: "string \<Rightarrow> re_token \<times> string" where
  "p_braces s =
     (case p_num s 0 of
        (lo, c # s1) \<Rightarrow>
          if c = CHR ''}'' then (TQuant lo (Some lo), s1)
          else (case s1 of
                  d # s2 \<Rightarrow> if d = CHR ''}'' then (TQuant lo None, s2)
                            else (case p_num s1 0 of (hi, s3) \<Rightarrow> (TQuant lo (Some hi), drop 1 s3))
                | [] \<Rightarrow> (TBar, []))
      | _ \<Rightarrow> (TBar, []))"

fun tokens :: "nat \<Rightarrow> string \<Rightarrow> re_token list" where
  "tokens 0 s = []"
| "tokens (Suc n) [] = []"
| "tokens (Suc n) (c # s) =
     (if c = CHR ''%'' then
        (case s of
           [] \<Rightarrow> [TBar]
         | e # s1 \<Rightarrow>
             if e = CHR ''b'' then TAtom (Wordb True) # tokens n s1
             else if e = CHR ''B'' then TAtom (Wordb False) # tokens n s1
             else if e = CHR ''x'' then
               (case s1 of h # l # s2 \<Rightarrow> TAtom (Cls False [Chr (hex_char h l)]) # tokens n s2 | _ \<Rightarrow> [TBar])
             else TAtom (Cls False (esc e)) # tokens n s1)
      else if is_word c \<or> c = CHR '' '' then TAtom (Cls False [Chr c]) # tokens n s
      else if c = CHR ''|'' then TBar # tokens n s
      else if c = CHR '')'' then TClose # tokens n s
      else if c = CHR ''('' then
        (case s of
           q # k # s1 \<Rightarrow>
             if q = CHR ''?'' then
               (if k = CHR '':'' then TOpen Plain # tokens n s1
                else if k = CHR ''='' then TOpen (Ahead True) # tokens n s1
                else TOpen (Ahead False) # tokens n s1)
             else TOpen Capture # tokens n s
         | _ \<Rightarrow> TOpen Capture # tokens n s)
      else if c = CHR ''['' then
        (case s of
           q # s1 \<Rightarrow>
             (case (if q = CHR ''^'' then p_class s1 [] else p_class s []) of
                None \<Rightarrow> [TBar]
              | Some (is, s2) \<Rightarrow> TAtom (Cls (q = CHR ''^'') is) # tokens n s2)
         | [] \<Rightarrow> [TBar])
      else if c = CHR ''?'' then TQuant 0 (Some 1) # tokens n s
      else if c = CHR ''*'' then TQuant 0 None # tokens n s
      else if c = CHR ''+'' then TQuant 1 None # tokens n s
      else if c = CHR ''{'' then (case p_braces s of (t, s1) \<Rightarrow> t # tokens n s1)
      else if c = CHR ''^'' then TAtom Bos # tokens n s
      else if c = CHR ''$'' then TAtom Eos # tokens n s
      else if c = CHR ''.'' then TAtom Dot # tokens n s
      else TAtom (Cls False [Chr c]) # tokens n s)"

text \<open>
  The tokens are read with a stack: for each open group its kind, its number, the alternatives that
  are complete and the parts of the current one, both latest first.
\<close>

type_synonym frame = "group_kind \<times> nat \<times> regex list \<times> regex list"

fun seq_of :: "regex \<Rightarrow> regex list \<Rightarrow> regex" where
  "seq_of r [] = r"
| "seq_of r (q # qs) = seq_of (Seq q r) qs"

definition part_of :: "regex list \<Rightarrow> regex" where
  "part_of parts = (case parts of [] \<Rightarrow> Eps | r # rs \<Rightarrow> seq_of r rs)"

fun alt_of :: "regex \<Rightarrow> regex list \<Rightarrow> regex" where
  "alt_of r [] = r"
| "alt_of r (q # qs) = alt_of (Alt q r) qs"

definition group_of :: "group_kind \<Rightarrow> nat \<Rightarrow> regex \<Rightarrow> regex" where
  "group_of g k r = (case g of Plain \<Rightarrow> r | Capture \<Rightarrow> Cap k r | Ahead want \<Rightarrow> Look want r)"

fun shift :: "re_token list \<Rightarrow> frame list \<Rightarrow> nat \<Rightarrow> regex option" where
  "shift [] [(g, i, alts, parts)] k = Some (alt_of (part_of parts) alts)"
| "shift (TAtom r # ts) ((g, i, alts, parts) # fs) k = shift ts ((g, i, alts, r # parts) # fs) k"
| "shift (TQuant lo hi # ts) ((g, i, alts, r # parts) # fs) k = shift ts ((g, i, alts, Rep lo hi r # parts) # fs) k"
| "shift (TBar # ts) ((g, i, alts, parts) # fs) k = shift ts ((g, i, part_of parts # alts, []) # fs) k"
| "shift (TOpen g' # ts) fs k =
     shift ts ((g', k, [], []) # fs) (if g' = Capture then k + 1 else k)"
| "shift (TClose # ts) ((g, i, alts, parts) # (g', i', alts', parts') # fs) k =
     shift ts ((g', i', alts', group_of g i (alt_of (part_of parts) alts) # parts') # fs) k"
| "shift ts fs k = None"

definition parse_regex :: "nat \<Rightarrow> string \<Rightarrow> regex option" where
  "parse_regex k s = shift (tokens (length s) s) [(Plain, 0, [], [])] k"

text \<open>A text that is no pattern matches nothing. \<open>regex_from k\<close> numbers its groups from \<open>k\<close> on.\<close>

definition regex_from :: "nat \<Rightarrow> string \<Rightarrow> regex" where
  "regex_from k s = (case parse_regex k s of Some r \<Rightarrow> r | None \<Rightarrow> Cls False [])"

definition regex_of :: "string \<Rightarrow> regex" where
  "regex_of s = regex_from 1 s"

text \<open>A pattern written in pieces, one after the other, and one of several words.\<close>

definition regex_cat :: "string list \<Rightarrow> regex" where
  "regex_cat ps = part_of (rev (map regex_of ps))"

definition one_of :: "string list \<Rightarrow> regex" where
  "one_of ws = (case rev (map regex_of ws) of [] \<Rightarrow> Eps | r # rs \<Rightarrow> alt_of r rs)"

section \<open>Searching\<close>

text \<open>\<open>pattern.test(s)\<close>, without and with the flag \<open>i\<close>.\<close>

definition re_test :: "string \<Rightarrow> string \<Rightarrow> bool" where
  "re_test pat s = re_test_from False (regex_of pat) None s"

definition re_test_i :: "string \<Rightarrow> string \<Rightarrow> bool" where
  "re_test_i pat s = re_test_from True (regex_of pat) None s"

definition re_finds :: "bool \<Rightarrow> regex \<Rightarrow> string \<Rightarrow> bool" where
  "re_finds ci r s = re_test_from ci r None s"

record regex_hit =
  rh_index :: nat
  rh_text :: string
  rh_caps :: "(nat \<times> string) list"

text \<open>\<open>s.matchAll(pattern)\<close>: after an empty match the search goes on one character later.\<close>

fun re_scan :: "nat \<Rightarrow> bool \<Rightarrow> regex \<Rightarrow> nat \<Rightarrow> pos \<Rightarrow> regex_hit list" where
  "re_scan 0 ci r i p = []"
| "re_scan (Suc n) ci r i (b, s) =
     (case re_match ci r (b, s) of
        [] \<Rightarrow> (case s of [] \<Rightarrow> [] | c # s' \<Rightarrow> re_scan n ci r (i + 1) (Some c, s'))
      | ((b', s'), g) # _ \<Rightarrow>
          \<lparr>rh_index = i, rh_text = take (length s - length s') s, rh_caps = g\<rparr>
          # (if length s' < length s then re_scan n ci r (i + (length s - length s')) (b', s')
             else (case s of [] \<Rightarrow> [] | c # s2 \<Rightarrow> re_scan n ci r (i + 1) (Some c, s2))))"

definition re_match_all :: "bool \<Rightarrow> regex \<Rightarrow> string \<Rightarrow> regex_hit list" where
  "re_match_all ci r s = re_scan (length s + 1) ci r 0 (None, s)"

definition re_first_match :: "bool \<Rightarrow> regex \<Rightarrow> string \<Rightarrow> regex_hit option" where
  "re_first_match ci r s = (case re_match_all ci r s of [] \<Rightarrow> None | h # _ \<Rightarrow> Some h)"

definition re_cap :: "nat \<Rightarrow> regex_hit \<Rightarrow> string option" where
  "re_cap k h = map_of (rev (rh_caps h)) k"

text \<open>\<open>s.replace(pattern, f)\<close> with the flag \<open>g\<close>.\<close>

fun re_splice :: "nat \<Rightarrow> regex_hit list \<Rightarrow> (regex_hit \<Rightarrow> string) \<Rightarrow> string \<Rightarrow> string" where
  "re_splice i [] f s = drop i s"
| "re_splice i (h # hs) f s =
     take (rh_index h - i) (drop i s) @ f h @ re_splice (rh_index h + length (rh_text h)) hs f s"

definition replace_all :: "bool \<Rightarrow> regex \<Rightarrow> (regex_hit \<Rightarrow> string) \<Rightarrow> string \<Rightarrow> string" where
  "replace_all ci r f s = re_splice 0 (re_match_all ci r s) f s"

definition replace_first :: "bool \<Rightarrow> regex \<Rightarrow> (regex_hit \<Rightarrow> string) \<Rightarrow> string \<Rightarrow> string" where
  "replace_first ci r f s = re_splice 0 (take 1 (re_match_all ci r s)) f s"

definition js_includes :: "string \<Rightarrow> string \<Rightarrow> bool" where
  "js_includes s t = list_ex (\<lambda>i. take (length t) (drop i s) = t) [0..<length s + 1]"

definition js_starts_with :: "string \<Rightarrow> string \<Rightarrow> bool" where
  "js_starts_with t s = (take (length t) s = t)"

text \<open>\<open>s.replace(/%s+/g, ' ')\<close>.\<close>

definition one_blank :: "string \<Rightarrow> string" where
  "one_blank s = replace_all False (regex_of ''%s+'') (\<lambda>_. '' '') s"

section \<open>Texts\<close>

fun show_nat :: "nat \<Rightarrow> string" where
  "show_nat n = (if n < 10 then [digit_char (int n)] else show_nat (n div 10) @ [digit_char (int (n mod 10))])"

declare show_nat.simps [simp del]

definition show_int :: "int \<Rightarrow> string" where
  "show_int i = (if i < 0 then ''-'' @ show_nat (nat (- i)) else show_nat (nat i))"

fun joined :: "string \<Rightarrow> string list \<Rightarrow> string" where
  "joined sep [] = []"
| "joined sep [s] = s"
| "joined sep (s # t # ts) = s @ sep @ joined sep (t # ts)"

section \<open>What a pattern means\<close>

text \<open>
  The positions a pattern can reach from a position, without any order. The backtracking search
  finds exactly these, so a test succeeds if and only if some part of the text reads as the pattern.
\<close>

definition closer :: "(pos \<Rightarrow> pos \<Rightarrow> bool) \<Rightarrow> pos \<Rightarrow> pos \<Rightarrow> bool" where
  "closer R p q \<longleftrightarrow> R p q \<and> length (snd q) < length (snd p)"

fun reads :: "bool \<Rightarrow> regex \<Rightarrow> pos \<Rightarrow> pos \<Rightarrow> bool" where
  "reads ci Eps p q = (q = p)"
| "reads ci (Cls neg is) p q = (\<exists>c s. snd p = c # s \<and> q = (Some c, s) \<and> class_has ci is c \<noteq> neg)"
| "reads ci Dot p q = (\<exists>c s. snd p = c # s \<and> q = (Some c, s) \<and> (of_char c :: nat) \<noteq> 10 \<and> (of_char c :: nat) \<noteq> 13)"
| "reads ci (Wordb want) p q = (q = p \<and> at_word_edge p = want)"
| "reads ci Bos p q = (q = p \<and> fst p = None)"
| "reads ci Eos p q = (q = p \<and> snd p = [])"
| "reads ci (Seq r t) p q = (\<exists>x. reads ci r p x \<and> reads ci t x q)"
| "reads ci (Alt r t) p q = (reads ci r p q \<or> reads ci t p q)"
| "reads ci (Rep lo hi r) p q =
     (\<exists>x. (reads ci r ^^ lo) p x
        \<and> (case hi of None \<Rightarrow> (closer (reads ci r))\<^sup>*\<^sup>* x q
            | Some h \<Rightarrow> \<exists>k \<le> h - lo. (closer (reads ci r) ^^ k) x q))"
| "reads ci (Cap k r) p q = reads ci r p q"
| "reads ci (Look want r) p q = (q = p \<and> (\<exists>x. reads ci r p x) = want)"

definition ends :: "found list \<Rightarrow> pos set" where
  "ends fs = fst ` set fs"

lemma ends_simps [simp]:
  "ends [] = {}" "ends ((p, g) # fs) = insert p (ends fs)" "ends (fs @ gs) = ends fs \<union> ends gs"
  by (auto simp: ends_def)

lemma ends_cap: "ends (map (\<lambda>(q, g). (q, h q g)) fs) = ends fs"
  by (induction fs) auto

lemma ends_bind: "q \<in> ends (bind_found fs k) \<longleftrightarrow> (\<exists>x \<in> ends fs. q \<in> ends (k x))"
proof (induction fs)
  case Nil
  then show ?case by (simp add: bind_found_def)
next
  case (Cons f fs)
  obtain p g where f: "f = (p, g)" by fastforce
  have "bind_found (f # fs) k = map (\<lambda>(q, g'). (q, g @ g')) (k p) @ bind_found fs k"
    by (simp add: f bind_found_def)
  then show ?case using Cons by (simp add: f ends_cap)
qed

lemma relpowp_first: "(R ^^ Suc n) p q \<longleftrightarrow> (\<exists>x. R p x \<and> (R ^^ n) x q)"
  by (metis relpowp_Suc_D2 relpowp_Suc_I2)

lemma ends_times:
  assumes "\<And>p q. q \<in> ends (f p) \<longleftrightarrow> R p q"
  shows "q \<in> ends (re_times n f p) \<longleftrightarrow> (R ^^ n) p q"
proof (induction n arbitrary: p)
  case 0
  then show ?case by auto
next
  case (Suc n)
  show ?case unfolding re_times.simps ends_bind Suc relpowp_first using assms by blast
qed

lemma ends_filter: "q \<in> ends (filter (\<lambda>(x, _). P x) fs) \<longleftrightarrow> q \<in> ends fs \<and> P q"
  by (force simp: ends_def)

lemma ends_greedy:
  assumes "\<And>p q. q \<in> ends (f p) \<longleftrightarrow> R p q"
  shows "q \<in> ends (re_greedy n f p) \<longleftrightarrow> (\<exists>k \<le> n. (closer R ^^ k) p q)"
proof (induction n arbitrary: p)
  case 0
  then show ?case by auto
next
  case (Suc n)
  have "(\<exists>k \<le> Suc n. P k) \<longleftrightarrow> P 0 \<or> (\<exists>k \<le> n. P (Suc k))" for P
    using less_Suc_eq_0_disj less_Suc_eq_le by auto
  then have "(\<exists>k \<le> Suc n. (closer R ^^ k) p q) \<longleftrightarrow> q = p \<or> (\<exists>k \<le> n. (closer R ^^ Suc k) p q)"
    by (auto simp del: relpowp.simps(2))
  also have "\<dots> \<longleftrightarrow> q = p \<or> (\<exists>x. closer R p x \<and> (\<exists>k \<le> n. (closer R ^^ k) x q))"
    unfolding relpowp_first by blast
  also have "\<dots> \<longleftrightarrow> q \<in> ends (re_greedy (Suc n) f p)"
    unfolding re_greedy.simps ends_simps(3) Un_iff ends_bind Suc Bex_def ends_filter assms
    by (auto simp: closer_def [abs_def] simp del: split_paired_Ex)
  finally show ?case by simp
qed

lemma closer_steps: "(closer R ^^ k) p q \<Longrightarrow> k + length (snd q) \<le> length (snd p)"
proof (induction k arbitrary: q)
  case 0
  then show ?case by simp
next
  case (Suc k)
  from Suc.prems obtain x where "(closer R ^^ k) p x" "closer R x q" by auto
  moreover from this have "k + length (snd x) \<le> length (snd p)" using Suc.IH by blast
  ultimately show ?case by (simp add: closer_def)
qed

lemma closer_star: "(closer R)\<^sup>*\<^sup>* p q \<longleftrightarrow> (\<exists>k \<le> length (snd p). (closer R ^^ k) p q)"
  by (metis add_leD1 closer_steps rtranclp_power)

theorem match_iff: "q \<in> ends (re_match ci r p) \<longleftrightarrow> reads ci r p q"
proof (induction r arbitrary: p q)
  case (Cls neg "is")
  then show ?case by (auto split: list.splits)
next
  case Dot
  then show ?case by (auto split: list.splits)
next
  case (Rep lo hi r)
  then show ?case
    by (cases hi) (auto simp: ends_bind ends_times ends_greedy closer_star Bex_def)
next
  case (Cap k r)
  then show ?case by (simp add: ends_cap)
next
  case (Look want r)
  have "re_match ci r p \<noteq> [] \<longleftrightarrow> (\<exists>x. reads ci r p x)"
    by (auto simp flip: Look simp: ends_def)
  then show ?case by auto
qed (auto simp: ends_bind Bex_def)

lemma test_from_iff:
  "re_test_from ci r b s \<longleftrightarrow>
     (\<exists>u v q. s = u @ v \<and> reads ci r (if u = [] then b else Some (List.last u), v) q)"
proof (induction s arbitrary: b)
  case Nil
  have "re_match ci r (b, []) \<noteq> [] \<longleftrightarrow> (\<exists>q. reads ci r (b, []) q)"
    by (auto simp flip: match_iff simp: ends_def)
  then show ?case by simp
next
  case (Cons c s)
  have "re_match ci r (b, c # s) \<noteq> [] \<longleftrightarrow> (\<exists>q. reads ci r (b, c # s) q)"
    by (auto simp flip: match_iff simp: ends_def)
  moreover have "(\<exists>u v q. c # s = u @ v \<and> reads ci r (if u = [] then b else Some (List.last u), v) q) \<longleftrightarrow>
      (\<exists>q. reads ci r (b, c # s) q)
      \<or> (\<exists>u v q. s = u @ v \<and> reads ci r (if u = [] then Some c else Some (List.last u), v) q)"
    (is "?l \<longleftrightarrow> ?r")
  proof
    assume ?l
    then obtain u v q where *: "c # s = u @ v" "reads ci r (if u = [] then b else Some (List.last u), v) q" by blast
    show ?r
    proof (cases u)
      case Nil
      then have "reads ci r (b, c # s) q" using * by simp
      then show ?thesis by blast
    next
      case (Cons d u')
      then have "s = u' @ v" "(if u = [] then b else Some (List.last u)) = (if u' = [] then Some c else Some (List.last u'))"
        using *(1) by auto
      with *(2) have "s = u' @ v \<and> reads ci r (if u' = [] then Some c else Some (List.last u'), v) q" by argo
      then show ?thesis by blast
    qed
  next
    assume ?r
    then show ?l
    proof
      assume "\<exists>q. reads ci r (b, c # s) q"
      then obtain q where "reads ci r (b, c # s) q" by blast
      then show ?l by - (rule exI [of _ "[]"], rule exI [of _ "c # s"], rule exI [of _ q], simp)
    next
      assume "\<exists>u v q. s = u @ v \<and> reads ci r (if u = [] then Some c else Some (List.last u), v) q"
      then obtain u v q where "s = u @ v" "reads ci r (if u = [] then Some c else Some (List.last u), v) q" by blast
      then show ?l by (intro exI [of _ "c # u"] exI [of _ v] exI [of _ q]) (auto split: if_splits)
    qed
  qed
  ultimately show ?case using Cons by simp
qed

end
