(* ===== verification/AddressBinding.thy ===== *)
theory AddressBinding
  imports JsRegex
begin

text \<open>
  The address a conversation is about, and the one question that may be open about it
  (\<open>database/entities/AddressBinding.ts\<close>, \<open>booking/travel/address-binding.ts\<close>,
  \<open>booking/travel/address-for-turn.ts\<close>, \<open>channels/address-control-capability.ts\<close>). One row per
  conversation; every operation is one transaction that locks it. The operations take the time of
  the database clock. The digest of \<open>node:crypto\<close> is an argument.
\<close>

section \<open>Rows\<close>

datatype bind_source = Picked | Confirmed

text \<open>A bot message that was persisted with the control that asks a question.\<close>

record correction =
  co_id :: string
  co_address :: string
  co_asked :: bool
  co_message :: "nat option"
  co_bound :: string
  co_bound_place :: "string option"
  co_bound_source :: bind_source

record binding =
  ab_address :: "string option"
  ab_place :: "string option"
  ab_source :: "bind_source option"
  ab_pending :: "correction option"
  ab_version :: nat
  ab_updated :: instant

text \<open>The three \<open>CHECK\<close> constraints of the table.\<close>

definition blank_or_null :: "string option \<Rightarrow> bool" where
  "blank_or_null s = (s = None \<or> s = Some [])"

definition binding_checks :: "binding \<Rightarrow> bool" where
  "binding_checks b \<longleftrightarrow>
     (case ab_source b of
        None \<Rightarrow> blank_or_null (ab_address b) \<and> blank_or_null (ab_place b)
      | Some Picked \<Rightarrow> \<not> blank_or_null (ab_address b) \<and> \<not> blank_or_null (ab_place b)
      | Some Confirmed \<Rightarrow> \<not> blank_or_null (ab_address b) \<and> blank_or_null (ab_place b))
     \<and> (ab_pending b \<noteq> None \<longrightarrow> \<not> blank_or_null (ab_address b))
     \<and> (case ab_pending b of None \<Rightarrow> True
         | Some q \<Rightarrow> co_id q \<noteq> [] \<and> co_address q \<noteq> [] \<and> co_bound q \<noteq> [] \<and> ab_address b = Some (co_bound q)
             \<and> co_bound_place q = ab_place b \<and> ab_source b = Some (co_bound_source q)
             \<and> (co_asked q = (co_message q \<noteq> None)))"

definition fresh :: "instant \<Rightarrow> binding \<Rightarrow> bool" where
  "fresh now b = (ab_updated b > now - 35 * minute_ms)"

definition fresh_row :: "instant \<Rightarrow> binding option \<Rightarrow> binding option" where
  "fresh_row now r = (case r of None \<Rightarrow> None | Some b \<Rightarrow> if fresh now b then Some b else None)"

text \<open>\<open>activeFrom\<close>: an empty address is none, an empty place id is none.\<close>

definition active_from :: "binding option \<Rightarrow> (string \<times> string option) option" where
  "active_from r =
     (case r of None \<Rightarrow> None
      | Some b \<Rightarrow> (case ab_address b of
            None \<Rightarrow> None
          | Some a \<Rightarrow> if a = [] then None
                      else Some (a, if blank_or_null (ab_place b) then None else ab_place b)))"

type_synonym binding_ref = "nat \<times> string"

definition get_bound_address_snapshot ::
  "instant \<Rightarrow> binding option \<Rightarrow> ((string \<times> string option) \<times> binding_ref) option" where
  "get_bound_address_snapshot now r =
     (case (fresh_row now r, active_from (fresh_row now r)) of
        (Some b, Some (a, p)) \<Rightarrow> Some ((a, p), (ab_version b, a))
      | _ \<Rightarrow> None)"

definition get_pending_correction :: "instant \<Rightarrow> binding option \<Rightarrow> correction option" where
  "get_pending_correction now r = (case fresh_row now r of None \<Rightarrow> None | Some b \<Rightarrow> ab_pending b)"

section \<open>Operations on the row\<close>

text \<open>A statement that violates a constraint changes nothing.\<close>

definition checked :: "binding option \<Rightarrow> binding \<Rightarrow> binding option" where
  "checked before b = (if binding_checks b then Some b else before)"

text \<open>The customer picked an address from the suggestions; text or identity missing is an error.\<close>

definition bind_address :: "instant \<Rightarrow> string \<Rightarrow> string \<Rightarrow> binding option \<Rightarrow> binding option" where
  "bind_address now address place r =
     (if js_trim address = [] \<or> js_trim place = [] then r
      else checked r
        \<lparr>ab_address = Some (js_trim address), ab_place = Some (js_trim place), ab_source = Some Picked,
         ab_pending = None, ab_version = (case r of None \<Rightarrow> 0 | Some b \<Rightarrow> ab_version b + 1), ab_updated = now\<rparr>)"

definition propose_correction ::
  "instant \<Rightarrow> string \<Rightarrow> string \<Rightarrow> string option \<Rightarrow> string \<Rightarrow> binding option \<Rightarrow> binding option" where
  "propose_correction now pid address expected_place expected_address r =
     (case (fresh_row now r, active_from (fresh_row now r)) of
        (Some b, Some (a, p)) \<Rightarrow>
          if ab_source b = None then r
          else if \<not> (case p of Some q \<Rightarrow> q = nullish expected_place [] | None \<Rightarrow> a = expected_address) then r
          else if (case ab_pending b of None \<Rightarrow> False | Some q \<Rightarrow> co_asked q) then r
          else checked r (b\<lparr>ab_pending := Some
                 \<lparr>co_id = pid, co_address = address, co_asked = False, co_message = None, co_bound = a,
                  co_bound_place = ab_place b, co_bound_source = the (ab_source b)\<rparr>,
                 ab_updated := now\<rparr>)
      | _ \<Rightarrow> r)"

text \<open>The messages table as this update reads it: the bot's messages and the question each shows.\<close>

type_synonym shown_questions = "(nat \<times> string) list"

definition can_render_address_controls :: "string \<Rightarrow> bool" where
  "can_render_address_controls channel = (channel \<in> {''widget'', ''messenger'', ''instagram'', ''whatsapp''})"

definition mark_question_asked ::
  "instant \<Rightarrow> string \<Rightarrow> nat \<Rightarrow> string \<Rightarrow> shown_questions \<Rightarrow> binding option \<Rightarrow> binding option \<times> bool" where
  "mark_question_asked now pid message channel shown r =
     (if \<not> can_render_address_controls channel then (r, False)
      else (case fresh_row now r of
          None \<Rightarrow> (r, False)
        | Some b \<Rightarrow>
            (case ab_pending b of
               None \<Rightarrow> (r, False)
             | Some q \<Rightarrow>
                 if co_id q = pid \<and> \<not> co_asked q \<and> (message, pid) \<in> set shown
                 then (Some (b\<lparr>ab_pending := Some (q\<lparr>co_asked := True, co_message := Some message\<rparr>),
                              ab_updated := now\<rparr>), True)
                 else (r, False))))"

text \<open>The customer's answer: yes moves the binding to the proposed address, no keeps the bound one.\<close>

definition answer_transition :: "instant \<Rightarrow> string \<Rightarrow> bool \<Rightarrow> binding option \<Rightarrow> binding option \<times> string option" where
  "answer_transition now pid confirmed r =
     (case (fresh_row now r, active_from (fresh_row now r)) of
        (Some b, Some _) \<Rightarrow>
          (case ab_pending b of
             None \<Rightarrow> (r, None)
           | Some q \<Rightarrow>
               if co_id q \<noteq> pid \<or> \<not> co_asked q \<or> co_message q = None then (r, None)
               else
                 (let b' = b\<lparr>ab_address := Some (if confirmed then co_address q else co_bound q),
                             ab_place := (if confirmed then None else co_bound_place q),
                             ab_source := Some (if confirmed then Confirmed else co_bound_source q),
                             ab_pending := None, ab_version := ab_version b + 1, ab_updated := now\<rparr>
                  in if binding_checks b' then (Some b', ab_address b') else (r, None)))
      | _ \<Rightarrow> (r, None))"

definition confirm_correction :: "instant \<Rightarrow> string \<Rightarrow> binding option \<Rightarrow> binding option \<times> string option" where
  "confirm_correction now pid r = answer_transition now pid True r"

definition reject_correction :: "instant \<Rightarrow> string \<Rightarrow> binding option \<Rightarrow> binding option \<times> string option" where
  "reject_correction now pid r = answer_transition now pid False r"

definition unbound :: "instant \<Rightarrow> binding \<Rightarrow> binding" where
  "unbound now b = b\<lparr>ab_address := None, ab_place := None, ab_source := None, ab_pending := None,
                     ab_version := ab_version b + 1, ab_updated := now\<rparr>"

text \<open>\<^term>\<open>Inl ()\<close>: the binding is not the one the booking resolved, and its transaction is rolled back.\<close>

definition consume_address_binding ::
  "instant \<Rightarrow> binding_ref option \<Rightarrow> binding option \<Rightarrow> unit + binding option" where
  "consume_address_binding now expected r =
     (case expected of
        None \<Rightarrow> Inr r
      | Some (version, address) \<Rightarrow>
          (case fresh_row now r of
             None \<Rightarrow> Inl ()
           | Some b \<Rightarrow>
               if blank_or_null (ab_address b) \<or> ab_version b \<noteq> version \<or> ab_address b \<noteq> Some address then Inl ()
               else Inr (Some (unbound now b))))"

definition clear_address_binding :: "instant \<Rightarrow> binding option \<Rightarrow> binding option" where
  "clear_address_binding now r = map_option (unbound now) r"

definition touch_address_binding :: "instant \<Rightarrow> binding option \<Rightarrow> binding option" where
  "touch_address_binding now r =
     map_option (\<lambda>b. if fresh now b then b\<lparr>ab_updated := now\<rparr> else b) r"

section \<open>Comparing addresses\<close>

definition normalise_address :: "string \<Rightarrow> string" where
  "normalise_address v =
     js_trim (one_blank (replace_all False (regex_of ''[.,]'') (\<lambda>_. '' '') (js_lower (js_trim v))))"

definition same_text :: "string \<Rightarrow> string \<Rightarrow> bool" where
  "same_text a b = (normalise_address a = normalise_address b)"

definition co_incidental :: regex where
  "co_incidental = regex_of ''%b(belgium|belgie|belgi%xEB|be)%b|%b%d{4}%b''"

definition door_pattern :: regex where
  "door_pattern = regex_of ''%b%d{1,4}[a-z]?%b''"

definition door_number :: "string \<Rightarrow> string option" where
  "door_number v = map_option rh_text (re_first_match False door_pattern (normalise_address v))"

definition address_core :: "bool \<Rightarrow> string \<Rightarrow> string" where
  "address_core drop_door v =
     (let out = replace_all False co_incidental (\<lambda>_. '' '') (normalise_address v);
          out' = (if drop_door then replace_first False door_pattern (\<lambda>_. '' '') out else out)
      in js_trim (one_blank out'))"

definition looks_like_same_address :: "string \<Rightarrow> string \<Rightarrow> bool" where
  "looks_like_same_address a b =
     (if same_text a b then True
      else
        (let da = door_number a; db = door_number b in
         if da \<noteq> None \<and> db \<noteq> None \<and> da \<noteq> db then False
         else
           (let drop_door = (da = None \<or> db = None); x = address_core drop_door a; y = address_core drop_door b in
            if x = [] \<or> y = [] then False
            else x = y \<or> js_includes x y \<or> js_includes y x)))"

section \<open>The address of a turn\<close>

record turn_address =
  tu_address :: "string option"
  tu_place :: "string option"
  tu_contested :: bool
  tu_proposal :: "string option"
  tu_proposed :: "string option"
  tu_binding :: "binding_ref option"

text \<open>The two sides of a question, each behind its length.\<close>

definition question_text :: "string \<Rightarrow> string \<Rightarrow> string" where
  "question_text bound_identity proposed =
     show_nat (length bound_identity) @ '':'' @ bound_identity @ ''|''
     @ show_nat (length proposed) @ '':'' @ proposed"

definition proposal_id :: "(string \<Rightarrow> string) \<Rightarrow> string \<times> string option \<Rightarrow> string \<Rightarrow> string" where
  "proposal_id digest bound typed =
     digest (question_text (case snd bound of Some p \<Rightarrow> p | None \<Rightarrow> normalise_address (fst bound))
                           (normalise_address typed))"

text \<open>
  What a booking tool uses, given what the model passed it; it may record a question. \<open>seen\<close> is the
  row its unlocked read saw, \<open>r\<close> the row it finds when it locks.
\<close>

definition address_for_turn ::
  "(string \<Rightarrow> string) \<Rightarrow> instant \<Rightarrow> string option \<Rightarrow> binding option \<Rightarrow> binding option
   \<Rightarrow> turn_address \<times> binding option" where
  "address_for_turn digest now arg seen r =
     (case get_bound_address_snapshot now seen of
        None \<Rightarrow> (\<lparr>tu_address = arg, tu_place = None, tu_contested = False, tu_proposal = None,
                  tu_proposed = None, tu_binding = None\<rparr>, r)
      | Some ((a, p), ref) \<Rightarrow>
          (let typed = js_trim (nullish arg []) in
           if typed = [] \<or> same_text typed a \<or> looks_like_same_address typed a
           then (\<lparr>tu_address = Some a, tu_place = p, tu_contested = False, tu_proposal = None,
                   tu_proposed = None, tu_binding = Some ref\<rparr>, r)
           else
             (let pid = proposal_id digest (a, p) typed in
              (\<lparr>tu_address = Some a, tu_place = p, tu_contested = True, tu_proposal = Some pid,
                 tu_proposed = Some typed, tu_binding = Some ref\<rparr>,
               propose_correction now pid typed p a r))))"

text \<open>The part of an idempotency key that names the door.\<close>

definition address_token :: "(string \<Rightarrow> string) \<Rightarrow> turn_address \<Rightarrow> string" where
  "address_token digest t =
     (let picked = js_trim (nullish (tu_place t) []); typed = normalise_address (nullish (tu_address t) []) in
      if picked \<noteq> [] then digest (''place:'' @ picked)
      else if typed \<noteq> [] then digest (''text:'' @ typed)
      else ''noaddr'')"

section \<open>Runs\<close>

text \<open>
  One conversation: its row, the questions its bot messages show (message, question, proposed and
  bound address) and the addresses earlier turns resolved. A reply shows the question of the turn
  it answers, under a new message id, and marks it in the same transaction.
\<close>

record address_world =
  aw_row :: "binding option"
  aw_shown :: "(nat \<times> string \<times> string \<times> string) list"
  aw_turns :: "turn_address list"

datatype address_op =
    PickOp string string
  | TurnOp "string option"
  | ShowOp turn_address nat string
  | AnswerOp string bool
  | ConsumeOp turn_address
  | ClearOp
  | TouchOp

definition shown_ids :: "(nat \<times> string \<times> string \<times> string) list \<Rightarrow> shown_questions" where
  "shown_ids xs = map (\<lambda>(m, i, _). (m, i)) xs"

fun apply_address_op ::
  "(string \<Rightarrow> string) \<Rightarrow> instant \<Rightarrow> binding option \<Rightarrow> address_op \<Rightarrow> address_world \<Rightarrow> address_world" where
  "apply_address_op digest now seen (PickOp a p) w = w\<lparr>aw_row := bind_address now a p (aw_row w)\<rparr>"
| "apply_address_op digest now seen (TurnOp arg) w =
     (case address_for_turn digest now arg seen (aw_row w) of
        (t, r) \<Rightarrow> w\<lparr>aw_row := r, aw_turns := t # aw_turns w\<rparr>)"
| "apply_address_op digest now seen (ShowOp t m channel) w =
     (case (tu_proposal t, tu_proposed t, tu_address t) of
        (Some i, Some proposed, Some bound) \<Rightarrow>
          (let shown = (m, i, proposed, bound) # aw_shown w
           in w\<lparr>aw_shown := shown, aw_row := fst (mark_question_asked now i m channel (shown_ids shown) (aw_row w))\<rparr>)
      | _ \<Rightarrow> w)"
| "apply_address_op digest now seen (AnswerOp i yes) w = w\<lparr>aw_row := fst (answer_transition now i yes (aw_row w))\<rparr>"
| "apply_address_op digest now seen (ConsumeOp t) w =
     (case consume_address_binding now (tu_binding t) (aw_row w) of Inl _ \<Rightarrow> w | Inr r \<Rightarrow> w\<lparr>aw_row := r\<rparr>)"
| "apply_address_op digest now seen ClearOp w = w\<lparr>aw_row := clear_address_binding now (aw_row w)\<rparr>"
| "apply_address_op digest now seen TouchOp w = w\<lparr>aw_row := touch_address_binding now (aw_row w)\<rparr>"

text \<open>A reply and a booking use the address of a turn that was resolved.\<close>

definition op_possible :: "address_op \<Rightarrow> address_world \<Rightarrow> bool" where
  "op_possible op w =
     (case op of ShowOp t m channel \<Rightarrow> t \<in> set (aw_turns w) \<and> m \<notin> fst ` set (aw_shown w)
      | ConsumeOp t \<Rightarrow> t \<in> set (aw_turns w)
      | _ \<Rightarrow> True)"

definition new_address_world :: address_world where
  "new_address_world = \<lparr>aw_row = None, aw_shown = [], aw_turns = []\<rparr>"

inductive address_run :: "(string \<Rightarrow> string) \<Rightarrow> binding option list \<Rightarrow> address_world \<Rightarrow> bool" for digest where
  start: "address_run digest [] new_address_world"
| step: "address_run digest hist w \<Longrightarrow> op_possible op w \<Longrightarrow> seen \<in> set (aw_row w # hist) \<Longrightarrow>
     address_run digest (aw_row w # hist) (apply_address_op digest now seen op w)"

section \<open>The question's id names the question\<close>

lemma digit_char_val: "0 \<le> a \<Longrightarrow> a < 10 \<Longrightarrow> digit_val (digit_char a) = a"
  by (simp add: digit_val_def digit_char_def)

lemma digit_char_digit: "0 \<le> a \<Longrightarrow> a < 10 \<Longrightarrow> is_digit (digit_char a)"
  by (simp add: is_digit_def digit_char_def le_nat_iff nat_le_iff)

lemma digits_val_append: "digits_val (xs @ ys) acc = digits_val ys (digits_val xs acc)"
  by (induction xs arbitrary: acc) auto

lemma show_nat_value: "num_of (show_nat n) = int n"
proof (induction n rule: show_nat.induct)
  case (1 n)
  show ?case
  proof (cases "n < 10")
    case True
    then show ?thesis by (subst show_nat.simps) (simp add: num_of_def digit_char_val)
  next
    case False
    have "num_of (show_nat n) = 10 * num_of (show_nat (n div 10)) + int (n mod 10)"
      using False by (subst show_nat.simps) (simp add: num_of_def digits_val_append digit_char_val)
    moreover have "int n = 10 * int (n div 10) + int (n mod 10)" by (simp add: zdiv_int zmod_int)
    ultimately show ?thesis using 1 [OF False] by simp
  qed
qed

lemma show_nat_digits: "list_all is_digit (show_nat n)"
proof (induction n rule: show_nat.induct)
  case (1 n)
  then show ?case by (subst show_nat.simps) (auto simp: digit_char_digit)
qed

lemma behind_its_length:
  assumes "show_nat (length b) @ '':'' @ b @ x = show_nat (length c) @ '':'' @ c @ y"
  shows "b = c \<and> x = y"
proof -
  have colon: "takeWhile is_digit (show_nat n @ '':'' @ z) = show_nat n" for n z
    using show_nat_digits [of n] by (simp add: takeWhile_append list_all_iff is_digit_def)
  have "show_nat (length b) = show_nat (length c)" using arg_cong [OF assms, of "takeWhile is_digit"] unfolding colon .
  moreover from this have "length b = length c" by (metis nat_int show_nat_value)
  ultimately show ?thesis using assms by simp
qed

lemma question_text_inj: "question_text b p = question_text c q \<Longrightarrow> b = c \<and> p = q"
  unfolding question_text_def using behind_its_length [of b "''|'' @ _" c "''|'' @ _"] behind_its_length [of p "[]" q "[]"]
  by (metis append_Nil2 same_append_eq)

section \<open>The invariant\<close>

text \<open>
  The row satisfies its constraints; an open question is about the active address, and one that was
  asked is shown by a bot message under its id; ids of questions are the digest of their two sides.
  A resolved turn of the current version still has the current address.
\<close>

definition row_ok :: "(string \<Rightarrow> string) \<Rightarrow> (nat \<times> string \<times> string \<times> string) list \<Rightarrow> binding \<Rightarrow> bool" where
  "row_ok digest shown b \<longleftrightarrow>
     binding_checks b \<and> ab_address b \<noteq> Some [] \<and> ab_place b \<noteq> Some []
     \<and> (\<forall>q. ab_pending b = Some q \<longrightarrow>
          ab_address b = Some (co_bound q) \<and> ab_place b = co_bound_place q \<and> ab_source b = Some (co_bound_source q)
          \<and> co_address q \<noteq> []
          \<and> (\<exists>place. co_id q = proposal_id digest (co_bound q, place) (co_address q))
          \<and> (co_asked q \<longrightarrow> (\<exists>m. co_message q = Some m \<and> (m, co_id q) \<in> set (shown_ids shown))))"

definition turn_ok :: "(string \<Rightarrow> string) \<Rightarrow> binding option \<Rightarrow> turn_address \<Rightarrow> bool" where
  "turn_ok digest r t \<longleftrightarrow>
     (\<forall>v a. tu_binding t = Some (v, a) \<longrightarrow>
        tu_address t = Some a
        \<and> (\<exists>b. r = Some b \<and> v \<le> ab_version b
             \<and> (v = ab_version b \<longrightarrow> ab_address b = Some a \<and> ab_place b = tu_place t)))
     \<and> (\<forall>i. tu_proposal t = Some i \<longrightarrow>
          (\<exists>a p. tu_address t = Some a \<and> tu_proposed t = Some p \<and> i = proposal_id digest (a, tu_place t) p))"

definition shown_ok :: "(string \<Rightarrow> string) \<Rightarrow> nat \<times> string \<times> string \<times> string \<Rightarrow> bool" where
  "shown_ok digest x = (case x of (m, i, proposed, bound) \<Rightarrow> \<exists>place. i = proposal_id digest (bound, place) proposed)"

definition address_ok :: "(string \<Rightarrow> string) \<Rightarrow> address_world \<Rightarrow> bool" where
  "address_ok digest w \<longleftrightarrow>
     (\<forall>b. aw_row w = Some b \<longrightarrow> row_ok digest (aw_shown w) b)
     \<and> (\<forall>t \<in> set (aw_turns w). turn_ok digest (aw_row w) t)
     \<and> (\<forall>x \<in> set (aw_shown w). shown_ok digest x)"

text \<open>How a later row follows an earlier one: under the same version the address is the same.\<close>

definition follows :: "binding option \<Rightarrow> binding option \<Rightarrow> bool" where
  "follows r r' \<longleftrightarrow>
     (\<forall>b. r = Some b \<longrightarrow> (\<exists>b'. r' = Some b' \<and> ab_version b \<le> ab_version b'
        \<and> (ab_version b = ab_version b' \<longrightarrow> ab_address b' = ab_address b \<and> ab_place b' = ab_place b)))"

lemma follows_refl [simp, intro]: "follows r r"
  by (auto simp: follows_def)

lemma follows_trans:
  assumes "follows r s" "follows s t"
  shows "follows r t"
  unfolding follows_def
proof (intro allI impI)
  fix b assume "r = Some b"
  with assms(1) obtain c where c: "s = Some c" "ab_version b \<le> ab_version c"
      "ab_version b = ab_version c \<longrightarrow> ab_address c = ab_address b \<and> ab_place c = ab_place b"
    by (auto simp: follows_def)
  from assms(2) c(1) obtain d where d: "t = Some d" "ab_version c \<le> ab_version d"
      "ab_version c = ab_version d \<longrightarrow> ab_address d = ab_address c \<and> ab_place d = ab_place c"
    by (auto simp: follows_def)
  show "\<exists>b'. t = Some b' \<and> ab_version b \<le> ab_version b'
      \<and> (ab_version b = ab_version b' \<longrightarrow> ab_address b' = ab_address b \<and> ab_place b' = ab_place b)"
    using c d by (intro exI [of _ d]) auto
qed

lemma turn_ok_follows:
  assumes t: "turn_ok digest r t" and r: "follows r r'"
  shows "turn_ok digest r' t"
  unfolding turn_ok_def
proof (intro conjI allI impI)
  fix v a assume "tu_binding t = Some (v, a)"
  with t obtain b where b: "tu_address t = Some a" "r = Some b" "v \<le> ab_version b"
      "v = ab_version b \<Longrightarrow> ab_address b = Some a \<and> ab_place b = tu_place t"
    unfolding turn_ok_def by blast
  from r b(2) obtain c where c: "r' = Some c" "ab_version b \<le> ab_version c"
      "ab_version b = ab_version c \<longrightarrow> ab_address c = ab_address b \<and> ab_place c = ab_place b"
    by (auto simp: follows_def)
  show "tu_address t = Some a" by fact
  show "\<exists>b. r' = Some b \<and> v \<le> ab_version b \<and> (v = ab_version b \<longrightarrow> ab_address b = Some a \<and> ab_place b = tu_place t)"
  proof (intro exI conjI impI)
    show "v \<le> ab_version c" using b(3) c(2) by simp
    assume v: "v = ab_version c"
    with b(3) c(2) have "v = ab_version b" "ab_version b = ab_version c" by simp_all
    with b(4) c(3) show "ab_address c = Some a" "ab_place c = tu_place t" by metis+
  qed (rule c(1))
next
  fix i assume "tu_proposal t = Some i"
  with t show "\<exists>a p. tu_address t = Some a \<and> tu_proposed t = Some p \<and> i = proposal_id digest (a, tu_place t) p"
    by (simp add: turn_ok_def)
qed

lemma row_ok_more:
  assumes "row_ok digest shown b"
  shows "row_ok digest (x # shown) b"
proof -
  have "y \<in> set (shown_ids shown) \<Longrightarrow> y \<in> set (shown_ids (x # shown))" for y by (simp add: shown_ids_def)
  with assms show ?thesis unfolding row_ok_def by blast
qed

section \<open>Every operation keeps it\<close>

lemma bind_address_ok:
  assumes "\<And>b. r = Some b \<Longrightarrow> row_ok digest shown b" "bind_address now a p r = Some b"
  shows "row_ok digest shown b"
proof (cases "js_trim a = [] \<or> js_trim p = [] \<or> bind_address now a p r = r")
  case True
  with assms show ?thesis by (auto simp: bind_address_def)
next
  case False
  define c where "c = \<lparr>ab_address = Some (js_trim a), ab_place = Some (js_trim p), ab_source = Some Picked,
         ab_pending = None, ab_version = (case r of None \<Rightarrow> 0 | Some b \<Rightarrow> ab_version b + 1), ab_updated = now\<rparr>"
  have "bind_address now a p r = checked r c" using False by (simp add: bind_address_def c_def)
  with False assms(2) have "b = c" "binding_checks c" by (auto simp: checked_def split: if_splits)
  with False show ?thesis by (simp add: row_ok_def c_def)
qed

lemma bind_address_follows: "follows r (bind_address now a p r)"
  by (auto simp: bind_address_def checked_def follows_def split: option.splits)

lemma active_from_fresh:
  assumes "fresh_row now r = Some b" "active_from (fresh_row now r) = Some (a, p)" "row_ok digest shown b"
  shows "ab_address b = Some a" "p = ab_place b" "a \<noteq> []"
  using assms by (auto simp: active_from_def row_ok_def blank_or_null_def split: option.splits if_splits)

lemma fresh_row_Some: "fresh_row now r = Some b \<longleftrightarrow> r = Some b \<and> fresh now b"
  by (auto simp: fresh_row_def split: option.splits)

lemma proposal_id_place: "proposal_id digest (a, Some p) t = proposal_id digest (b, Some p) t"
  by (simp add: proposal_id_def)

lemma propose_cases:
  obtains "propose_correction now pid addr ep ea r = r"
  | b a where "r = Some b" "ab_address b = Some a" "a \<noteq> []" "ab_source b \<noteq> None"
      "case ab_place b of Some q \<Rightarrow> q \<noteq> [] \<longrightarrow> q = nullish ep [] | None \<Rightarrow> a = ea"
      "propose_correction now pid addr ep ea r = Some (b\<lparr>ab_pending := Some
         \<lparr>co_id = pid, co_address = addr, co_asked = False, co_message = None, co_bound = a,
          co_bound_place = ab_place b, co_bound_source = the (ab_source b)\<rparr>, ab_updated := now\<rparr>)"
      "binding_checks (the (propose_correction now pid addr ep ea r))"
proof (cases "propose_correction now pid addr ep ea r = r")
  case True
  then show ?thesis by (rule that(1))
next
  case False
  then obtain b a p where b: "fresh_row now r = Some b" "active_from (fresh_row now r) = Some (a, p)" "ab_source b \<noteq> None"
      "(case p of Some q \<Rightarrow> q = nullish ep [] | None \<Rightarrow> a = ea)"
      "propose_correction now pid addr ep ea r = Some (b\<lparr>ab_pending := Some
         \<lparr>co_id = pid, co_address = addr, co_asked = False, co_message = None, co_bound = a,
          co_bound_place = ab_place b, co_bound_source = the (ab_source b)\<rparr>, ab_updated := now\<rparr>)"
      "binding_checks (the (propose_correction now pid addr ep ea r))"
    unfolding propose_correction_def checked_def
    by (auto split: option.splits if_splits prod.splits)
  then show ?thesis
    by (intro that(2) [of b a]) (auto simp: fresh_row_Some active_from_def blank_or_null_def split: option.splits if_splits)
qed


lemma proposal_id_same_side:
  assumes "case place of Some q \<Rightarrow> q \<noteq> [] \<longrightarrow> q = nullish expected [] | None \<Rightarrow> a = e" "place \<noteq> Some []"
  shows "\<exists>p. proposal_id digest (e, expected) t = proposal_id digest (a, p) t"
proof (cases place)
  case None
  with assms show ?thesis by (intro exI [of _ expected]) simp
next
  case (Some q)
  with assms have "expected = Some q" by (auto simp: nullish_def split: option.splits)
  then show ?thesis by (intro exI [of _ "Some q"]) (simp add: proposal_id_def)
qed

lemma propose_follows: "follows r (propose_correction now pid addr ep ea r)"
  by (rule propose_cases [of now pid addr ep ea r]) (auto simp: follows_def)

lemma binding_checks_asked:
  "binding_checks b \<Longrightarrow> ab_pending b = Some q
   \<Longrightarrow> binding_checks (b\<lparr>ab_pending := Some (q\<lparr>co_asked := True, co_message := Some m\<rparr>), ab_updated := u\<rparr>)"
  by (cases "ab_source b") (auto simp: binding_checks_def blank_or_null_def split: bind_source.splits)

lemma propose_ok:
  assumes ok: "\<And>b. r = Some b \<Longrightarrow> row_ok digest shown b" and new: "propose_correction now pid addr ep ea r = Some b'"
    and pid: "pid = proposal_id digest (ea, ep) addr" and addr: "addr \<noteq> []"
  shows "row_ok digest shown b'"
proof (rule propose_cases [of now pid addr ep ea r])
  assume "propose_correction now pid addr ep ea r = r"
  with ok new show ?thesis by simp
next
  fix b a
  assume b: "r = Some b" "ab_address b = Some a" "a \<noteq> []" "ab_source b \<noteq> None"
    "case ab_place b of Some q \<Rightarrow> q \<noteq> [] \<longrightarrow> q = nullish ep [] | None \<Rightarrow> a = ea"
    "propose_correction now pid addr ep ea r = Some (b\<lparr>ab_pending := Some
         \<lparr>co_id = pid, co_address = addr, co_asked = False, co_message = None, co_bound = a,
          co_bound_place = ab_place b, co_bound_source = the (ab_source b)\<rparr>, ab_updated := now\<rparr>)"
  have r: "row_ok digest shown b" by (rule ok) (rule b(1))
  then have "ab_place b \<noteq> Some []" by (simp add: row_ok_def)
  from proposal_id_same_side [OF b(5) this] have "\<exists>p. pid = proposal_id digest (a, p) addr" by (simp add: pid)
  moreover assume "binding_checks (the (propose_correction now pid addr ep ea r))"
  then have "binding_checks b'" by (simp add: new)
  ultimately show ?thesis using new b r addr unfolding row_ok_def by auto
qed

lemma mark_cases:
  obtains "fst (mark_question_asked now pid m channel shown r) = r"
  | b q where "r = Some b" "ab_pending b = Some q" "co_id q = pid" "(m, pid) \<in> set shown"
      "fst (mark_question_asked now pid m channel shown r)
        = Some (b\<lparr>ab_pending := Some (q\<lparr>co_asked := True, co_message := Some m\<rparr>), ab_updated := now\<rparr>)"
proof (cases "fst (mark_question_asked now pid m channel shown r) = r")
  case True
  then show ?thesis by (rule that(1))
next
  case False
  then obtain b where b: "fresh_row now r = Some b"
    by (cases "fresh_row now r") (auto simp: mark_question_asked_def split: if_splits)
  have c: "can_render_address_controls channel"
    by (rule ccontr) (use False in \<open>simp add: mark_question_asked_def\<close>)
  from b have r: "r = Some b" by (simp add: fresh_row_Some)
  from False b c obtain q where q: "ab_pending b = Some q"
    by (cases "ab_pending b") (simp_all add: mark_question_asked_def)
  from False have "co_id q = pid \<and> \<not> co_asked q \<and> (m, pid) \<in> set shown"
    by (rule contrapos_np) (auto simp: mark_question_asked_def b c q)
  then show ?thesis by (intro that(2) [OF r q]) (simp_all add: mark_question_asked_def b c q)
qed

lemma mark_follows: "follows r (fst (mark_question_asked now pid m channel shown r))"
  by (rule mark_cases [of now pid m channel shown r]) (auto simp: follows_def)

lemma mark_ok:
  assumes ok: "\<And>b. r = Some b \<Longrightarrow> row_ok digest shown b"
    and new: "fst (mark_question_asked now pid m channel (shown_ids shown) r) = Some b'"
  shows "row_ok digest shown b'"
proof (rule mark_cases [of now pid m channel "shown_ids shown" r])
  assume "fst (mark_question_asked now pid m channel (shown_ids shown) r) = r"
  with ok new show ?thesis by simp
next
  fix b q
  assume b: "r = Some b" "ab_pending b = Some q" "co_id q = pid" "(m, pid) \<in> set (shown_ids shown)"
      "fst (mark_question_asked now pid m channel (shown_ids shown) r)
        = Some (b\<lparr>ab_pending := Some (q\<lparr>co_asked := True, co_message := Some m\<rparr>), ab_updated := now\<rparr>)"
  have r: "row_ok digest shown b" by (rule ok) (rule b(1))
  then have q: "binding_checks b" "co_bound q \<noteq> []" using b(2) by (auto simp: row_ok_def)
  have b': "b' = b\<lparr>ab_pending := Some (q\<lparr>co_asked := True, co_message := Some m\<rparr>), ab_updated := now\<rparr>"
    using new b(5) by simp
  have "binding_checks b'" unfolding b' by (rule binding_checks_asked [OF q(1) b(2)])
  then show ?thesis using r b(2,3,4) unfolding row_ok_def b' by simp (use q b(2) in auto)
qed

text \<open>An answer that changes the row answers the question that is open and was asked.\<close>

lemma answer_cases:
  obtains "answer_transition now pid yes r = (r, None)"
  | b q m b' where "r = Some b" "fresh now b" "ab_pending b = Some q" "co_id q = pid" "co_asked q" "co_message q = Some m"
      "answer_transition now pid yes r = (Some b', ab_address b')" "binding_checks b'"
      "b' = b\<lparr>ab_address := Some (if yes then co_address q else co_bound q),
              ab_place := (if yes then None else co_bound_place q),
              ab_source := Some (if yes then Confirmed else co_bound_source q),
              ab_pending := None, ab_version := ab_version b + 1, ab_updated := now\<rparr>"
proof (cases "answer_transition now pid yes r = (r, None)")
  case True
  then show ?thesis by (rule that(1))
next
  case False
  then obtain b where b: "fresh_row now r = Some b"
    by (cases "fresh_row now r") (simp_all add: answer_transition_def)
  from b have r: "r = Some b" "fresh now b" by (simp_all add: fresh_row_Some)
  from False b obtain a p where ap: "active_from (Some b) = Some (a, p)"
    by (cases "active_from (Some b)") (auto simp: answer_transition_def)
  from False b ap obtain q where q: "ab_pending b = Some q"
    by (cases "ab_pending b") (simp_all add: answer_transition_def)
  have "\<not> (co_id q \<noteq> pid \<or> \<not> co_asked q \<or> co_message q = None)"
    by (rule notI) (use False in \<open>simp add: answer_transition_def b ap q\<close>)
  then obtain m where m: "co_id q = pid" "co_asked q" "co_message q = Some m" by auto
  define b' where "b' = b\<lparr>ab_address := Some (if yes then co_address q else co_bound q),
              ab_place := (if yes then None else co_bound_place q),
              ab_source := Some (if yes then Confirmed else co_bound_source q),
              ab_pending := None, ab_version := ab_version b + 1, ab_updated := now\<rparr>"
  have run: "answer_transition now pid yes r = (if binding_checks b' then (Some b', ab_address b') else (r, None))"
    by (simp add: answer_transition_def b ap q m b'_def Let_def)
  then have "binding_checks b'" using False by (metis (full_types))
  with run show ?thesis by (intro that(2) [OF r q m, of b']) (simp_all add: b'_def)
qed

lemma answer_follows: "follows r (fst (answer_transition now pid yes r))"
  by (rule answer_cases [of now pid yes r]) (auto simp: follows_def)

lemma answer_ok:
  assumes ok: "\<And>b. r = Some b \<Longrightarrow> row_ok digest shown b" and new: "fst (answer_transition now pid yes r) = Some b'"
  shows "row_ok digest shown b'"
proof (rule answer_cases [of now pid yes r])
  assume "answer_transition now pid yes r = (r, None)"
  with ok new show ?thesis by simp
next
  fix b q m c
  assume a: "r = Some b" "ab_pending b = Some q" "answer_transition now pid yes r = (Some c, ab_address c)" "binding_checks c"
    "c = b\<lparr>ab_address := Some (if yes then co_address q else co_bound q),
              ab_place := (if yes then None else co_bound_place q),
              ab_source := Some (if yes then Confirmed else co_bound_source q),
              ab_pending := None, ab_version := ab_version b + 1, ab_updated := now\<rparr>"
  have "row_ok digest shown b" by (rule ok) (rule a(1))
  with a new show ?thesis by (cases yes) (auto simp: row_ok_def)
qed

lemma unbound_ok: "row_ok digest shown (unbound now b)"
  by (simp add: row_ok_def unbound_def binding_checks_def blank_or_null_def)

lemma consume_cases:
  obtains "consume_address_binding now e r = Inl ()" | "consume_address_binding now e r = Inr r" "e = None"
  | v a b where "e = Some (v, a)" "r = Some b" "fresh now b" "ab_version b = v" "ab_address b = Some a" "a \<noteq> []"
      "consume_address_binding now e r = Inr (Some (unbound now b))"
proof (cases e)
  case None
  with that(2) show ?thesis by (simp add: consume_address_binding_def)
next
  case (Some va)
  then obtain v a where e: "e = Some (v, a)" by (cases va) auto
  show ?thesis
  proof (cases "fresh_row now r")
    case None
    with that(1) e show ?thesis by (simp add: consume_address_binding_def)
  next
    case (Some b)
    show ?thesis
    proof (cases "blank_or_null (ab_address b) \<or> ab_version b \<noteq> v \<or> ab_address b \<noteq> Some a")
      case True
      then have "consume_address_binding now e r = Inl ()" unfolding consume_address_binding_def e by (simp add: Some)
      then show ?thesis by (rule that(1))
    next
      case False
      then have "consume_address_binding now e r = Inr (Some (unbound now b))"
        unfolding consume_address_binding_def e by (auto simp: Some)
      moreover have "a \<noteq> []" using False by (auto simp: blank_or_null_def)
      ultimately show ?thesis using False Some e by (intro that(3) [of v a b]) (simp_all add: fresh_row_Some)
    qed
  qed
qed

lemma unbound_follows: "follows (Some b) (Some (unbound now b))"
  by (simp add: follows_def unbound_def)

lemma clear_ok: "clear_address_binding now r = Some b \<Longrightarrow> row_ok digest shown b"
  by (auto simp: clear_address_binding_def unbound_ok)

lemma clear_follows: "follows r (clear_address_binding now r)"
  by (auto simp: follows_def clear_address_binding_def unbound_def)

lemma binding_checks_updated [simp]: "binding_checks (b\<lparr>ab_updated := u\<rparr>) = binding_checks b"
  by (cases "ab_source b"; cases "ab_pending b") (simp_all add: binding_checks_def split: bind_source.split)

lemma row_ok_updated [simp]: "row_ok digest shown (b\<lparr>ab_updated := u\<rparr>) = row_ok digest shown b"
  by (simp add: row_ok_def)

lemma touch_ok:
  assumes "\<And>b. r = Some b \<Longrightarrow> row_ok digest shown b" "touch_address_binding now r = Some b'"
  shows "row_ok digest shown b'"
proof (cases r)
  case (Some b)
  from assms(1) [OF this] assms(2) Some show ?thesis by (cases "fresh now b") (auto simp: touch_address_binding_def)
qed (use assms(2) in \<open>simp add: touch_address_binding_def\<close>)

lemma touch_follows: "follows r (touch_address_binding now r)"
  by (auto simp: follows_def touch_address_binding_def)


section \<open>Runs keep it\<close>

text \<open>Every row a run has had is followed by the present one, and has no empty place id.\<close>

definition history_ok :: "binding option list \<Rightarrow> binding option \<Rightarrow> bool" where
  "history_ok hist r \<longleftrightarrow> (\<forall>h \<in> set hist. follows h r \<and> (\<forall>b. h = Some b \<longrightarrow> ab_place b \<noteq> Some []))"

lemma history_ok_step:
  assumes "history_ok hist r" "follows r r'" "\<And>b. r = Some b \<Longrightarrow> ab_place b \<noteq> Some []"
  shows "history_ok (r # hist) r'"
  using assms follows_trans unfolding history_ok_def by (metis set_ConsD)

text \<open>What \<open>address_for_turn\<close> resolves from a row of the past.\<close>

lemma turn_of_seen:
  assumes run: "address_for_turn digest now arg seen r = (t, r')" and seen: "\<And>b. seen = Some b \<Longrightarrow> ab_place b \<noteq> Some []"
  shows "turn_ok digest seen t"
    and "r' = r \<or> (\<exists>a p typed. r' = propose_correction now (proposal_id digest (a, p) typed) typed p a r \<and> typed \<noteq> [])"
proof -
  have "turn_ok digest seen t
    \<and> (r' = r \<or> (\<exists>a p typed. r' = propose_correction now (proposal_id digest (a, p) typed) typed p a r \<and> typed \<noteq> []))"
  proof (cases "get_bound_address_snapshot now seen")
    case None
    with run show ?thesis by (auto simp: address_for_turn_def turn_ok_def)
  next
    case (Some x)
    then obtain a p v c where snap: "get_bound_address_snapshot now seen = Some ((a, p), (v, c))" by (cases x) auto
    then obtain b where b: "fresh_row now seen = Some b" "active_from (fresh_row now seen) = Some (a, p)" "v = ab_version b" "c = a"
      by (auto simp: get_bound_address_snapshot_def split: option.splits)
    have s: "seen = Some b" using b(1) by (simp add: fresh_row_Some)
    have "p = ab_place b" "ab_address b = Some a"
      using b(2) seen [OF s] by (auto simp: b(1) active_from_def blank_or_null_def split: option.splits if_splits)
    with run snap b s show ?thesis
      by (auto simp: address_for_turn_def turn_ok_def Let_def split: if_splits)
  qed
  then show "turn_ok digest seen t"
    and "r' = r \<or> (\<exists>a p typed. r' = propose_correction now (proposal_id digest (a, p) typed) typed p a r \<and> typed \<noteq> [])"
    by simp_all
qed

definition run_ok :: "(string \<Rightarrow> string) \<Rightarrow> binding option list \<Rightarrow> address_world \<Rightarrow> bool" where
  "run_ok digest hist w \<longleftrightarrow> address_ok digest w \<and> history_ok hist (aw_row w)"

lemma address_ok_row: "address_ok digest w \<Longrightarrow> aw_row w = Some b \<Longrightarrow> row_ok digest (aw_shown w) b"
  by (simp add: address_ok_def)

text \<open>An operation that only changes the row.\<close>

lemma row_step:
  assumes w: "run_ok digest hist w" and f: "follows (aw_row w) r'" and ok: "\<And>b. r' = Some b \<Longrightarrow> row_ok digest (aw_shown w) b"
  shows "run_ok digest (aw_row w # hist) (w\<lparr>aw_row := r'\<rparr>)"
proof -
  have "ab_place b \<noteq> Some []" if "aw_row w = Some b" for b
    using w address_ok_row [OF _ that] by (auto simp: run_ok_def row_ok_def)
  then have "history_ok (aw_row w # hist) r'" using w f by (intro history_ok_step) (auto simp: run_ok_def)
  with w ok turn_ok_follows [OF _ f] show ?thesis by (auto simp: run_ok_def address_ok_def)
qed


lemma turn_step:
  assumes w: "run_ok digest hist w" and seen: "seen \<in> set (aw_row w # hist)"
  shows "run_ok digest (aw_row w # hist) (apply_address_op digest now seen (TurnOp arg) w)"
proof -
  obtain t r' where run: "address_for_turn digest now arg seen (aw_row w) = (t, r')" by (cases "address_for_turn digest now arg seen (aw_row w)") auto
  have now_ok: "ab_place b \<noteq> Some []" if "aw_row w = Some b" for b
    using w address_ok_row [OF _ that] by (auto simp: run_ok_def row_ok_def)
  with w seen have old: "follows seen (aw_row w)" "seen = Some b \<Longrightarrow> ab_place b \<noteq> Some []" for b
    by (auto simp: run_ok_def history_ok_def)
  have t: "turn_ok digest seen t"
    "r' = aw_row w \<or> (\<exists>a p typed. r' = propose_correction now (proposal_id digest (a, p) typed) typed p a (aw_row w) \<and> typed \<noteq> [])"
    using turn_of_seen [OF run] old(2) by blast+
  have here: "row_ok digest (aw_shown w) b" if "aw_row w = Some b" for b using w that by (simp add: run_ok_def address_ok_def)
  have "row_ok digest (aw_shown w) b" if "r' = Some b" for b
    using t(2)
  proof (elim disjE exE conjE)
    assume "r' = aw_row w"
    with that here show ?thesis by simp
  next
    fix a p typed
    assume "r' = propose_correction now (proposal_id digest (a, p) typed) typed p a (aw_row w)" "typed \<noteq> []"
    from propose_ok [OF here _ refl this(2)] this(1) that show ?thesis by simp
  qed
  moreover have "follows (aw_row w) r'" using t(2) propose_follows by auto
  ultimately have row: "follows (aw_row w) r'" "\<And>b. r' = Some b \<Longrightarrow> row_ok digest (aw_shown w) b" by blast+
  have "turn_ok digest r' t" by (rule turn_ok_follows [OF t(1) follows_trans [OF old(1) row(1)]])
  with row_step [OF w row] run show ?thesis by (simp add: run_ok_def address_ok_def)
qed

lemma show_step:
  assumes w: "run_ok digest hist w" and t: "t \<in> set (aw_turns w)"
  shows "run_ok digest (aw_row w # hist) (apply_address_op digest now seen (ShowOp t m channel) w)"
proof (cases "\<exists>i p a. tu_proposal t = Some i \<and> tu_proposed t = Some p \<and> tu_address t = Some a")
  case True
  then obtain i p a where t': "tu_proposal t = Some i" "tu_proposed t = Some p" "tu_address t = Some a" by blast
  define v where "v = w\<lparr>aw_shown := (m, i, p, a) # aw_shown w\<rparr>"
  have "turn_ok digest (aw_row w) t" using w t by (simp add: run_ok_def address_ok_def)
  with t' have "i = proposal_id digest (a, tu_place t) p" by (simp add: turn_ok_def)
  with w have v: "run_ok digest hist v" by (auto simp: v_def run_ok_def address_ok_def shown_ok_def row_ok_more)
  have "row_ok digest (aw_shown v) b"
    if "fst (mark_question_asked now i m channel (shown_ids (aw_shown v)) (aw_row v)) = Some b" for b
    by (rule mark_ok [OF _ that]) (use v in \<open>auto simp: run_ok_def address_ok_def\<close>)
  from row_step [OF v mark_follows this] show ?thesis by (simp add: t' v_def Let_def)
next
  case False
  then have "apply_address_op digest now seen (ShowOp t m channel) w = w" by (auto split: option.splits)
  moreover from row_step [OF w follows_refl address_ok_row] w have "run_ok digest (aw_row w # hist) w" by (simp add: run_ok_def)
  ultimately show ?thesis by simp
qed

lemma op_step:
  assumes w: "run_ok digest hist w" and op: "op_possible op w" and seen: "seen \<in> set (aw_row w # hist)"
  shows "run_ok digest (aw_row w # hist) (apply_address_op digest now seen op w)"
proof -
  have here: "row_ok digest (aw_shown w) b" if "aw_row w = Some b" for b using w that by (simp add: run_ok_def address_ok_def)
  show ?thesis
  proof (cases op)
    case (PickOp a p)
    from row_step [OF w bind_address_follows bind_address_ok [OF here]] show ?thesis by (simp add: PickOp)
  next
    case (TurnOp arg)
    from turn_step [OF w seen] show ?thesis by (simp add: TurnOp)
  next
    case (ShowOp t m channel)
    with op show_step [OF w] show ?thesis by (simp add: op_possible_def)
  next
    case (AnswerOp i yes)
    from row_step [OF w answer_follows answer_ok [OF here]] show ?thesis by (simp add: AnswerOp)
  next
    case (ConsumeOp t)
    show ?thesis
    proof (cases rule: consume_cases [of now "tu_binding t" "aw_row w"])
      case 1
      with row_step [OF w follows_refl here] show ?thesis by (simp add: ConsumeOp)
    next
      case 2
      with row_step [OF w follows_refl here] show ?thesis by (simp add: ConsumeOp)
    next
      case (3 v a b)
      have "run_ok digest (aw_row w # hist) (w\<lparr>aw_row := Some (unbound now b)\<rparr>)"
        by (rule row_step [OF w]) (auto simp: 3(2) unbound_follows unbound_ok)
      with 3 show ?thesis by (simp add: ConsumeOp)
    qed
  next
    case ClearOp
    from row_step [OF w clear_follows clear_ok] show ?thesis by (simp add: ClearOp)
  next
    case TouchOp
    from row_step [OF w touch_follows touch_ok [OF here]] show ?thesis by (simp add: TouchOp)
  qed
qed

lemma run_run_ok: "address_run digest hist w \<Longrightarrow> run_ok digest hist w"
proof (induction rule: address_run.induct)
  case start
  show ?case by (simp add: run_ok_def address_ok_def history_ok_def new_address_world_def)
next
  case (step hist w op seen now)
  from op_step [OF step.IH step.hyps(2,3)] show ?case .
qed

lemma same_proposal_text:
  assumes "inj digest" "proposal_id digest (a, p) t = proposal_id digest (b, q) u"
  shows "same_text t u"
  using question_text_inj [OF injD [OF assms(1) assms(2) [unfolded proposal_id_def]]] by (simp add: same_text_def)

end
