(* ===== verification/AddressProps.thy ===== *)
theory AddressProps
  imports AddressBinding
begin

text \<open>
  What the address of a conversation promises: it moves only when the customer picks an address or
  says yes to the question that a bot message shows them, the address it moves to is the one in that
  message, and a booking that takes it takes the address the tool resolved.
\<close>

section \<open>Who moves the address\<close>

text \<open>The operations that leave the active address as it is, or give it up.\<close>

lemma address_kept_by_propose: "propose_correction now pid addr ep ea r = Some b' \<Longrightarrow> \<exists>b. r = Some b \<and> ab_address b' = ab_address b"
  by (rule propose_cases [of now pid addr ep ea r]) auto

lemma address_kept_by_turn:
  assumes "address_for_turn digest now arg seen r = (t, Some b')"
  shows "\<exists>b. r = Some b \<and> ab_address b' = ab_address b"
proof (cases "get_bound_address_snapshot now seen")
  case None
  with assms show ?thesis by (auto simp: address_for_turn_def)
next
  case (Some x)
  obtain a p ref where x: "x = ((a, p), ref)" by (metis surj_pair)
  show ?thesis
    using assms address_kept_by_propose
    by (fastforce simp: address_for_turn_def Some x Let_def split: if_splits)
qed

lemma address_kept_by_mark:
  "fst (mark_question_asked now pid m channel shown r) = Some b' \<Longrightarrow> \<exists>b. r = Some b \<and> ab_address b' = ab_address b"
  by (rule mark_cases [of now pid m channel shown r]) auto

definition address_of :: "address_world \<Rightarrow> string option" where
  "address_of w = (case aw_row w of None \<Rightarrow> None | Some b \<Rightarrow> ab_address b)"

lemma address_of_row: "aw_row w = Some b \<Longrightarrow> address_of w = ab_address b"
  by (simp add: address_of_def)

text \<open>An operation that leaves a new address is a pick or an answer.\<close>

lemma moves_by:
  assumes new: "address_of (apply_address_op digest now seen op w) = Some a" "address_of w \<noteq> Some a"
  shows "(\<exists>p q. op = PickOp p q \<and> a = js_trim p)
    \<or> (\<exists>i yes b q. op = AnswerOp i yes \<and> aw_row w = Some b \<and> fresh now b \<and> ab_pending b = Some q
        \<and> co_id q = i \<and> co_asked q \<and> a = (if yes then co_address q else co_bound q))"
proof -
  obtain b' where b': "aw_row (apply_address_op digest now seen op w) = Some b'" "ab_address b' = Some a"
    using new(1) by (auto simp: address_of_def split: option.splits)
  have kept: "\<not> (\<exists>b. aw_row w = Some b \<and> ab_address b' = ab_address b)"
    using new(2) b'(2) by (auto simp: address_of_def)
  show ?thesis
  proof (cases op)
    case (PickOp p q)
    with b' kept show ?thesis by (auto simp: bind_address_def checked_def split: if_splits)
  next
    case (TurnOp arg)
    obtain t r' where run: "address_for_turn digest now arg seen (aw_row w) = (t, r')"
      by (cases "address_for_turn digest now arg seen (aw_row w)") auto
    with b' have "r' = Some b'" by (simp add: TurnOp)
    with run kept show ?thesis using address_kept_by_turn by blast
  next
    case (ShowOp t m channel)
    show ?thesis
      using b' kept address_kept_by_mark by (fastforce simp: ShowOp Let_def split: option.splits)
  next
    case (AnswerOp i yes)
    show ?thesis
    proof (cases rule: answer_cases [of now i yes "aw_row w"])
      case 1
      with b' kept show ?thesis by (simp add: AnswerOp)
    next
      case (2 b q m c)
      with b' have "a = (if yes then co_address q else co_bound q)" by (auto simp: AnswerOp)
      with 2 AnswerOp show ?thesis by blast
    qed
  next
    case (ConsumeOp t)
    show ?thesis
      using b' kept
      by (cases rule: consume_cases [of now "tu_binding t" "aw_row w"]) (auto simp: ConsumeOp unbound_def)
  next
    case ClearOp
    with b' show ?thesis by (auto simp: clear_address_binding_def unbound_def)
  next
    case TouchOp
    with b' kept show ?thesis by (auto simp: touch_address_binding_def split: if_splits)
  qed
qed


text \<open>A conversation with two addresses: one picked, another typed, and the question shown.\<close>

definition one_picked :: address_world where
  "one_picked = apply_address_op id 0 None (PickOp ''A 1'' ''p'') new_address_world"

definition one_typed :: address_world where
  "one_typed = apply_address_op id 1 (aw_row one_picked) (TurnOp (Some ''B 2'')) one_picked"

definition one_asked :: address_world where
  "one_asked = apply_address_op id 2 (aw_row one_typed) (ShowOp (hd (aw_turns one_typed)) 7 ''widget'') one_typed"

lemma asked_run:
  "address_run id [None] one_picked"
  "address_run id [aw_row one_picked, None] one_typed"
  "address_run id [aw_row one_typed, aw_row one_picked, None] one_asked"
proof -
  show r0: "address_run id [None] one_picked"
    unfolding one_picked_def
    using address_run.step [OF address_run.start [of id], of "PickOp ''A 1'' ''p''" None 0]
    by (simp add: op_possible_def new_address_world_def)
  show r1: "address_run id [aw_row one_picked, None] one_typed"
    unfolding one_typed_def by (rule address_run.step [OF r0]) (simp_all add: op_possible_def)
  have "op_possible (ShowOp (hd (aw_turns one_typed)) 7 ''widget'') one_typed" by code_simp
  then show "address_run id [aw_row one_typed, aw_row one_picked, None] one_asked"
    unfolding one_asked_def by (rule address_run.step [OF r1]) simp
qed


section \<open>A booking takes the address it resolved\<close>

text \<open>
  C14: a booking whose tool resolved an address succeeds in taking it only while that address, with
  its place id, is still the conversation's; taking it leaves no address, and the same turn's
  address can never be taken a second time, whatever the conversation does in between.
\<close>
theorem booking_takes_the_address_it_resolved:
  assumes "address_run digest hist w" "t \<in> set (aw_turns w)" "tu_binding t \<noteq> None"
    and "consume_address_binding now (tu_binding t) (aw_row w) = Inr r'"
  shows "address_of w = tu_address t \<and> map_option ab_place (aw_row w) = Some (tu_place t)
    \<and> active_from r' = None
    \<and> (\<forall>s later. follows r' s \<longrightarrow> consume_address_binding later (tu_binding t) s = Inl ())"
proof -
  have "address_ok digest w" using run_run_ok [OF assms(1)] by (simp add: run_ok_def)
  with assms(2) have t: "turn_ok digest (aw_row w) t" by (simp add: address_ok_def)
  show ?thesis
  proof (cases rule: consume_cases [of now "tu_binding t" "aw_row w"])
    case 1
    with assms(4) show ?thesis by simp
  next
    case 2
    with assms(3) show ?thesis by simp
  next
    case (3 v a b)
    have r': "r' = Some (unbound now b)" using assms(4) 3 by simp
    have "consume_address_binding later (Some (v, a)) s = Inl ()" if "follows r' s" for s later
    proof -
      from that r' obtain c where "s = Some c" "ab_version b < ab_version c"
        by (auto simp: follows_def unbound_def)
      then show ?thesis using 3(4) by (auto simp: consume_address_binding_def fresh_row_def)
    qed
    with t 3 r' show ?thesis by (auto simp: turn_ok_def address_of_def active_from_def unbound_def)
  qed
qed

theorem booking_takes_the_address_it_resolved_witness:
  "address_of one_asked = Some ''A 1''
   \<and> active_from (case consume_address_binding 3 (tu_binding (hd (aw_turns one_asked))) (aw_row one_asked) of
         Inr r \<Rightarrow> r | Inl _ \<Rightarrow> aw_row one_asked) = None"
proof -
  let ?t = "hd (aw_turns one_asked)"
  let ?c = "consume_address_binding 3 (tu_binding ?t) (aw_row one_asked)"
  have "case ?c of Inl _ \<Rightarrow> False | Inr _ \<Rightarrow> True" by code_simp
  then obtain r where r: "?c = Inr r" by (cases ?c) auto
  have "?t \<in> set (aw_turns one_asked)" "tu_binding ?t \<noteq> None" by code_simp+
  from booking_takes_the_address_it_resolved [OF asked_run(3) this r]
  have "address_of one_asked = tu_address ?t" "active_from r = None" by simp_all
  moreover have "tu_address ?t = Some ''A 1''" by code_simp
  ultimately show ?thesis by (simp add: r)
qed

section \<open>What the comparison gets wrong\<close>

text \<open>
  With the postcode first, the door number found is the postcode, so two doors of a street compare
  as one; and a country name that ends in an accented letter is never removed.
\<close>

lemma postcode_first_hides_the_door:
  "looks_like_same_address ''2000 Antwerpen, Kerkstraat 1'' ''2000 Antwerpen, Kerkstraat 12''"
  by code_simp

lemma door_numbers_tell_doors_apart:
  "\<not> looks_like_same_address ''Kerkstraat 1, 2000 Antwerpen'' ''Kerkstraat 12, 2000 Antwerpen''"
  by code_simp

end
