(* ===== verification/ClockTimes.thy ===== *)
theory ClockTimes
  imports JsRegex Zones
begin

text \<open>
  How the agent reads times and dates in chat text (\<open>agent/clock-times.ts\<close>, \<open>agent/day-part.ts\<close>).
  A slot is the pair of its instants. A business time zone is \<^term>\<open>None\<close> when luxon does not know
  its name, so that every \<open>DateTime\<close> in it is invalid.
\<close>

section \<open>Clock readings\<close>

record clock_time =
  ct_written :: string
  ct_key :: string
  ct_ambiguous :: bool
  ct_hour :: int
  ct_minute :: int
  ct_dotted :: bool

definition clock_key :: "int \<Rightarrow> int \<Rightarrow> string" where
  "clock_key h m = two_digits h @ '':'' @ two_digits m"

definition clock_pattern :: regex where
  "clock_pattern = regex_of ''%b(%d{1,2})(?:([:.])(%d{2}))?%s*([ap]%.m%.?|[ap]m)?''"

definition clock_of_hit :: "regex_hit \<Rightarrow> clock_time option" where
  "clock_of_hit m =
     (let suffix = filter (\<lambda>c. c \<noteq> CHR ''.'') (js_lower (case re_cap 4 m of None \<Rightarrow> [] | Some s \<Rightarrow> s));
          minutes = re_cap 3 m
      in if minutes = None \<and> suffix = [] then None
         else
           (let hour = num_of (the (re_cap 1 m));
                minute = (case minutes of None \<Rightarrow> 0 | Some s \<Rightarrow> num_of s)
            in if hour > 23 \<or> minute > 59 then None
               else
                 (let h1 = (if suffix = ''pm'' \<and> hour < 12 then hour + 12 else hour);
                      h2 = (if suffix = ''am'' \<and> h1 = 12 then 0 else h1)
                  in Some \<lparr>ct_written = js_trim (rh_text m), ct_key = clock_key h2 minute,
                           ct_ambiguous = (suffix = []), ct_hour = h2, ct_minute = minute,
                           ct_dotted = (re_cap 2 m = Some ''.'')\<rparr>)))"

definition midnight_patterns :: "string list" where
  "midnight_patterns = [''%bmiddernacht%b'', ''%bmid[%s-]?night%b'', ''%bminuit%b'']"

definition midnight_of_hit :: "regex_hit \<Rightarrow> clock_time" where
  "midnight_of_hit m = \<lparr>ct_written = rh_text m, ct_key = ''00:00'', ct_ambiguous = False, ct_hour = 0,
                        ct_minute = 0, ct_dotted = False\<rparr>"

definition parse_clock_times :: "string \<Rightarrow> clock_time list" where
  "parse_clock_times text =
     map snd (sort_key fst
       (List.map_filter (\<lambda>m. map_option (Pair (rh_index m)) (clock_of_hit m)) (re_match_all True clock_pattern text)
        @ concat (map (\<lambda>p. map (\<lambda>m. (rh_index m, midnight_of_hit m)) (re_match_all True (regex_of p) text)) midnight_patterns)))"

text \<open>The one clock time a text names; saying it twice names it once.\<close>

definition single_named_clock_time :: "string \<Rightarrow> clock_time option" where
  "single_named_clock_time text =
     (case parse_clock_times text of
        [] \<Rightarrow> None
      | t # ts \<Rightarrow> if list_all (\<lambda>u. ct_key u = ct_key t) ts then Some t else None)"

definition names_a_clock :: "string \<Rightarrow> bool" where
  "names_a_clock text = (parse_clock_times text \<noteq> [])"

text \<open>A message of the history as \<open>latestCustomerTimeText\<close> reads it: is it the assistant's, the customer's, or another?\<close>

datatype speaker = Customer | Assistant | OtherRole

fun latest_time_from :: "(speaker \<times> string) list \<Rightarrow> string" where
  "latest_time_from [] = []"
| "latest_time_from ((r, text) # ms) =
     (if r = Assistant then
        (if 2 \<le> length (remdups (map ct_key (parse_clock_times text))) then [] else latest_time_from ms)
      else if r = Customer \<and> names_a_clock text then text
      else latest_time_from ms)"

definition latest_customer_time_text :: "(speaker \<times> string) list \<Rightarrow> string" where
  "latest_customer_time_text oldest_first = latest_time_from (rev oldest_first)"

section \<open>Calendar dates\<close>

abbreviation e_acute :: char where "e_acute \<equiv> char_of (233 :: nat)"
abbreviation e_grave :: char where "e_grave \<equiv> char_of (232 :: nat)"
abbreviation u_circ :: char where "u_circ \<equiv> char_of (251 :: nat)"

definition month_number :: "(string \<times> int) list" where
  "month_number =
     [(''januari'', 1), (''january'', 1), (''janvier'', 1), (''jan'', 1),
      (''februari'', 2), (''february'', 2), (''fevrier'', 2), (''f'' @ [e_acute] @ ''vrier'', 2), (''feb'', 2),
      (''maart'', 3), (''march'', 3), (''mars'', 3), (''mrt'', 3), (''mar'', 3),
      (''april'', 4), (''avril'', 4), (''apr'', 4),
      (''mei'', 5), (''may'', 5), (''mai'', 5),
      (''juni'', 6), (''june'', 6), (''juin'', 6), (''jun'', 6),
      (''juli'', 7), (''july'', 7), (''juillet'', 7), (''jul'', 7),
      (''augustus'', 8), (''august'', 8), (''aout'', 8), (''ao'' @ [u_circ] @ ''t'', 8), (''aug'', 8),
      (''september'', 9), (''septembre'', 9), (''sep'', 9), (''sept'', 9),
      (''oktober'', 10), (''october'', 10), (''octobre'', 10), (''okt'', 10), (''oct'', 10),
      (''november'', 11), (''novembre'', 11), (''nov'', 11),
      (''december'', 12), (''d'' @ [e_acute] @ ''cembre'', 12), (''decembre'', 12), (''dec'', 12)]"

definition weekday_number :: "(string \<times> nat) list" where
  "weekday_number =
     [(''maandag'', 1), (''monday'', 1), (''lundi'', 1), (''dinsdag'', 2), (''tuesday'', 2), (''mardi'', 2),
      (''woensdag'', 3), (''wednesday'', 3), (''mercredi'', 3), (''donderdag'', 4), (''thursday'', 4),
      (''jeudi'', 4), (''vrijdag'', 5), (''friday'', 5), (''vendredi'', 5), (''zaterdag'', 6),
      (''saturday'', 6), (''samedi'', 6), (''zondag'', 7), (''sunday'', 7), (''dimanche'', 7)]"

text \<open>The names as alternatives, longest first.\<close>

definition longest_first :: "string list \<Rightarrow> string list" where
  "longest_first names = sort_key (\<lambda>n. - int (length n)) names"

definition day_month :: regex where
  "day_month = Seq (regex_of ''%b(%d{1,2})%s+'')
     (Seq (Cap 2 (one_of (longest_first (map fst month_number)))) (regex_from 3 ''(?:%s+(%d{4}))?%b''))"

definition month_day :: regex where
  "month_day = Seq (Wordb True)
     (Seq (Cap 1 (one_of (longest_first (map fst month_number))))
       (regex_from 2 ''%s+(%d{1,2})(?:%s*,%s*|%s+)(%d{4})?%b''))"

definition numeric_date :: regex where
  "numeric_date = regex_of ''%b(%d{1,2})/(%d{1,2})(?:/(%d{2,4}))?%b''"

definition iso_date_pattern :: regex where
  "iso_date_pattern = regex_of ''%b(%d{4})-(%d{2})-(%d{2})%b''"

definition weekday_pattern :: regex where
  "weekday_pattern = Seq (Wordb True)
     (Seq (Cap 1 (one_of (longest_first (map fst weekday_number)))) (Wordb True))"

text \<open>A calendar day that exists, as \<open>yyyy-MM-dd\<close>.\<close>

definition push_date :: "int \<Rightarrow> int \<Rightarrow> int \<Rightarrow> string list" where
  "push_date y m d =
     (if 1 \<le> m \<and> m \<le> 12 \<and> 1 \<le> d \<and> civil_of_days (days_of_civil y m d) = (y, m, d)
      then [iso_date (y, m, d)] else [])"

definition num_cap :: "nat \<Rightarrow> regex_hit \<Rightarrow> int" where
  "num_cap k h = num_of (case re_cap k h of None \<Rightarrow> [] | Some s \<Rightarrow> s)"

definition month_cap :: "nat \<Rightarrow> regex_hit \<Rightarrow> int" where
  "month_cap k h = (case map_of month_number (js_lower (the (re_cap k h))) of None \<Rightarrow> 0 | Some m \<Rightarrow> m)"

definition year_cap :: "nat \<Rightarrow> int \<Rightarrow> regex_hit \<Rightarrow> int" where
  "year_cap k fallback h = (if re_cap k h = None then fallback else num_cap k h)"

definition parse_calendar_dates :: "string \<Rightarrow> int \<Rightarrow> string list" where
  "parse_calendar_dates text fallback =
     concat (map (\<lambda>h. push_date (num_cap 1 h) (num_cap 2 h) (num_cap 3 h)) (re_match_all False iso_date_pattern text))
     @ concat (map (\<lambda>h. push_date (year_cap 3 fallback h) (month_cap 2 h) (num_cap 1 h)) (re_match_all True day_month text))
     @ concat (map (\<lambda>h. push_date (year_cap 3 fallback h) (month_cap 1 h) (num_cap 2 h)) (re_match_all True month_day text))
     @ concat (map (\<lambda>h.
          (let a = num_cap 1 h; b = num_cap 2 h;
               y = (case re_cap 3 h of None \<Rightarrow> fallback
                    | Some s \<Rightarrow> if length s = 2 then 2000 + num_of s else num_of s)
           in if b > 12 then push_date y a b else push_date y b a)) (re_match_all False numeric_date text))"

definition parse_weekdays :: "string \<Rightarrow> nat list" where
  "parse_weekdays text =
     map (\<lambda>h. the (map_of weekday_number (js_lower (the (re_cap 1 h))))) (re_match_all True weekday_pattern text)"

definition relative_day_needles :: "(string list \<times> int) list" where
  "relative_day_needles =
     [([''overmorgen'', ''day after tomorrow'', ''apr'' @ [e_grave] @ ''s-demain'', ''apres-demain''], 2),
      ([''vandaag'', ''today'', ''aujourd'' @ [CHR 39] @ ''hui'', ''aujourdhui''], 0),
      ([''gisteren'', ''yesterday''], -1),
      ([''morgen'', ''tomorrow'', ''demain''], 1)]"

text \<open>None of the needles has a character that needs escaping; a blank becomes \<open>%s+\<close>.\<close>

definition needle_pattern :: "string \<Rightarrow> string" where
  "needle_pattern needle = ''%b'' @ concat (map (\<lambda>c. if c = CHR '' '' then ''%s+'' else [c]) needle) @ ''%b''"

definition relative_day_needle_matches :: "string \<Rightarrow> string \<Rightarrow> bool" where
  "relative_day_needle_matches text needle = re_test_i (needle_pattern needle) text"

definition plus_day_count :: "zone \<Rightarrow> int \<Rightarrow> instant \<Rightarrow> instant" where
  "plus_day_count z n t = (if 0 \<le> n then zplus_days z (nat n) t else zminus_days z (nat (- n)) t)"

definition parse_relative_calendar_dates :: "string \<Rightarrow> zone option \<Rightarrow> instant \<Rightarrow> string list" where
  "parse_relative_calendar_dates text tz now =
     (case tz of None \<Rightarrow> []
      | Some z \<Rightarrow>
          List.map_filter (\<lambda>(needles, offset).
            if list_ex (relative_day_needle_matches text) needles
            then Some (zdate z (plus_day_count z offset now)) else None) relative_day_needles)"

section \<open>Named times against an offer\<close>

text \<open>Only a one-digit hour may mean the afternoon.\<close>

definition allow_pm_alt :: "clock_time \<Rightarrow> bool" where
  "allow_pm_alt t =
     (ct_ambiguous t \<and> ct_hour t < 12
      \<and> (case re_first_match False (regex_of ''^(%d{1,2})'') (ct_written t) of
           None \<Rightarrow> False
         | Some h \<Rightarrow> length (the (re_cap 1 h)) < 2))"

definition offered_key_for :: "clock_time \<Rightarrow> string list \<Rightarrow> string option" where
  "offered_key_for t offered =
     (if ct_key t \<in> set offered then Some (ct_key t)
      else if allow_pm_alt t \<and> clock_key (ct_hour t + 12) (ct_minute t) \<in> set offered
           then Some (clock_key (ct_hour t + 12) (ct_minute t))
      else None)"

definition unoffered_times_in :: "string \<Rightarrow> string list \<Rightarrow> string list" where
  "unoffered_times_in text offered =
     (let times = parse_clock_times text
      in if length times < 2 then []
         else map ct_written (filter (\<lambda>t. offered_key_for t offered = None) times))"

definition names_single_offered_time :: "string \<Rightarrow> string list \<Rightarrow> bool" where
  "names_single_offered_time text offered =
     (case single_named_clock_time text of None \<Rightarrow> False | Some t \<Rightarrow> offered_key_for t offered \<noteq> None)"

definition unoffered_single_time_in :: "string \<Rightarrow> string list \<Rightarrow> string option" where
  "unoffered_single_time_in text offered =
     (case single_named_clock_time text of
        None \<Rightarrow> None
      | Some t \<Rightarrow> if ct_dotted t \<and> ct_ambiguous t then None
                  else if offered_key_for t offered \<noteq> None then None
                  else Some (ct_written t))"

type_synonym chat_slot = "instant \<times> instant"

text \<open>\<open>dt.toFormat('HH:mm')\<close>.\<close>

definition local_clock :: "zone \<Rightarrow> instant \<Rightarrow> string" where
  "local_clock z t = clock_key (zhour z t) (zminute z t)"

definition local_clock_times :: "chat_slot list \<Rightarrow> zone option \<Rightarrow> string list option" where
  "local_clock_times slots tz =
     (if slots = [] then Some []
      else map_option (\<lambda>z. map (local_clock z \<circ> fst) slots) tz)"

definition named_year :: "zone option \<Rightarrow> instant \<Rightarrow> int" where
  "named_year tz now =
     (case tz of Some z \<Rightarrow> num_of (take 4 (zdate z now))
      | None \<Rightarrow> fst (civil_of_days (now div day_ms)))"

text \<open>
  An invalid zone has no year for \<open>hasNamedCalendarAnchor\<close>; a date without a year is then invalid,
  and only dates with a year of their own anchor the text. No caller passes one.
\<close>

definition has_named_calendar_anchor :: "string \<Rightarrow> zone option \<Rightarrow> instant \<Rightarrow> bool" where
  "has_named_calendar_anchor text tz now =
     (parse_relative_calendar_dates text tz now \<noteq> []
      \<or> parse_calendar_dates text (named_year tz now) \<noteq> []
      \<or> parse_weekdays text \<noteq> [])"

definition resolve_named_dates :: "string \<Rightarrow> zone option \<Rightarrow> instant \<Rightarrow> string list \<times> nat list" where
  "resolve_named_dates text tz now =
     (remdups (parse_relative_calendar_dates text tz now @ parse_calendar_dates text (named_year tz now)),
      parse_weekdays text)"

definition filter_slots_by_named_day ::
  "chat_slot list \<Rightarrow> zone option \<Rightarrow> string list \<Rightarrow> nat list \<Rightarrow> chat_slot list" where
  "filter_slots_by_named_day slots tz dates weekdays =
     (if dates = [] \<and> weekdays = [] then slots
      else filter (\<lambda>(s, _). case tz of None \<Rightarrow> False
                   | Some z \<Rightarrow> (dates \<noteq> [] \<longrightarrow> zdate z s \<in> set dates)
                             \<and> (weekdays \<noteq> [] \<longrightarrow> zweekday z s \<in> set weekdays)) slots)"

definition offered_key_for_slot :: "clock_time \<Rightarrow> string \<Rightarrow> bool \<Rightarrow> bool" where
  "offered_key_for_slot clock slot_clock pm =
     (slot_clock = ct_key clock
      \<or> pm \<and> ct_ambiguous clock \<and> ct_hour clock < 12
        \<and> slot_clock = clock_key (ct_hour clock + 12) (ct_minute clock))"

text \<open>The first match that is not past, else the last one that is.\<close>

fun first_future_match :: "zone \<Rightarrow> clock_time \<Rightarrow> bool \<Rightarrow> instant \<Rightarrow> instant option \<Rightarrow> chat_slot list \<Rightarrow> instant option" where
  "first_future_match z clock pm now past [] = past"
| "first_future_match z clock pm now past ((s, e) # slots) =
     (if \<not> offered_key_for_slot clock (local_clock z s) pm then first_future_match z clock pm now past slots
      else if now \<le> s then Some s
      else first_future_match z clock pm now (Some s) slots)"

definition resolve_named_offered_slot_start ::
  "string \<Rightarrow> chat_slot list \<Rightarrow> zone option \<Rightarrow> instant \<Rightarrow> instant option" where
  "resolve_named_offered_slot_start text slots tz now =
     (case (single_named_clock_time text, tz) of
        (Some clock, Some z) \<Rightarrow>
          first_future_match z clock (allow_pm_alt clock) now None
            (if has_named_calendar_anchor text tz now
             then (case resolve_named_dates text tz now of (dates, weekdays) \<Rightarrow>
                     filter_slots_by_named_day slots tz dates weekdays)
             else slots)
      | _ \<Rightarrow> None)"

definition names_single_offered_slot :: "string \<Rightarrow> chat_slot list \<Rightarrow> zone option \<Rightarrow> instant \<Rightarrow> bool" where
  "names_single_offered_slot text slots tz now =
     (case resolve_named_offered_slot_start text slots tz now of None \<Rightarrow> False | Some s \<Rightarrow> now \<le> s)"

definition unoffered_single_named_slot ::
  "string \<Rightarrow> chat_slot list \<Rightarrow> zone option \<Rightarrow> instant \<Rightarrow> string option" where
  "unoffered_single_named_slot text slots tz now =
     (case single_named_clock_time text of
        None \<Rightarrow> None
      | Some clock \<Rightarrow>
          if ct_dotted clock \<and> ct_ambiguous clock then None
          else if names_single_offered_slot text slots tz now then None
          else if \<not> has_named_calendar_anchor text tz now
               then unoffered_single_time_in text (nullish (local_clock_times slots tz) [])
          else Some (ct_written clock))"

definition slot_minutes :: "zone \<Rightarrow> chat_slot \<Rightarrow> int" where
  "slot_minutes z s = zhour z (fst s) * 60 + zminute z (fst s)"

text \<open>The slot of the day nearest to the refused clock, the earlier one of two equally near.\<close>

definition nearer :: "zone \<Rightarrow> int \<Rightarrow> chat_slot \<Rightarrow> chat_slot \<Rightarrow> bool" where
  "nearer z m a b =
     (abs (slot_minutes z a - m) < abs (slot_minutes z b - m)
      \<or> abs (slot_minutes z a - m) = abs (slot_minutes z b - m) \<and> slot_minutes z a < slot_minutes z b)"

definition chip_candidate_slots :: "string \<Rightarrow> chat_slot list \<Rightarrow> zone option \<Rightarrow> instant \<Rightarrow> chat_slot list" where
  "chip_candidate_slots text slots tz now =
     (if unoffered_single_named_slot text slots tz now = None then slots
      else case (single_named_clock_time text, tz) of
        (Some clock, Some z) \<Rightarrow>
          if \<not> has_named_calendar_anchor text tz now then slots
          else (case resolve_named_dates text tz now of (dates, weekdays) \<Rightarrow>
            (let day = filter_slots_by_named_day slots tz dates weekdays
             in if day = [] then slots
                else (case best_by (nearer z (ct_hour clock * 60 + ct_minute clock)) None day of
                        None \<Rightarrow> day
                      | Some best \<Rightarrow> take 8 (dropWhile (\<lambda>s. s \<noteq> best) slots))))
      | _ \<Rightarrow> slots)"

text \<open>Midnight after 00:00 is 00:00 of the next day; only asked about business-local today.\<close>

definition upcoming_midnight_date ::
  "string \<Rightarrow> string \<Rightarrow> string list \<Rightarrow> string \<Rightarrow> zone option \<Rightarrow> instant \<Rightarrow> string option" where
  "upcoming_midnight_date start_date end_date offered customer tz now =
     (if start_date \<noteq> end_date then None
      else if remdups (map ct_key (parse_clock_times customer)) \<noteq> [''00:00''] then None
      else if \<not> list_all is_digit (take 4 start_date) \<or> parse_calendar_dates customer (num_of (take 4 start_date)) \<noteq> [] then None
      else if ''00:00'' \<in> set offered then None
      else (case tz of
              None \<Rightarrow> None
            | Some z \<Rightarrow> if start_date \<noteq> zdate z now then None else Some (zdate z (zplus_days z 1 now))))"

text \<open>A span as long as an offered appointment is the appointment, and is read as its start.\<close>

definition named_span :: regex where
  "named_span = regex_of
     ''(%d{1,2}[:.]%d{2}%s*(?:[ap]%.m%.?|[ap]m)?)%s*(?:-|to|tot|t/m|until|till|%xE0|bis|hasta|at%xE9)%s*(%d{1,2}[:.]%d{2}%s*(?:[ap]%.m%.?|[ap]m)?)''"

definition trim_end :: "string \<Rightarrow> string" where
  "trim_end s = rev (dropWhile is_ws (rev s))"

definition collapse_appointment_spans :: "string \<Rightarrow> int list \<Rightarrow> string" where
  "collapse_appointment_spans text lengths =
     (if lengths = [] then text
      else replace_all True named_span (\<lambda>h.
        (case (parse_clock_times (the (re_cap 1 h)), parse_clock_times (the (re_cap 2 h))) of
           (a # _, b # _) \<Rightarrow>
             if (ct_hour b * 60 + ct_minute b - (ct_hour a * 60 + ct_minute a) + 1440) mod 1440 \<in> set lengths
             then trim_end (the (re_cap 1 h)) else rh_text h
         | _ \<Rightarrow> rh_text h)) text)"

section \<open>Parts of the day\<close>

type_synonym clock_window = "string \<times> string"

definition day_part_windows :: "(string list \<times> clock_window) list" where
  "day_part_windows =
     (let morning = (''00:00'', ''12:00''); afternoon = (''12:00'', ''18:00''); evening = (''17:00'', ''24:00'') in
     [([''voormiddag'', ''vroege ochtend''], morning),
      ([''namiddag'', ''na de middag'', ''apres-midi'', ''apr'' @ [e_grave] @ ''s-midi''], afternoon),
      ([''morning'', ''ochtend'', ''matin''], morning),
      ([''afternoon'', ''middag'', ''middags''], afternoon),
      ([''evening'', ''avond'', ''soir''], evening)])"

definition day_part_window :: "string \<Rightarrow> clock_window option" where
  "day_part_window text =
     map_option snd (find (\<lambda>(needles, _). list_ex (js_includes (js_lower text)) needles) day_part_windows)"

definition is_day_part_clock_window :: "clock_window \<Rightarrow> bool" where
  "is_day_part_clock_window w =
     (w \<in> {(''00:00'', ''12:00''), (''12:00'', ''18:00''), (''17:00'', ''24:00''), (''12:00'', ''24:00'')})"

definition named_exact_clock :: "string \<Rightarrow> bool" where
  "named_exact_clock text =
     (text \<noteq> [] \<and> day_part_window text = None
      \<and> length (remdups (map ct_key (parse_clock_times text))) = 1)"

fun infer_day_part_loop :: "string list \<Rightarrow> clock_window option" where
  "infer_day_part_loop [] = None"
| "infer_day_part_loop (text # texts) =
     (if names_a_clock text then None
      else case day_part_window text of Some w \<Rightarrow> Some w | None \<Rightarrow> infer_day_part_loop texts)"

definition infer_day_part_window :: "string list \<Rightarrow> clock_window option" where
  "infer_day_part_window newest_first = infer_day_part_loop (take 8 newest_first)"

end
