(* ===== verification/AgentConfirm.thy ===== *)
theory AgentConfirm
  imports ClockTimes
begin

text \<open>
  What the agent remembers about a booking between turns, and the gates it puts before a write
  (\<open>agent/tool-adapter.ts\<close>, \<open>agent/offered-slots-store.ts\<close>, \<open>agent/refused-named-time.ts\<close>,
  \<open>agent/pending-booking-confirmation.ts\<close>). Instructions to the model are reduced to the error code
  they start with. Redis is a map whose entries have a deadline; a call sees whether there is a
  client, whether its read and its write go through.
\<close>

section \<open>Messages, tool calls and results\<close>

datatype json =
    JNull
  | JBool bool
  | JNum int
  | JStr string
  | JArr "json list"
  | JObj "(string \<times> json) list"

type_synonym json_object = "(string \<times> json) list"

record tool_call =
  tc_id :: string
  tc_name :: string
  tc_args :: json_object

text \<open>The content of a message is its text (\<open>contentToText\<close>); what a tool answered is a JSON object.\<close>

datatype chat_message =
    SystemMsg string
  | UserMsg string
  | AssistantMsg string "tool_call list"
  | ToolMsg string json_object

fun said :: "chat_message \<Rightarrow> speaker \<times> string" where
  "said (UserMsg t) = (Customer, t)"
| "said (AssistantMsg t cs) = (Assistant, t)"
| "said (SystemMsg t) = (OtherRole, t)"
| "said (ToolMsg i p) = (OtherRole, [])"

datatype address_use = ForAvailability | ForBooking | ForRequest

record address_fact =
  af_address :: string
  af_use :: address_use
  af_alternatives :: "string list"

text \<open>An offered address suggestion: its token, its place, and the text that is never stored.\<close>

type_synonym address_option = "string \<times> string \<times> string"

datatype affordance =
    AddressPicker bool string "address_option list option"
  | AddressConfirm string string string

definition is_picker :: "affordance \<Rightarrow> bool" where
  "is_picker a = (case a of AddressPicker _ _ _ \<Rightarrow> True | AddressConfirm _ _ _ \<Rightarrow> False)"

text \<open>\<open>storedAffordance\<close>: without the display texts.\<close>

definition stored_affordance :: "affordance \<Rightarrow> affordance" where
  "stored_affordance a =
     (case a of AddressPicker v q (Some os) \<Rightarrow> AddressPicker v q (Some (map (\<lambda>(i, p, _). (i, p, [])) os)) | _ \<Rightarrow> a)"

record tool_availability =
  ta_slots :: "chat_slot list"
  ta_requestable :: "chat_slot list"
  ta_timezone :: string
  ta_service :: "string option"
  ta_service_name :: "string option"
  ta_location_mode :: "string option"
  ta_window :: "(clock_window \<times> bool) option"

record tool_result =
  tr_success :: bool
  tr_data :: json_object
  tr_error :: "string option"
  tr_safe :: bool
  tr_affordance :: "affordance option"
  tr_fact :: "address_fact option"
  tr_availability :: "tool_availability option"

definition refused :: "string \<Rightarrow> json_object \<Rightarrow> tool_result" where
  "refused code data =
     \<lparr>tr_success = False, tr_data = data, tr_error = Some code, tr_safe = True, tr_affordance = None,
      tr_fact = None, tr_availability = None\<rparr>"

section \<open>Arguments\<close>

text \<open>\<open>String(v)\<close>, with \<open>null\<close> read as the empty string (\<open>v ?? ''\<close>).\<close>

fun js_string :: "json \<Rightarrow> string" where
  "js_string JNull = []"
| "js_string (JBool b) = (if b then ''true'' else ''false'')"
| "js_string (JNum n) = show_int n"
| "js_string (JStr s) = s"
| "js_string (JArr vs) = joined '','' (map js_string vs)"
| "js_string (JObj kvs) = ''[object Object]''"

definition arg_string :: "string \<Rightarrow> json_object \<Rightarrow> string" where
  "arg_string k args = (case map_of args k of None \<Rightarrow> [] | Some v \<Rightarrow> js_string v)"

definition arg_typed_string :: "string \<Rightarrow> json_object \<Rightarrow> string option" where
  "arg_typed_string k args = (case map_of args k of Some (JStr s) \<Rightarrow> Some s | _ \<Rightarrow> None)"

text \<open>\<open>typeof v === 'string' && v.trim() ? v.trim() : undefined\<close>.\<close>

definition arg_trimmed :: "string \<Rightarrow> json_object \<Rightarrow> string option" where
  "arg_trimmed k args =
     (case arg_typed_string k args of None \<Rightarrow> None | Some s \<Rightarrow> if js_trim s = [] then None else Some (js_trim s))"

section \<open>Redis\<close>

record redis_link =
  rl_client :: bool
  rl_reads :: bool
  rl_writes :: bool

abbreviation redis_up :: redis_link where
  "redis_up \<equiv> \<lparr>rl_client = True, rl_reads = True, rl_writes = True\<rparr>"

type_synonym 'a stored = "('a \<times> instant) option"

definition live :: "instant \<Rightarrow> 'a stored \<Rightarrow> 'a option" where
  "live now e = (case e of None \<Rightarrow> None | Some (v, deadline) \<Rightarrow> if now < deadline then Some v else None)"

definition ttl_ms :: int where "ttl_ms = 24 * 60 * 60 * 1000"

datatype pending_kind = CreateKind | MoveKind | CancelKind

record pending =
  pd_start :: string
  pd_name :: string
  pd_service :: string
  pd_run :: nat
  pd_booking :: "string option"
  pd_kind :: "pending_kind option"
  pd_address :: "string option"

text \<open>One conversation's entries: offered slots, the refused time, the checked dates and the three pending records.\<close>

record agent_store =
  as_offered :: "(instant list \<times> string) stored"
  as_refused :: "(string \<times> string) stored"
  as_create :: "pending stored"
  as_move :: "pending stored"
  as_cancel :: "pending stored"

definition empty_store :: agent_store where
  "empty_store = \<lparr>as_offered = None, as_refused = None, as_create = None, as_move = None, as_cancel = None\<rparr>"

section \<open>Times the model sends\<close>

text \<open>
  The parsers the code calls: \<open>Date.parse\<close>, \<open>DateTime.fromISO(s, {zone: 'utc'})\<close>, the zone database
  and \<open>DateTime.fromISO(s)\<close> in the zone of the server, which is read for its clock, date, weekday and year.
\<close>

record time_parsers =
  tp_parse :: "string \<Rightarrow> instant option"
  tp_utc :: "string \<Rightarrow> instant option"
  tp_zone :: tzdb
  tp_local :: "string \<Rightarrow> (string \<times> string \<times> nat \<times> int) option"

definition remember_offered_slots ::
  "redis_link \<Rightarrow> instant \<Rightarrow> instant list \<Rightarrow> string \<Rightarrow> agent_store \<Rightarrow> agent_store" where
  "remember_offered_slots link now starts tz st =
     (if starts = [] \<or> \<not> rl_client link \<or> \<not> rl_writes link then st
      else st\<lparr>as_offered := Some ((starts, tz), now + ttl_ms)\<rparr>)"

definition get_offered_slots :: "redis_link \<Rightarrow> instant \<Rightarrow> agent_store \<Rightarrow> (instant list \<times> string) option" where
  "get_offered_slots link now st =
     (if rl_client link \<and> rl_reads link then live now (as_offered st) else None)"

definition offset_suffix :: regex where
  "offset_suffix = regex_of ''(?:Z|[+-]%d{2}:?%d{2})$''"

definition has_offset :: "string \<Rightarrow> bool" where
  "has_offset s = re_finds True offset_suffix s"

definition local_minute :: "time_parsers \<Rightarrow> string \<Rightarrow> string \<Rightarrow> string option" where
  "local_minute tp start tz =
     (case (tp_utc tp start, tp_zone tp tz) of
        (Some t, Some z) \<Rightarrow> Some (zdate z t @ ''T'' @ local_clock z t)
      | _ \<Rightarrow> None)"

definition wall_clock_key :: "time_parsers \<Rightarrow> redis_link \<Rightarrow> instant \<Rightarrow> agent_store \<Rightarrow> string \<Rightarrow> string" where
  "wall_clock_key tp link now st start =
     (let from_offer = (if has_offset start
            then (case get_offered_slots link now st of
                    None \<Rightarrow> None
                  | Some (_, tz) \<Rightarrow> if tz = [] then None else local_minute tp start tz)
            else None)
      in case from_offer of Some k \<Rightarrow> k
         | None \<Rightarrow> (case re_first_match False (regex_of ''(%d{4}-%d{2}-%d{2})T(%d{2}:%d{2})'') start of
                      None \<Rightarrow> start
                    | Some h \<Rightarrow> the (re_cap 1 h) @ ''T'' @ the (re_cap 2 h)))"

definition resolve_booking_time ::
  "time_parsers \<Rightarrow> redis_link \<Rightarrow> instant \<Rightarrow> agent_store \<Rightarrow> string \<Rightarrow> string \<Rightarrow> string" where
  "resolve_booking_time tp link now st value customer =
     (if \<not> has_offset value then value
      else
        (let named = map ct_key (parse_clock_times customer);
             stands = (case (tp_parse tp value, get_offered_slots link now st) of
                (Some t, Some (starts, tz)) \<Rightarrow>
                  list_ex (\<lambda>s. abs (s - t) < 1000) starts
                  \<and> (named = [] \<or> (case tp_zone tp tz of None \<Rightarrow> False | Some z \<Rightarrow> local_clock z t \<in> set named))
              | _ \<Rightarrow> False)
         in if stands then value else replace_all True offset_suffix (\<lambda>_. []) value))"

section \<open>A refused time\<close>

definition remember_refused_named_time ::
  "redis_link \<Rightarrow> instant \<Rightarrow> string \<Rightarrow> string \<Rightarrow> agent_store \<Rightarrow> agent_store" where
  "remember_refused_named_time link now day clock st =
     (if \<not> re_test ''^%d{4}-%d{2}-%d{2}$'' day \<or> \<not> re_test ''^%d{2}:%d{2}$'' clock
         \<or> \<not> rl_client link \<or> \<not> rl_writes link then st
      else st\<lparr>as_refused := Some ((day, clock), now + ttl_ms)\<rparr>)"

definition clear_refused_named_time :: "redis_link \<Rightarrow> agent_store \<Rightarrow> agent_store" where
  "clear_refused_named_time link st =
     (if rl_client link \<and> rl_writes link then st\<lparr>as_refused := None\<rparr> else st)"

text \<open>The weekday of a calendar date.\<close>

definition weekday_of_date :: "string \<Rightarrow> nat" where
  "weekday_of_date day =
     utc_weekday (days_of_civil (num_of (take 4 day)) (num_of (take 2 (drop 5 day))) (num_of (drop 8 day)) * day_ms)"

definition customer_moved_off_refused_date :: "string \<Rightarrow> string \<Rightarrow> bool" where
  "customer_moved_off_refused_date text day =
     (let dates = parse_calendar_dates text (num_of (take 4 day)) in
      if day \<in> set dates then False
      else if dates \<noteq> [] then True
      else (let weekdays = parse_weekdays text
            in weekdays \<noteq> [] \<and> weekday_of_date day \<notin> set weekdays))"

definition refused_named_time_still_applies ::
  "redis_link \<Rightarrow> instant \<Rightarrow> string \<Rightarrow> agent_store \<Rightarrow> bool \<times> agent_store" where
  "refused_named_time_still_applies link now message st =
     (case (if rl_client link \<and> rl_reads link then live now (as_refused st) else None) of
        None \<Rightarrow> (False, st)
      | Some (day, _) \<Rightarrow>
          if customer_moved_off_refused_date message day then (False, clear_refused_named_time link st)
          else (True, st))"

section \<open>What the customer said\<close>

definition chip_max_chars :: nat where "chip_max_chars = 80"

definition affirm_start :: regex where
  "affirm_start = Seq Bos (Seq (one_of
     [''ja'', ''yes'', ''ok(?:ay|%xE9|e)?'', ''sure'', ''yep'', ''yeah'', ''yup'', ''klopt'', ''prima'', ''goed'', ''akkoord'',
      ''bevestig(?:d)?'', ''confirm(?:ed)?'', ''oui'', ''d[']accord'', ''boek het'', ''book it'', ''doe maar'', ''go ahead'',
      ''in orde'', ''is goed'', ''that(?:'s|s| is) (?:fine|ok|okay|correct|right)'']) (Wordb True))"

definition no_words :: regex where
  "no_words = regex_of ''%b(niet|nee|not|no|don't|dont|pas)%b''"

definition is_affirmative_reply :: "string \<Rightarrow> bool" where
  "is_affirmative_reply text =
     (let trimmed = js_trim text in
      if trimmed = [] \<or> length trimmed > chip_max_chars \<or> list_ex is_digit trimmed \<or> CHR ''?'' \<in> set trimmed then False
      else
        (let normalized = js_trim (one_blank (replace_all False (regex_of ''[,.!]+'') (\<lambda>_. '' '') (js_lower trimmed)))
         in \<not> re_finds False no_words normalized \<and> re_finds False affirm_start normalized))"

definition slot_chip_confirm_prefix :: regex where
  "slot_chip_confirm_prefix = Seq Bos (Alt
     (Seq (one_of [''Book'', ''Boek'', ''R%xE9servez'', ''Reservez'']) (Wordb True))
     (Seq (one_of [''mon'', ''tue'', ''wed'', ''thu'', ''fri'', ''sat'', ''sun'', ''lun'', ''mar'', ''mer'', ''jeu'', ''ven'',
                   ''sam'', ''dim'', ''ma'', ''di'', ''wo'', ''do'', ''vr'', ''za'', ''zo''])
       (regex_of ''%.?%s'')))"

definition start_clock :: "string \<Rightarrow> string option" where
  "start_clock start =
     (case re_first_match False (regex_of ''T(%d{2}):(%d{2})'') start of
        None \<Rightarrow> None
      | Some h \<Rightarrow> Some (the (re_cap 1 h) @ '':'' @ the (re_cap 2 h)))"

definition is_confirming_chip :: "string \<Rightarrow> string \<Rightarrow> bool" where
  "is_confirming_chip text start =
     (let trimmed = js_trim text in
      if trimmed = [] \<or> length trimmed > chip_max_chars \<or> CHR ''?'' \<in> set trimmed then False
      else if \<not> re_finds True slot_chip_confirm_prefix trimmed then False
      else (case start_clock start of None \<Rightarrow> False | Some hhmm \<Rightarrow> names_single_offered_time trimmed [hhmm]))"

text \<open>The notes the run loop adds in the customer's place are not the customer's.\<close>

fun from_customer :: "chat_message \<Rightarrow> bool" where
  "from_customer (UserMsg t) = (\<not> js_starts_with ''(Internal note'' (js_trim t))"
| "from_customer (SystemMsg t) = False"
| "from_customer (AssistantMsg t cs) = False"
| "from_customer (ToolMsg i p) = False"

definition since_customer :: "chat_message list \<Rightarrow> chat_message list" where
  "since_customer history = dropWhile (\<lambda>m. \<not> from_customer m) (rev history)"

definition last_customer_utterance :: "chat_message list \<Rightarrow> string" where
  "last_customer_utterance history =
     (case since_customer history of [] \<Rightarrow> [] | m # _ \<Rightarrow> js_trim (snd (said m)))"

text \<open>What the assistant said before the customer's last message.\<close>

fun assistant_text :: "chat_message \<Rightarrow> string option" where
  "assistant_text (AssistantMsg t cs) = Some t"
| "assistant_text (UserMsg t) = None"
| "assistant_text (SystemMsg t) = None"
| "assistant_text (ToolMsg i p) = None"

definition replies_before :: "chat_message list \<Rightarrow> string list" where
  "replies_before history =
     (case since_customer history of [] \<Rightarrow> [] | _ # older \<Rightarrow> List.map_filter assistant_text (rev older))"

definition summary_ask :: regex where
  "summary_ask = regex_of ''boek|book|bevestig|confirm|afspraak|appointment|samenvatting|summary|klopt''"

definition asks_for_summary :: "string \<Rightarrow> bool" where
  "asks_for_summary text = (CHR ''?'' \<in> set text \<and> re_finds True summary_ask text)"

text \<open>\<open>10u30\<close> and \<open>10h30\<close> are read as \<open>10:30\<close>.\<close>

definition written_hours :: "string \<Rightarrow> string" where
  "written_hours text = replace_all True (regex_of ''%b(%d{1,2})[uh](%d{2})%b'')
     (\<lambda>h. the (re_cap 1 h) @ '':'' @ the (re_cap 2 h)) text"

definition names_pending_date_and_clock :: "time_parsers \<Rightarrow> string \<Rightarrow> string \<Rightarrow> bool" where
  "names_pending_date_and_clock tp text start =
     (case tp_local tp start of
        None \<Rightarrow> False
      | Some (clock, day, weekday, year) \<Rightarrow>
          if clock \<notin> set (map ct_key (parse_clock_times (written_hours text))) then False
          else (let dates = parse_calendar_dates text year; weekdays = parse_weekdays text in
                (dates \<noteq> [] \<or> weekdays \<noteq> [])
                \<and> list_all (\<lambda>d. d = day) dates \<and> list_all (\<lambda>d. d = weekday) weekdays))"

definition summary_was_asked :: "time_parsers \<Rightarrow> chat_message list \<Rightarrow> string \<Rightarrow> bool" where
  "summary_was_asked tp history start =
     list_ex (\<lambda>text. asks_for_summary text \<and> names_pending_date_and_clock tp text start) (replies_before history)"

definition summary_carried_move :: "chat_message list \<Rightarrow> string \<Rightarrow> string \<Rightarrow> bool" where
  "summary_carried_move history start address =
     (let needle = js_trim (one_blank (js_lower address)) in
      case start_clock start of
        None \<Rightarrow> False
      | Some hhmm \<Rightarrow>
          needle \<noteq> []
          \<and> list_ex (\<lambda>text. asks_for_summary text \<and> js_includes (one_blank (js_lower text)) needle
                          \<and> hhmm \<in> set (map ct_key (parse_clock_times text))) (replies_before history))"

definition move_was_agreed :: "time_parsers \<Rightarrow> chat_message list \<Rightarrow> pending \<Rightarrow> string \<Rightarrow> bool" where
  "move_was_agreed tp history p said_last =
     (case pd_address p of
        Some a \<Rightarrow> is_affirmative_reply said_last \<and> summary_carried_move history (pd_start p) a
      | None \<Rightarrow> is_confirming_chip said_last (pd_start p)
                \<or> is_affirmative_reply said_last \<and> summary_was_asked tp history (pd_start p))"

section \<open>The pending records\<close>

text \<open>\<open>parsePending\<close> of what was stored: an empty address is none.\<close>

definition parse_pending :: "pending \<Rightarrow> pending" where
  "parse_pending p = p\<lparr>pd_address := (case pd_address p of None \<Rightarrow> None
      | Some a \<Rightarrow> if js_trim a = [] then None else Some (js_trim a))\<rparr>"

text \<open>\<^term>\<open>None\<close>: the store is down.\<close>

definition read_pending :: "redis_link \<Rightarrow> instant \<Rightarrow> pending stored \<Rightarrow> pending option option" where
  "read_pending link now e =
     (if rl_client link \<and> rl_reads link then Some (map_option parse_pending (live now e)) else None)"

definition pending_entry :: "pending_kind \<Rightarrow> agent_store \<Rightarrow> pending stored" where
  "pending_entry k st = (case k of CreateKind \<Rightarrow> as_create st | MoveKind \<Rightarrow> as_move st | CancelKind \<Rightarrow> as_cancel st)"

definition set_pending :: "pending_kind \<Rightarrow> pending stored \<Rightarrow> agent_store \<Rightarrow> agent_store" where
  "set_pending k e st =
     (case k of CreateKind \<Rightarrow> st\<lparr>as_create := e\<rparr> | MoveKind \<Rightarrow> st\<lparr>as_move := e\<rparr> | CancelKind \<Rightarrow> st\<lparr>as_cancel := e\<rparr>)"

definition write_pending ::
  "redis_link \<Rightarrow> instant \<Rightarrow> pending_kind \<Rightarrow> pending \<Rightarrow> agent_store \<Rightarrow> bool \<times> agent_store" where
  "write_pending link now k p st =
     (if rl_client link \<and> rl_writes link then (True, set_pending k (Some (p, now + ttl_ms)) st) else (False, st))"

definition clear_pending :: "redis_link \<Rightarrow> pending_kind \<Rightarrow> agent_store \<Rightarrow> agent_store" where
  "clear_pending link k st = (if rl_client link \<and> rl_writes link then set_pending k None st else st)"

section \<open>The gates\<close>

record tool_ctx =
  tx_history :: "chat_message list"
  tx_run :: nat
  tx_channel :: string
  tx_bot_owned :: "bool option"
  tx_time_refused :: bool

text \<open>A gate answers \<^term>\<open>None\<close> when the write may proceed.\<close>

definition refuse_unless_confirmed ::
  "time_parsers \<Rightarrow> redis_link \<Rightarrow> instant \<Rightarrow> json_object \<Rightarrow> tool_ctx \<Rightarrow> agent_store
   \<Rightarrow> tool_result option \<times> agent_store" where
  "refuse_unless_confirmed tp link now args ctx st =
     (let said_last = last_customer_utterance (tx_history ctx) in
      if said_last = [] then (None, st)
      else (case read_pending link now (as_create st) of
          None \<Rightarrow> (None, st)
        | Some found \<Rightarrow>
            (let start = wall_clock_key tp link now st (arg_string ''startTime'' args);
                 name = js_trim (arg_string ''attendeeName'' args);
                 service = arg_string ''serviceId'' args;
                 confirmed = (case found of
                    None \<Rightarrow> False
                  | Some p \<Rightarrow>
                      pd_start p = start \<and> js_lower (pd_name p) = js_lower name
                      \<and> (pd_service p = [] \<or> service = [] \<or> pd_service p = service)
                      \<and> (is_confirming_chip said_last (pd_start p)
                         \<or> is_affirmative_reply said_last \<and> summary_was_asked tp (tx_history ctx) (pd_start p)))
             in if confirmed then (None, clear_pending link CreateKind st)
                else (case write_pending link now CreateKind
                         \<lparr>pd_start = start, pd_name = name, pd_service = service, pd_run = tx_run ctx,
                          pd_booking = None, pd_kind = None, pd_address = None\<rparr> st of
                    (stored, st') \<Rightarrow>
                      if \<not> stored then (None, st')
                      else (Some (refused ''CONFIRMATION_REQUIRED''
                             ([(''needsConfirmation'', JBool True), (''startTime'', JStr start), (''attendeeName'', JStr name)]
                              @ (if service = [] then [] else [(''serviceId'', JStr service)]))), st')))))"

text \<open>The verdict on a move, and the address the move is owed once it proceeds.\<close>

definition reschedule_was_confirmed ::
  "time_parsers \<Rightarrow> chat_message list \<Rightarrow> pending option \<Rightarrow> string \<Rightarrow> string \<Rightarrow> string option \<Rightarrow> string \<Rightarrow> bool" where
  "reschedule_was_confirmed tp history found booking start address said_last =
     (case found of
        None \<Rightarrow> False
      | Some p \<Rightarrow>
          pd_kind p = Some MoveKind \<and> pd_booking p = Some booking \<and> pd_start p = start
          \<and> (address = None \<or> pd_address p = address)
          \<and> move_was_agreed tp history p said_last)"

definition refuse_unless_reschedule_confirmed ::
  "time_parsers \<Rightarrow> redis_link \<Rightarrow> instant \<Rightarrow> json_object \<Rightarrow> tool_ctx \<Rightarrow> agent_store
   \<Rightarrow> (tool_result option \<times> string option) \<times> agent_store" where
  "refuse_unless_reschedule_confirmed tp link now args ctx st =
     (let said_last = last_customer_utterance (tx_history ctx) in
      if said_last = [] then ((None, None), st)
      else (case read_pending link now (as_move st) of
          None \<Rightarrow> ((None, None), st)
        | Some found \<Rightarrow>
            (let start = wall_clock_key tp link now st (arg_string ''newStartTime'' args);
                 booking = arg_string ''bookingId'' args;
                 address = arg_trimmed ''customerAddress'' args
             in if reschedule_was_confirmed tp (tx_history ctx) found booking start address said_last
                then ((None, if address \<noteq> None then address else pd_address (the found)), clear_pending link MoveKind st)
                else (case write_pending link now MoveKind
                         \<lparr>pd_start = start, pd_name = [], pd_service = [], pd_run = tx_run ctx,
                          pd_booking = Some booking, pd_kind = Some MoveKind, pd_address = address\<rparr> st of
                    (stored, st') \<Rightarrow>
                      if \<not> stored then ((None, None), st')
                      else ((Some (refused ''CONFIRMATION_REQUIRED''
                               ([(''needsConfirmation'', JBool True), (''bookingId'', JStr booking), (''newStartTime'', JStr start)]
                                @ (case address of None \<Rightarrow> [] | Some a \<Rightarrow> [(''customerAddress'', JStr a)]))),
                             None), st')))))"

definition refuse_create_while_move_pending ::
  "redis_link \<Rightarrow> instant \<Rightarrow> agent_store \<Rightarrow> tool_result option \<times> agent_store" where
  "refuse_create_while_move_pending link now st =
     (case read_pending link now (as_move st) of
        None \<Rightarrow> (None, st)
      | Some None \<Rightarrow> (None, st)
      | Some (Some p) \<Rightarrow>
          (case pd_booking p of
             None \<Rightarrow> (None, st)
           | Some b \<Rightarrow>
               if b = [] then (None, st)
               else (Some (refused ''MOVE_PENDING''
                       [(''movePending'', JBool True), (''bookingId'', JStr b), (''movingFrom'', JStr (pd_start p))]),
                     clear_pending link MoveKind st)))"

definition refuse_unless_cancel_confirmed ::
  "redis_link \<Rightarrow> instant \<Rightarrow> json_object \<Rightarrow> tool_ctx \<Rightarrow> agent_store \<Rightarrow> tool_result option \<times> agent_store" where
  "refuse_unless_cancel_confirmed link now args ctx st =
     (let said_last = last_customer_utterance (tx_history ctx) in
      if said_last = [] then (None, st)
      else (case read_pending link now (as_cancel st) of
          None \<Rightarrow> (None, st)
        | Some found \<Rightarrow>
            (let booking = arg_string ''bookingId'' args;
                 confirmed = (case found of
                    None \<Rightarrow> False
                  | Some p \<Rightarrow>
                      pd_kind p = Some CancelKind \<and> pd_booking p = Some booking
                      \<and> (is_affirmative_reply said_last \<or> is_confirming_chip said_last (pd_start p)))
             in if confirmed then (None, clear_pending link CancelKind st)
                else (case write_pending link now CancelKind
                         \<lparr>pd_start = [], pd_name = [], pd_service = [], pd_run = tx_run ctx,
                          pd_booking = Some booking, pd_kind = Some CancelKind, pd_address = None\<rparr> st of
                    (stored, st') \<Rightarrow>
                      if \<not> stored then (None, st')
                      else (Some (refused ''CONFIRMATION_REQUIRED''
                               [(''needsConfirmation'', JBool True), (''bookingId'', JStr booking)]), st')))))"

section \<open>A yes without a write\<close>

definition pending_yes_needs_create ::
  "time_parsers \<Rightarrow> redis_link \<Rightarrow> instant \<Rightarrow> chat_message list \<Rightarrow> agent_store \<Rightarrow> bool" where
  "pending_yes_needs_create tp link now history st =
     (is_affirmative_reply (last_customer_utterance history)
      \<and> (case read_pending link now (as_create st) of
           Some (Some p) \<Rightarrow> summary_was_asked tp history (pd_start p)
         | _ \<Rightarrow> False))"

definition pending_yes_needs_reschedule ::
  "time_parsers \<Rightarrow> redis_link \<Rightarrow> instant \<Rightarrow> chat_message list \<Rightarrow> agent_store
   \<Rightarrow> (string \<times> string \<times> string option) option" where
  "pending_yes_needs_reschedule tp link now history st =
     (let said_last = last_customer_utterance history in
      if said_last = [] then None
      else (case read_pending link now (as_move st) of
          Some (Some p) \<Rightarrow>
            if pd_kind p \<noteq> Some MoveKind \<or> pd_booking p = None \<or> pd_booking p = Some [] then None
            else if \<not> move_was_agreed tp history p said_last then None
            else Some (the (pd_booking p),
                   if re_test ''T%d{2}:%d{2}$'' (pd_start p) then pd_start p @ '':00'' else pd_start p,
                   pd_address p)
        | _ \<Rightarrow> None))"

end
