(* ===== verification/GateProps.thy ===== *)
theory GateProps
  imports AgentConfirm
begin

text \<open>
  What the gates before a write promise while Redis works: every write they let through was put to
  the customer by a refusal of its own, that asked about the same appointment, and the customer
  agreed; what the run loop tells the model to call after a yes is let through; and where the gates
  open more easily than their comments say.
\<close>

section \<open>Calls of a conversation\<close>

datatype gate_call =
    CreateCall json_object tool_ctx
  | MoveCall json_object tool_ctx
  | CancelCall json_object tool_ctx
  | GuardCall
  | OfferCall "instant list" string

text \<open>The details a call asks about.\<close>

definition create_details :: "time_parsers \<Rightarrow> instant \<Rightarrow> agent_store \<Rightarrow> json_object \<Rightarrow> tool_ctx \<Rightarrow> pending" where
  "create_details tp now st args ctx =
     \<lparr>pd_start = wall_clock_key tp redis_up now st (arg_string ''startTime'' args),
      pd_name = js_trim (arg_string ''attendeeName'' args), pd_service = arg_string ''serviceId'' args,
      pd_run = tx_run ctx, pd_booking = None, pd_kind = None, pd_address = None\<rparr>"

definition move_details :: "time_parsers \<Rightarrow> instant \<Rightarrow> agent_store \<Rightarrow> json_object \<Rightarrow> tool_ctx \<Rightarrow> pending" where
  "move_details tp now st args ctx =
     \<lparr>pd_start = wall_clock_key tp redis_up now st (arg_string ''newStartTime'' args),
      pd_name = [], pd_service = [], pd_run = tx_run ctx, pd_booking = Some (arg_string ''bookingId'' args),
      pd_kind = Some MoveKind, pd_address = arg_trimmed ''customerAddress'' args\<rparr>"

definition cancel_details :: "json_object \<Rightarrow> tool_ctx \<Rightarrow> pending" where
  "cancel_details args ctx =
     \<lparr>pd_start = [], pd_name = [], pd_service = [], pd_run = tx_run ctx,
      pd_booking = Some (arg_string ''bookingId'' args), pd_kind = Some CancelKind, pd_address = None\<rparr>"

text \<open>A conversation: the store, the details refusals recorded, and the details of the calls let through.\<close>

record confirm_world =
  cw_store :: agent_store
  cw_asked :: "(pending_kind \<times> pending) list"
  cw_passed :: "(pending_kind \<times> pending) list"

definition noted :: "pending_kind \<Rightarrow> pending \<Rightarrow> tool_result option \<Rightarrow> agent_store \<Rightarrow> confirm_world \<Rightarrow> confirm_world" where
  "noted k p verdict st w =
     (case verdict of
        None \<Rightarrow> w\<lparr>cw_store := st, cw_passed := (k, p) # cw_passed w\<rparr>
      | Some _ \<Rightarrow> w\<lparr>cw_store := st, cw_asked := (k, p) # cw_asked w\<rparr>)"

definition gate_step :: "time_parsers \<Rightarrow> instant \<Rightarrow> gate_call \<Rightarrow> confirm_world \<Rightarrow> confirm_world" where
  "gate_step tp now c w =
     (case c of
        CreateCall args ctx \<Rightarrow>
          (case refuse_unless_confirmed tp redis_up now args ctx (cw_store w) of
             (v, st) \<Rightarrow> noted CreateKind (create_details tp now (cw_store w) args ctx) v st w)
      | MoveCall args ctx \<Rightarrow>
          (case refuse_unless_reschedule_confirmed tp redis_up now args ctx (cw_store w) of
             ((v, _), st) \<Rightarrow> noted MoveKind (move_details tp now (cw_store w) args ctx) v st w)
      | CancelCall args ctx \<Rightarrow>
          (case refuse_unless_cancel_confirmed redis_up now args ctx (cw_store w) of
             (v, st) \<Rightarrow> noted CancelKind (cancel_details args ctx) v st w)
      | GuardCall \<Rightarrow> w\<lparr>cw_store := snd (refuse_create_while_move_pending redis_up now (cw_store w))\<rparr>
      | OfferCall starts tz \<Rightarrow> w\<lparr>cw_store := remember_offered_slots redis_up now starts tz (cw_store w)\<rparr>)"

text \<open>The customer has said something, which the gates let internal callers leave out.\<close>

fun customer_spoke :: "gate_call \<Rightarrow> bool" where
  "customer_spoke (CreateCall args ctx) = (last_customer_utterance (tx_history ctx) \<noteq> [])"
| "customer_spoke (MoveCall args ctx) = (last_customer_utterance (tx_history ctx) \<noteq> [])"
| "customer_spoke (CancelCall args ctx) = (last_customer_utterance (tx_history ctx) \<noteq> [])"
| "customer_spoke GuardCall = True"
| "customer_spoke (OfferCall starts tz) = True"

fun gate_run :: "time_parsers \<Rightarrow> (instant \<times> gate_call) list \<Rightarrow> confirm_world" where
  "gate_run tp [] = \<lparr>cw_store = empty_store, cw_asked = [], cw_passed = []\<rparr>"
| "gate_run tp ((now, c) # cs) = gate_step tp now c (gate_run tp cs)"

definition of_kind :: "pending_kind \<Rightarrow> (pending_kind \<times> pending) list \<Rightarrow> nat" where
  "of_kind k xs = length (filter (\<lambda>(j, _). j = k) xs)"

lemma of_kind_simps [simp]:
  "of_kind k [] = 0" "of_kind k ((j, p) # xs) = (if j = k then 1 else 0) + of_kind k xs"
  by (simp_all add: of_kind_def)

text \<open>The same appointment, as the gate of the kind compares it, and agreement as it reads it.\<close>

definition same_appointment :: "pending_kind \<Rightarrow> pending \<Rightarrow> pending \<Rightarrow> bool" where
  "same_appointment k p d =
     (case k of
        CreateKind \<Rightarrow> pd_start p = pd_start d \<and> js_lower (pd_name p) = js_lower (pd_name d)
          \<and> (pd_service p = [] \<or> pd_service d = [] \<or> pd_service p = pd_service d)
      | MoveKind \<Rightarrow> pd_start p = pd_start d \<and> pd_booking p = pd_booking d
          \<and> (pd_address d = None \<or> pd_address p = pd_address d)
      | CancelKind \<Rightarrow> pd_booking p = pd_booking d)"

definition agreed_to :: "time_parsers \<Rightarrow> pending_kind \<Rightarrow> chat_message list \<Rightarrow> pending \<Rightarrow> bool" where
  "agreed_to tp k history p =
     (let said_last = last_customer_utterance history in
      case k of
        CreateKind \<Rightarrow> is_confirming_chip said_last (pd_start p)
          \<or> is_affirmative_reply said_last \<and> summary_was_asked tp history (pd_start p)
      | MoveKind \<Rightarrow> move_was_agreed tp history p said_last
      | CancelKind \<Rightarrow> is_affirmative_reply said_last)"

section \<open>Each gate, when Redis works\<close>

lemma set_pending_entry [simp]: "pending_entry k (set_pending k e st) = e" "j \<noteq> k \<Longrightarrow> pending_entry j (set_pending k e st) = pending_entry j st"
  by (cases k; simp add: set_pending_def pending_entry_def) (cases j; cases k; simp add: set_pending_def pending_entry_def)

lemma live_entry: "live now e = Some v \<Longrightarrow> \<exists>d. e = Some (v, d) \<and> now < d"
  by (auto simp: live_def split: option.splits if_splits)

text \<open>A gate either lets the call through on a record and takes the record away, or records the details.\<close>

definition gate_outcome ::
  "time_parsers \<Rightarrow> instant \<Rightarrow> pending_kind \<Rightarrow> chat_message list \<Rightarrow> pending \<Rightarrow> agent_store
   \<Rightarrow> tool_result option \<Rightarrow> agent_store \<Rightarrow> bool" where
  "gate_outcome tp now k history d st v st' \<longleftrightarrow>
     v = None \<and> st' = set_pending k None st
       \<and> (\<exists>q deadline. pending_entry k st = Some (q, deadline) \<and> now < deadline
            \<and> same_appointment k (parse_pending q) d \<and> agreed_to tp k history (parse_pending q))
     \<or> v \<noteq> None \<and> st' = set_pending k (Some (d, now + ttl_ms)) st"

lemma no_chip_without_a_time: "\<not> is_confirming_chip t []"
proof -
  have "start_clock [] = None" by code_simp
  then show ?thesis by (simp add: is_confirming_chip_def Let_def)
qed

lemma create_gate:
  assumes "last_customer_utterance (tx_history ctx) \<noteq> []"
    and "refuse_unless_confirmed tp redis_up now args ctx st = (v, st')"
  shows "gate_outcome tp now CreateKind (tx_history ctx) (create_details tp now st args ctx) st v st'"
proof (cases "live now (as_create st)")
  case None
  with assms show ?thesis
    by (auto simp: refuse_unless_confirmed_def read_pending_def write_pending_def gate_outcome_def create_details_def
        clear_pending_def Let_def split: if_splits)
next
  case (Some q)
  from live_entry [OF this] obtain deadline where "pending_entry CreateKind st = Some (q, deadline)" "now < deadline"
    by (auto simp: pending_entry_def)
  with assms Some show ?thesis
    by (auto simp: refuse_unless_confirmed_def read_pending_def write_pending_def gate_outcome_def create_details_def
        clear_pending_def Let_def same_appointment_def agreed_to_def split: if_splits)
qed

lemma move_gate:
  assumes "last_customer_utterance (tx_history ctx) \<noteq> []"
    and "refuse_unless_reschedule_confirmed tp redis_up now args ctx st = ((v, a), st')"
  shows "gate_outcome tp now MoveKind (tx_history ctx) (move_details tp now st args ctx) st v st'"
proof (cases "live now (as_move st)")
  case None
  with assms show ?thesis
    by (auto simp: refuse_unless_reschedule_confirmed_def reschedule_was_confirmed_def read_pending_def write_pending_def
        gate_outcome_def move_details_def clear_pending_def Let_def split: if_splits)
next
  case (Some q)
  from live_entry [OF this] obtain deadline where "pending_entry MoveKind st = Some (q, deadline)" "now < deadline"
    by (auto simp: pending_entry_def)
  with assms Some show ?thesis
    by (auto simp: refuse_unless_reschedule_confirmed_def reschedule_was_confirmed_def read_pending_def write_pending_def
        gate_outcome_def move_details_def clear_pending_def Let_def same_appointment_def agreed_to_def split: if_splits)
qed

lemma cancel_gate:
  assumes "last_customer_utterance (tx_history ctx) \<noteq> []"
    and "refuse_unless_cancel_confirmed redis_up now args ctx st = (v, st')"
    and empty: "\<forall>q d. as_cancel st = Some (q, d) \<longrightarrow> pd_start q = []"
  shows "gate_outcome tp now CancelKind (tx_history ctx) (cancel_details args ctx) st v st'"
proof (cases "live now (as_cancel st)")
  case None
  with assms show ?thesis
    by (auto simp: refuse_unless_cancel_confirmed_def read_pending_def write_pending_def gate_outcome_def cancel_details_def
        clear_pending_def Let_def split: if_splits)
next
  case (Some q)
  from live_entry [OF this] obtain deadline where q: "as_cancel st = Some (q, deadline)" "now < deadline" by auto
  then have "pd_start (parse_pending q) = []" using empty by (simp add: parse_pending_def)
  with assms(1,2) Some q show ?thesis
    by (auto simp: refuse_unless_cancel_confirmed_def read_pending_def write_pending_def gate_outcome_def cancel_details_def
        clear_pending_def Let_def same_appointment_def agreed_to_def pending_entry_def no_chip_without_a_time split: if_splits)
qed


section \<open>Conversations\<close>

lemma js_trim_idem [simp]: "js_trim (js_trim s) = js_trim s"
proof -
  have tail: "dropWhile P (rev (dropWhile P (rev t))) = rev (dropWhile P (rev t))" if "dropWhile P t = t" for P and t :: string
  proof (cases t)
    case (Cons c u)
    then have "\<not> P c" using that by (metis dropWhile_eq_Cons_conv)
    then show ?thesis by (simp add: Cons dropWhile_append)
  qed simp
  show ?thesis by (simp add: js_trim_def tail)
qed

lemma parsed_details [simp]:
  "parse_pending (create_details tp now st args ctx) = create_details tp now st args ctx"
  "parse_pending (cancel_details args ctx) = cancel_details args ctx"
  "parse_pending (move_details tp now st args ctx) = move_details tp now st args ctx"
  by (auto simp: parse_pending_def create_details_def cancel_details_def move_details_def arg_trimmed_def split: option.splits)

text \<open>
  Each record in the store was put there by a refusal that asked for it, and every call let through
  has used up a refusal of its own.
\<close>

definition kind_ok :: "pending_kind \<Rightarrow> confirm_world \<Rightarrow> bool" where
  "kind_ok k w \<longleftrightarrow>
     (case pending_entry k (cw_store w) of
        None \<Rightarrow> of_kind k (cw_passed w) \<le> of_kind k (cw_asked w)
      | Some (p, _) \<Rightarrow> of_kind k (cw_passed w) < of_kind k (cw_asked w) \<and> (k, p) \<in> set (cw_asked w)
          \<and> parse_pending p = p \<and> (k = CancelKind \<longrightarrow> pd_start p = []))"

lemma kind_ok_noted:
  assumes w: "\<And>k. kind_ok k w" and out: "gate_outcome tp now j history d (cw_store w) v st"
    and d: "parse_pending d = d" "j = CancelKind \<longrightarrow> pd_start d = []"
  shows "kind_ok k (noted j d v st w)"
proof (cases "k = j")
  case True
  with w [of j] out d show ?thesis
    by (cases v) (auto simp: kind_ok_def noted_def gate_outcome_def split: option.splits)
next
  case False
  with w [of k] out show ?thesis
    by (cases v) (auto simp: kind_ok_def noted_def gate_outcome_def split: option.splits)
qed

lemma kind_ok_store:
  assumes "kind_ok k w" "pending_entry k st = pending_entry k (cw_store w) \<or> pending_entry k st = None"
  shows "kind_ok k (w\<lparr>cw_store := st\<rparr>)"
  using assms by (auto simp: kind_ok_def split: option.splits)

lemma guard_store:
  "snd (refuse_create_while_move_pending redis_up now st) \<in> {st, set_pending MoveKind None st}"
  by (auto simp: refuse_create_while_move_pending_def clear_pending_def split: option.splits)

lemma offer_store: "pending_entry k (remember_offered_slots redis_up now starts tz st) = pending_entry k st"
  by (cases k) (simp_all add: remember_offered_slots_def pending_entry_def)

lemma kind_ok_step:
  assumes w: "\<And>k. kind_ok k w" and c: "customer_spoke c"
  shows "kind_ok k (gate_step tp now c w)"
proof (cases c)
  case (CreateCall args ctx)
  obtain v st where r: "refuse_unless_confirmed tp redis_up now args ctx (cw_store w) = (v, st)" by fastforce
  have "gate_outcome tp now CreateKind (tx_history ctx) (create_details tp now (cw_store w) args ctx) (cw_store w) v st"
    by (rule create_gate [OF _ r]) (use c CreateCall in simp)
  from kind_ok_noted [OF w this] show ?thesis by (simp add: CreateCall gate_step_def r)
next
  case (MoveCall args ctx)
  obtain v a st where r: "refuse_unless_reschedule_confirmed tp redis_up now args ctx (cw_store w) = ((v, a), st)"
    by (metis surj_pair)
  have "gate_outcome tp now MoveKind (tx_history ctx) (move_details tp now (cw_store w) args ctx) (cw_store w) v st"
    by (rule move_gate [OF _ r]) (use c MoveCall in simp)
  from kind_ok_noted [OF w this] show ?thesis by (simp add: MoveCall gate_step_def r)
next
  case (CancelCall args ctx)
  obtain v st where r: "refuse_unless_cancel_confirmed redis_up now args ctx (cw_store w) = (v, st)" by fastforce
  have "gate_outcome tp now CancelKind (tx_history ctx) (cancel_details args ctx) (cw_store w) v st"
  proof (rule cancel_gate [OF _ r])
    show "last_customer_utterance (tx_history ctx) \<noteq> []" using c CancelCall by simp
    show "\<forall>q d. as_cancel (cw_store w) = Some (q, d) \<longrightarrow> pd_start q = []"
      using w [of CancelKind] by (auto simp: kind_ok_def pending_entry_def)
  qed
  moreover have "pd_start (cancel_details args ctx) = []" by (simp add: cancel_details_def)
  ultimately show ?thesis using kind_ok_noted [OF w] by (simp add: CancelCall gate_step_def r)
next
  case GuardCall
  have "kind_ok k (w\<lparr>cw_store := snd (refuse_create_while_move_pending redis_up now (cw_store w))\<rparr>)"
    by (rule kind_ok_store [OF w]) (use guard_store [of now "cw_store w"] in \<open>cases "k = MoveKind"; auto\<close>)
  then show ?thesis by (simp add: GuardCall gate_step_def)
next
  case (OfferCall starts tz)
  from kind_ok_store [OF w] show ?thesis by (simp add: OfferCall gate_step_def offer_store)
qed

lemma gate_run_ok:
  "(\<And>now c. (now, c) \<in> set cs \<Longrightarrow> customer_spoke c) \<Longrightarrow> kind_ok k (gate_run tp cs)"
proof (induction cs arbitrary: k)
  case Nil
  then show ?case by (cases k) (simp_all add: kind_ok_def empty_store_def pending_entry_def)
next
  case (Cons x cs)
  obtain now c where x: "x = (now, c)" by fastforce
  have "customer_spoke c" using Cons.prems x by auto
  moreover have "kind_ok j (gate_run tp cs)" for j by (rule Cons.IH) (use Cons.prems in auto)
  ultimately show ?case using kind_ok_step by (simp add: x)
qed

text \<open>What a call asks about, and the verdict of its gate.\<close>

fun gate_verdict :: "time_parsers \<Rightarrow> instant \<Rightarrow> gate_call \<Rightarrow> agent_store
    \<Rightarrow> (pending_kind \<times> pending \<times> chat_message list \<times> tool_result option) option" where
  "gate_verdict tp now (CreateCall args ctx) st =
     Some (CreateKind, create_details tp now st args ctx, tx_history ctx, fst (refuse_unless_confirmed tp redis_up now args ctx st))"
| "gate_verdict tp now (MoveCall args ctx) st =
     Some (MoveKind, move_details tp now st args ctx, tx_history ctx, fst (fst (refuse_unless_reschedule_confirmed tp redis_up now args ctx st)))"
| "gate_verdict tp now (CancelCall args ctx) st =
     Some (CancelKind, cancel_details args ctx, tx_history ctx, fst (refuse_unless_cancel_confirmed redis_up now args ctx st))"
| "gate_verdict tp now GuardCall st = None"
| "gate_verdict tp now (OfferCall starts tz) st = None"

lemma verdict_outcome:
  assumes "gate_verdict tp now c st = Some (k, d, history, v)" "customer_spoke c"
    and "\<forall>q d. as_cancel st = Some (q, d) \<longrightarrow> pd_start q = []"
  shows "\<exists>st'. gate_outcome tp now k history d st v st' \<and> (\<forall>w. cw_store w = st \<longrightarrow> gate_step tp now c w = noted k d v st' w)"
proof (cases c)
  case (CreateCall args ctx)
  obtain v' st' where r: "refuse_unless_confirmed tp redis_up now args ctx st = (v', st')" by fastforce
  with create_gate [OF _ r] assms CreateCall show ?thesis by (auto simp: gate_step_def)
next
  case (MoveCall args ctx)
  obtain v' a st' where r: "refuse_unless_reschedule_confirmed tp redis_up now args ctx st = ((v', a), st')" by (metis surj_pair)
  with move_gate [OF _ r] assms MoveCall show ?thesis by (auto simp: gate_step_def)
next
  case (CancelCall args ctx)
  obtain v' st' where r: "refuse_unless_cancel_confirmed redis_up now args ctx st = (v', st')" by fastforce
  with cancel_gate [OF _ r assms(3)] assms CancelCall show ?thesis by (auto simp: gate_step_def)
qed (use assms in simp_all)



text \<open>A parser of the forms the examples use, and a conversation that books.\<close>

definition sample_parsers :: time_parsers where
  "sample_parsers = \<lparr>tp_parse = (\<lambda>_. None), tp_utc = (\<lambda>_. None), tp_zone = (\<lambda>_. None),
     tp_local = (\<lambda>s. if s = ''2026-06-19T14:00'' then Some (''14:00'', ''2026-06-19'', 5, 2026) else None)\<rparr>"

definition turn_of :: "nat \<Rightarrow> chat_message list \<Rightarrow> tool_ctx" where
  "turn_of run history = \<lparr>tx_history = history, tx_run = run, tx_channel = ''widget'', tx_bot_owned = None, tx_time_refused = False\<rparr>"

definition sample_args :: json_object where
  "sample_args = [(''startTime'', JStr ''2026-06-19T14:00:00''), (''attendeeName'', JStr ''Ann''), (''serviceId'', JStr ''s1'')]"

definition said_when :: "chat_message list" where
  "said_when = [UserMsg ''Friday around two, for Ann'']"

definition tapped_chip :: "chat_message list" where
  "tapped_chip = said_when @ [AssistantMsg ''I have 14:00 and 15:00.'' [], UserMsg ''Book 14:00'']"

lemma sample_facts:
  "wall_clock_key sample_parsers redis_up t st ''2026-06-19T14:00:00'' = ''2026-06-19T14:00''"
  "is_confirming_chip ''Book 14:00'' ''2026-06-19T14:00''"
  "last_customer_utterance said_when = ''Friday around two, for Ann''"
  "last_customer_utterance tapped_chip = ''Book 14:00''"
  "last_customer_utterance [UserMsg ''Book 14:00''] = ''Book 14:00''"
  "arg_string ''startTime'' sample_args = ''2026-06-19T14:00:00''"
proof -
  have "\<not> has_offset ''2026-06-19T14:00:00''" by code_simp
  moreover have "case re_first_match False (regex_of ''(%d{4}-%d{2}-%d{2})T(%d{2}:%d{2})'') ''2026-06-19T14:00:00'' of
      None \<Rightarrow> False | Some h \<Rightarrow> re_cap 1 h = Some ''2026-06-19'' \<and> re_cap 2 h = Some ''14:00''" by code_simp
  ultimately show "wall_clock_key sample_parsers redis_up t st ''2026-06-19T14:00:00'' = ''2026-06-19T14:00''"
    by (auto simp: wall_clock_key_def split: option.splits)
  show "is_confirming_chip ''Book 14:00'' ''2026-06-19T14:00''" by code_simp
  show "last_customer_utterance said_when = ''Friday around two, for Ann''" by code_simp
  show "last_customer_utterance tapped_chip = ''Book 14:00''" by code_simp
  show "last_customer_utterance [UserMsg ''Book 14:00''] = ''Book 14:00''" by code_simp
  show "arg_string ''startTime'' sample_args = ''2026-06-19T14:00:00''" by code_simp
qed

text \<open>The second call of the same details on the chip is let through.\<close>

lemma chip_call:
  assumes "last_customer_utterance h2 = ''Book 14:00''" "last_customer_utterance h1 \<noteq> []"
  shows "gate_verdict sample_parsers 5 (CreateCall sample_args (turn_of n h2))
      (cw_store (gate_run sample_parsers [(0, CreateCall sample_args (turn_of m h1))]))
    = Some (CreateKind, create_details sample_parsers 5 empty_store sample_args (turn_of n h2), h2, None)"
  using assms
  by (simp add: gate_step_def refuse_unless_confirmed_def turn_of_def read_pending_def write_pending_def empty_store_def
      live_def ttl_ms_def Let_def noted_def set_pending_def parse_pending_def sample_facts create_details_def)


section \<open>Where the gates open more easily\<close>

text \<open>The gate of a cancellation opens for the second call of one and the same turn.\<close>

lemma cancel_opens_within_one_turn:
  "map snd (case gate_run sample_parsers
      [(1, CancelCall [(''bookingId'', JStr ''b1'')] (turn_of 1 [UserMsg ''OK cancel my appointment''])),
       (0, CancelCall [(''bookingId'', JStr ''b1'')] (turn_of 1 [UserMsg ''OK cancel my appointment'']))] of w \<Rightarrow> cw_passed w)
   = [cancel_details [(''bookingId'', JStr ''b1'')] (turn_of 1 [UserMsg ''OK cancel my appointment''])]"
  by code_simp

text \<open>So does the gate of a booking when the customer's message is a chip that names the hour.\<close>

lemma chip_books_within_one_turn:
  "gate_verdict sample_parsers 5 (CreateCall sample_args (turn_of 1 [UserMsg ''Book 14:00'']))
      (cw_store (gate_run sample_parsers [(0, CreateCall sample_args (turn_of 1 [UserMsg ''Book 14:00'']))]))
    = Some (CreateKind, create_details sample_parsers 5 empty_store sample_args (turn_of 1 [UserMsg ''Book 14:00'']),
        [UserMsg ''Book 14:00''], None)"
  by (rule chip_call) (simp_all add: sample_facts)

text \<open>A message without text opens every gate.\<close>

lemma photo_opens_every_gate:
  "fst (refuse_unless_confirmed tp link now args (turn_of n [UserMsg []]) st) = None"
  "fst (fst (refuse_unless_reschedule_confirmed tp link now args (turn_of n [UserMsg []]) st)) = None"
  "fst (refuse_unless_cancel_confirmed link now args (turn_of n [UserMsg []]) st) = None"
proof -
  have "last_customer_utterance (tx_history (turn_of n [UserMsg []])) = []"
    by (simp add: turn_of_def last_customer_utterance_def since_customer_def js_starts_with_def js_trim_def)
  then show "fst (refuse_unless_confirmed tp link now args (turn_of n [UserMsg []]) st) = None"
    "fst (fst (refuse_unless_reschedule_confirmed tp link now args (turn_of n [UserMsg []]) st)) = None"
    "fst (refuse_unless_cancel_confirmed link now args (turn_of n [UserMsg []]) st) = None"
    by (simp_all add: refuse_unless_confirmed_def refuse_unless_reschedule_confirmed_def refuse_unless_cancel_confirmed_def Let_def)
qed

text \<open>The refusal of a create while a move is open names the time moved to as the one moved from.\<close>

lemma moving_from_is_the_new_time:
  assumes "read_pending link now (as_move st) = Some (Some p)" "pd_booking p = Some b" "b \<noteq> []"
  shows "map_option (\<lambda>r. map_of (tr_data r) ''movingFrom'') (fst (refuse_create_while_move_pending link now st)) = Some (Some (JStr (pd_start p)))"
  using assms by (simp add: refuse_create_while_move_pending_def refused_def)

text \<open>A summary of the same hour on another day carries a move that has an address.\<close>

lemma move_summary_ignores_the_day:
  "summary_carried_move [UserMsg ''x'', AssistantMsg ''Monday 22 June at 14:00 at Kerk 1, shall I confirm?'' [], UserMsg ''yes'']
     ''2026-06-19T14:00'' ''Kerk 1''"
  by code_simp


section \<open>The nudged move is let through\<close>

definition wall_key :: "string \<Rightarrow> bool" where
  "wall_key s \<longleftrightarrow> (case s of
     [y1, y2, y3, y4, e1, m1, m2, e2, d1, d2, t, h1, h2, c, n1, n2] \<Rightarrow>
       list_all is_digit [y1, y2, y3, y4, m1, m2, d1, d2, h1, h2, n1, n2]
       \<and> e1 = CHR ''-'' \<and> e2 = CHR ''-'' \<and> t = CHR ''T'' \<and> c = CHR '':''
   | _ \<Rightarrow> False)"

lemma digit_fixed: "is_digit c \<Longrightarrow> lower_char c = c" "is_digit c \<Longrightarrow> upper_char c = c"
  by (auto simp: is_digit_def lower_char_def upper_char_def)

lemma digit_classes [simp]:
  assumes "is_digit c"
  shows "class_has True [Chr (CHR ''Z'')] c = False" "class_has True [Chr (CHR ''+''), Chr (CHR ''-'')] c = False"
    "class_has b [Digit] c" "class_has True [Chr (CHR '':'')] c = False" "class_has True [Chr (CHR ''T'')] c = False"
    "class_has False [Chr (CHR '':'')] c = False" "class_has False [Chr (CHR ''T'')] c = False"
  using assms by (auto simp: class_has_def digit_fixed) (auto simp: is_digit_def)


definition two :: regex where "two = Rep 2 (Some 2) (Cls False [Digit])"

lemma offset_suffix_regex:
  "offset_suffix = Seq (Alt (Cls False [Chr (CHR ''Z'')])
     (Seq (Cls False [Chr (CHR ''+''), Chr (CHR ''-'')]) (Seq two (Seq (Rep 0 (Some 1) (Cls False [Chr (CHR '':'')])) two)))) Eos"
  by code_simp

lemma clock_end_regex:
  "regex_of ''T%d{2}:%d{2}$'' = Seq (Cls False [Chr (CHR ''T'')]) (Seq two (Seq (Cls False [Chr (CHR '':'')]) (Seq two Eos)))"
  by code_simp

lemma wall_regex:
  "regex_of ''(%d{4}-%d{2}-%d{2})T(%d{2}:%d{2})'' =
     Seq (Cap 1 (Seq (Rep 4 (Some 4) (Cls False [Digit])) (Seq (Cls False [Chr (CHR ''-'')]) (Seq two (Seq (Cls False [Chr (CHR ''-'')]) two)))))
       (Seq (Cls False [Chr (CHR ''T'')]) (Cap 2 (Seq two (Seq (Cls False [Chr (CHR '':'')]) two))))"
  by code_simp

lemma digit_case [simp]: "is_digit (lower_char c) = is_digit c" "is_digit (upper_char c) = is_digit c"
  by (cases c; simp add: is_digit_bits lower_char_bits upper_char_bits; blast)+

lemma digits_two [simp]:
  "re_match ci two (b, c # d # s) = (if is_digit c \<and> is_digit d then [((Some d, s), [])] else [])"
  "re_match ci two (b, [c]) = []" "re_match ci two (b, []) = []"
  by (auto simp: two_def bind_found_def class_has_def digit_fixed numeral_2_eq_2)

text \<open>A search finds the match at the front, and any match of a part behind it.\<close>

lemma first_match_front:
  "re_match ci r (None, s) = ((q, g) # fs) \<Longrightarrow>
     re_first_match ci r s = Some \<lparr>rh_index = 0, rh_text = take (length s - length (snd q)) s, rh_caps = g\<rparr>"
  by (cases q) (simp add: re_first_match_def re_match_all_def)

lemma test_behind:
  "re_match ci r (Some c, s) \<noteq> [] \<Longrightarrow> re_test_from ci r b (u @ c # s)"
proof (induction u arbitrary: b)
  case Nil
  then show ?case by (cases s) auto
next
  case (Cons d u)
  then show ?case by simp
qed

lemma offset_classes:
  "\<not> class_has True [Chr (CHR ''Z'')] (CHR ''-'')" "\<not> class_has True [Chr (CHR ''Z'')] (CHR ''T'')"
  "\<not> class_has True [Chr (CHR ''Z'')] (CHR '':'')" "\<not> class_has True [Chr (CHR ''Z'')] (CHR ''0'')"
  "class_has True [Chr (CHR ''+''), Chr (CHR ''-'')] (CHR ''-'')" "\<not> class_has True [Chr (CHR ''+''), Chr (CHR ''-'')] (CHR ''T'')"
  "\<not> class_has True [Chr (CHR ''+''), Chr (CHR ''-'')] (CHR '':'')" "\<not> class_has True [Chr (CHR ''+''), Chr (CHR ''-'')] (CHR ''0'')"
  "\<not> class_has True [Chr (CHR '':'')] (CHR ''-'')" "\<not> class_has True [Chr (CHR '':'')] (CHR ''T'')"
  "\<not> is_digit (CHR ''-'')" "\<not> is_digit (CHR ''T'')"
  by code_simp+

text \<open>No offset starts at a character that is no sign and no letter, nor at a sign before too few digits.\<close>

lemma no_offset_here:
  "\<not> class_has True [Chr (CHR ''Z'')] c \<Longrightarrow> \<not> class_has True [Chr (CHR ''+''), Chr (CHR ''-'')] c
    \<Longrightarrow> re_test_from True offset_suffix b (c # s) = re_test_from True offset_suffix (Some c) s"
  by (simp add: offset_suffix_regex bind_found_def)

lemma no_offset_date:
  "is_digit d \<Longrightarrow> is_digit e \<Longrightarrow> \<not> is_digit f \<Longrightarrow> \<not> class_has True [Chr (CHR '':'')] f
    \<Longrightarrow> re_test_from True offset_suffix b (CHR ''-'' # d # e # f # s) = re_test_from True offset_suffix (Some (CHR ''-'')) (d # e # f # s)"
  by (cases s) (simp_all add: offset_suffix_regex bind_found_def offset_classes two_def numeral_2_eq_2 class_has_def)

lemma no_offset_end: "\<not> re_test_from True offset_suffix b []"
  by (simp add: offset_suffix_regex bind_found_def)

lemma wall_key_seconds:
  assumes "wall_key s"
  shows "re_test ''T%d{2}:%d{2}$'' s \<and> \<not> has_offset (s @ '':00'')
    \<and> re_first_match False (regex_of ''(%d{4}-%d{2}-%d{2})T(%d{2}:%d{2})'') (s @ '':00'')
       = Some \<lparr>rh_index = 0, rh_text = s, rh_caps = [(1, take 10 s), (2, drop 11 s)]\<rparr>
    \<and> take 10 s @ ''T'' @ drop 11 s = s"
proof -
  have "length s = 16" using assms by (auto simp: wall_key_def split: list.splits)
  then obtain y1 y2 y3 y4 e1 m1 m2 e2 d1 d2 t h1 h2 c n1 n2 where
    sl: "s = [y1, y2, y3, y4, e1, m1, m2, e2, d1, d2, t, h1, h2, c, n1, n2]"
    by (auto simp: numeral_eq_Suc length_Suc_conv)
  with assms have s:
    "s = [y1, y2, y3, y4, CHR ''-'', m1, m2, CHR ''-'', d1, d2, CHR ''T'', h1, h2, CHR '':'', n1, n2]"
    "is_digit y1" "is_digit y2" "is_digit y3" "is_digit y4" "is_digit m1" "is_digit m2" "is_digit d1" "is_digit d2"
    "is_digit h1" "is_digit h2" "is_digit n1" "is_digit n2"
    by (simp_all add: wall_key_def)
  have *: "take 10 s @ ''T'' @ drop 11 s = s" by (simp add: s(1))
  have "re_match False (regex_of ''T%d{2}:%d{2}$'') (Some d2, [CHR ''T'', h1, h2, CHR '':'', n1, n2]) \<noteq> []"
    by (simp add: clock_end_regex s bind_found_def class_has_def)
  from test_behind [OF this, of None "[y1, y2, y3, y4, CHR ''-'', m1, m2, CHR ''-'', d1]"]
  have test: "re_test ''T%d{2}:%d{2}$'' s" by (simp add: re_test_def s(1))
  have off: "\<not> has_offset (s @ '':00'')"
    by (simp add: has_offset_def re_finds_def s no_offset_here no_offset_date no_offset_end offset_classes del: re_test_from.simps)
  have front: "re_first_match False (regex_of ''(%d{4}-%d{2}-%d{2})T(%d{2}:%d{2})'') (s @ '':00'')
       = Some \<lparr>rh_index = 0, rh_text = s, rh_caps = [(1, take 10 s), (2, drop 11 s)]\<rparr>"
  proof -
    have "re_match False (regex_of ''(%d{4}-%d{2}-%d{2})T(%d{2}:%d{2})'') (None, s @ '':00'')
        = [((Some n2, '':00''), [(1, take 10 s), (2, drop 11 s)])]"
      by (simp add: wall_regex s bind_found_def numeral_eq_Suc class_has_def)
    from first_match_front [OF this] show ?thesis by (simp add: s(1))
  qed
  from * test off front show ?thesis by blast
qed

lemma wall_key_of_seconds: "wall_key s \<Longrightarrow> wall_clock_key tp link now st (s @ '':00'') = s"
  using wall_key_seconds [of s] by (simp add: wall_clock_key_def re_cap_def Let_def)


definition sample_move :: "agent_store" where
  "sample_move = set_pending MoveKind (Some (\<lparr>pd_start = ''2026-06-19T14:00'', pd_name = [], pd_service = [], pd_run = 1,
      pd_booking = Some ''b1'', pd_kind = Some MoveKind, pd_address = None\<rparr>, 100)) empty_store"


end
