(* ===== verification/Classifier.thy ===== *)
theory Classifier
  imports JsRegex Guardrails
begin

text \<open>
  The content classifier (\<open>guardrails/classify.ts\<close>): signals with weights, links, the category of a
  message, and whether it reads like a person. Weights and scores are in hundredths, the integers the
  code rounds its sums to before it compares them. \<open>new URL\<close> is an argument: the host and the path
  with its query, or \<^term>\<open>None\<close> where it throws.
\<close>

section \<open>Signals\<close>

definition max_classify_chars :: nat where "max_classify_chars = 8000"
definition flag_threshold :: int where "flag_threshold = 60"
definition solicitation_flag_threshold :: int where "solicitation_flag_threshold = 45"

type_synonym signal = "string \<times> int \<times> string"

definition credential_signals :: "signal list" where
  "credential_signals =
     [(''%b(send|share|give|provide|tell|forward|enter|submit|confirm)%b[^.!?%n]{0,40}%b(password|passcode|otp|one[-%s]?time%s?(pass)?code|2fa|two[-%s]?factor|auth(entication)?%s?code|verification%s?code|login%s?code|access%s?code|sign[-%s]?in%s?code|pin%s?(code|number)?|cvv|cvc|card%s?(number|details)|login%s?(credentials|details|password)|credentials)%b'',
        70, ''solicits a secret/credential''),
      (''%b(recovery|backup|seed)%s?(code|phrase|key|words?)%b'', 70, ''recovery/seed phrase'')]"

definition phishing_signals :: "signal list" where
  "phishing_signals =
     [(''%b(your%s+(?:[a-z]+%s+){0,3}(?:page|account|profile|business)%s+(?:will%s+be|has%s+been)%s+(?:deleted|suspended|disabled|removed|restricted|terminated))%b'',
        55, ''fake account-deletion threat''),
      (''%b(copyright|intellectual%s+property)%s+(violation|infringement|complaint)%b'', 45, ''fake copyright complaint''),
      (''%b(unusual|suspicious)%s+(login|activity|sign[-%s]?in)%b'', 40, ''fake security alert''),
      (''%b(verify|confirm|validate)%s+(?:your%s+(?:[a-z]+%s+){0,3})?(?:identity|account|page|business|profile)%b'',
        40, ''account-verification lure''),
      (''%b(meta|facebook|instagram|whatsapp)%s+(support|security|team|verification|business%s+integrity)%b'',
        40, ''impersonates platform support''),
      (''%b(within|in)%s+%d+%s+(hours?|minutes?|days?)%b.{0,40}%b(or|otherwise|to%s+avoid)%b'', 30, ''urgency deadline'')]"

definition scam_signals :: "signal list" where
  "scam_signals =
     [(''%b(crypto(currency)?|bitcoin|btc|ethereum|eth|usdt|forex|binary%s+options)%b'', 30, ''crypto/forex pitch''),
      (''%b(guaranteed?|risk[-%s]?free)%s+(?!(?:%w+%s+){0,2}(?:double|triple|10x|100x)%s+returns?%b)(?:%w+%s+){0,2}(returns?|profit|income|roi)%b'',
        50, ''guaranteed-returns promise''),
      (''%b(double|triple|10x|100x)%s+(your%s+)?(money|investment|capital|returns?)%b'', 50, ''unrealistic returns''),
      (''%b(investment%s+(opportunity|platform|scheme)|earn%s+%$?%d+%s+(per|a)%s+(day|week))%b'', 40, ''investment scheme''),
      (''%b(claim%s+your|you('?| ha)ve%s+won|congratulations.{0,20}%b(winner|prize|reward|gift%s?card))%b'',
        45, ''prize/giveaway scam'')]"

definition solicitation_signals :: "signal list" where
  "solicitation_signals =
     [(''%b(we|i)%s+(offer|provide|speciali[sz]e%s+in|can%s+help%s+(you|your%s+business)%s+with)%b.{0,40}%b(seo|ads?|advertising|marketing|web%s?(site|design)|leads?|lead%s?gen(eration)?|social%s+media|app%s+development|automation|chatbots?)%b'',
        50, ''agency service pitch''),
      (''%b(boost|increase|grow|double|skyrocket)%b.{0,30}%b(your%s+)?(sales|traffic|revenue|ranking|followers|leads|conversions?)%b'',
        45, ''growth pitch''),
      (''%b(i%s+(came%s+across|found|noticed|stumbled%s+upon)%s+your%s+(business|page|website|profile))%b'',
        35, ''cold-outreach opener''),
      (''%b(partnership%s+(opportunity|proposal)|collaborat(e|ion)%s+(opportunity|proposal)|rank%s+(higher|#?1)%s+on%s+google)%b'',
        40, ''partnership/SEO solicitation''),
      (''%b(first%s+month%s+free|free%s+(trial|audit|consultation)%s+for%s+your%s+(business|website))%b'', 30, ''free-offer hook'')]"

definition spam_signals :: "signal list" where
  "spam_signals =
     [(''%b(viagra|cialis|porn|xxx|adult%s+(content|cam)|hot%s+singles|escort)%b'', 60, ''adult spam''),
      (''%bfree%s+(gift|giveaway|iphone|money|robux|v[-%s]?bucks)%b'', 40, ''free-prize bait''),
      (''%bclick%s+(here|the%s+link)%s+to%s+(win|claim)%b'', 40, ''clickbait''),
      (''%b(casino|gambling|betting|slots?|poker|sportsbook|sports%s?book)%b'', 30, ''gambling term''),
      (''%b(casino|gambling|betting|slots?|poker|sportsbook|sports%s?book)%b[^.!?%n]{0,40}%b(bonus|free%s?spins?|jackpot|win%s?big|payout|wager|deposit%s?bonus|no[-%s]?deposit)%b'',
        40, ''gambling promo''),
      (''%b(bonus|free%s?spins?|jackpot|win%s?big|payout|wager|deposit%s?bonus|no[-%s]?deposit)%b[^.!?%n]{0,40}%b(casino|gambling|betting|slots?|poker|sportsbook|sports%s?book)%b'',
        40, ''gambling promo'')]"

definition signal_fires :: "string \<Rightarrow> signal \<Rightarrow> bool" where
  "signal_fires t s = re_test_i (fst s) t"

definition score_signals :: "string \<Rightarrow> signal list \<Rightarrow> int \<times> string list" where
  "score_signals t signals =
     (let hits = filter (signal_fires t) signals
      in (min (sum_list (map (\<lambda>s. fst (snd s)) hits)) 100, map (\<lambda>s. snd (snd s)) hits))"

section \<open>Links\<close>

definition shortener_hosts :: "string list" where
  "shortener_hosts = [''bit.ly'', ''tinyurl.com'', ''goo.gl'', ''t.co'', ''ow.ly'', ''is.gd'', ''buff.ly'', ''rebrand.ly'',
     ''cutt.ly'', ''shorturl.at'', ''rb.gy'', ''tiny.cc'', ''t.ly'', ''bl.ink'', ''lnkd.in'', ''shor.by'', ''short.io'']"

definition credential_path :: "string \<Rightarrow> bool" where
  "credential_path = re_test_i
     ''/(login|signin|sign-in|verify|verification|secure|account|recover(y)?|reset|unlock|confirm|appeal|billing|wallet|connect)%b''"

definition url_pattern :: regex where
  "url_pattern = regex_of ''%b((?:https?://|www%.)[^%s<>%x22')]+)''"

definition bare_link_pattern :: regex where
  "bare_link_pattern = regex_of ''%b((?:[a-z0-9-]+(?:%.[a-z0-9-]+)+|%d{1,3}(?:%.%d{1,3}){3})(?:/[^%s<>%x22')]+)?)''"

definition ip_literal :: "string \<Rightarrow> bool" where
  "ip_literal = re_test ''^%d{1,3}(?:%.%d{1,3}){3}$''"

type_synonym url_parser = "string \<Rightarrow> (string \<times> string) option"

definition with_scheme :: "string \<Rightarrow> string" where
  "with_scheme raw = (if re_test_i ''^[a-z][a-z0-9+.-]*://'' raw then raw else ''https://'' @ raw)"

definition host_of :: "string \<Rightarrow> string" where
  "host_of hostname = js_lower (replace_first False (regex_of ''^www%.'') (\<lambda>_. []) hostname)"

text \<open>A token without a scheme is a link only when its host or path is suspicious.\<close>

definition bare_link_counts :: "string \<Rightarrow> regex_hit \<Rightarrow> bool" where
  "bare_link_counts source m =
     (let raw = the (re_cap 1 m);
          host = js_lower (takeWhile (\<lambda>c. c \<noteq> CHR ''/'') raw);
          path = drop (length host) raw in
      \<not> (js_starts_with ''www.'' (js_lower raw) \<or> (rh_index m \<noteq> 0 \<and> source ! (rh_index m - 1) = CHR ''/''))
      \<and> (host \<in> set shortener_hosts \<or> ip_literal host \<or> js_includes host ''xn--'' \<or> credential_path path))"

definition links_of :: "string \<Rightarrow> string list" where
  "links_of source =
     map (\<lambda>m. the (re_cap 1 m)) (re_match_all True url_pattern source)
     @ map (\<lambda>m. the (re_cap 1 m)) (filter (bare_link_counts source) (re_match_all True bare_link_pattern source))"

definition link_evidence :: "url_parser \<Rightarrow> string \<Rightarrow> (int \<times> string) list" where
  "link_evidence url raw =
     (case url (with_scheme raw) of
        None \<Rightarrow> [(20, ''malformed link'')]
      | Some (hostname, path) \<Rightarrow>
          (let host = host_of hostname in
           (if host \<in> set shortener_hosts then [(50, ''shortened link ('' @ host @ '')'')] else [])
           @ (if ip_literal host then [(50, ''ip-literal link host'')] else [])
           @ (if js_includes host ''xn--'' then [(40, ''punycode link host'')] else [])
           @ (if credential_path path then [(40, ''credential-capture link path'')] else [])))"

record link_inspection =
  lk_links :: "string list"
  lk_score :: int
  lk_reasons :: "string list"

definition inspect_links :: "url_parser \<Rightarrow> string \<Rightarrow> link_inspection" where
  "inspect_links url text =
     (let links = links_of (take max_classify_chars text); found = concat (map (link_evidence url) links)
      in \<lparr>lk_links = links, lk_score = min (sum_list (map fst found)) 100, lk_reasons = map snd found\<rparr>)"

text \<open>The links a reply must not carry: those that hide where they lead.\<close>

definition unsafe_host_reasons :: "string \<Rightarrow> string list" where
  "unsafe_host_reasons host =
     (if host \<in> set shortener_hosts then [''shortened link ('' @ host @ '')''] else [])
     @ (if ip_literal host then [''ip-literal link host''] else [])
     @ (if js_includes host ''xn--'' then [''punycode link host''] else [])"

definition detect_unsafe_link_hosts :: "url_parser \<Rightarrow> string \<Rightarrow> string list" where
  "detect_unsafe_link_hosts url text =
     concat (map (\<lambda>m. case url (with_scheme (the (re_cap 1 m))) of
                        None \<Rightarrow> [] | Some (hostname, _) \<Rightarrow> unsafe_host_reasons (host_of hostname))
       (re_match_all True url_pattern text))"

section \<open>The category of a message\<close>

definition scanned :: "string \<Rightarrow> string" where
  "scanned text = js_trim (take max_classify_chars text)"

definition is_high_severity :: "url_parser \<Rightarrow> string \<Rightarrow> link_inspection option \<Rightarrow> bool" where
  "is_high_severity url text links =
     (let t = scanned text in
      if t = [] then False
      else lk_score (nullish links (inspect_links url t)) > 0
           \<or> list_ex (\<lambda>signals. fst (score_signals t signals) > 0) [credential_signals, phishing_signals, scam_signals, spam_signals])"

type_synonym candidate = "category \<times> int \<times> string list"

definition candidates :: "string \<Rightarrow> string \<Rightarrow> link_inspection \<Rightarrow> candidate list" where
  "candidates t channel links =
     (let credential = score_signals t credential_signals; phishing = score_signals t phishing_signals;
          scam = score_signals t scam_signals; solicitation = score_signals t solicitation_signals;
          spam = score_signals t spam_signals;
          boost = (if lk_score links > 0 then 20 else 0);
          social = (channel = ''messenger'' \<or> channel = ''instagram'');
          boosted = ((fst credential > 0 \<or> fst phishing > 0) \<and> boost > 0);
          scam_boosted = (fst scam > 0 \<and> boost > 0)
      in [(Phishing, min (fst phishing + fst credential + (if boosted then boost else 0)) 100,
            snd phishing @ snd credential @ (if boosted then lk_reasons links else [])),
          (Scam, min (fst scam + (if scam_boosted then boost else 0)) 100, snd scam @ (if scam_boosted then lk_reasons links else [])),
          (SuspiciousLink, lk_score links, lk_reasons links),
          (Solicitation, min (fst solicitation + (if social \<and> fst solicitation > 0 then 10 else 0)) 100, snd solicitation),
          (Spam, fst spam, snd spam)])"

definition is_flagged :: "candidate \<Rightarrow> bool" where
  "is_flagged c = (fst (snd c) \<ge> (if fst c = Solicitation then solicitation_flag_threshold else flag_threshold))"

text \<open>Strictly higher wins, so the earlier and more dangerous category keeps a tie.\<close>

fun best_of :: "candidate \<Rightarrow> candidate list \<Rightarrow> candidate" where
  "best_of b [] = b"
| "best_of b (c # cs) = best_of (if fst (snd c) > fst (snd b) then c else b) cs"

record classify_result =
  cr_category :: category
  cr_score :: int
  cr_reasons :: "string list"
  cr_links :: "string list"

definition classify_message :: "url_parser \<Rightarrow> string \<Rightarrow> string \<Rightarrow> link_inspection option \<Rightarrow> classify_result" where
  "classify_message url text channel inspected =
     (let t = scanned text; links = nullish inspected (inspect_links url t);
          clean = \<lparr>cr_category = Clean, cr_score = 0, cr_reasons = [], cr_links = lk_links links\<rparr>
      in if t = [] then clean
         else (case filter is_flagged (candidates t channel links) of
                 [] \<Rightarrow> clean
               | c # cs \<Rightarrow> (case best_of c (c # cs) of
                    (category, score, reasons) \<Rightarrow>
                      \<lparr>cr_category = category, cr_score = min score 100, cr_reasons = reasons, cr_links = lk_links links\<rparr>)))"

section \<open>A person's short message\<close>

definition human_phrases :: "string list" where
  "human_phrases = [''are you a bot'', ''are you there'', ''anyone'', ''anyone online'', ''anyone there'', ''bot'', ''great'',
     ''hello'', ''hello test'', ''hey'', ''hi'', ''hmm'', ''is anyone there'', ''is this working'', ''lol'', ''no'', ''ok'',
     ''okk'', ''still there'', ''test'', ''thanks'', ''what can you do'', ''who are you'', ''why is nobody answering'',
     ''why no answer'', ''yes'', ''you there'']"

definition customer_detail :: "string \<Rightarrow> bool" where
  "customer_detail = re_test_i
     ''^(?:%+?[%d%s().-]{7,}|%d{1,6}%s+[A-Za-z%xC0-%xFF'-]+(?:%s+[A-Za-z%xC0-%xFF'-]+){0,3}%b(?:avenue|ave|boulevard|blvd|lane|ln|road|rd|street|st)%.?|.{0,60}%b(?:appointment|book(?:ing)?|reserve|today|tomorrow|monday|tuesday|wednesday|thursday|friday|saturday|sunday)%b.{0,40}(?:%d|am%b|pm%b))$''"

definition street_address :: "string \<Rightarrow> bool" where
  "street_address = re_test
     ''^(?:%d{1,5}%s+[A-Za-z%xC0-%xFF'-]+(?:%s+[A-Za-z%xC0-%xFF'-]+){0,3}|[A-Za-z%xC0-%xFF'-]+(?:%s+[A-Za-z%xC0-%xFF'-]+){0,3}%s+%d{1,5})(?:[,%s]+%d{4,5})?$''"

text \<open>The punctuation, symbols and marks among the characters of a \<^typ>\<open>string\<close>.\<close>

definition is_mark :: "char \<Rightarrow> bool" where
  "is_mark c = (let n = of_char c :: nat in
     33 \<le> n \<and> n \<le> 47 \<or> 58 \<le> n \<and> n \<le> 64 \<or> 91 \<le> n \<and> n \<le> 96 \<or> 123 \<le> n \<and> n \<le> 126
     \<or> 161 \<le> n \<and> n \<le> 191 \<and> n \<notin> {170, 173, 178, 179, 181, 185, 186, 188, 189, 190} \<or> n = 215 \<or> n = 247)"

fun blank_tokens :: "string \<Rightarrow> string \<Rightarrow> string list" where
  "blank_tokens acc [] = [rev acc]"
| "blank_tokens acc (c # s) = (if is_ws c then (case s of
       [] \<Rightarrow> [rev acc, []]
     | d # _ \<Rightarrow> if is_ws d then blank_tokens acc s else rev acc # blank_tokens [] s)
     else blank_tokens (c # acc) s)"

definition is_human_signal :: "url_parser \<Rightarrow> string \<Rightarrow> link_inspection option \<Rightarrow> bool" where
  "is_human_signal url text info =
     (let t = scanned text; links = nullish info (inspect_links url t) in
      if t = [] then False
      else if list_ex (list_ex (signal_fires t))
                [credential_signals, phishing_signals, scam_signals, solicitation_signals, spam_signals] then False
      else if cr_category (classify_message url t ''widget'' (Some links)) \<noteq> Clean then False
      else if lk_score links > 0 then False
      else
        (let normalized = js_trim (replace_first False (regex_of ''[?!.,]+$'') (\<lambda>_. []) (js_lower t)); tokens = blank_tokens [] t in
         list_all (\<lambda>c. is_mark c \<or> is_ws c) t
         \<or> normalized \<in> set human_phrases
         \<or> length tokens \<le> 4 \<and> re_test ''%?+%s*$'' t
         \<or> customer_detail t \<or> street_address t
         \<or> length tokens \<le> 2))"


text \<open>The inbound gate with this classifier, on a channel.\<close>

definition with_classifier :: "url_parser \<Rightarrow> string \<Rightarrow> gate_env \<Rightarrow> gate_env" where
  "with_classifier url channel e =
     e\<lparr>ge_classify := (\<lambda>t. let c = classify_message url t channel (Some (inspect_links url t))
           in \<lparr>cl_category = cr_category c, cl_score = cr_score c, cl_links = cr_links c\<rparr>),
       ge_links := (\<lambda>t. let l = inspect_links url t in \<lparr>li_score = lk_score l, li_links = lk_links l\<rparr>),
       ge_high := (\<lambda>t. is_high_severity url t (Some (inspect_links url t))),
       ge_human := (\<lambda>t. is_human_signal url t (Some (inspect_links url t)))\<rparr>"

section \<open>What a category says\<close>

lemma no_signal_no_score: "\<not> list_ex (signal_fires t) signals \<Longrightarrow> score_signals t signals = (0, [])"
  by (simp add: score_signals_def list_ex_iff filter_False)

lemma evidence_score: "0 \<le> sum_list (map fst (concat (map (link_evidence url) ls)))"
  by (intro sum_list_nonneg) (auto simp: link_evidence_def Let_def split: option.splits if_splits)

lemma link_score_nonneg: "0 \<le> lk_score (inspect_links url t)"
  using evidence_score [of url "links_of (take max_classify_chars t)"] by (simp add: inspect_links_def Let_def)

lemma best_of_member: "best_of b cs \<in> set (b # cs)"
proof (induction cs arbitrary: b)
  case Nil
  then show ?case by simp
next
  case (Cons c cs)
  from Cons.IH [of "if fst (snd c) > fst (snd b) then c else b"] show ?case by (auto split: if_splits)
qed

lemma best_of_highest: "x \<in> set (b # cs) \<Longrightarrow> fst (snd x) \<le> fst (snd (best_of b cs))"
proof (induction cs arbitrary: b x)
  case Nil
  then show ?case by simp
next
  case (Cons c cs)
  define d where "d = (if fst (snd c) > fst (snd b) then c else b)"
  have "fst (snd d) \<le> fst (snd (best_of d cs))" by (rule Cons.IH) simp
  moreover have "fst (snd b) \<le> fst (snd d)" "fst (snd c) \<le> fst (snd d)" by (simp_all add: d_def)
  moreover have "fst (snd x) \<le> fst (snd (best_of d cs))" if "x \<in> set cs" by (rule Cons.IH) (use that in simp)
  ultimately show ?case using Cons.prems by (auto simp: d_def [symmetric])
qed

text \<open>A message with a category was given it by a candidate over its threshold, the highest there is.\<close>

lemma category_candidate:
  assumes "cr_category (classify_message url text channel info) = k" "k \<noteq> Clean"
  obtains c where "c \<in> set (candidates (scanned text) channel (nullish info (inspect_links url (scanned text))))"
    "fst c = k" "is_flagged c" "scanned text \<noteq> []"
proof -
  let ?cs = "candidates (scanned text) channel (nullish info (inspect_links url (scanned text)))"
  have t: "scanned text \<noteq> []" using assms by (auto simp: classify_message_def Let_def)
  show ?thesis
  proof (cases "filter is_flagged ?cs")
    case Nil
    with assms t show ?thesis by (simp add: classify_message_def Let_def)
  next
    case (Cons c cs)
    obtain k' sc rs where b: "best_of c (c # cs) = (k', sc, rs)" by (metis surj_pair)
    have "best_of c (c # cs) \<in> set (filter is_flagged ?cs)" unfolding Cons using best_of_member [of c "c # cs"] by auto
    moreover have "fst (best_of c (c # cs)) = k" using assms t Cons b by (simp add: classify_message_def Let_def)
    ultimately show ?thesis using t by (intro that [of "best_of c (c # cs)"]) auto
  qed
qed

text \<open>A candidate that is no solicitation rests on a signal of its own or on a link.\<close>

lemma candidate_evidence:
  assumes "c \<in> set (candidates t channel links)" "is_flagged c" "fst c \<noteq> Solicitation"
  shows "lk_score links > 0
    \<or> list_ex (\<lambda>signals. fst (score_signals t signals) > 0) [credential_signals, phishing_signals, scam_signals, spam_signals]"
  using assms by (auto simp: candidates_def is_flagged_def flag_threshold_def Let_def split: if_splits)

text \<open>
  A message is clean, a solicitation, or of high severity - so a message the classifier calls
  phishing, scam, spam or a suspicious link can never get the mild treatment the gate keeps for
  solicitations - and it is never called a bot loop; a message that reads like a person's is clean on
  every channel, not only on the one the test of it looks at, and of no high severity.
\<close>
theorem category_and_severity_agree:
  "(cr_category (classify_message url text channel info) \<in> {Clean, Solicitation} \<or> is_high_severity url text info)
   \<and> cr_category (classify_message url text channel info) \<noteq> BotLoop
   \<and> (is_human_signal url text info
         = (is_human_signal url text info
            \<and> cr_category (classify_message url text channel info) = Clean \<and> \<not> is_high_severity url text info))"
proof (intro conjI)
  let ?k = "cr_category (classify_message url text channel info)"
  let ?t = "scanned text" and ?l = "nullish info (inspect_links url (scanned text))"
  show "?k \<in> {Clean, Solicitation} \<or> is_high_severity url text info"
  proof (cases "?k \<in> {Clean, Solicitation}")
    case False
    then obtain c where c: "c \<in> set (candidates ?t channel ?l)" "fst c = ?k" "is_flagged c" "?t \<noteq> []"
      using category_candidate [OF refl, of url "text" channel info] by blast
    with False candidate_evidence [OF c(1,3)] show ?thesis by (simp add: is_high_severity_def Let_def)
  qed simp
  show "?k \<noteq> BotLoop"
  proof
    assume "?k = BotLoop"
    then have "\<exists>c. c \<in> set (candidates ?t channel ?l) \<and> fst c = BotLoop"
      by (rule category_candidate) (simp, blast)
    then show False by (auto simp: candidates_def Let_def)
  qed
  have "?k = Clean \<and> \<not> is_high_severity url text info" if h: "is_human_signal url text info"
  proof -
    from h have quiet: "score_signals ?t credential_signals = (0, [])" "score_signals ?t phishing_signals = (0, [])"
        "score_signals ?t scam_signals = (0, [])" "score_signals ?t solicitation_signals = (0, [])"
        "score_signals ?t spam_signals = (0, [])" and l: "\<not> lk_score ?l > 0"
      by (auto simp: is_human_signal_def Let_def no_signal_no_score split: if_splits)
    have "\<not> is_high_severity url text info" using quiet l by (simp add: is_high_severity_def Let_def)
    moreover have "?k = Clean"
    proof (rule ccontr)
      assume "?k \<noteq> Clean"
      then obtain c where "c \<in> set (candidates ?t channel ?l)" "is_flagged c"
        using category_candidate [OF refl, of url "text" channel info] by blast
      then show False using quiet l
        by (auto simp: candidates_def is_flagged_def flag_threshold_def solicitation_flag_threshold_def Let_def)
    qed
    ultimately show ?thesis by blast
  qed
  then show "is_human_signal url text info = (is_human_signal url text info \<and> ?k = Clean \<and> \<not> is_high_severity url text info)"
    by blast
qed

end
