(* ===== verification/OutputClaims.thy ===== *)
theory OutputClaims
  imports Classifier
begin

text \<open>
  What a reply may say (\<open>guardrails/output-validation.ts\<close>): the sentences that claim a booking, a
  request, a date without openings or a price, and the validation of a reply before it is sent. A
  pattern that the source assembles from pieces is assembled from the same pieces.
\<close>

section \<open>Claims about bookings and requests\<close>

definition any_fires :: "string list \<Rightarrow> string \<Rightarrow> bool" where
  "any_fires pats t = list_ex (\<lambda>p. re_test p t) pats"

definition currency_amount :: regex where
  "currency_amount = one_of
     [''(?:%xA3|%$)%s?%d{1,7}(?:[.,]%d{1,2})?%b'',
      ''%b(?:EUR|USD|GBP)%s?%d{1,7}(?:[.,]%d{1,2})?%b'',
      ''%b%d{1,7}(?:[.,]%d{1,2})?%s?(?:(?:EUR|USD|GBP)%b|(?:%xA3|%$)(?!%w))'']"

definition contains_currency_amount :: "string \<Rightarrow> bool" where
  "contains_currency_amount text = re_finds True currency_amount text"

lemma no_currency_in_nothing: "\<not> contains_currency_amount []"
  by code_simp

text \<open>For evaluation: an empty text needs no search.\<close>

lemma contains_currency_amount_code [code]:
  "contains_currency_amount text = (if text = [] then False else re_finds True currency_amount text)"
  using no_currency_in_nothing by (simp add: contains_currency_amount_def)

definition booking_confirmed_claims :: "string list" where
  "booking_confirmed_claims =
     [''%bi(?:[']ve| have) (?:successfully )?booked%b'',
      ''%bi(?:[']ve| have) (?:successfully )?confirmed your (?:booking|appointment)%b(?!%s+is%s+available)'',
      ''%byour booking has been (?:booked|confirmed)%b'',
      ''%bik heb (?:je|uw|het|de|een)?%s?(?:afspraak|reservering|boeking)?%s?(?:geboekt|gereserveerd)%b'',
      ''%bik heb (?:je|uw|het|de|een)?%s?(?:afspraak|reservering|boeking)%s?(?:gepland|ingepland|bevestigd)%b'',
      ''%b(?:je|uw) wijziging is bevestigd%b'',
      ''%byour (?:change|reschedule) (?:is|has been) confirmed%b'',
      ''%bi(?:[']ve| have) (?:successfully )?(?:rescheduled|moved) (?:your )?(?:appointment|booking)%b'',
      ''%byour appointment has been (?:moved|rescheduled)%b'']"

definition claims_booking_confirmed :: "string \<Rightarrow> bool" where
  "claims_booking_confirmed text = any_fires booking_confirmed_claims (js_lower text)"

definition submitted_claim :: string where
  "submitted_claim = ''%byour booking has been submitted%b''"

definition claims_booking_done :: "string \<Rightarrow> bool" where
  "claims_booking_done text = (claims_booking_confirmed text \<or> re_test submitted_claim (js_lower text))"

text \<open>A conjunction that introduces a claim, up to the end of the clause before it.\<close>

definition subordinate_lead_in :: "string \<Rightarrow> string \<Rightarrow> string \<Rightarrow> string" where
  "subordinate_lead_in lead_ins fillers joins =
     ''%b(?:'' @ lead_ins @ '')%s+(?:(?:'' @ fillers @ '')%s+|.*%s(?:'' @ joins @ '')%s+)?$''"

definition en_lead_in :: string where
  "en_lead_in = subordinate_lead_in ''once|after|when|whenever|as soon as|if|whether|before|until|unless''
     ''(?:all|most|some|any|each|both|the rest)(?: of)?|exactly'' ''and|that''"

definition nl_lead_in :: string where
  "nl_lead_in = subordinate_lead_in ''zodra|nadat|als|wanneer|indien|of|voordat|totdat'' ''al|precies'' ''en|dat''"

definition fr_lead_in :: string where
  "fr_lead_in = subordinate_lead_in ''une fois que|d%xE8s que|apr%xE8s que|quand|lorsque|si'' ''exactement'' ''et(?: que)?|que''"

definition en_adverb :: string where "en_adverb = ''(?:(?:successfully|now|just|already|also) )?''"
definition nl_adverb :: string where "nl_adverb = ''(?:(?:succesvol|nu|zojuist|net|al|ook) )?''"
definition fr_adverb :: string where "fr_adverb = ''(?:(?:bien|d%xE9j%xE0) )?''"

definition nl_recipient :: string where
  "nl_recipient = ''(?:(?:naar|aan) (?:het|de|ons|onze) [a-z%xE0-%xFF'-]+ )?''"

text \<open>A claim with the lead-in that takes it back.\<close>

definition request_forwarded :: "(string \<times> string) list" where
  "request_forwarded =
     [(''%byour (?:request|enquiry|inquiry|details|message) (?:has|have) '' @ en_adverb @ ''been '' @ en_adverb
         @ ''(?:submitted|forwarded|sent|logged|recorded|passed(?: on| along)?)%b'', en_lead_in),
      (''%bi(?:[']ve| have) '' @ en_adverb
         @ ''(?:submitted|forwarded|sent|logged|recorded|passed(?: on| along)?) (?:your|the|this) (?:request|enquiry|inquiry|details|message)%b'',
       en_lead_in),
      (''%b(?:je|jouw|uw) (?:aanvraag|verzoek|gegevens|bericht) (?:is|zijn|werd|werden) '' @ nl_adverb @ nl_recipient
         @ ''(?:doorgestuurd|doorgegeven|verstuurd|ingediend|geregistreerd)%b'', nl_lead_in),
      (''%bik heb '' @ nl_adverb @ ''(?:je|jouw|uw|de) (?:aanvraag|verzoek|gegevens|bericht) '' @ nl_adverb @ nl_recipient
         @ ''(?:doorgestuurd|doorgegeven|verstuurd|ingediend|geregistreerd)%b'', nl_lead_in),
      (''%bvotre demande a '' @ fr_adverb @ ''%xE9t%xE9 '' @ fr_adverb
         @ ''(?:transmise|envoy%xE9e|enregistr%xE9e|soumise|transf%xE9r%xE9e)%b'', fr_lead_in),
      (''%bj[']ai '' @ fr_adverb @ ''(?:transmis|envoy%xE9|enregistr%xE9|soumis) (?:votre|la) demande%b'', fr_lead_in)]"

definition clause_breaks :: regex where
  "clause_breaks = regex_of ''[.!?;:,%n]| - | but | maar | mais ''"

definition clause_before :: "string \<Rightarrow> nat \<Rightarrow> string" where
  "clause_before t end_at =
     (let s = take end_at t in
      case rev (re_match_all False clause_breaks s) of
        [] \<Rightarrow> s
      | h # _ \<Rightarrow> drop (rh_index h + length (rh_text h)) s)"

definition claims_request_forwarded :: "string \<Rightarrow> bool" where
  "claims_request_forwarded text =
     (let t = js_lower text in
      list_ex (\<lambda>(claim, lead_in).
        list_ex (\<lambda>m. \<not> re_test lead_in (clause_before t (rh_index m))) (re_match_all False (regex_of claim) t))
        request_forwarded)"

section \<open>Claims about dates\<close>

definition claim_month :: string where
  "claim_month = ''(?:january|february|march|april|may|june|july|august|september|october|november|december|januari|februari|maart|mei|juni|juli|augustus|oktober|december)''"

definition names_a_date :: "string \<Rightarrow> bool" where
  "names_a_date t =
     (re_test (''%b%d{1,2}%s+'' @ claim_month @ ''%b'') t \<or> re_test (''%b'' @ claim_month @ ''%s+%d{1,2}%b'') t
      \<or> re_test ''%b%d{1,2}[/-]%d{1,2}(?:[/-]%d{2,4})?%b'' t)"

definition unavailable_claims :: "string list" where
  "unavailable_claims =
     [''%b(?:is|are|we(?:'re| are)|they(?:'re| are))%s+(?:closed|fully booked|unavailable)%b'',
      ''%bfully booked%b'',
      ''%bclosing day%b'',
      ''%bno (?:availability|slots|times|appointments) (?:on|for|that)%b'',
      ''%bsluitingsdag%b'',
      ''%b(?:is|zijn)%s+(?:we%s+)?gesloten%b'',
      ''%bgesloten%b.*%b(?:dag|dan|die dag)%b'',
      ''%bvolgeboekt%b'',
      ''%bniet%s+(?:beschikbaar|mogelijk|open)%b'',
      ''%bgeen%s+(?:beschikbaarheid|plek|tijden|afspraken)%b'']"

definition claims_dated_unavailability :: "string \<Rightarrow> bool" where
  "claims_dated_unavailability text =
     (let t = js_lower text in names_a_date t \<and> any_fires unavailable_claims t)"

definition manual_request_offers :: "string list" where
  "manual_request_offers =
     [''%b(?:as|into) an? (?:manual |appointment |booking )?request%b'',
      ''%b(?:submit|log|register|put in|send) (?:it|this|that|the appointment|your appointment) as an? request%b'',
      ''%b(?:not|won't|will not) be confirmed until%b'',
      ''%bals (?:een )?aanvraag%b'',
      ''%baanvraag (?:indienen|doorgeven|registreren|noteren|doorsturen)%b'',
      ''%b(?:pas|nog niet) bevestigd (?:zodra|tot|totdat|nadat|wanneer)%b'',
      ''%b(?:en tant que|comme) (?:une )?demande%b'',
      ''%bne sera (?:pas )?confirm[%xE9e]e? (?:qu'|que |tant que|avant)'']"

definition offers_manual_request :: "string \<Rightarrow> bool" where
  "offers_manual_request text = any_fires manual_request_offers (js_lower text)"

section \<open>Text that must never leave\<close>

text \<open>A pattern, whether it ignores case, and the reason.\<close>

type_synonym marker = "string \<times> bool \<times> string"

definition internal_markers :: "marker list" where
  "internal_markers =
     [(''<<<%s*(?:KNOWLEDGE|EXTRA_INFO)%b|%b(?:KNOWLEDGE|EXTRA_INFO)%s*>>>'', True, ''prompt fence marker''),
      (''##%s*PLATFORM RULES %(non-negotiable%)'', True, ''platform-rules header''),
      (''##%s*KNOWLEDGE BASE %(reference data'', True, ''knowledge-base section header''),
      (''##%s*ADDITIONAL CONTEXT %(reference only'', True, ''additional-context header''),
      (''##%s*GUARDRAILS%b'', True, ''guardrails header''),
      (''##%s*FORMATTING RULES %(CRITICAL'', True, ''formatting-rules header''),
      (''%bLANGUAGE %(read first%):'', True, ''language-directive header''),
      (''%b(?:kb_search|capture_lead|escalate_to_human|check_availability|create_booking|request_appointment|list_bookings|reschedule_booking|cancel_booking|update_booking)%b'',
        False, ''internal tool name''),
      (''%b(?:tenant_id|session_id|bot_id|conversation_id)%b'', False, ''internal id field''),
      (''%bsk-(?:proj-|svcacct-|admin-)?[A-Za-z0-9]{16,}%b'', False, ''openai-style secret key''),
      (''%bsk_(?:live|test|prod)_[A-Za-z0-9]{8,}%b'', True, ''stripe-style secret key''),
      (''%beyJ[A-Za-z0-9_-]{8,}%.[A-Za-z0-9_-]{8,}%.[A-Za-z0-9_-]{8,}%b'', False, ''jwt token''),
      (''%bBearer%s+[A-Za-z0-9._-]{20,}%b'', False, ''bearer token''),
      (''%bwebhookUrl%b|%bn8n%.(?:io|com|cloud)%b'', True, ''internal webhook/automation reference'')]"

definition plan_name :: string where
  "plan_name = ''(?:Essential|Pro|Enterprise)%s+(?:plan|tier|subscription)''"

definition plan_leakage :: "marker list" where
  "plan_leakage =
     [(''%bfeature%b[^.!?%n]{0,40}%b'' @ plan_name @ ''%b'', True, ''gates a feature behind a plan''),
      (''%b'' @ plan_name @ ''%b[^.!?%n]{0,40}%bfeature%b'', True, ''gates a feature behind a plan''),
      (''%b(?:not (?:available|included|supported)|only (?:available|included|on)|available only on|require[sd]?|need(?:s|ed)?)%b[^.!?%n]{0,30}%b''
         @ plan_name @ ''%b'', True, ''gates a feature behind a plan''),
      (''%b'' @ plan_name @ ''%b[^.!?%n]{0,30}%bto (?:use|access|enable|unlock)%b'', True, ''gates a feature behind a plan'')]"

definition secret_noun :: string where
  "secret_noun = ''password(?!%s+(?:reset|policy|requirement|protection|manager))|passcode|otp|one[-%s]?time%s?(?:pass)?code|2fa|two[-%s]?factor|auth(?:entication)?%s?code|verification%s?code|pin(?:%s?code|%s?number)?|cvv|cvc|card%s?(?:number|details)|login%s?credentials|(?:recovery|backup|seed)%s?(?:code|phrase|key|words?)''"

definition cred_verb :: string where
  "cred_verb = ''send|share|give|provide|tell|forward|enter|submit|confirm|type|input|key%s?in|paste''"

definition output_credential :: "marker list" where
  "output_credential =
     [(''%b(?:'' @ cred_verb @ '')%b[^.!?%n]{0,40}%b(?:'' @ secret_noun @ '')%b'', True, ''solicits a secret/credential''),
      (''%bwhat(?:'s| is| are)?%b[^.!?%n]{0,15}%byour%b[^.!?%n]{0,15}%b(?:'' @ secret_noun @ '')%b'', True,
        ''solicits a secret/credential'')]"

section \<open>Validating a reply\<close>

datatype violation_family =
    LeakedInternals
  | PlanLeakage
  | CredentialSolicitation
  | UnsafeLink
  | FakeBooking
  | FakeRequest
  | InventedPrice

type_synonym violation = "violation_family \<times> string"

record validation_context =
  vc_booking :: bool
  vc_request :: bool
  vc_booking_request :: bool
  vc_price :: bool

definition marks :: "violation_family \<Rightarrow> marker list \<Rightarrow> string \<Rightarrow> violation list" where
  "marks family ms t =
     map (\<lambda>(_, _, reason). (family, reason)) (filter (\<lambda>(pat, ci, _). re_finds ci (regex_of pat) t) ms)"

definition claim_violations :: "string \<Rightarrow> validation_context option \<Rightarrow> violation list" where
  "claim_violations t context =
     (case context of
        None \<Rightarrow> []
      | Some c \<Rightarrow>
          (let claims = (if vc_booking_request c then claims_booking_confirmed t else claims_booking_done t) in
           (if \<not> vc_booking c \<and> claims
            then [(FakeBooking, ''reply claims a booking mutation but none was recorded this run'')] else [])
           @ (if \<not> vc_request c \<and> \<not> vc_booking c \<and> claims_request_forwarded t
              then [(FakeRequest, ''reply claims a request reached the business but none was recorded this run'')] else [])))"

text \<open>\<open>filter\<close> over the pairs seen so far.\<close>

fun first_of_each :: "'a list \<Rightarrow> 'a list \<Rightarrow> 'a list" where
  "first_of_each seen [] = []"
| "first_of_each seen (x # xs) = (if x \<in> set seen then first_of_each seen xs else x # first_of_each (x # seen) xs)"

definition found_violations :: "url_parser \<Rightarrow> string \<Rightarrow> validation_context option \<Rightarrow> violation list" where
  "found_violations url t context =
     marks LeakedInternals internal_markers t
     @ marks PlanLeakage plan_leakage t
     @ marks CredentialSolicitation output_credential t
     @ map (Pair UnsafeLink) (detect_unsafe_link_hosts url t)
     @ claim_violations t context
     @ (if (case context of Some c \<Rightarrow> \<not> vc_price c | None \<Rightarrow> False) \<and> contains_currency_amount t
        then [(InventedPrice, ''reply asserts a price but no price-bearing context was loaded this run'')] else [])"

definition validate_output :: "url_parser \<Rightarrow> string \<Rightarrow> validation_context option \<Rightarrow> violation list" where
  "validate_output url t context =
     (if js_trim t = [] then [] else first_of_each [] (found_violations url t context))"

definition output_ok :: "url_parser \<Rightarrow> string \<Rightarrow> validation_context option \<Rightarrow> bool" where
  "output_ok url t context = (validate_output url t context = [])"

section \<open>What the validation finds\<close>

lemma set_first_of_each: "set (first_of_each seen xs) = set xs - set seen"
  by (induction xs arbitrary: seen) auto

lemma distinct_first_of_each: "distinct (first_of_each seen xs)"
  by (induction xs arbitrary: seen) (auto simp: set_first_of_each)

lemma set_validate_output:
  "set (validate_output url t context) = (if js_trim t = [] then {} else set (found_violations url t context))"
  by (simp add: validate_output_def set_first_of_each)

lemma claim_families: "v \<in> set (claim_violations t context) \<Longrightarrow> fst v \<in> {FakeBooking, FakeRequest}"
  by (auto simp: claim_violations_def Let_def split: option.splits if_splits)

lemma mark_families: "v \<in> set (marks f ms t) \<Longrightarrow> fst v = f"
  by (auto simp: marks_def)

end
