(* ===== verification/AgentRun.thy ===== *)
theory AgentRun
  imports AgentConfirm OutputClaims AddressBinding
begin

text \<open>
  One run of the agent (\<open>agent/agent.service.ts\<close>): the loop over the model's answers, the tools it
  calls, the guards that judge a reply before it is shipped, and the result. The store of the
  conversation, the dates that were checked (\<open>booking-providers/availability-checked.ts\<close>) and the mark on
  the session are state; the model, the tools, the token budget, the metering, the translation of a fixed
  sentence and the preparation of the prompt are arguments that may change whatever else there is.
  Every value the program throws is an \<open>Error\<close>. Of the trace the calls of tools are kept. Not modelled:
  the cut of a long tool payload, the measurements of an offer, and the ids of provider calls.
\<close>

section \<open>Errors of the provider\<close>

record thrown =
  th_status :: "int option"
  th_code :: "string option"
  th_type :: "string option"
  th_error_code :: "string option"
  th_error_type :: "string option"
  th_cause_code :: "string option"
  th_name :: string
  th_message :: string

definition is_upstream_rate_limit :: "thrown \<Rightarrow> bool" where
  "is_upstream_rate_limit e = (th_status e = Some 429)"

definition quota_codes :: "string list" where
  "quota_codes = [''insufficient_quota'', ''credit_balance_exhausted'', ''billing_hard_limit_reached'']"

definition is_upstream_quota_exhausted :: "thrown \<Rightarrow> bool" where
  "is_upstream_quota_exhausted e =
     list_ex (\<lambda>v. case v of None \<Rightarrow> False | Some c \<Rightarrow> c \<in> set quota_codes) [th_code e, th_type e, th_error_code e, th_error_type e]"

definition is_upstream_server_error :: "thrown \<Rightarrow> bool" where
  "is_upstream_server_error e = (case th_status e of None \<Rightarrow> False | Some n \<Rightarrow> 500 \<le> n \<and> n \<le> 599)"

definition network_codes :: "string list" where
  "network_codes = [''ECONNRESET'', ''ECONNREFUSED'', ''ETIMEDOUT'', ''ENOTFOUND'', ''EAI_AGAIN'', ''EPIPE'', ''ECONNABORTED'']"

definition is_upstream_unreachable :: "thrown \<Rightarrow> bool" where
  "is_upstream_unreachable e =
     (th_status e = None
      \<and> (th_name e \<in> {''APIConnectionError'', ''APIConnectionTimeoutError''}
         \<or> nullish (th_code e) (nullish (th_cause_code e) []) \<in> set network_codes
         \<or> re_test_i ''socket hang up|ECONNRESET|ECONNREFUSED|ETIMEDOUT|ENOTFOUND|EAI_AGAIN'' (th_message e)))"

definition is_retryable_upstream :: "thrown \<Rightarrow> bool" where
  "is_retryable_upstream e =
     (\<not> is_upstream_quota_exhausted e
      \<and> (is_upstream_rate_limit e \<or> is_upstream_server_error e \<or> is_upstream_unreachable e))"

definition unreachable_name :: string where
  "unreachable_name = ''UpstreamUnreachableError''"

definition upstream_unreachable_error :: "thrown \<Rightarrow> thrown" where
  "upstream_unreachable_error cause =
     \<lparr>th_status = None, th_code = None, th_type = None, th_error_code = None, th_error_type = None,
      th_cause_code = th_code cause, th_name = unreachable_name, th_message = th_message cause\<rparr>"

datatype terminal_kind = UpstreamQuota | UpstreamRateLimit | UpstreamServerError | UpstreamUnreachable | LlmTimeout | BotFault

text \<open>Only \<^const>\<open>upstream_unreachable_error\<close> makes an error of that name.\<close>

definition classify_terminal_error :: "thrown \<Rightarrow> terminal_kind" where
  "classify_terminal_error e =
     (if is_upstream_quota_exhausted e then UpstreamQuota
      else if is_upstream_rate_limit e then UpstreamRateLimit
      else if is_upstream_server_error e then UpstreamServerError
      else if th_name e = unreachable_name then UpstreamUnreachable
      else if re_test_i ''LLM request timeout'' (th_message e) then LlmTimeout
      else BotFault)"

section \<open>Dates that were checked\<close>

definition max_range_days :: int where "max_range_days = 31"
definition max_checked_dates :: nat where "max_checked_dates = 120"

definition utc_day_number :: "string \<Rightarrow> int option" where
  "utc_day_number s =
     (let y = num_of (take 4 s); m = num_of (take 2 (drop 5 s)); d = num_of (drop 8 s) in
      if push_date y m d = [] then None else Some (days_of_civil y m d))"

definition dates_in_range :: "string \<Rightarrow> string \<Rightarrow> string list" where
  "dates_in_range start_date end_date =
     (if \<not> re_test ''^%d{4}-%d{2}-%d{2}$'' start_date \<or> \<not> re_test ''^%d{4}-%d{2}-%d{2}$'' end_date then []
      else (case utc_day_number start_date of
          None \<Rightarrow> []
        | Some a \<Rightarrow>
            (let b = (case utc_day_number end_date of
                        None \<Rightarrow> a
                      | Some b \<Rightarrow> if b < a then a else min b (a + max_range_days - 1))
             in map (iso_date \<circ> civil_of_days) [a..b])))"

definition remember_availability_checked ::
  "redis_link \<Rightarrow> instant \<Rightarrow> string \<Rightarrow> string \<Rightarrow> string list stored \<Rightarrow> string list stored" where
  "remember_availability_checked link now start_date end_date kept =
     (let added = dates_in_range start_date end_date in
      if added = [] \<or> \<not> rl_client link \<or> \<not> rl_reads link \<or> \<not> rl_writes link then kept
      else (let dates = first_of_each [] (nullish (live now kept) [] @ added)
            in Some (drop (length dates - max_checked_dates) dates, now + ttl_ms)))"

definition peek_availability_checked :: "redis_link \<Rightarrow> instant \<Rightarrow> string list stored \<Rightarrow> string list option" where
  "peek_availability_checked link now kept =
     (if rl_client link \<and> rl_reads link then Some (nullish (live now kept) []) else None)"

definition availability_checked_for :: "redis_link \<Rightarrow> instant \<Rightarrow> string list stored \<Rightarrow> string \<Rightarrow> bool option" where
  "availability_checked_for link now kept date =
     map_option (\<lambda>dates. date \<in> set dates) (peek_availability_checked link now kept)"

section \<open>Addresses in a reply\<close>

text \<open>
  \<open>normalize('NFKD')\<close> without its marks, on the characters below 256: the letter under an accent,
  the digits of a fraction; a character that becomes a blank with a mark stays what it is, because a blank
  separates tokens like it does.
\<close>

definition base_letters :: "(nat \<times> string) list" where
  "base_letters =
     [(170, ''a''), (178, ''2''), (179, ''3''), (185, ''1''), (186, ''o''), (188, ''1 4''), (189, ''1 2''), (190, ''3 4''),
      (192, ''A''), (193, ''A''), (194, ''A''), (195, ''A''), (196, ''A''), (197, ''A''), (199, ''C''),
      (200, ''E''), (201, ''E''), (202, ''E''), (203, ''E''), (204, ''I''), (205, ''I''), (206, ''I''), (207, ''I''),
      (209, ''N''), (210, ''O''), (211, ''O''), (212, ''O''), (213, ''O''), (214, ''O''),
      (217, ''U''), (218, ''U''), (219, ''U''), (220, ''U''), (221, ''Y''),
      (224, ''a''), (225, ''a''), (226, ''a''), (227, ''a''), (228, ''a''), (229, ''a''), (231, ''c''),
      (232, ''e''), (233, ''e''), (234, ''e''), (235, ''e''), (236, ''i''), (237, ''i''), (238, ''i''), (239, ''i''),
      (241, ''n''), (242, ''o''), (243, ''o''), (244, ''o''), (245, ''o''), (246, ''o''),
      (249, ''u''), (250, ''u''), (251, ''u''), (252, ''u''), (253, ''y''), (255, ''y'')]"

definition base_letter :: "char \<Rightarrow> string" where
  "base_letter c = (case map_of base_letters (of_char c) of Some t \<Rightarrow> t | None \<Rightarrow> [c])"

definition unaccented :: "string \<Rightarrow> string" where
  "unaccented s = concat (map base_letter s)"

definition is_letter_or_digit :: "char \<Rightarrow> bool" where
  "is_letter_or_digit c =
     (let n = of_char c :: nat in
      is_digit c \<or> 97 \<le> n \<and> n \<le> 122 \<or> 65 \<le> n \<and> n \<le> 90 \<or> n = 181 \<or> 192 \<le> n \<and> n \<noteq> 215 \<and> n \<noteq> 247)"

text \<open>The same on the bits of a character, for evaluation.\<close>

lemma base_letters_above: "n < 128 \<Longrightarrow> map_of base_letters n = None"
proof -
  have "list_all (\<lambda>p. 128 \<le> fst p) base_letters" by (simp add: base_letters_def)
  then show "n < 128 \<Longrightarrow> map_of base_letters n = None" by (fastforce simp: map_of_eq_None_iff list_all_iff)
qed

lemma base_letter_bits [code]:
  "base_letter (Char b0 b1 b2 b3 b4 b5 b6 b7) =
     (if b7 then (case map_of base_letters (of_char (Char b0 b1 b2 b3 b4 b5 b6 b7)) of
                    Some t \<Rightarrow> t | None \<Rightarrow> [Char b0 b1 b2 b3 b4 b5 b6 b7])
      else [Char b0 b1 b2 b3 b4 b5 b6 b7])"
proof (cases b7)
  case False
  have "(of_char (Char b0 b1 b2 b3 b4 b5 b6 False) :: nat) < 128"
    by (cases b0; cases b1; cases b2; cases b3; cases b4; cases b5; cases b6; simp)
  then show ?thesis using False base_letters_above by (simp add: base_letter_def)
next
  case True
  then show ?thesis unfolding base_letter_def by (simp only: if_True)
qed

lemma is_letter_or_digit_bits [code]:
  "is_letter_or_digit (Char b0 b1 b2 b3 b4 b5 b6 b7) =
     (if b7 then (if b6 then \<not> (b4 \<and> \<not> b3 \<and> b2 \<and> b1 \<and> b0) else b5 \<and> b4 \<and> \<not> b3 \<and> b2 \<and> \<not> b1 \<and> b0)
      else if b6 then (b4 \<or> b3 \<or> b2 \<or> b1 \<or> b0) \<and> (\<not> b4 \<or> \<not> b3 \<or> \<not> b2 \<and> (\<not> b1 \<or> \<not> b0))
      else is_digit (Char b0 b1 b2 b3 b4 b5 b6 b7))"
  by (cases b0; cases b1; cases b2; cases b3; cases b4; cases b5; cases b6; cases b7;
      simp add: is_letter_or_digit_def is_digit_bits)

definition is_letter :: "char \<Rightarrow> bool" where
  "is_letter c = (is_letter_or_digit c \<and> \<not> is_digit c)"

fun words_of :: "(char \<Rightarrow> bool) \<Rightarrow> string \<Rightarrow> string \<Rightarrow> string list" where
  "words_of P acc [] = (if acc = [] then [] else [rev acc])"
| "words_of P acc (c # s) = (if P c then words_of P (c # acc) s
     else (if acc = [] then [] else [rev acc]) @ words_of P [] s)"

definition address_tokens :: "string \<Rightarrow> string list" where
  "address_tokens value = words_of is_letter_or_digit [] (js_lower (unaccented value))"

definition belgian_country_tokens :: "string list" where
  "belgian_country_tokens = [''be'', ''belgie'', ''belgique'', ''belgien'', ''belgium'']"

definition four_digits :: "string \<Rightarrow> bool" where
  "four_digits t = (length t = 4 \<and> list_all is_digit t)"

fun split_comma :: "string \<Rightarrow> string \<Rightarrow> string list" where
  "split_comma acc [] = [rev acc]"
| "split_comma acc (c # s) = (if c = CHR '','' then rev acc # split_comma [] s else split_comma (c # acc) s)"

definition inferred_postcode :: "string list \<Rightarrow> string option" where
  "inferred_postcode words =
     map_option (\<lambda>i. words ! i)
       (find (\<lambda>i. four_digits (words ! i)
                 \<and> list_ex (list_ex is_digit) (drop 1 (take i words))
                 \<and> list_ex (\<lambda>t. list_ex is_letter t \<and> t \<notin> set belgian_country_tokens) (drop (i + 1) words))
         [0..<length words])"

definition address_claim_in :: "string \<Rightarrow> string \<Rightarrow> bool" where
  "address_claim_in text authoritative =
     (let words = address_tokens authoritative;
          delimited = find four_digits (concat (map address_tokens (drop 1 (split_comma [] authoritative))));
          postcode = (case delimited of Some p \<Rightarrow> Some p | None \<Rightarrow> inferred_postcode words);
          kept = filter (\<lambda>t. t \<notin> set belgian_country_tokens \<and> Some t \<noteq> postcode);
          expected = kept words; actual = kept (address_tokens text)
      in expected \<noteq> [] \<and> list_ex (\<lambda>i. take (length expected) (drop i actual) = expected) [0..<length actual + 1])"

definition same_claim :: "string \<Rightarrow> string \<Rightarrow> bool" where
  "same_claim left right = (address_claim_in left right \<and> address_claim_in right left)"

definition valid_address_reply :: "string \<Rightarrow> address_fact \<Rightarrow> bool" where
  "valid_address_reply text told =
     (address_claim_in text (af_address told)
      \<and> \<not> list_ex (\<lambda>other. \<not> same_claim other (af_address told) \<and> address_claim_in text other) (af_alternatives told))"

definition merge_address_facts :: "address_fact option \<Rightarrow> address_fact \<Rightarrow> address_fact \<times> bool" where
  "merge_address_facts current new =
     (case current of
        None \<Rightarrow> (new, False)
      | Some c \<Rightarrow>
          if \<not> same_claim (af_address c) (af_address new) then (c, True)
          else (new\<lparr>af_alternatives := first_of_each [] (af_alternatives c @ af_alternatives new)\<rparr>, False))"

definition address_safe_fallback :: "address_fact \<Rightarrow> string" where
  "address_safe_fallback told =
     (case af_use told of
        ForAvailability \<Rightarrow> ''Here are the available times for '' @ af_address told @ ''.''
      | ForBooking \<Rightarrow> ''Your booking is confirmed for '' @ af_address told @ ''.''
      | ForRequest \<Rightarrow> ''Your appointment request has been sent for '' @ af_address told @ ''.'')"

section \<open>Claims the loop corrects\<close>

definition booked_nudges :: "string list" where
  "booked_nudges =
     [''%bi[']?ve (successfully )?(booked|scheduled)%b'',
      ''%bi[']?ll go ahead and (book|schedule)%b'',
      ''%bsuccessfully (booked|scheduled)%b'',
      ''%byour (booking|request) (has been|is) booked%b'',
      ''%bik heb (je|uw|het|de|een)?%s?(afspraak|reservering|boeking)?%s?(ge(boekt|reserveerd|pland)|ingepland|vastgelegd)%b'',
      ''%b(je|uw|de) (afspraak|reservering|boeking) (is|staat) (ge(boekt|reserveerd|pland)|ingepland|bevestigd|vastgelegd)%b'']"

definition claims_booked_for_agent_nudge :: "string \<Rightarrow> bool" where
  "claims_booked_for_agent_nudge t = (claims_booking_confirmed t \<or> any_fires booked_nudges t)"

definition booking_request_nudges :: "string list" where
  "booking_request_nudges =
     [submitted_claim,
      ''%bi[']?ve (successfully )?(requested|submitted|placed|created)%b'',
      ''%bi[']?ll (go ahead and (request|submit)|proceed( with (the|your|this))?)%b'',
      ''%bsuccessfully (requested|submitted|created)%b'',
      ''%byour booking (has been|is) (submitted|created|placed|received|sent)%b'',
      ''%bik heb (je|uw|het|de|een)?%s?(afspraak|reservering|boeking)?%s?aangevraagd%b'',
      ''%b(je|uw|de) (afspraak|reservering|boeking) (is|staat) aangevraagd%b'']"

definition claims_booking_request_for_agent_nudge :: "string \<Rightarrow> bool" where
  "claims_booking_request_for_agent_nudge t = any_fires booking_request_nudges t"

definition claims_request_sent_for_agent_nudge :: "string \<Rightarrow> bool" where
  "claims_request_sent_for_agent_nudge t =
     re_test ''%byour request (has been|is) (submitted|created|placed|received|sent)%b'' t"

definition availability_subject :: string where
  "availability_subject =
     ''%b(?:beschikbaar|beschikbaarheid|vrij|agenda|tijdstip|tijden|slot|slots|afspraak|available|availability|calendar|diary|opening hours|booking|appointment|disponib%w*|cr[e%xE9]neau%w*|horaire%w*|rendez-vous)%b''"

definition other_domain_subject :: string where
  "other_domain_subject =
     ''%b(?:invoice|factuur|facturen|bill|order|orders|bestelling|commande|delivery|levering|livraison|payment|betaling|paiement|quote|offerte|devis|refund|terugbetaling)%b''"

definition check_promises :: "string list" where
  "check_promises =
     [''%bik (?:ga )?(?:het |dat |even |snel |meteen )*(?:controleer|controleren|kijk|kijken|check|checken|zoek|zoeken)%b'',
      ''%b(?:let me|i'?ll|i will|i'?m going to|while i)%s+(?:just%s+|quickly%s+)?(?:check|look|see|verify)%b'',
      ''%bje (?:vais )?(?:v[e%xE9]rifie|v[e%xE9]rifier|regarde|regarder|consulte|consulter)%b'']"

definition promises_availability_check :: "string \<Rightarrow> string \<Rightarrow> bool" where
  "promises_availability_check text customer =
     (let t = js_lower text in
      any_fires check_promises t \<and> \<not> re_test other_domain_subject t
      \<and> (re_test availability_subject t \<or> parse_clock_times text \<noteq> [] \<or> parse_clock_times customer \<noteq> []))"

section \<open>Tools, the world and the state of a run\<close>

text \<open>\<open>JSON.stringify\<close> of what tools take and answer; numbers are integers.\<close>

definition hex_digit :: "nat \<Rightarrow> char" where
  "hex_digit n = (if n < 10 then char_of (48 + n) else char_of (87 + n))"

definition json_escape :: "char \<Rightarrow> string" where
  "json_escape c =
     (let n = of_char c :: nat; backslash = char_of (92 :: nat) in
      if n = 34 \<or> n = 92 then [backslash, c]
      else if n = 8 then [backslash, CHR ''b''] else if n = 9 then [backslash, CHR ''t'']
      else if n = 10 then [backslash, CHR ''n''] else if n = 12 then [backslash, CHR ''f'']
      else if n = 13 then [backslash, CHR ''r'']
      else if n < 32 then [backslash, CHR ''u'', CHR ''0'', CHR ''0'', hex_digit (n div 16), hex_digit (n mod 16)]
      else [c])"

definition json_quoted :: "string \<Rightarrow> string" where
  "json_quoted s = CHR 34 # concat (map json_escape s) @ [CHR 34]"

fun json_text :: "json \<Rightarrow> string" where
  "json_text JNull = ''null''"
| "json_text (JBool b) = (if b then ''true'' else ''false'')"
| "json_text (JNum n) = show_int n"
| "json_text (JStr s) = json_quoted s"
| "json_text (JArr vs) = ''['' @ joined '','' (map json_text vs) @ '']''"
| "json_text (JObj kvs) = ''{'' @ joined '','' (map (\<lambda>(k, v). json_quoted k @ '':'' @ json_text v) kvs) @ ''}''"

text \<open>The world: one conversation's entries in Redis, the mark on its session, and the rest.\<close>

record 'w run_world =
  rw_store :: agent_store
  rw_checked :: "string list stored"
  rw_on_record :: bool
  rw_rest :: 'w

record 'w tool_adapter =
  tl_name :: string
  tl_side_effects :: bool
  tl_needs :: "string list"
  tl_execute :: "json_object \<Rightarrow> tool_ctx \<Rightarrow> 'w run_world \<Rightarrow> (thrown + tool_result) \<times> 'w run_world"

record llm_response =
  lr_content :: string
  lr_calls :: "tool_call list"
  lr_stop :: bool

text \<open>What a run finds out before its first answer: the tools of the plan, those that are ready, and the prompt.\<close>

record 'w prepared_run =
  pr_entitled :: "string list"
  pr_tools :: "'w tool_adapter list"
  pr_all_auto_book :: bool
  pr_prompt :: string

datatype bot_language = English | Dutch | French

text \<open>
  The surroundings of a run. A call of the model that is not answered in time is a thrown value; a
  translation that fails or is late is \<^term>\<open>None\<close>. \<open>ev_format\<close> gives the title of a slot, its date and its time.
\<close>

record 'w run_env =
  ev_parsers :: time_parsers
  ev_now :: "'w \<Rightarrow> instant"
  ev_link :: "'w \<Rightarrow> redis_link"
  ev_prepare :: "'w run_world \<Rightarrow> (thrown + 'w prepared_run) \<times> 'w run_world"
  ev_exhausted :: "'w \<Rightarrow> (thrown + bool) \<times> 'w"
  ev_chat :: "chat_message list \<Rightarrow> string list option \<Rightarrow> 'w \<Rightarrow> (thrown + llm_response) \<times> 'w"
  ev_meter :: "'w \<Rightarrow> (thrown + unit) \<times> 'w"
  ev_translate :: "string \<Rightarrow> string \<Rightarrow> 'w \<Rightarrow> string option \<times> 'w"
  ev_saves :: "'w \<Rightarrow> bool"
  ev_format :: "bot_language \<Rightarrow> string \<Rightarrow> instant \<Rightarrow> string \<times> string \<times> string"

abbreviation env_now :: "'w run_env \<Rightarrow> 'w run_world \<Rightarrow> instant" where "env_now env w \<equiv> ev_now env (rw_rest w)"
abbreviation env_link :: "'w run_env \<Rightarrow> 'w run_world \<Rightarrow> redis_link" where "env_link env w \<equiv> ev_link env (rw_rest w)"

record 'w run_ctx =
  rc_message :: string
  rc_history :: "chat_message list"
  rc_run :: nat
  rc_channel :: string
  rc_tools :: "'w tool_adapter list"
  rc_booking_armed :: bool
  rc_request_armed :: bool
  rc_availability_armed :: bool
  rc_offer_armed :: bool
  rc_bot_owned :: bool
  rc_fallback :: string
  rc_language :: "string option"

text \<open>The calls of tools in the trace: one that ran, one that threw, one whose precondition failed, one already done.\<close>

datatype traced =
    Ran string json_object tool_result
  | Threw string json_object string
  | Unmet string json_object "string list"
  | AlreadyDone string json_object

record run_state =
  rs_messages :: "chat_message list"
  rs_tools_called :: "string list"
  rs_available :: "tool_availability option"
  rs_affordance :: "affordance option"
  rs_booking :: bool
  rs_request :: bool
  rs_tool_ok :: bool
  rs_performed :: "string list"
  rs_yes_nudged :: bool
  rs_corrected :: bool
  rs_request_corrected :: bool
  rs_availability_corrected :: bool
  rs_forced :: bool
  rs_promise_corrected :: bool
  rs_checked :: bool
  rs_held :: bool
  rs_time_refused :: bool
  rs_address :: "address_fact option"
  rs_address_conflict :: bool
  rs_address_corrected :: bool
  rs_address_only :: bool
  rs_escalated :: bool
  rs_price :: bool
  rs_trace :: "traced list"

definition new_run_loop_state :: run_state where
  "new_run_loop_state =
     \<lparr>rs_messages = [], rs_tools_called = [], rs_available = None, rs_affordance = None, rs_booking = False,
      rs_request = False, rs_tool_ok = False, rs_performed = [], rs_yes_nudged = False, rs_corrected = False,
      rs_request_corrected = False, rs_availability_corrected = False, rs_forced = False,
      rs_promise_corrected = False, rs_checked = False, rs_held = False, rs_time_refused = False,
      rs_address = None, rs_address_conflict = False, rs_address_corrected = False, rs_address_only = False,
      rs_escalated = False, rs_price = False, rs_trace = []\<rparr>"

definition max_iterations :: nat where "max_iterations = 10"

definition pushed :: "chat_message list \<Rightarrow> run_state \<Rightarrow> run_state" where
  "pushed ms st = st\<lparr>rs_messages := rs_messages st @ ms\<rparr>"

definition booking_claim_outruns_record :: "string \<Rightarrow> run_state \<Rightarrow> bool" where
  "booking_claim_outruns_record text st =
     (let t = js_lower text in
      if claims_booked_for_agent_nudge t then True
      else if rs_tool_ok st then False
      else if claims_booking_request_for_agent_nudge t then True
      else \<not> rs_request st \<and> claims_request_sent_for_agent_nudge t)"

section \<open>What a tool's result changes\<close>

definition booking_mutation_tools :: "string list" where
  "booking_mutation_tools = [''create_booking'', ''request_appointment'', ''reschedule_booking'', ''cancel_booking'', ''update_booking'']"

definition request_recording_tools :: "string list" where
  "request_recording_tools = [''capture_lead'', ''escalate_to_human''] @ booking_mutation_tools"

definition is_request_outcome :: "string \<Rightarrow> tool_result \<Rightarrow> bool" where
  "is_request_outcome name r = (name = ''request_appointment'' \<or> map_of (tr_data r) ''requested'' = Some (JBool True))"

definition absorb_recorded_outcome :: "string \<Rightarrow> tool_result \<Rightarrow> run_state \<Rightarrow> run_state" where
  "absorb_recorded_outcome name r st =
     (if \<not> tr_success r then st
      else if name = ''capture_lead'' then
        (if map_of (tr_data r) ''captured'' = Some (JBool True) then st\<lparr>rs_request := True\<rparr> else st)
      else if name = ''escalate_to_human'' then st\<lparr>rs_request := True\<rparr>
      else if name \<notin> set booking_mutation_tools then st
      else if is_request_outcome name r then st\<lparr>rs_tool_ok := True, rs_request := True\<rparr>
      else st\<lparr>rs_tool_ok := True, rs_booking := True\<rparr>)"

definition slot_not_offerable :: string where
  "slot_not_offerable =
     ''That time is not one this business can take. It may be outside their opening hours, on a day ''
     @ ''they are closed, sooner than the notice they need, further ahead than they book, or the day ''
     @ ''may already be full. Do NOT say it was just taken and do NOT say it is unavailable without ''
     @ ''explanation. Call check_availability for that day and the days around it, then offer the ''
     @ ''customer the times that actually exist. Do not hand the conversation to a human, do not use ''
     @ ''the fallback message, and do NOT capture it with request_appointment or offer to have anyone ''
     @ ''confirm it by hand: this service books automatically and another time will book outright.''"

definition slot_not_offerable_on_reschedule :: string where
  "slot_not_offerable_on_reschedule =
     ''That time is not one this business can take, and the existing appointment has NOT been ''
     @ ''changed. It may be outside their opening hours, on a day they are closed, sooner than the ''
     @ ''notice they need, further ahead than they book, or the day may already be full. Do NOT say it ''
     @ ''was just taken. Say both of those things, call check_availability for that day, and offer the ''
     @ ''times that actually exist. Do not hand the conversation to a human, do not use the fallback ''
     @ ''message, and do NOT capture it with request_appointment: a move is not a new request, and ''
     @ ''another time will book outright.''"

definition rule_refused_slot :: "string list" where
  "rule_refused_slot = map (\<lambda>m. ''SLOT_UNAVAILABLE: '' @ m) [slot_not_offerable, slot_not_offerable_on_reschedule]"

definition refused_by_clock_rule :: "string \<Rightarrow> bool" where
  "refused_by_clock_rule err = (js_starts_with ''REQUEST_OUTSIDE_WINDOW:'' err \<or> err \<in> set rule_refused_slot)"

definition refused_time_args :: "string list" where
  "refused_time_args = [''startDate'', ''startTime'', ''newStartTime'', ''preferredTime'']"

definition suggests :: "string \<Rightarrow> tool_result \<Rightarrow> bool" where
  "suggests action r = (map_of (tr_data r) ''suggestedAction'' = Some (JStr action))"

definition customer_time_text :: "'w run_ctx \<Rightarrow> string" where
  "customer_time_text ctx = latest_customer_time_text (map said (rc_history ctx) @ [(Customer, rc_message ctx)])"

definition absorb_named_time_refusal ::
  "'w run_env \<Rightarrow> 'w run_ctx \<Rightarrow> string \<Rightarrow> json_object \<Rightarrow> tool_result \<Rightarrow> run_state \<times> 'w run_world \<Rightarrow> run_state \<times> 'w run_world" where
  "absorb_named_time_refusal env ctx name args r sw =
     (let (st, w) = sw;
          horizon_check = (name = ''check_availability'' \<and> tr_success r \<and> suggests ''check_availability'' r);
          horizon_mutation = (name \<in> set booking_mutation_tools \<and> \<not> tr_success r
                              \<and> (case tr_error r of None \<Rightarrow> False | Some e \<Rightarrow> refused_by_clock_rule e))
      in if \<not> horizon_check \<and> \<not> horizon_mutation then (st, w)
         else
           (let date_arg = (case filter (\<lambda>v. v \<noteq> []) (List.map_filter (\<lambda>k. arg_typed_string k args) refused_time_args) of
                              [] \<Rightarrow> [] | v # _ \<Rightarrow> v);
                local_date = (case re_first_match False (regex_of ''^(%d{4}-%d{2}-%d{2})'') date_arg of
                                None \<Rightarrow> None | Some h \<Rightarrow> re_cap 1 h);
                clocks = parse_clock_times (customer_time_text ctx)
            in (st\<lparr>rs_time_refused := True\<rparr>,
                case (local_date, clocks) of
                  (Some day, c # _) \<Rightarrow>
                    w\<lparr>rw_store := remember_refused_named_time (env_link env w) (env_now env w) day (ct_key c) (rw_store w)\<rparr>
                | _ \<Rightarrow> w)))"

definition absorb_availability :: "tool_availability \<Rightarrow> run_state \<Rightarrow> run_state" where
  "absorb_availability a st = st\<lparr>rs_available := Some a\<rparr>"

text \<open>The parts of \<open>absorbToolResult\<close>, in its order: the escalation, the fact to state, the control.\<close>

definition absorb_escalation :: "'w run_ctx \<Rightarrow> string \<Rightarrow> tool_result \<Rightarrow> run_state \<Rightarrow> run_state" where
  "absorb_escalation ctx name r st =
     (if name = ''escalate_to_human'' \<and> tr_success r \<and> rc_bot_owned ctx then st\<lparr>rs_escalated := True\<rparr> else st)"

definition absorb_address_fact :: "tool_result \<Rightarrow> run_state \<Rightarrow> run_state" where
  "absorb_address_fact r st =
     (case (tr_success r, tr_fact r) of
        (True, Some f) \<Rightarrow>
          (case merge_address_facts (rs_address st) f of
             (f', conflict) \<Rightarrow> st\<lparr>rs_address := Some f', rs_address_conflict := rs_address_conflict st \<or> conflict\<rparr>)
      | _ \<Rightarrow> st)"

definition absorb_affordance :: "string \<Rightarrow> tool_result \<Rightarrow> run_state \<Rightarrow> run_state" where
  "absorb_affordance name r st =
     (case tr_affordance r of
        Some a \<Rightarrow> st\<lparr>rs_affordance := Some a\<rparr>
      | None \<Rightarrow>
          if name = ''check_availability'' \<and> (case rs_affordance st of None \<Rightarrow> False | Some a \<Rightarrow> is_picker a)
          then st\<lparr>rs_affordance := None\<rparr> else st)"

definition absorb_offer ::
  "'w run_env \<Rightarrow> string \<Rightarrow> tool_result \<Rightarrow> run_state \<times> 'w run_world \<Rightarrow> run_state \<times> 'w run_world" where
  "absorb_offer env name r sw =
     (let (st, w) = sw in
      case (name = ''check_availability'' \<and> tr_success r, tr_availability r) of
        (True, Some a) \<Rightarrow>
          (let st' = absorb_availability a st
           in (if suggests ''confirm_existing'' r then st'\<lparr>rs_available := None, rs_held := True\<rparr> else st', w))
      | _ \<Rightarrow>
          if name \<in> set booking_mutation_tools \<and> tr_success r
          then (st\<lparr>rs_available := None, rs_affordance := None\<rparr>,
                w\<lparr>rw_store := clear_refused_named_time (env_link env w) (rw_store w)\<rparr>)
          else (st, w))"

definition absorb_tool_result ::
  "'w run_env \<Rightarrow> 'w run_ctx \<Rightarrow> string \<Rightarrow> json_object \<Rightarrow> tool_result \<Rightarrow> run_state \<times> 'w run_world \<Rightarrow> run_state \<times> 'w run_world" where
  "absorb_tool_result env ctx name args r sw =
     (let (st, w) = sw;
          st1 = absorb_affordance name r (absorb_address_fact r (absorb_recorded_outcome name r (absorb_escalation ctx name r st)));
          st2 = (if name = ''check_availability'' then st1\<lparr>rs_checked := True\<rparr> else st1)
      in absorb_offer env name r (absorb_named_time_refusal env ctx name args r (st2, w)))"

definition remember_request_on_record :: "'w run_env \<Rightarrow> run_state \<Rightarrow> 'w run_world \<Rightarrow> 'w run_world" where
  "remember_request_on_record env st w =
     (if \<not> (rs_booking st \<or> rs_request st) \<or> rw_on_record w \<or> \<not> ev_saves env (rw_rest w) then w
      else w\<lparr>rw_on_record := True\<rparr>)"

definition model_payload_for :: "string \<Rightarrow> tool_result \<Rightarrow> run_state \<Rightarrow> json_object \<times> run_state" where
  "model_payload_for name r st =
     (if tr_success r then
        (tr_data r, if name = ''kb_search'' \<and> contains_currency_amount (json_text (JObj (tr_data r)))
                    then st\<lparr>rs_price := True\<rparr> else st)
      else if tr_safe r then ((case tr_error r of None \<Rightarrow> [] | Some e \<Rightarrow> [(''error'', JStr e)]), st)
      else ([(''error'', JStr (''The '' @ name @ '' tool couldn't complete that request right now.''))], st))"

text \<open>The same with one test behind the other, for evaluation.\<close>

lemma model_payload_for_code [code]:
  "model_payload_for name r st =
     (if tr_success r then
        (tr_data r, if name = ''kb_search''
                    then (if contains_currency_amount (json_text (JObj (tr_data r))) then st\<lparr>rs_price := True\<rparr> else st)
                    else st)
      else if tr_safe r then ((case tr_error r of None \<Rightarrow> [] | Some e \<Rightarrow> [(''error'', JStr e)]), st)
      else ([(''error'', JStr (''The '' @ name @ '' tool couldn't complete that request right now.''))], st))"
  by (simp add: model_payload_for_def)

section \<open>One call of a tool\<close>

definition find_tool :: "'w run_ctx \<Rightarrow> string \<Rightarrow> 'w tool_adapter option" where
  "find_tool ctx name = find (\<lambda>t. tl_name t = name) (rc_tools ctx)"

definition side_effect_sig :: "string \<Rightarrow> json_object \<Rightarrow> string" where
  "side_effect_sig name args = name @ '':'' @ json_text (JObj args)"

definition tool_says :: "tool_call \<Rightarrow> json_object \<Rightarrow> run_state \<Rightarrow> run_state" where
  "tool_says call payload st = pushed [ToolMsg (tc_id call) payload] st"

definition traced_call :: "traced \<Rightarrow> run_state \<Rightarrow> run_state" where
  "traced_call e st = st\<lparr>rs_trace := rs_trace st @ [e]\<rparr>"

definition tool_ctx_of :: "'w run_ctx \<Rightarrow> run_state \<Rightarrow> tool_ctx" where
  "tool_ctx_of ctx st =
     \<lparr>tx_history = rs_messages st, tx_run = rc_run ctx, tx_channel = rc_channel ctx,
      tx_bot_owned = Some (rc_bot_owned ctx), tx_time_refused = rs_time_refused st\<rparr>"

text \<open>What follows a tool that returned.\<close>

definition tool_returned ::
  "'w run_env \<Rightarrow> 'w run_ctx \<Rightarrow> 'w tool_adapter \<Rightarrow> tool_call \<Rightarrow> tool_result \<Rightarrow> run_state \<times> 'w run_world \<Rightarrow> run_state \<times> 'w run_world" where
  "tool_returned env ctx tool call r sw =
     (let (st, w) = sw; name = tl_name tool; sig = side_effect_sig name (tc_args call);
          st1 = st\<lparr>rs_tools_called := rs_tools_called st @ [name],
                   rs_performed := (if tl_side_effects tool \<and> tr_success r then sig # rs_performed st else rs_performed st)\<rparr>;
          (st2, w2) = absorb_tool_result env ctx name (tc_args call) r (st1, w);
          w3 = remember_request_on_record env st2 w2;
          (payload, st3) = model_payload_for name r st2
      in (traced_call (Ran name (tc_args call) r) (tool_says call payload st3), w3))"

definition execute_tool_call ::
  "'w run_env \<Rightarrow> 'w run_ctx \<Rightarrow> tool_call \<Rightarrow> run_state \<times> 'w run_world \<Rightarrow> run_state \<times> 'w run_world" where
  "execute_tool_call env ctx call sw =
     (let (st, w) = sw; args = tc_args call in
      case find_tool ctx (tc_name call) of
        None \<Rightarrow> (tool_says call [(''error'', JStr (''Unknown tool: '' @ tc_name call))] st, w)
      | Some tool \<Rightarrow>
          (let name = tl_name tool; unmet = filter (\<lambda>t. t \<notin> set (rs_tools_called st)) (tl_needs tool) in
           if unmet \<noteq> [] then
             (traced_call (Unmet name args unmet)
                (tool_says call [(''error'', JStr (''Must call '' @ joined '', '' unmet @ '' before '' @ name))] st), w)
           else if tl_side_effects tool \<and> side_effect_sig name args \<in> set (rs_performed st) then
             (traced_call (AlreadyDone name args)
                (tool_says call [(''note'', JStr ''already_performed''), (''tool'', JStr name)] st), w)
           else
             (case tl_execute tool args (tool_ctx_of ctx st) w of
                (Inr r, w') \<Rightarrow> tool_returned env ctx tool call r (st, w')
              | (Inl e, w') \<Rightarrow>
                  (traced_call (Threw name args (th_message e))
                     (tool_says call [(''error'', JStr (''The '' @ name @ '' tool is temporarily unavailable. Do not retry it this turn.''))] st),
                   w'))))"

section \<open>Offers on screen\<close>

definition resolve_bot_language :: "string option \<Rightarrow> bot_language" where
  "resolve_bot_language stored =
     (if stored = Some ''nl'' then Dutch else if stored = Some ''fr'' then French else English)"

definition slot_chip_value :: "bot_language \<Rightarrow> string \<Rightarrow> string \<Rightarrow> string \<Rightarrow> string" where
  "slot_chip_value language service date time =
     (case language of
        Dutch \<Rightarrow> if service \<noteq> [] then ''Boek '' @ service @ '' op '' @ date @ '' om '' @ time else ''Boek '' @ date @ '' om '' @ time
      | French \<Rightarrow>
          if service \<noteq> [] then ''R'' @ [e_acute] @ ''servez '' @ service @ '' le '' @ date @ '' '' @ [char_of (224 :: nat)] @ '' '' @ time
          else ''R'' @ [e_acute] @ ''servez le '' @ date @ '' '' @ [char_of (224 :: nat)] @ '' '' @ time
      | English \<Rightarrow> if service \<noteq> [] then ''Book '' @ service @ '' on '' @ date @ '' at '' @ time else ''Book '' @ date @ '' at '' @ time)"

record quick_reply =
  qr_title :: string
  qr_value :: string

definition slot_chip_quick_reply :: "'w run_env \<Rightarrow> instant \<Rightarrow> string \<Rightarrow> bot_language \<Rightarrow> string option \<Rightarrow> quick_reply" where
  "slot_chip_quick_reply env start tz language service =
     (case ev_format env language tz start of
        (title, date, time) \<Rightarrow>
          \<lparr>qr_title = title, qr_value = slot_chip_value language (js_trim (nullish service [])) date time\<rparr>)"

definition offer_zone :: "'w run_env \<Rightarrow> tool_availability \<Rightarrow> zone option" where
  "offer_zone env a = tp_zone (ev_parsers env) (ta_timezone a)"

definition build_slot_quick_replies ::
  "'w run_env \<Rightarrow> tool_availability option \<Rightarrow> bot_language \<Rightarrow> bool \<Rightarrow> string \<Rightarrow> instant \<Rightarrow> quick_reply list option" where
  "build_slot_quick_replies env av language exact_clock customer now =
     (case av of
        None \<Rightarrow> None
      | Some a \<Rightarrow>
          if ta_slots a = [] then None
          else if (case ta_window a of None \<Rightarrow> False | Some (win, matched) \<Rightarrow> \<not> matched \<and> is_day_part_clock_window win)
                  \<and> \<not> exact_clock then None
          else (let candidates = (if customer \<noteq> [] then chip_candidate_slots customer (ta_slots a) (offer_zone env a) now
                                  else ta_slots a)
                in Some (map (\<lambda>(s, e). slot_chip_quick_reply env s (ta_timezone a) language (ta_service_name a)) (take 8 candidates))))"

record offered_times =
  ot_requestable :: "string list"
  ot_deliverable :: "string list option"
  ot_everything :: "string list option"
  ot_confirmable :: "string list option"
  ot_lengths :: "int list"

definition slot_length_minutes :: "chat_slot \<Rightarrow> int" where
  "slot_length_minutes s = (snd s - fst s + 30000) div 60000"

definition offered_time_sets :: "'w run_env \<Rightarrow> tool_availability option \<Rightarrow> offered_times" where
  "offered_time_sets env av =
     (case av of
        None \<Rightarrow> \<lparr>ot_requestable = [], ot_deliverable = None, ot_everything = None, ot_confirmable = None, ot_lengths = []\<rparr>
      | Some a \<Rightarrow>
          (let tz = offer_zone env a;
               requestable = nullish (local_clock_times (ta_requestable a) tz) [];
               confirmable = local_clock_times (ta_slots a) tz
           in \<lparr>ot_requestable = requestable,
               ot_deliverable = map_option (\<lambda>l. l @ requestable) (local_clock_times (take 8 (ta_slots a)) tz),
               ot_everything = Some (nullish confirmable [] @ requestable),
               ot_confirmable = confirmable,
               ot_lengths = first_of_each [] (filter (\<lambda>m. m > 0) (map slot_length_minutes (ta_slots a @ ta_requestable a)))\<rparr>))"

record offer_payload =
  op_service :: "string option"
  op_location :: "string option"
  op_starts :: "instant list"

definition build_offer_payload :: "tool_availability \<Rightarrow> nat \<Rightarrow> offer_payload" where
  "build_offer_payload a chips =
     \<lparr>op_service = ta_service a, op_location = ta_location_mode a, op_starts = map fst (take chips (ta_slots a))\<rparr>"

section \<open>The sentences the program ships itself\<close>

text \<open>A dash, which is above 255, is left out of them.\<close>

definition address_conflict_fallback :: string where
  "address_conflict_fallback =
     ''Sorry, I can't safely confirm which address was used. Please verify the appointment address with the business.''"

definition availability_safe_fallback :: string where
  "availability_safe_fallback = ''Here are the times I have available  let me know which one suits you.''"

definition unbookable_time_fallback :: string where
  "unbookable_time_fallback = ''That time is not available. Here are the times I have  let me know which one suits you.''"

definition no_slots_on_screen_fallback :: string where
  "no_slots_on_screen_fallback = ''I cannot confirm that time. Tell me which time suits you and I will check it for you.''"

definition promised_check_fallback :: string where
  "promised_check_fallback = ''Which day and time would you like? Tell me and I will come back with the times.''"

definition check_failed_fallback :: string where
  "check_failed_fallback =
     ''I cannot see the diary at the moment. Which day and time would suit you? I will pass your preference to the business.''"

definition no_confirmable_times_fallback :: string where
  "no_confirmable_times_fallback =
     ''I have no times I can confirm for that period. Which day and time would suit you? I will pass your preference to the business.''"

definition already_held_fallback :: string where
  "already_held_fallback =
     ''You already hold that time. Which day and time would suit you if you want a different one? I will pass your preference to the business.''"

definition booking_safe_fallback :: string where
  "booking_safe_fallback =
     ''Sorry, let me just confirm a couple of details before I put that through  could you confirm the date and time you'd like?''"

definition request_safe_fallback :: string where
  "request_safe_fallback =
     ''Sorry, let me just confirm a couple of details first. Could you tell me again what you need, and how the team can best reach you?''"

definition own_sentences :: "string list" where
  "own_sentences =
     [availability_safe_fallback, unbookable_time_fallback, no_slots_on_screen_fallback, promised_check_fallback,
      check_failed_fallback, no_confirmable_times_fallback, already_held_fallback, booking_safe_fallback, request_safe_fallback]"

definition in_customer_language :: "'w run_env \<Rightarrow> string \<Rightarrow> 'w run_ctx \<Rightarrow> 'w run_world \<Rightarrow> string \<times> 'w run_world" where
  "in_customer_language env sentence ctx w =
     (case ev_translate env sentence (rc_message ctx) (rw_rest w) of
        (t, r) \<Rightarrow> (nullish t sentence, w\<lparr>rw_rest := r\<rparr>))"

text \<open>A note to the model in the customer's place, by the name the source gives it.\<close>

definition internal_note :: "string \<Rightarrow> chat_message" where
  "internal_note name = UserMsg (''(Internal note, not from the customer.) '' @ name)"

definition pending_move_yes_note :: "string \<times> string \<times> string option \<Rightarrow> chat_message" where
  "pending_move_yes_note move =
     (case move of (booking, start, address) \<Rightarrow>
        internal_note (''Call reschedule_booking now with bookingId '' @ json_quoted booking @ '' and newStartTime '' @ json_quoted start
          @ (case address of None \<Rightarrow> [] | Some a \<Rightarrow> '' and customerAddress '' @ json_quoted a)))"

definition corrected_by :: "string \<Rightarrow> chat_message \<Rightarrow> run_state \<Rightarrow> run_state" where
  "corrected_by content msg st = pushed [AssistantMsg content [], msg] st"

section \<open>Results\<close>

record reply =
  rp_content :: string
  rp_chips :: "quick_reply list option"
  rp_affordance :: "affordance option"
  rp_offer :: "offer_payload option"
  rp_context :: "validation_context option"
  rp_handoff :: bool

datatype agent_result =
    Response reply
  | MaxIterations bool
  | BudgetExceeded string bool
  | Failed string string bool bool

text \<open>\<^const>\<open>Failed\<close>: the error, the fallback, whether the provider failed, and the handoff.\<close>

fun handoff_requested :: "agent_result \<Rightarrow> bool" where
  "handoff_requested (Response r) = rp_handoff r"
| "handoff_requested (MaxIterations h) = h"
| "handoff_requested (BudgetExceeded f h) = h"
| "handoff_requested (Failed e f i h) = h"

text \<open>The result of a guard that replaces the reply.\<close>

definition own_reply :: "string \<Rightarrow> run_state \<Rightarrow> agent_result" where
  "own_reply content st =
     Response \<lparr>rp_content = content, rp_chips = None, rp_affordance = rs_affordance st, rp_offer = None,
               rp_context = None, rp_handoff = rs_escalated st\<rparr>"

datatype verdict = Content string | Retry | Result agent_result

definition replaced_by ::
  "'w run_env \<Rightarrow> 'w run_ctx \<Rightarrow> string \<Rightarrow> run_state \<times> 'w run_world \<Rightarrow> verdict \<times> run_state \<times> 'w run_world" where
  "replaced_by env ctx sentence sw =
     (let (st, w) = sw; (t, w') = in_customer_language env sentence ctx w in (Result (own_reply t st), st, w'))"

section \<open>The guards of a reply\<close>

text \<open>The iteration is counted from 0; a guard asks for one more only when there is one.\<close>

definition may_retry :: "nat \<Rightarrow> bool" where
  "may_retry i = (i + 1 < max_iterations)"

definition apply_address_guard :: "nat \<Rightarrow> string \<Rightarrow> run_state \<Rightarrow> verdict \<times> run_state" where
  "apply_address_guard i content st =
     (if rs_address_conflict st then (Content address_conflict_fallback, st)
      else (case rs_address st of
          None \<Rightarrow> (Content content, st)
        | Some f \<Rightarrow>
            if valid_address_reply content f then (Content content, st)
            else if \<not> rs_address_corrected st \<and> may_retry i then
              (Retry, corrected_by content (internal_note (''State this exact address: '' @ af_address f))
                        (st\<lparr>rs_address_corrected := True, rs_address_only := True\<rparr>))
            else (Content (address_safe_fallback f), st)))"

definition apply_booking_claim_guard ::
  "'w run_env \<Rightarrow> 'w run_ctx \<Rightarrow> nat \<Rightarrow> string \<Rightarrow> run_state \<times> 'w run_world \<Rightarrow> verdict \<times> run_state \<times> 'w run_world" where
  "apply_booking_claim_guard env ctx i content sw =
     (let (st, w) = sw in
      if \<not> rc_booking_armed ctx \<or> rs_booking st \<or> \<not> booking_claim_outruns_record content st then (Content content, st, w)
      else if \<not> rs_corrected st \<and> may_retry i then
        (Retry, corrected_by content (internal_note ''BOOKING_CORRECTION_NOTE'') (st\<lparr>rs_corrected := True\<rparr>), w)
      else replaced_by env ctx booking_safe_fallback (st, w))"

definition apply_request_claim_guard ::
  "'w run_env \<Rightarrow> 'w run_ctx \<Rightarrow> nat \<Rightarrow> string \<Rightarrow> run_state \<times> 'w run_world \<Rightarrow> verdict \<times> run_state \<times> 'w run_world" where
  "apply_request_claim_guard env ctx i content sw =
     (let (st, w) = sw in
      if \<not> rc_request_armed ctx \<or> rs_booking st \<or> rs_request st \<or> \<not> claims_request_forwarded content then (Content content, st, w)
      else if \<not> rs_request_corrected st \<and> may_retry i then
        (Retry, corrected_by content (internal_note ''REQUEST_CORRECTION_NOTE'') (st\<lparr>rs_request_corrected := True\<rparr>), w)
      else replaced_by env ctx request_safe_fallback (st, w))"

text \<open>The tests of these two one behind the other, for evaluation.\<close>

lemma apply_booking_claim_guard_code [code]:
  "apply_booking_claim_guard env ctx i content sw =
     (let (st, w) = sw in
      if \<not> rc_booking_armed ctx then (Content content, st, w)
      else if rs_booking st then (Content content, st, w)
      else if \<not> booking_claim_outruns_record content st then (Content content, st, w)
      else if \<not> rs_corrected st \<and> may_retry i then
        (Retry, corrected_by content (internal_note ''BOOKING_CORRECTION_NOTE'') (st\<lparr>rs_corrected := True\<rparr>), w)
      else replaced_by env ctx booking_safe_fallback (st, w))"
  by (cases sw) (simp add: apply_booking_claim_guard_def)

lemma apply_request_claim_guard_code [code]:
  "apply_request_claim_guard env ctx i content sw =
     (let (st, w) = sw in
      if \<not> rc_request_armed ctx then (Content content, st, w)
      else if rs_booking st then (Content content, st, w)
      else if rs_request st then (Content content, st, w)
      else if \<not> claims_request_forwarded content then (Content content, st, w)
      else if \<not> rs_request_corrected st \<and> may_retry i then
        (Retry, corrected_by content (internal_note ''REQUEST_CORRECTION_NOTE'') (st\<lparr>rs_request_corrected := True\<rparr>), w)
      else replaced_by env ctx request_safe_fallback (st, w))"
  by (cases sw) (simp add: apply_request_claim_guard_def)

text \<open>The next two answer whether the run owes the model one more iteration.\<close>

definition apply_pending_yes_guard ::
  "'w run_env \<Rightarrow> 'w run_ctx \<Rightarrow> nat \<Rightarrow> string \<Rightarrow> run_state \<times> 'w run_world \<Rightarrow> bool \<times> run_state" where
  "apply_pending_yes_guard env ctx i content sw =
     (let (st, w) = sw; history = rs_messages st @ [UserMsg (rc_message ctx)];
          tp = ev_parsers env; link = env_link env w; now = env_now env w in
      if rs_tool_ok st \<or> \<not> rc_booking_armed ctx \<or> rs_yes_nudged st \<or> \<not> may_retry i then (False, st)
      else if pending_yes_needs_create tp link now history (rw_store w) then
        (True, corrected_by content (internal_note ''PENDING_YES_NOTE'') (st\<lparr>rs_yes_nudged := True\<rparr>))
      else (case pending_yes_needs_reschedule tp link now history (rw_store w) of
              None \<Rightarrow> (False, st)
            | Some move \<Rightarrow> (True, corrected_by content (pending_move_yes_note move) (st\<lparr>rs_yes_nudged := True\<rparr>))))"

definition named_check_date :: "'w run_ctx \<Rightarrow> instant \<Rightarrow> string \<Rightarrow> string option" where
  "named_check_date ctx now content =
     (let year = fst (civil_of_days (now div day_ms));
          customer = List.map_filter (\<lambda>m. case said m of (Customer, t) \<Rightarrow> Some t | _ \<Rightarrow> None) (rc_history ctx);
          sources = rc_message ctx # rev customer @ [content]
      in (case concat (map (\<lambda>t. parse_calendar_dates t year) sources) of [] \<Rightarrow> None | d # _ \<Rightarrow> Some d))"

definition force_availability_check ::
  "'w run_env \<Rightarrow> 'w run_ctx \<Rightarrow> string \<Rightarrow> run_state \<times> 'w run_world \<Rightarrow> bool \<times> run_state \<times> 'w run_world" where
  "force_availability_check env ctx content sw =
     (let (st, w) = sw in
      if rs_forced st \<or> rs_checked st \<or> find_tool ctx ''check_availability'' = None then (False, st, w)
      else (case named_check_date ctx (env_now env w) content of
          None \<Rightarrow> (False, st, w)
        | Some date \<Rightarrow>
            (let call = \<lparr>tc_id = ''forced_availability_'' @ take 8 (show_nat (rc_run ctx)), tc_name = ''check_availability'',
                         tc_args = [(''startDate'', JStr date), (''endDate'', JStr date)]\<rparr>;
                 (st', w') = execute_tool_call env ctx call (pushed [AssistantMsg [] [call]] (st\<lparr>rs_forced := True\<rparr>), w)
             in (True, pushed [internal_note ''AVAILABILITY_FORCED_CHECK_NOTE''] st', w'))))"

definition apply_availability_claim_guard ::
  "'w run_env \<Rightarrow> 'w run_ctx \<Rightarrow> nat \<Rightarrow> string \<Rightarrow> run_state \<times> 'w run_world \<Rightarrow> bool \<times> run_state \<times> 'w run_world" where
  "apply_availability_claim_guard env ctx i content sw =
     (let (st, w) = sw in
      if \<not> rc_availability_armed ctx \<or> rs_available st \<noteq> None \<or> rs_held st \<or> rs_tool_ok st \<or> \<not> may_retry i then (False, st, w)
      else
        (let dated = claims_dated_unavailability content;
             offered = (\<not> dated \<and> rc_offer_armed ctx \<and> \<not> rs_checked st \<and> offers_manual_request content
                        \<and> nullish (peek_availability_checked (env_link env w) (env_now env w) (rw_checked w)) [] = [])
         in if \<not> dated \<and> \<not> offered then (False, st, w)
            else if rs_availability_corrected st then force_availability_check env ctx content (st, w)
            else (True, corrected_by content
                     (internal_note (if dated then ''AVAILABILITY_CORRECTION_NOTE'' else ''REQUEST_OFFER_CORRECTION_NOTE''))
                     (st\<lparr>rs_availability_corrected := True\<rparr>), w)))"

definition promised_check_nothing_ran ::
  "'w run_env \<Rightarrow> 'w run_ctx \<Rightarrow> nat \<Rightarrow> string \<Rightarrow> run_state \<times> 'w run_world \<Rightarrow> verdict \<times> run_state \<times> 'w run_world" where
  "promised_check_nothing_ran env ctx i content sw =
     (let (st, w) = sw in
      if \<not> rs_promise_corrected st \<and> may_retry i then
        (Retry, corrected_by content (internal_note ''PROMISED_CHECK_NOTE'') (st\<lparr>rs_promise_corrected := True\<rparr>), w)
      else replaced_by env ctx promised_check_fallback (st, w))"

definition apply_promised_check_guard ::
  "'w run_env \<Rightarrow> 'w run_ctx \<Rightarrow> nat \<Rightarrow> string \<Rightarrow> run_state \<times> 'w run_world \<Rightarrow> verdict \<times> run_state \<times> 'w run_world" where
  "apply_promised_check_guard env ctx i content sw =
     (let (st, w) = sw in
      if \<not> rc_availability_armed ctx \<or> rs_tool_ok st then (Content content, st, w)
      else if \<not> promises_availability_check content (rc_message ctx) then (Content content, st, w)
      else if \<not> rs_checked st then promised_check_nothing_ran env ctx i content (st, w)
      else if (case rs_available st of None \<Rightarrow> False | Some a \<Rightarrow> ta_slots a \<noteq> []) then (Content content, st, w)
      else replaced_by env ctx
             (if rs_held st then already_held_fallback
              else if rs_available st \<noteq> None then no_confirmable_times_fallback else check_failed_fallback) (st, w))"

section \<open>The reply that ships\<close>

definition safe_reply_content ::
  "'w run_env \<Rightarrow> 'w run_ctx \<Rightarrow> string \<Rightarrow> tool_availability option \<Rightarrow> bool \<Rightarrow> 'w run_world \<Rightarrow> string \<times> 'w run_world" where
  "safe_reply_content env ctx content av on_screen w =
     (let times = offered_time_sets env av; deliverable = nullish (ot_deliverable times) [] in
      if av = None \<or> deliverable = [] then (content, w)
      else
        (let judged = collapse_appointment_spans content (ot_lengths times);
             bogus = (if on_screen then unoffered_times_in judged deliverable else []);
             invented = (if bogus \<noteq> [] then None else unoffered_single_time_in judged (nullish (ot_everything times) deliverable));
             flagged = (if bogus \<noteq> [] then bogus else (case invented of None \<Rightarrow> [] | Some t \<Rightarrow> [t]))
         in if flagged = [] then (content, w)
            else
              (let named = map ct_key (parse_clock_times (customer_time_text ctx));
                   theirs = list_ex (\<lambda>t. list_ex (\<lambda>c. ct_key c \<in> set named) (parse_clock_times t)) flagged
               in in_customer_language env
                    (if \<not> on_screen then no_slots_on_screen_fallback
                     else if theirs \<or> invented \<noteq> None then unbookable_time_fallback else availability_safe_fallback) ctx w)))"

definition already_chose_time :: "'w run_env \<Rightarrow> 'w run_ctx \<Rightarrow> string \<Rightarrow> run_state \<Rightarrow> instant \<Rightarrow> bool" where
  "already_chose_time env ctx content st now =
     (let av = rs_available st; times = offered_time_sets env av; customer = customer_time_text ctx;
          confirmable = nullish (ot_confirmable times) [];
          chose_free = (case av of None \<Rightarrow> names_single_offered_time customer confirmable
                        | Some a \<Rightarrow> names_single_offered_slot customer (ta_slots a) (offer_zone env a) now);
          ruled_out = (case av of
              None \<Rightarrow> unoffered_single_time_in customer (nullish (ot_everything times) []) \<noteq> None
            | Some a \<Rightarrow> unoffered_single_named_slot customer (ta_slots a @ ta_requestable a) (offer_zone env a) now \<noteq> None)
      in \<not> rs_time_refused st \<and> ot_confirmable times \<noteq> None
         \<and> (chose_free \<or> \<not> ruled_out \<and> names_single_offered_time content confirmable))"

definition final_chips :: "'w run_env \<Rightarrow> 'w run_ctx \<Rightarrow> string \<Rightarrow> run_state \<Rightarrow> instant \<Rightarrow> quick_reply list option" where
  "final_chips env ctx content st now =
     (if already_chose_time env ctx content st now then None
      else build_slot_quick_replies env (rs_available st) (resolve_bot_language (rc_language ctx))
             (named_exact_clock (customer_time_text ctx)) (customer_time_text ctx) now)"

definition validation_context_of :: "run_state \<Rightarrow> validation_context" where
  "validation_context_of st =
     \<lparr>vc_booking = rs_booking st, vc_request = rs_request st,
      vc_booking_request = (rs_tool_ok st \<and> \<not> rs_booking st), vc_price = rs_price st\<rparr>"

definition build_final_result ::
  "'w run_env \<Rightarrow> 'w run_ctx \<Rightarrow> string \<Rightarrow> run_state \<times> 'w run_world \<Rightarrow> agent_result \<times> run_state \<times> 'w run_world" where
  "build_final_result env ctx content sw =
     (let (st, w) = sw; chips = final_chips env ctx content st (env_now env w); shown = length (nullish chips []);
          (safe, w') = safe_reply_content env ctx content (rs_available st) (shown > 0) w
      in (Response \<lparr>rp_content = safe, rp_chips = chips, rp_affordance = rs_affordance st,
            rp_offer = (case rs_available st of None \<Rightarrow> None
                        | Some a \<Rightarrow> if shown > 0 then Some (build_offer_payload a shown) else None),
            rp_context = Some (validation_context_of st), rp_handoff = rs_escalated st\<rparr>, st, w'))"

section \<open>The loop\<close>

text \<open>\<^term>\<open>None\<close>: the loop owes the model another iteration.\<close>

type_synonym 'w outcome = "agent_result option \<times> run_state \<times> 'w run_world"

definition finalize_guarded ::
  "'w run_env \<Rightarrow> 'w run_ctx \<Rightarrow> nat \<Rightarrow> string \<Rightarrow> run_state \<times> 'w run_world \<Rightarrow> 'w outcome" where
  "finalize_guarded env ctx i content sw =
     (let (st, w) = sw; (nudged, st1) = apply_pending_yes_guard env ctx i content (st, w) in
      if nudged then (None, st1, w)
      else
        (case apply_availability_claim_guard env ctx i content (st1, w) of (again, st2, w2) \<Rightarrow>
          if again then (None, st2, w2)
          else
            (case apply_promised_check_guard env ctx i content (st2, w2) of (v, st3, w3) \<Rightarrow>
              (case v of
                 Retry \<Rightarrow> (None, st3, w3)
               | Result r \<Rightarrow> (Some r, st3, w3)
               | Content c \<Rightarrow> (case build_final_result env ctx c (st3, w3) of (r, st4, w4) \<Rightarrow> (Some r, st4, w4))))))"

definition finalize_iteration ::
  "'w run_env \<Rightarrow> 'w run_ctx \<Rightarrow> nat \<Rightarrow> string \<Rightarrow> run_state \<times> 'w run_world \<Rightarrow> 'w outcome" where
  "finalize_iteration env ctx i content sw =
     (let (st, w) = sw in
      case apply_address_guard i content st of
        (Content c, st1) \<Rightarrow>
          (case apply_booking_claim_guard env ctx i c (st1, w) of
             (Content c2, st2, w2) \<Rightarrow>
               (case apply_request_claim_guard env ctx i c2 (st2, w2) of
                  (Content c3, st3, w3) \<Rightarrow> finalize_guarded env ctx i c3 (st3, w3)
                | (Retry, st3, w3) \<Rightarrow> (None, st3, w3)
                | (Result r, st3, w3) \<Rightarrow> (Some r, st3, w3))
           | (Retry, st2, w2) \<Rightarrow> (None, st2, w2)
           | (Result r, st2, w2) \<Rightarrow> (Some r, st2, w2))
      | (Retry, st1) \<Rightarrow> (None, st1, w)
      | (Result r, st1) \<Rightarrow> (Some r, st1, w))"

definition call_provider_with_retry ::
  "'w run_env \<Rightarrow> chat_message list \<Rightarrow> string list option \<Rightarrow> 'w \<Rightarrow> (thrown + llm_response) \<times> 'w" where
  "call_provider_with_retry env messages tools r =
     (case ev_chat env messages tools r of
        (Inr resp, r1) \<Rightarrow> (Inr resp, r1)
      | (Inl e, r1) \<Rightarrow>
          if \<not> is_retryable_upstream e then (Inl e, r1)
          else (case ev_chat env messages tools r1 of
                  (Inr resp, r2) \<Rightarrow> (Inr resp, r2)
                | (Inl e2, r2) \<Rightarrow> (Inl (if is_upstream_unreachable e2 then upstream_unreachable_error e2 else e2), r2)))"

definition budget_exceeded_result :: "'w run_ctx \<Rightarrow> run_state \<Rightarrow> agent_result" where
  "budget_exceeded_result ctx st =
     BudgetExceeded (if rc_fallback ctx = [] then ''I apologize, but I am temporarily unavailable.'' else rc_fallback ctx) (rs_escalated st)"

fun execute_tool_calls ::
  "'w run_env \<Rightarrow> 'w run_ctx \<Rightarrow> tool_call list \<Rightarrow> run_state \<times> 'w run_world \<Rightarrow> run_state \<times> 'w run_world" where
  "execute_tool_calls env ctx [] sw = sw"
| "execute_tool_calls env ctx (c # cs) sw = execute_tool_calls env ctx cs (execute_tool_call env ctx c sw)"

definition after_response ::
  "'w run_env \<Rightarrow> 'w run_ctx \<Rightarrow> nat \<Rightarrow> llm_response \<Rightarrow> run_state \<times> 'w run_world \<Rightarrow> 'w outcome" where
  "after_response env ctx i resp sw =
     (let (st, w) = sw in
      if lr_stop resp \<or> lr_calls resp = [] \<or> rs_address_only st then finalize_iteration env ctx i (lr_content resp) (st, w)
      else (None, execute_tool_calls env ctx (lr_calls resp) (pushed [AssistantMsg (lr_content resp) (lr_calls resp)] st, w)))"

definition offered_tools :: "'w run_ctx \<Rightarrow> run_state \<Rightarrow> string list option" where
  "offered_tools ctx st = (if \<not> rs_address_only st \<and> rc_tools ctx \<noteq> [] then Some (map tl_name (rc_tools ctx)) else None)"

text \<open>What is thrown leaves the state as it is.\<close>

definition run_iteration ::
  "'w run_env \<Rightarrow> 'w run_ctx \<Rightarrow> nat \<Rightarrow> run_state \<times> 'w run_world \<Rightarrow> thrown option \<times> 'w outcome" where
  "run_iteration env ctx i sw =
     (let (st, w) = sw in
      case ev_exhausted env (rw_rest w) of
        (Inl e, r) \<Rightarrow> (Some e, None, st, w\<lparr>rw_rest := r\<rparr>)
      | (Inr True, r) \<Rightarrow> (None, Some (budget_exceeded_result ctx st), st, w\<lparr>rw_rest := r\<rparr>)
      | (Inr False, r) \<Rightarrow>
          (case call_provider_with_retry env (rs_messages st) (offered_tools ctx st) r of
             (Inl e, r1) \<Rightarrow> (Some e, None, st, w\<lparr>rw_rest := r1\<rparr>)
           | (Inr resp, r1) \<Rightarrow>
               (case ev_meter env r1 of
                  (Inl e, r2) \<Rightarrow> (Some e, None, st, w\<lparr>rw_rest := r2\<rparr>)
                | (Inr _, r2) \<Rightarrow> (None, after_response env ctx i resp (st, w\<lparr>rw_rest := r2\<rparr>)))))"

definition is_infra_failure :: "terminal_kind \<Rightarrow> bool" where
  "is_infra_failure k = (k \<in> {UpstreamQuota, UpstreamRateLimit, UpstreamServerError, UpstreamUnreachable})"

definition terminal_error_result :: "string \<Rightarrow> thrown \<Rightarrow> run_state \<Rightarrow> agent_result" where
  "terminal_error_result fallback e st =
     Failed (th_message e)
       (if fallback = [] then ''Something went wrong. Let me connect you with a human agent.'' else fallback)
       (is_infra_failure (classify_terminal_error e)) (rs_escalated st)"

fun run_loop ::
  "'w run_env \<Rightarrow> 'w run_ctx \<Rightarrow> nat \<Rightarrow> run_state \<times> 'w run_world \<Rightarrow> agent_result \<times> run_state \<times> 'w run_world" where
  "run_loop env ctx 0 sw = (MaxIterations (rs_escalated (fst sw)), sw)"
| "run_loop env ctx (Suc left) sw =
     (case run_iteration env ctx (max_iterations - Suc left) sw of
        (Some e, _, st, w) \<Rightarrow> (terminal_error_result (rc_fallback ctx) e st, st, w)
      | (None, Some r, st, w) \<Rightarrow> (r, st, w)
      | (None, None, st, w) \<Rightarrow> run_loop env ctx left (st, w))"

section \<open>A run\<close>

record turn_input =
  ti_message :: string
  ti_history :: "chat_message list"
  ti_run :: nat
  ti_channel :: string
  ti_bot_owned :: bool
  ti_fallback :: string
  ti_language :: "string option"

text \<open>Which guards of a reply are armed is read off the tools of the plan.\<close>

definition booking_guard_armed :: "'w prepared_run \<Rightarrow> bool" where
  [simp]: "booking_guard_armed p = (''create_booking'' \<in> set (pr_entitled p))"

definition request_guard_armed :: "'w prepared_run \<Rightarrow> bool" where
  [simp]: "request_guard_armed p = list_ex (\<lambda>n. n \<in> set request_recording_tools) (pr_entitled p)"

definition availability_guard_armed :: "'w prepared_run \<Rightarrow> bool" where
  [simp]: "availability_guard_armed p = (''check_availability'' \<in> set (pr_entitled p))"

definition request_offer_guard_armed :: "'w prepared_run \<Rightarrow> bool" where
  [simp]: "request_offer_guard_armed p = (availability_guard_armed p \<and> pr_all_auto_book p)"

definition ctx_of :: "turn_input \<Rightarrow> 'w prepared_run \<Rightarrow> 'w run_ctx" where
  "ctx_of t p =
     \<lparr>rc_message = ti_message t, rc_history = ti_history t, rc_run = ti_run t, rc_channel = ti_channel t,
      rc_tools = pr_tools p,
      rc_booking_armed = booking_guard_armed p, rc_request_armed = request_guard_armed p,
      rc_availability_armed = availability_guard_armed p, rc_offer_armed = request_offer_guard_armed p,
      rc_bot_owned = ti_bot_owned t, rc_fallback = ti_fallback t, rc_language = ti_language t\<rparr>"

definition newline :: char where "newline = char_of (10 :: nat)"

definition opening_state :: "turn_input \<Rightarrow> 'w prepared_run \<Rightarrow> run_state \<Rightarrow> run_state" where
  "opening_state t p st =
     st\<lparr>rs_messages := SystemMsg (pr_prompt p) # ti_history t @ [UserMsg (ti_message t)],
        rs_price := contains_currency_amount (joined [newline] (pr_prompt p # map (snd \<circ> said) (ti_history t)))\<rparr>"

definition agent_run :: "'w run_env \<Rightarrow> turn_input \<Rightarrow> 'w run_world \<Rightarrow> agent_result \<times> run_state \<times> 'w run_world" where
  "agent_run env t w =
     (case refused_named_time_still_applies (env_link env w) (env_now env w) (ti_message t) (rw_store w) of
        (still, store) \<Rightarrow>
          (let w1 = w\<lparr>rw_store := store\<rparr>;
               st = new_run_loop_state\<lparr>rs_time_refused := still, rs_request := rw_on_record w1\<rparr>
           in (case ev_prepare env w1 of
                 (Inl e, w2) \<Rightarrow> (terminal_error_result (ti_fallback t) e st, st, w2)
               | (Inr p, w2) \<Rightarrow> run_loop env (ctx_of t p) max_iterations (opening_state t p st, w2))))"

end
