(* ===== verification/AgentRunProps.thy ===== *)
theory AgentRunProps
  imports AgentRun
begin

text \<open>
  What a run of the agent promises, whatever the model answers, the tools do and fails: a reply claims
  only what the run recorded and states the address that was used, a person is called exactly when the
  tool for it succeeded, no side effect happens twice, raw errors stay out of the model's messages, and
  the chips come from the last look at the diary. Every promise is an invariant of the run's state, kept
  by each call of a tool and each guard.
\<close>

section \<open>What the trace says\<close>

definition ran_ok :: "string \<Rightarrow> traced list \<Rightarrow> bool" where
  "ran_ok name tr = (\<exists>args r. Ran name args r \<in> set tr \<and> tr_success r)"

text \<open>A booking was made, a booking tool succeeded, something was put on record.\<close>

fun booked_by :: "traced \<Rightarrow> bool" where
  "booked_by (Ran name args r) = (tr_success r \<and> name \<in> set booking_mutation_tools \<and> \<not> is_request_outcome name r)"
| "booked_by _ = False"

fun diary_changed_by :: "traced \<Rightarrow> bool" where
  "diary_changed_by (Ran name args r) = (tr_success r \<and> name \<in> set booking_mutation_tools)"
| "diary_changed_by _ = False"

fun recorded_by :: "traced \<Rightarrow> bool" where
  "recorded_by (Ran name args r) =
     (tr_success r
      \<and> (name = ''capture_lead'' \<and> map_of (tr_data r) ''captured'' = Some (JBool True)
         \<or> name = ''escalate_to_human''
         \<or> name \<in> set booking_mutation_tools \<and> is_request_outcome name r))"
| "recorded_by _ = False"

text \<open>A successful call of a tool with side effects, by its signature.\<close>

fun effect_of :: "'w run_ctx \<Rightarrow> traced \<Rightarrow> string option" where
  "effect_of ctx (Ran name args r) =
     (if tr_success r \<and> (\<exists>tool. find_tool ctx name = Some tool \<and> tl_side_effects tool) then Some (side_effect_sig name args) else None)"
| "effect_of ctx _ = None"

definition effects :: "'w run_ctx \<Rightarrow> traced list \<Rightarrow> string list" where
  "effects ctx tr = List.map_filter (effect_of ctx) tr"

text \<open>What the last look at the diary offered, unless it is consumed.\<close>

fun offers_after :: "traced \<Rightarrow> tool_availability option \<Rightarrow> tool_availability option" where
  "offers_after (Ran name args r) av =
     (if name = ''check_availability'' \<and> tr_success r \<and> tr_availability r \<noteq> None
      then (if suggests ''confirm_existing'' r then None else tr_availability r)
      else if name \<in> set booking_mutation_tools \<and> tr_success r then None else av)"
| "offers_after _ av = av"

fun fact_of :: "traced \<Rightarrow> address_fact option" where
  "fact_of (Ran name args r) = (if tr_success r then tr_fact r else None)"
| "fact_of _ = None"

definition add_fact :: "address_fact \<Rightarrow> address_fact option \<times> bool \<Rightarrow> address_fact option \<times> bool" where
  "add_fact f m = (case merge_address_facts (fst m) f of (f', c) \<Rightarrow> (Some f', snd m \<or> c))"

definition facts :: "traced list \<Rightarrow> address_fact option \<times> bool" where
  "facts tr = fold add_fact (List.map_filter fact_of tr) (None, False)"

text \<open>What a tool message may hold: what a tool answered, an error it marked as safe, or words of the loop.\<close>

definition loop_words :: "json_object \<Rightarrow> bool" where
  "loop_words p =
     (\<exists>name. p = [(''error'', JStr (''Unknown tool: '' @ name))]
        \<or> p = [(''error'', JStr (''The '' @ name @ '' tool couldn't complete that request right now.''))]
        \<or> p = [(''error'', JStr (''The '' @ name @ '' tool is temporarily unavailable. Do not retry it this turn.''))]
        \<or> p = [(''note'', JStr ''already_performed''), (''tool'', JStr name)]
        \<or> (\<exists>unmet. p = [(''error'', JStr (''Must call '' @ joined '', '' unmet @ '' before '' @ name))]))"

fun payload_from :: "json_object \<Rightarrow> traced \<Rightarrow> bool" where
  "payload_from p (Ran name args r) =
     (if tr_success r then p = tr_data r
      else tr_safe r \<and> p = (case tr_error r of None \<Rightarrow> [] | Some e \<Rightarrow> [(''error'', JStr e)]))"
| "payload_from p _ = False"

definition vetted_payload :: "traced list \<Rightarrow> json_object \<Rightarrow> bool" where
  "vetted_payload tr p = (loop_words p \<or> list_ex (payload_from p) tr)"

fun tool_payload :: "chat_message \<Rightarrow> json_object option" where
  "tool_payload (ToolMsg i p) = Some p"
| "tool_payload (UserMsg t) = None"
| "tool_payload (AssistantMsg t cs) = None"
| "tool_payload (SystemMsg t) = None"

definition tool_payloads :: "chat_message list \<Rightarrow> json_object list" where
  "tool_payloads ms = List.map_filter tool_payload ms"

lemma map_filter_append [simp]: "List.map_filter f (xs @ ys) = List.map_filter f xs @ List.map_filter f ys"
  by (simp add: List.map_filter_def)

lemma tool_payloads_append [simp]: "tool_payloads (xs @ ys) = tool_payloads xs @ tool_payloads ys"
  by (simp add: tool_payloads_def)

lemma tool_payloads_simps [simp]:
  "tool_payloads [] = []" "tool_payloads (ToolMsg i p # ms) = p # tool_payloads ms"
  "tool_payloads (UserMsg t # ms) = tool_payloads ms" "tool_payloads (SystemMsg t # ms) = tool_payloads ms"
  "tool_payloads (AssistantMsg t cs # ms) = tool_payloads ms"
  by (simp_all add: tool_payloads_def List.map_filter_simps)

lemma effects_append [simp]: "effects ctx (xs @ ys) = effects ctx xs @ effects ctx ys"
  by (simp add: effects_def)

lemma effects_single: "effects ctx [e] = (case effect_of ctx e of None \<Rightarrow> [] | Some s \<Rightarrow> [s])"
  by (simp add: effects_def List.map_filter_simps split: option.split)

lemma facts_snoc: "facts (tr @ [e]) = (case fact_of e of None \<Rightarrow> facts tr | Some f \<Rightarrow> add_fact f (facts tr))"
  by (simp add: facts_def List.map_filter_simps split: option.split)

lemma ran_ok_snoc [simp]:
  "ran_ok n (tr @ [e]) = (ran_ok n tr \<or> (\<exists>args r. e = Ran n args r \<and> tr_success r))"
  by (auto simp: ran_ok_def)

section \<open>The invariant\<close>

text \<open>\<open>was\<close>: the conversation had something on record before; \<open>old\<close>: the tool messages of its history.\<close>

definition run_ok :: "'w run_ctx \<Rightarrow> bool \<Rightarrow> json_object list \<Rightarrow> run_state \<Rightarrow> bool" where
  "run_ok ctx was old st =
     ((rs_escalated st = (rc_bot_owned ctx \<and> ran_ok ''escalate_to_human'' (rs_trace st)))
      \<and> (rs_booking st = list_ex booked_by (rs_trace st))
      \<and> (rs_tool_ok st = list_ex diary_changed_by (rs_trace st))
      \<and> (rs_request st = (was \<or> list_ex recorded_by (rs_trace st)))
      \<and> (set (rs_performed st) = set (effects ctx (rs_trace st)) \<and> distinct (effects ctx (rs_trace st)))
      \<and> (rs_available st = fold offers_after (rs_trace st) None)
      \<and> ((rs_address st, rs_address_conflict st) = facts (rs_trace st))
      \<and> (\<forall>n a r. Ran n a r \<in> set (rs_trace st) \<longrightarrow> find_tool ctx n \<noteq> None)
      \<and> (\<forall>p \<in> set (tool_payloads (rs_messages st)). p \<in> set old \<or> vetted_payload (rs_trace st) p))"

text \<open>The steps between two calls of tools touch none of this.\<close>

definition quiet :: "run_state \<Rightarrow> run_state \<Rightarrow> bool" where
  "quiet st st' =
     (rs_trace st' = rs_trace st \<and> rs_escalated st' = rs_escalated st \<and> rs_booking st' = rs_booking st
      \<and> rs_tool_ok st' = rs_tool_ok st \<and> rs_request st' = rs_request st \<and> rs_performed st' = rs_performed st
      \<and> rs_available st' = rs_available st \<and> rs_address st' = rs_address st
      \<and> rs_address_conflict st' = rs_address_conflict st
      \<and> tool_payloads (rs_messages st') = tool_payloads (rs_messages st))"

lemma quiet_refl [simp]: "quiet st st"
  by (simp add: quiet_def)

lemma quiet_trans [trans]: "quiet a b \<Longrightarrow> quiet b c \<Longrightarrow> quiet a c"
  by (simp add: quiet_def)

lemma quiet_ok: "quiet st st' \<Longrightarrow> run_ok ctx was old st \<Longrightarrow> run_ok ctx was old st'"
  by (simp add: quiet_def run_ok_def)

lemma quiet_pushed [simp]: "quiet st (pushed ms st) = (tool_payloads ms = [])"
  by (simp add: quiet_def pushed_def)

lemma quiet_corrected: "quiet st st' \<Longrightarrow> tool_payload msg = None \<Longrightarrow> quiet st (corrected_by c msg st')"
  by (auto simp: quiet_def corrected_by_def pushed_def tool_payloads_def List.map_filter_simps)

lemma note_payload [simp]: "tool_payload (internal_note n) = None" "tool_payload (pending_move_yes_note m) = None"
  by (auto simp: internal_note_def pending_move_yes_note_def split: prod.split)

section \<open>A call of a tool keeps the invariant\<close>

lemmas absorb_defs = absorb_escalation_def absorb_recorded_outcome_def absorb_address_fact_def absorb_affordance_def

text \<open>What each part leaves alone.\<close>

definition same_log :: "run_state \<Rightarrow> run_state \<Rightarrow> bool" where
  "same_log st st' = (rs_trace st' = rs_trace st \<and> rs_performed st' = rs_performed st \<and> rs_messages st' = rs_messages st)"

lemma escalation_fields:
  "same_log st (absorb_escalation ctx n r st)"
  "rs_booking (absorb_escalation ctx n r st) = rs_booking st" "rs_tool_ok (absorb_escalation ctx n r st) = rs_tool_ok st"
  "rs_request (absorb_escalation ctx n r st) = rs_request st" "rs_available (absorb_escalation ctx n r st) = rs_available st"
  "rs_address (absorb_escalation ctx n r st) = rs_address st"
  "rs_address_conflict (absorb_escalation ctx n r st) = rs_address_conflict st"
  "rs_escalated (absorb_escalation ctx n r st) = (rs_escalated st \<or> n = ''escalate_to_human'' \<and> tr_success r \<and> rc_bot_owned ctx)"
  by (auto simp: absorb_escalation_def same_log_def)

lemma outcome_fields:
  "same_log st (absorb_recorded_outcome n r st)"
  "rs_escalated (absorb_recorded_outcome n r st) = rs_escalated st"
  "rs_available (absorb_recorded_outcome n r st) = rs_available st"
  "rs_address (absorb_recorded_outcome n r st) = rs_address st"
  "rs_address_conflict (absorb_recorded_outcome n r st) = rs_address_conflict st"
  "rs_booking (absorb_recorded_outcome n r st) = (rs_booking st \<or> booked_by (Ran n a r))"
  "rs_tool_ok (absorb_recorded_outcome n r st) = (rs_tool_ok st \<or> diary_changed_by (Ran n a r))"
  "rs_request (absorb_recorded_outcome n r st) = (rs_request st \<or> recorded_by (Ran n a r))"
  by (auto simp: absorb_recorded_outcome_def same_log_def booking_mutation_tools_def)

lemma fact_fields:
  "same_log st (absorb_address_fact r st)"
  "rs_escalated (absorb_address_fact r st) = rs_escalated st" "rs_booking (absorb_address_fact r st) = rs_booking st"
  "rs_tool_ok (absorb_address_fact r st) = rs_tool_ok st" "rs_request (absorb_address_fact r st) = rs_request st"
  "rs_available (absorb_address_fact r st) = rs_available st"
  "(rs_address (absorb_address_fact r st), rs_address_conflict (absorb_address_fact r st)) =
     (case fact_of (Ran n a r) of None \<Rightarrow> (rs_address st, rs_address_conflict st)
      | Some f \<Rightarrow> add_fact f (rs_address st, rs_address_conflict st))"
  by (auto simp: absorb_address_fact_def same_log_def add_fact_def split: bool.splits option.splits prod.splits)

lemma affordance_fields:
  "same_log st (absorb_affordance n r st)"
  "rs_escalated (absorb_affordance n r st) = rs_escalated st" "rs_booking (absorb_affordance n r st) = rs_booking st"
  "rs_tool_ok (absorb_affordance n r st) = rs_tool_ok st" "rs_request (absorb_affordance n r st) = rs_request st"
  "rs_available (absorb_affordance n r st) = rs_available st" "rs_address (absorb_affordance n r st) = rs_address st"
  "rs_address_conflict (absorb_affordance n r st) = rs_address_conflict st"
  by (simp_all add: absorb_affordance_def same_log_def split: option.splits)

lemma refusal_fields:
  assumes "absorb_named_time_refusal env ctx n a r (st, w) = (st', w')"
  shows "same_log st st' \<and> rs_escalated st' = rs_escalated st \<and> rs_booking st' = rs_booking st
    \<and> rs_tool_ok st' = rs_tool_ok st \<and> rs_request st' = rs_request st \<and> rs_available st' = rs_available st
    \<and> rs_address st' = rs_address st \<and> rs_address_conflict st' = rs_address_conflict st"
  using assms by (auto simp: absorb_named_time_refusal_def same_log_def Let_def split: if_splits)

lemma offer_fields:
  assumes "absorb_offer env n r (st, w) = (st', w')"
  shows "same_log st st' \<and> rs_escalated st' = rs_escalated st \<and> rs_booking st' = rs_booking st
    \<and> rs_tool_ok st' = rs_tool_ok st \<and> rs_request st' = rs_request st
    \<and> rs_address st' = rs_address st \<and> rs_address_conflict st' = rs_address_conflict st
    \<and> rs_available st' = offers_after (Ran n a r) (rs_available st)"
  using assms
  by (auto simp: absorb_offer_def same_log_def absorb_availability_def Let_def split: bool.splits option.splits if_splits)

lemma same_log_trans: "same_log a b \<Longrightarrow> same_log b c \<Longrightarrow> same_log a c"
  by (simp add: same_log_def)

lemma absorbed_fields:
  assumes "absorb_tool_result env ctx n a r (st, w) = (st', w')"
  shows "same_log st st'"
    and "rs_escalated st' = (rs_escalated st \<or> n = ''escalate_to_human'' \<and> tr_success r \<and> rc_bot_owned ctx)"
    and "rs_booking st' = (rs_booking st \<or> booked_by (Ran n a r))"
    and "rs_tool_ok st' = (rs_tool_ok st \<or> diary_changed_by (Ran n a r))"
    and "rs_request st' = (rs_request st \<or> recorded_by (Ran n a r))"
    and "rs_available st' = offers_after (Ran n a r) (rs_available st)"
    and "(rs_address st', rs_address_conflict st') =
      (case fact_of (Ran n a r) of None \<Rightarrow> (rs_address st, rs_address_conflict st)
       | Some f \<Rightarrow> add_fact f (rs_address st, rs_address_conflict st))"
proof -
  let ?st1 = "absorb_affordance n r (absorb_address_fact r (absorb_recorded_outcome n r (absorb_escalation ctx n r st)))"
  let ?st2 = "if n = ''check_availability'' then ?st1\<lparr>rs_checked := True\<rparr> else ?st1"
  obtain st3 w3 where named: "absorb_named_time_refusal env ctx n a r (?st2, w) = (st3, w3)" by (metis surj_pair)
  with assms have offer: "absorb_offer env n r (st3, w3) = (st', w')" by (simp add: absorb_tool_result_def Let_def)
  note f3 = refusal_fields [OF named] and f4 = offer_fields [OF offer, of a]
  note fields = escalation_fields outcome_fields(1-5) outcome_fields(6-8) [where a = a] fact_fields(2-6) affordance_fields
  have st2: "same_log st ?st2" "rs_escalated ?st2 = rs_escalated ?st1" "rs_booking ?st2 = rs_booking ?st1"
    "rs_tool_ok ?st2 = rs_tool_ok ?st1" "rs_request ?st2 = rs_request ?st1" "rs_available ?st2 = rs_available ?st1"
    "rs_address ?st2 = rs_address ?st1" "rs_address_conflict ?st2 = rs_address_conflict ?st1"
    using escalation_fields(1) [of st ctx n r] outcome_fields(1) fact_fields(1) affordance_fields(1)
    by (auto simp: same_log_def)
  show "same_log st st'" using st2(1) f3 f4 by (auto intro: same_log_trans)
  show "rs_escalated st' = (rs_escalated st \<or> n = ''escalate_to_human'' \<and> tr_success r \<and> rc_bot_owned ctx)"
    using st2(2) f3 f4 by (simp only: fields)
  show "rs_booking st' = (rs_booking st \<or> booked_by (Ran n a r))"
    using st2(3) f3 f4 by (simp only: fields)
  show "rs_tool_ok st' = (rs_tool_ok st \<or> diary_changed_by (Ran n a r))"
    using st2(4) f3 f4 by (simp only: fields)
  show "rs_request st' = (rs_request st \<or> recorded_by (Ran n a r))"
    using st2(5) f3 f4 by (simp only: fields)
  show "rs_available st' = offers_after (Ran n a r) (rs_available st)"
    using st2(6) f3 f4 by (simp only: fields)
  show "(rs_address st', rs_address_conflict st') =
      (case fact_of (Ran n a r) of None \<Rightarrow> (rs_address st, rs_address_conflict st)
       | Some f \<Rightarrow> add_fact f (rs_address st, rs_address_conflict st))"
    using st2(7,8) f3 f4 by (simp only: fields fact_fields(7) [where n = n and a = a])
qed

lemma payload_fields:
  assumes "model_payload_for n r st = (p, st')"
  shows "st' = st \<or> st' = st\<lparr>rs_price := True\<rparr>" "payload_from p (Ran n a r) \<or> loop_words p"
  using assms by (auto simp: model_payload_for_def loop_words_def split: if_splits option.splits)

lemma find_tool_name: "find_tool ctx n = Some tool \<Longrightarrow> tl_name tool = n"
  by (auto simp: find_tool_def find_Some_iff)

lemma vetted_more: "vetted_payload tr p \<Longrightarrow> vetted_payload (tr @ tr') p"
  by (auto simp: vetted_payload_def)

lemma returned_ok:
  assumes ok: "run_ok ctx was old st"
    and tool: "find_tool ctx (tc_name call) = Some tool"
    and fresh: "\<not> (tl_side_effects tool \<and> side_effect_sig (tl_name tool) (tc_args call) \<in> set (rs_performed st))"
    and run: "tool_returned env ctx tool call r (st, w) = (st', w')"
  shows "run_ok ctx was old st'"
proof -
  let ?n = "tl_name tool" and ?a = "tc_args call"
  let ?e = "Ran ?n ?a r" and ?sig = "side_effect_sig ?n ?a"
  let ?st1 = "st\<lparr>rs_tools_called := rs_tools_called st @ [?n],
      rs_performed := (if tl_side_effects tool \<and> tr_success r then ?sig # rs_performed st else rs_performed st)\<rparr>"
  obtain st2 w2 where abs: "absorb_tool_result env ctx ?n ?a r (?st1, w) = (st2, w2)" by (metis surj_pair)
  obtain p st3 where pay: "model_payload_for ?n r st2 = (p, st3)" by (metis surj_pair)
  have st': "st' = traced_call ?e (tool_says call p st3)"
    using run abs pay by (simp add: tool_returned_def Let_def)
  note f = absorbed_fields [OF abs] and q = payload_fields [OF pay]
  have log: "rs_trace st2 = rs_trace st" "rs_messages st2 = rs_messages st" "rs_performed st2 = rs_performed ?st1"
    using f(1) by (simp_all add: same_log_def)
  have tr: "rs_trace st' = rs_trace st @ [?e]"
    using q(1) log by (auto simp: st' traced_call_def tool_says_def pushed_def)
  have msgs: "rs_messages st' = rs_messages st @ [ToolMsg (tc_id call) p]"
    using q(1) log by (auto simp: st' traced_call_def tool_says_def pushed_def)
  have rest: "rs_escalated st' = rs_escalated st2" "rs_booking st' = rs_booking st2" "rs_tool_ok st' = rs_tool_ok st2"
      "rs_request st' = rs_request st2" "rs_available st' = rs_available st2" "rs_address st' = rs_address st2"
      "rs_address_conflict st' = rs_address_conflict st2" "rs_performed st' = rs_performed ?st1"
    using q(1) log(3) by (auto simp: st' traced_call_def tool_says_def pushed_def)
  have found: "find_tool ctx ?n = Some tool" using find_tool_name [OF tool] tool by simp
  have eff: "effects ctx (rs_trace st') = effects ctx (rs_trace st) @ (if tl_side_effects tool \<and> tr_success r then [?sig] else [])"
    by (simp add: tr effects_single found)
  have "rs_escalated st' = (rc_bot_owned ctx \<and> ran_ok ''escalate_to_human'' (rs_trace st'))"
    using ok by (auto simp: run_ok_def tr rest f(2))
  moreover have "rs_booking st' = list_ex booked_by (rs_trace st')"
    using ok by (auto simp: run_ok_def tr rest f(3))
  moreover have "rs_tool_ok st' = list_ex diary_changed_by (rs_trace st')"
    using ok by (auto simp: run_ok_def tr rest f(4))
  moreover have "rs_request st' = (was \<or> list_ex recorded_by (rs_trace st'))"
    using ok by (auto simp: run_ok_def tr rest f(5))
  moreover have "set (rs_performed st') = set (effects ctx (rs_trace st')) \<and> distinct (effects ctx (rs_trace st'))"
    using ok fresh by (auto simp: run_ok_def eff rest)
  moreover have "rs_available st' = fold offers_after (rs_trace st') None"
    using ok by (simp add: run_ok_def tr rest f(6) del: offers_after.simps)
  moreover have "(rs_address st', rs_address_conflict st') = facts (rs_trace st')"
  proof -
    have "rs_address ?st1 = rs_address st" "rs_address_conflict ?st1 = rs_address_conflict st" by simp_all
    with f(7) ok show ?thesis by (simp only: run_ok_def tr rest facts_snoc split: option.split)
  qed
  moreover have "\<forall>n a r. Ran n a r \<in> set (rs_trace st') \<longrightarrow> find_tool ctx n \<noteq> None"
    using ok by (auto simp: run_ok_def tr found)
  moreover have "\<forall>x \<in> set (tool_payloads (rs_messages st')). x \<in> set old \<or> vetted_payload (rs_trace st') x"
  proof
    fix x
    assume "x \<in> set (tool_payloads (rs_messages st'))"
    then have "x \<in> set (tool_payloads (rs_messages st)) \<or> x = p" by (auto simp: msgs)
    moreover have "x \<in> set old \<or> vetted_payload (rs_trace st) x" if "x \<in> set (tool_payloads (rs_messages st))"
      using ok that by (simp only: run_ok_def)
    moreover have "vetted_payload (rs_trace st') p"
      using q(2) [of ?a] by (auto simp: vetted_payload_def tr simp del: payload_from.simps)
    ultimately show "x \<in> set old \<or> vetted_payload (rs_trace st') x" using vetted_more tr by metis
  qed
  ultimately show ?thesis by (simp only: run_ok_def)
qed

text \<open>A call that did not run leaves an entry that says nothing.\<close>

fun silent :: "traced \<Rightarrow> bool" where
  "silent (Ran n a r) = False"
| "silent _ = True"

lemma silent_entry:
  assumes "silent e"
  shows "effect_of ctx e = None" "fact_of e = None" "offers_after e = (\<lambda>x. x)" "\<not> booked_by e" "\<not> diary_changed_by e"
    "\<not> recorded_by e" "ran_ok n (tr @ [e]) = ran_ok n tr" "e \<noteq> Ran n a r"
  using assms by (cases e; auto)+

lemma silent_ok:
  assumes "run_ok ctx was old st" "silent e"
  shows "run_ok ctx was old (traced_call e st)"
proof -
  have "effects ctx (rs_trace st @ [e]) = effects ctx (rs_trace st)"
    using silent_entry(1) [OF assms(2), of ctx] by (simp add: effects_single)
  moreover have "facts (rs_trace st @ [e]) = facts (rs_trace st)"
    using silent_entry(2) [OF assms(2)] by (simp add: facts_snoc)
  ultimately show ?thesis
    using assms(1) vetted_more [of "rs_trace st" _ "[e]"] silent_entry(3-8) [OF assms(2)]
    by (simp add: run_ok_def traced_call_def del: ran_ok_snoc) blast
qed

lemma said_ok:
  assumes "run_ok ctx was old st" "loop_words p"
  shows "run_ok ctx was old (tool_says call p st)"
  using assms by (simp add: run_ok_def tool_says_def pushed_def vetted_payload_def)

lemma words_of_the_loop:
  "loop_words [(''error'', JStr (''Unknown tool: '' @ n))]"
  "loop_words [(''note'', JStr ''already_performed''), (''tool'', JStr n)]"
  "loop_words [(''error'', JStr (''Must call '' @ joined '', '' unmet @ '' before '' @ n))]"
  "loop_words [(''error'', JStr (''The '' @ n @ '' tool is temporarily unavailable. Do not retry it this turn.''))]"
  unfolding loop_words_def by blast+

lemma execute_ok:
  assumes ok: "run_ok ctx was old st" and run: "execute_tool_call env ctx call (st, w) = (st', w')"
  shows "run_ok ctx was old st'"
proof (cases "find_tool ctx (tc_name call)")
  case None
  then have "st' = tool_says call [(''error'', JStr (''Unknown tool: '' @ tc_name call))] st"
    using run by (simp add: execute_tool_call_def)
  then show ?thesis using said_ok [OF ok words_of_the_loop(1)] by simp
next
  case (Some tool)
  let ?n = "tl_name tool" and ?a = "tc_args call"
  let ?unmet = "filter (\<lambda>t. t \<notin> set (rs_tools_called st)) (tl_needs tool)"
  let ?again = "tl_side_effects tool \<and> side_effect_sig ?n ?a \<in> set (rs_performed st)"
  consider (unmet) "?unmet \<noteq> []" | (again) "?unmet = []" ?again | (runs) "?unmet = []" "\<not> ?again" by blast
  then show ?thesis
  proof cases
    case unmet
    then have "st' = traced_call (Unmet ?n ?a ?unmet) (tool_says call [(''error'', JStr (''Must call '' @ joined '', '' ?unmet @ '' before '' @ ?n))] st)"
      using run Some by (simp only: execute_tool_call_def Let_def prod.case option.case if_True simp_thms) simp
    then show ?thesis using silent_ok [OF said_ok [OF ok words_of_the_loop(3)]] by simp
  next
    case again
    then have "st' = traced_call (AlreadyDone ?n ?a) (tool_says call [(''note'', JStr ''already_performed''), (''tool'', JStr ?n)] st)"
      using run Some by (simp add: execute_tool_call_def Let_def)
    then show ?thesis using silent_ok [OF said_ok [OF ok words_of_the_loop(2)]] by simp
  next
    case runs
    obtain out w2 where out: "tl_execute tool ?a (tool_ctx_of ctx st) w = (out, w2)" by (metis surj_pair)
    show ?thesis
    proof (cases out)
      case (Inl e)
      then have "st' = traced_call (Threw ?n ?a (th_message e))
          (tool_says call [(''error'', JStr (''The '' @ ?n @ '' tool is temporarily unavailable. Do not retry it this turn.''))] st)"
        using run Some runs out by (simp add: execute_tool_call_def Let_def)
      then show ?thesis using silent_ok [OF said_ok [OF ok words_of_the_loop(4)]] by simp
    next
      case (Inr r)
      then have "tool_returned env ctx tool call r (st, w2) = (st', w')"
        using run Some runs out by (simp add: execute_tool_call_def Let_def)
      with ok Some runs(2) show ?thesis by (rule returned_ok)
    qed
  qed
qed

lemma execute_all_ok:
  "run_ok ctx was old st \<Longrightarrow> execute_tool_calls env ctx cs (st, w) = (st', w') \<Longrightarrow> run_ok ctx was old st'"
proof (induction cs arbitrary: st w)
  case (Cons c cs)
  obtain st1 w1 where "execute_tool_call env ctx c (st, w) = (st1, w1)" by (metis surj_pair)
  with Cons show ?case by (auto dest: execute_ok)
qed simp

section \<open>The guards\<close>

definition own_words :: "'w run_env \<Rightarrow> 'w run_ctx \<Rightarrow> string \<Rightarrow> bool" where
  "own_words env ctx c = (\<exists>s \<in> set own_sentences. \<exists>r. c = nullish (fst (ev_translate env s (rc_message ctx) r)) s)"

definition address_stated :: "run_state \<Rightarrow> string \<Rightarrow> bool" where
  "address_stated st c =
     (if rs_address_conflict st then c = address_conflict_fallback
      else \<forall>f. rs_address st = Some f \<longrightarrow> valid_address_reply c f \<or> c = address_safe_fallback f)"

definition reply_guarded :: "'w run_ctx \<Rightarrow> run_state \<Rightarrow> string \<Rightarrow> bool" where
  "reply_guarded ctx st c =
     (address_stated st c
      \<and> (rc_booking_armed ctx \<longrightarrow> rs_booking st \<or> \<not> booking_claim_outruns_record c st)
      \<and> (rc_request_armed ctx \<longrightarrow> rs_booking st \<or> rs_request st \<or> \<not> claims_request_forwarded c))"

definition chips_ok :: "'w run_env \<Rightarrow> 'w run_ctx \<Rightarrow> run_state \<Rightarrow> quick_reply list option \<Rightarrow> bool" where
  "chips_ok env ctx st chips =
     (case chips of None \<Rightarrow> True
      | Some cs \<Rightarrow> length cs \<le> 8
          \<and> (\<exists>a. rs_available st = Some a
               \<and> set cs \<subseteq> (\<lambda>s. slot_chip_quick_reply env (fst s) (ta_timezone a) (resolve_bot_language (rc_language ctx)) (ta_service_name a))
                             ` set (ta_slots a)))"

definition reply_ok :: "'w run_env \<Rightarrow> 'w run_ctx \<Rightarrow> run_state \<Rightarrow> reply \<Rightarrow> bool" where
  "reply_ok env ctx st p =
     ((own_words env ctx (rp_content p) \<or> reply_guarded ctx st (rp_content p))
      \<and> (rp_context p = None \<and> own_words env ctx (rp_content p) \<or> rp_context p = Some (validation_context_of st))
      \<and> chips_ok env ctx st (rp_chips p))"

definition result_ok :: "'w run_env \<Rightarrow> 'w run_ctx \<Rightarrow> run_state \<Rightarrow> agent_result \<Rightarrow> bool" where
  "result_ok env ctx st res =
     (handoff_requested res = rs_escalated st \<and> (case res of Response p \<Rightarrow> reply_ok env ctx st p | _ \<Rightarrow> True))"

lemma quiet_guarded: "quiet st st' \<Longrightarrow> reply_guarded ctx st' c = reply_guarded ctx st c"
  by (simp add: quiet_def reply_guarded_def address_stated_def booking_claim_outruns_record_def)

text \<open>What a guard that may replace the reply leaves: the state unless it asks again, and its part of the promise.\<close>

definition guard_ok ::
  "'w run_env \<Rightarrow> 'w run_ctx \<Rightarrow> run_state \<Rightarrow> string \<Rightarrow> bool \<Rightarrow> verdict \<times> run_state \<times> 'w run_world \<Rightarrow> bool" where
  "guard_ok env ctx st c holds out =
     (case out of (v, st', w') \<Rightarrow>
        quiet st st'
        \<and> (case v of Content c' \<Rightarrow> st' = st \<and> c' = c \<and> holds | Retry \<Rightarrow> True | Result r \<Rightarrow> result_ok env ctx st' r))"

lemma own_words_sentence:
  "s \<in> set own_sentences \<Longrightarrow> in_customer_language env s ctx w = (c, w') \<Longrightarrow> own_words env ctx c"
  by (auto simp: own_words_def in_customer_language_def split: prod.splits) (metis fst_conv)

lemma replaced_ok: "s \<in> set own_sentences \<Longrightarrow> guard_ok env ctx st c P (replaced_by env ctx s (st, w))"
  by (auto simp: guard_ok_def replaced_by_def result_ok_def own_reply_def reply_ok_def chips_ok_def Let_def
      split: prod.splits dest: own_words_sentence)

lemma retry_ok: "quiet st st' \<Longrightarrow> guard_ok env ctx st c P (Retry, corrected_by t (internal_note n) st', w)"
  by (simp add: guard_ok_def quiet_corrected)

lemma quiet_flags [simp]:
  "quiet st (st\<lparr>rs_corrected := b\<rparr>)" "quiet st (st\<lparr>rs_request_corrected := b\<rparr>)" "quiet st (st\<lparr>rs_yes_nudged := b\<rparr>)"
  "quiet st (st\<lparr>rs_availability_corrected := b\<rparr>)" "quiet st (st\<lparr>rs_promise_corrected := b\<rparr>)" "quiet st (st\<lparr>rs_forced := b\<rparr>)"
  "quiet st (st\<lparr>rs_address_corrected := b, rs_address_only := b'\<rparr>)"
  by (simp_all add: quiet_def)

lemma own_sentences_known [simp]:
  "booking_safe_fallback \<in> set own_sentences" "request_safe_fallback \<in> set own_sentences"
  "promised_check_fallback \<in> set own_sentences" "already_held_fallback \<in> set own_sentences"
  "no_confirmable_times_fallback \<in> set own_sentences" "check_failed_fallback \<in> set own_sentences"
  "no_slots_on_screen_fallback \<in> set own_sentences" "unbookable_time_fallback \<in> set own_sentences"
  "availability_safe_fallback \<in> set own_sentences"
  by (simp_all add: own_sentences_def)

lemma address_guard_ok:
  "apply_address_guard i c st = (v, st') \<Longrightarrow>
     quiet st st' \<and> (\<forall>r. v \<noteq> Result r) \<and> (\<forall>c'. v = Content c' \<longrightarrow> st' = st \<and> address_stated st c')"
  by (auto simp: apply_address_guard_def address_stated_def quiet_corrected split: if_splits option.splits)

lemma booking_guard_ok:
  "guard_ok env ctx st c (rc_booking_armed ctx \<longrightarrow> rs_booking st \<or> \<not> booking_claim_outruns_record c st)
     (apply_booking_claim_guard env ctx i c (st, w))"
  by (auto simp: apply_booking_claim_guard_def guard_ok_def [of _ _ _ _ _ "(Content c, st, w)"]
      intro!: replaced_ok retry_ok)

lemma request_guard_ok:
  "guard_ok env ctx st c (rc_request_armed ctx \<longrightarrow> rs_booking st \<or> rs_request st \<or> \<not> claims_request_forwarded c)
     (apply_request_claim_guard env ctx i c (st, w))"
  by (auto simp: apply_request_claim_guard_def guard_ok_def [of _ _ _ _ _ "(Content c, st, w)"]
      intro!: replaced_ok retry_ok)

lemma promised_guard_ok: "guard_ok env ctx st c True (apply_promised_check_guard env ctx i c (st, w))"
  by (auto simp: apply_promised_check_guard_def promised_check_nothing_ran_def Let_def
      guard_ok_def [of _ _ _ _ _ "(Content c, st, w)"]
      intro!: replaced_ok retry_ok)

lemma pending_yes_quiet: "apply_pending_yes_guard env ctx i c (st, w) = (b, st') \<Longrightarrow> quiet st st' \<and> (b \<or> st' = st)"
  by (auto simp: apply_pending_yes_guard_def Let_def quiet_corrected split: if_splits option.splits)

lemma forced_ok:
  assumes ok: "run_ok ctx was old st" and run: "force_availability_check env ctx c (st, w) = (b, st', w')"
  shows "run_ok ctx was old st' \<and> (b \<or> st' = st)"
proof (cases "b")
  case True
  then obtain call st1 w1 where
    "execute_tool_call env ctx call (pushed [AssistantMsg [] [call]] (st\<lparr>rs_forced := True\<rparr>), w) = (st1, w1)"
    and st': "st' = pushed [internal_note ''AVAILABILITY_FORCED_CHECK_NOTE''] st1"
    using run by (auto simp: force_availability_check_def Let_def split: if_splits option.splits prod.splits)
  moreover have "quiet st (pushed [AssistantMsg [] [call]] (st\<lparr>rs_forced := True\<rparr>))"
    by (rule quiet_trans [OF quiet_flags(6) [of st True]]) simp
  ultimately have "run_ok ctx was old st1" using ok quiet_ok execute_ok by metis
  moreover have "quiet st1 st'" by (simp add: st' internal_note_def)
  ultimately show ?thesis using True quiet_ok by metis
next
  case False
  then show ?thesis using run ok
    by (auto simp: force_availability_check_def Let_def split: if_splits option.splits prod.splits)
qed

lemma availability_guard_ok:
  assumes ok: "run_ok ctx was old st" and run: "apply_availability_claim_guard env ctx i c (st, w) = (b, st', w')"
  shows "run_ok ctx was old st' \<and> (b \<or> st' = st)"
proof -
  have flag: "run_ok ctx was old (corrected_by c (internal_note n) (st\<lparr>rs_availability_corrected := True\<rparr>))" for n
    using ok quiet_ok quiet_corrected [OF quiet_flags(4)] note_payload by metis
  show ?thesis
    using run ok flag forced_ok [OF ok, of env c w]
    by (auto simp: apply_availability_claim_guard_def Let_def split: if_splits)
qed

section \<open>The reply that ships, and the loop\<close>

lemma named_day_offered: "set (filter_slots_by_named_day slots tz ds wds) \<subseteq> set slots"
  by (auto simp: filter_slots_by_named_day_def)

lemma chip_candidates_offered: "set (chip_candidate_slots t slots tz now) \<subseteq> set slots"
  using named_day_offered [of slots]
  by (fastforce simp: chip_candidate_slots_def Let_def split: option.splits prod.splits if_splits dest: in_set_takeD set_dropWhileD)

lemma final_chips_ok: "chips_ok env ctx st (final_chips env ctx c st now)"
proof (cases "final_chips env ctx c st now")
  case None
  then show ?thesis by (simp add: chips_ok_def)
next
  case (Some cs)
  then obtain a where a: "rs_available st = Some a" "ta_slots a \<noteq> []"
    and cs: "cs = map (\<lambda>(s, e). slot_chip_quick_reply env s (ta_timezone a) (resolve_bot_language (rc_language ctx)) (ta_service_name a))
        (take 8 (if customer_time_text ctx \<noteq> [] then chip_candidate_slots (customer_time_text ctx) (ta_slots a) (offer_zone env a) now
                 else ta_slots a))"
    by (auto simp: final_chips_def build_slot_quick_replies_def Let_def split: if_splits option.splits)
  have "set cs \<subseteq> (\<lambda>s. slot_chip_quick_reply env (fst s) (ta_timezone a) (resolve_bot_language (rc_language ctx)) (ta_service_name a)) ` set (ta_slots a)"
    using chip_candidates_offered [of "customer_time_text ctx" "ta_slots a" "offer_zone env a" now]
    by (auto simp: cs dest!: in_set_takeD split: if_splits intro!: image_eqI)
  moreover have "length cs \<le> 8" by (simp add: cs)
  ultimately show ?thesis using a by (simp add: chips_ok_def Some)
qed

lemma safe_content_ok:
  assumes "safe_reply_content env ctx c av on w = (c', w')"
  shows "c' = c \<or> own_words env ctx c'"
  using assms own_words_sentence [of no_slots_on_screen_fallback env ctx w c' w']
    own_words_sentence [of unbookable_time_fallback env ctx w c' w'] own_words_sentence [of availability_safe_fallback env ctx w c' w']
  by (auto simp: safe_reply_content_def Let_def simp del: nullish_simps split: if_splits)

lemma final_result_ok:
  assumes "build_final_result env ctx c (st, w) = (r, st', w')" "reply_guarded ctx st c"
  shows "st' = st \<and> result_ok env ctx st r"
proof -
  let ?chips = "final_chips env ctx c st (env_now env w)"
  obtain safe w1 where safe: "safe_reply_content env ctx c (rs_available st) (length (nullish ?chips []) > 0) w = (safe, w1)"
    by (metis surj_pair)
  then have "own_words env ctx safe \<or> reply_guarded ctx st safe" using safe_content_ok [OF safe] assms(2) by auto
  moreover have "chips_ok env ctx st ?chips" by (rule final_chips_ok)
  ultimately show ?thesis using assms(1) safe
    by (auto simp: build_final_result_def Let_def result_ok_def reply_ok_def)
qed

text \<open>An outcome: the invariant holds, and a result keeps the promise of the state it was made in.\<close>

definition outcome_ok :: "'w run_env \<Rightarrow> 'w run_ctx \<Rightarrow> bool \<Rightarrow> json_object list \<Rightarrow> 'w outcome \<Rightarrow> bool" where
  "outcome_ok env ctx was old out =
     (case out of (res, st, w) \<Rightarrow> run_ok ctx was old st \<and> (\<forall>r. res = Some r \<longrightarrow> result_ok env ctx st r))"

lemma guarded_outcome_ok:
  assumes ok: "run_ok ctx was old st" and g: "reply_guarded ctx st c"
  shows "outcome_ok env ctx was old (finalize_guarded env ctx i c (st, w))"
proof -
  obtain b1 st1 where yes: "apply_pending_yes_guard env ctx i c (st, w) = (b1, st1)" by (metis surj_pair)
  note y = pending_yes_quiet [OF yes]
  show ?thesis
  proof (cases b1)
    case True
    then show ?thesis using y ok quiet_ok by (auto simp: outcome_ok_def finalize_guarded_def yes)
  next
    case False
    then have st1: "st1 = st" using y by simp
    obtain b2 st2 w2 where av: "apply_availability_claim_guard env ctx i c (st, w) = (b2, st2, w2)" by (metis surj_pair)
    note a = availability_guard_ok [OF ok av]
    show ?thesis
    proof (cases b2)
      case True
      then show ?thesis using a False by (simp add: outcome_ok_def finalize_guarded_def yes av st1)
    next
      case b2: False
      then have st2: "st2 = st" using a by simp
      obtain v st3 w3 where pr: "apply_promised_check_guard env ctx i c (st, w2) = (v, st3, w3)" by (metis surj_pair)
      have p: "guard_ok env ctx st c True (v, st3, w3)" using promised_guard_ok [of env ctx st c i w2] by (simp add: pr)
      have ok3: "run_ok ctx was old st3" using p ok quiet_ok by (auto simp: guard_ok_def)
      have eq: "finalize_guarded env ctx i c (st, w) =
          (case v of Retry \<Rightarrow> (None, st3, w3) | Result r \<Rightarrow> (Some r, st3, w3)
           | Content c \<Rightarrow> (case build_final_result env ctx c (st3, w3) of (r, st4, w4) \<Rightarrow> (Some r, st4, w4)))"
        using False b2 by (simp add: finalize_guarded_def yes av st1 st2 pr)
      show ?thesis
      proof (cases v)
        case (Content c')
        then have c': "c' = c" "st3 = st" using p by (auto simp: guard_ok_def)
        obtain r st4 w4 where fin: "build_final_result env ctx c (st, w3) = (r, st4, w4)" by (metis surj_pair)
        show ?thesis using final_result_ok [OF fin g] ok by (simp add: eq Content c' fin outcome_ok_def)
      next
        case Retry
        then show ?thesis using ok3 by (simp add: eq outcome_ok_def)
      next
        case (Result r)
        then show ?thesis using ok3 p by (simp add: eq outcome_ok_def guard_ok_def)
      qed
    qed
  qed
qed

lemma finalize_ok:
  assumes ok: "run_ok ctx was old st"
  shows "outcome_ok env ctx was old (finalize_iteration env ctx i c (st, w))"
proof -
  obtain v1 st1 where ad: "apply_address_guard i c st = (v1, st1)" by (metis surj_pair)
  note a = address_guard_ok [OF ad]
  have ok1: "run_ok ctx was old st1" using a ok quiet_ok by blast
  show ?thesis
  proof (cases v1)
    case Retry
    then show ?thesis using ok1 by (simp add: finalize_iteration_def ad outcome_ok_def)
  next
    case (Result r)
    then show ?thesis using a by blast
  next
    case (Content c1)
    then have st1: "st1 = st" and stated: "address_stated st c1" using a by auto
    obtain v2 st2 w2 where bk: "apply_booking_claim_guard env ctx i c1 (st, w) = (v2, st2, w2)" by (metis surj_pair)
    have b: "guard_ok env ctx st c1 (rc_booking_armed ctx \<longrightarrow> rs_booking st \<or> \<not> booking_claim_outruns_record c1 st) (v2, st2, w2)"
      using booking_guard_ok [of env ctx st c1 i w] by (simp only: bk)
    have ok2: "run_ok ctx was old st2" using b ok quiet_ok by (auto simp: guard_ok_def)
    show ?thesis
    proof (cases v2)
      case Retry
      then show ?thesis using ok2 Content st1 by (simp add: finalize_iteration_def ad bk outcome_ok_def)
    next
      case (Result r)
      then show ?thesis using ok2 b Content st1 by (simp add: finalize_iteration_def ad bk outcome_ok_def guard_ok_def)
    next
      case c2: (Content c2)
      then have b': "c2 = c1" "st2 = st" "rc_booking_armed ctx \<longrightarrow> rs_booking st \<or> \<not> booking_claim_outruns_record c1 st"
        using b by (auto simp: guard_ok_def)
      obtain v3 st3 w3 where rq: "apply_request_claim_guard env ctx i c1 (st, w2) = (v3, st3, w3)" by (metis surj_pair)
      have q: "guard_ok env ctx st c1 (rc_request_armed ctx \<longrightarrow> rs_booking st \<or> rs_request st \<or> \<not> claims_request_forwarded c1) (v3, st3, w3)"
        using request_guard_ok [of env ctx st c1 i w2] by (simp only: rq)
      have ok3: "run_ok ctx was old st3" using q ok quiet_ok by (auto simp: guard_ok_def)
      have eq: "finalize_iteration env ctx i c (st, w) =
          (case (v3, st3, w3) of (Content c3, s) \<Rightarrow> finalize_guarded env ctx i c3 s
           | (Retry, st3, w3) \<Rightarrow> (None, st3, w3) | (Result r, st3, w3) \<Rightarrow> (Some r, st3, w3))"
        using Content st1 c2 b' by (cases v3) (simp_all add: finalize_iteration_def ad bk rq)
      show ?thesis
      proof (cases v3)
        case Retry
        then show ?thesis using ok3 by (simp add: eq outcome_ok_def)
      next
        case (Result r)
        then show ?thesis using ok3 q by (simp add: eq outcome_ok_def guard_ok_def)
      next
        case (Content c3)
        then have q': "c3 = c1" "st3 = st" "rc_request_armed ctx \<longrightarrow> rs_booking st \<or> rs_request st \<or> \<not> claims_request_forwarded c1"
          using q by (auto simp: guard_ok_def)
        then have "reply_guarded ctx st c1" using stated b' by (simp add: reply_guarded_def)
        then show ?thesis using guarded_outcome_ok [OF ok] by (simp add: eq Content q')
      qed
    qed
  qed
qed

lemma iteration_ok:
  assumes ok: "run_ok ctx was old st" and run: "run_iteration env ctx i (st, w) = (e, out)"
  shows "outcome_ok env ctx was old out \<and> (e \<noteq> None \<longrightarrow> fst (snd out) = st)"
proof -
  have pushed_ok: "run_ok ctx was old (pushed [AssistantMsg c cs] st)" for c cs
    using ok quiet_ok [of st "pushed [AssistantMsg c cs] st"] by simp
  have resp: "outcome_ok env ctx was old (after_response env ctx i resp (st, w'))" for resp w'
  proof (cases "lr_stop resp \<or> lr_calls resp = [] \<or> rs_address_only st")
    case True
    then show ?thesis using finalize_ok [OF ok] by (simp add: after_response_def)
  next
    case False
    obtain st1 w1 where "execute_tool_calls env ctx (lr_calls resp) (pushed [AssistantMsg (lr_content resp) (lr_calls resp)] st, w') = (st1, w1)"
      by (metis surj_pair)
    with execute_all_ok [OF pushed_ok this] False show ?thesis by (simp add: after_response_def outcome_ok_def)
  qed
  have budget: "outcome_ok env ctx was old (Some (budget_exceeded_result ctx st), st, w')" and stays: "outcome_ok env ctx was old (None, st, w')" for w'
    using ok by (simp_all add: outcome_ok_def budget_exceeded_result_def result_ok_def)
  show ?thesis
    using run resp budget stays
    by (auto simp: run_iteration_def Let_def split: prod.splits sum.splits bool.splits)
qed

lemma loop_ok:
  "run_ok ctx was old st \<Longrightarrow> run_loop env ctx n (st, w) = (r, st', w') \<Longrightarrow> run_ok ctx was old st' \<and> result_ok env ctx st' r"
proof (induction n arbitrary: st w)
  case 0
  then show ?case by (auto simp: result_ok_def)
next
  case (Suc n)
  obtain e res st1 w1 where it: "run_iteration env ctx (max_iterations - Suc n) (st, w) = (e, res, st1, w1)" by (metis surj_pair)
  note i = iteration_ok [OF Suc.prems(1) it]
  have ok1: "run_ok ctx was old st1" using i by (simp add: outcome_ok_def)
  show ?case
  proof (cases e)
    case (Some x)
    then show ?thesis using Suc.prems(2) ok1 by (auto simp: it terminal_error_result_def result_ok_def)
  next
    case None
    show ?thesis
    proof (cases res)
      case (Some y)
      then show ?thesis using Suc.prems(2) i None by (simp add: it outcome_ok_def)
    next
      case n: None
      then show ?thesis using Suc.prems(2) Suc.IH [OF ok1] None by (simp add: it)
    qed
  qed
qed

section \<open>A whole run\<close>

lemma agent_run_ok:
  assumes "agent_run env t w = (res, st, w')"
  shows "(\<exists>p w1. fst (ev_prepare env w1) = Inr p
            \<and> run_ok (ctx_of t p) (rw_on_record w) (tool_payloads (ti_history t)) st \<and> result_ok env (ctx_of t p) st res)
    \<or> ((\<exists>e f i. res = Failed e f i False) \<and> rs_trace st = [] \<and> rs_messages st = [])"
proof -
  obtain still store where ref: "refused_named_time_still_applies (env_link env w) (env_now env w) (ti_message t) (rw_store w) = (still, store)"
    by (metis surj_pair)
  let ?w1 = "w\<lparr>rw_store := store\<rparr>"
  let ?st = "new_run_loop_state\<lparr>rs_time_refused := still, rs_request := rw_on_record ?w1\<rparr>"
  obtain pr w2 where prep: "ev_prepare env ?w1 = (pr, w2)" by (metis surj_pair)
  show ?thesis
  proof (cases pr)
    case (Inl e)
    then show ?thesis using assms prep
      by (auto simp: agent_run_def ref Let_def terminal_error_result_def new_run_loop_state_def)
  next
    case (Inr p)
    have "run_ok (ctx_of t p) (rw_on_record w) (tool_payloads (ti_history t)) (opening_state t p ?st)"
      by (simp add: run_ok_def opening_state_def new_run_loop_state_def ran_ok_def effects_def facts_def List.map_filter_simps)
    moreover have "run_loop env (ctx_of t p) max_iterations (opening_state t p ?st, w2) = (res, st, w')"
      using assms Inr prep by (simp add: agent_run_def ref Let_def)
    ultimately show ?thesis using loop_ok prep Inr by (metis fst_conv)
  qed
qed

lemma agent_reply_ok:
  assumes "agent_run env t w = (Response p, st, w')"
  obtains q w1 where "fst (ev_prepare env w1) = Inr q"
    "run_ok (ctx_of t q) (rw_on_record w) (tool_payloads (ti_history t)) st" "reply_ok env (ctx_of t q) st p"
  using agent_run_ok [OF assms] by (auto simp: result_ok_def)

lemma lower_twice: "js_lower (js_lower s) = js_lower s"
proof -
  have "lower_char (lower_char c) = lower_char c" for c
    by (cases c) (simp add: lower_char_bits letter_bits_def)
  then show ?thesis by (simp add: js_lower_def)
qed

lemma booked_changes: "booked_by e \<Longrightarrow> diary_changed_by e"
  by (cases e) auto

lemma unrecorded_claims:
  assumes "rs_booking st \<or> \<not> booking_claim_outruns_record c st"
  shows "claims_booking_confirmed c \<longrightarrow> rs_booking st" "claims_booking_done c \<longrightarrow> rs_booking st \<or> rs_tool_ok st"
  using assms
  by (auto simp: booking_claim_outruns_record_def claims_booked_for_agent_nudge_def claims_booking_confirmed_def lower_twice
      claims_booking_done_def claims_booking_request_for_agent_nudge_def booking_request_nudges_def any_fires_def Let_def split: if_splits)

definition books :: "'w run_env \<Rightarrow> bool" where
  "books env = (\<forall>w p. fst (ev_prepare env w) = Inr p \<longrightarrow> ''create_booking'' \<in> set (pr_entitled p))"

text \<open>A sentence of the program's own, as it is or as it was translated.\<close>

definition ships_own_sentence :: "'w run_env \<Rightarrow> turn_input \<Rightarrow> string \<Rightarrow> bool" where
  "ships_own_sentence env t c = (\<exists>s \<in> set own_sentences. \<exists>r. c = nullish (fst (ev_translate env s (ti_message t) r)) s)"

lemma own_words_eq: "own_words env (ctx_of t q) c = ships_own_sentence env t c"
  by (simp add: own_words_def ships_own_sentence_def ctx_of_def)


text \<open>
  C7: a person is called exactly when the tool for it succeeded. Whatever way a run ends - a reply, the
  token budget, ten answers without a reply, an error of the provider after the tool - its result asks for
  the handoff if and only if the bot owned the conversation and \<open>escalate_to_human\<close> succeeded in this run.
\<close>
theorem handoff_exactly_when_called:
  assumes "agent_run env t w = (res, st, w')"
  shows "handoff_requested res = (ti_bot_owned t \<and> ran_ok ''escalate_to_human'' (rs_trace st))"
  using agent_run_ok [OF assms] by (auto simp: result_ok_def run_ok_def ctx_of_def ran_ok_def)

lemma count_effects:
  "(\<And>e. e \<in> set tr \<Longrightarrow> P e \<Longrightarrow> effect_of ctx e = Some s) \<Longrightarrow> length (filter P tr) \<le> length (filter ((=) s) (effects ctx tr))"
  by (induction tr) (fastforce simp: effects_def List.map_filter_simps split: option.splits)+

lemma distinct_once: "distinct xs \<Longrightarrow> length (filter ((=) s) xs) \<le> 1"
  by (induction xs) (auto simp: filter_empty_conv)

text \<open>
  C6: no side effect happens twice in a run. However often the model repeats a call, in one answer or in
  several, a tool with side effects succeeds at most once with the same arguments; a call that failed may be
  repeated.
\<close>
theorem side_effect_succeeds_once:
  assumes "agent_run env t w = (res, st, w')"
    and flagged: "\<forall>w p. fst (ev_prepare env w) = Inr p \<longrightarrow> (\<forall>tool \<in> set (pr_tools p). tl_name tool = n \<longrightarrow> tl_side_effects tool)"
  shows "length (filter (\<lambda>e. \<exists>r. e = Ran n args r \<and> tr_success r) (rs_trace st)) \<le> 1"
  using agent_run_ok [OF assms(1)]
proof
  assume "\<exists>p w1. fst (ev_prepare env w1) = Inr p
    \<and> run_ok (ctx_of t p) (rw_on_record w) (tool_payloads (ti_history t)) st \<and> result_ok env (ctx_of t p) st res"
  then obtain p w1 where p: "fst (ev_prepare env w1) = Inr p" and ok: "run_ok (ctx_of t p) (rw_on_record w) (tool_payloads (ti_history t)) st"
    by blast
  have "effect_of (ctx_of t p) e = Some (side_effect_sig n args)"
    if mem: "e \<in> set (rs_trace st)" and ran: "\<exists>r. e = Ran n args r \<and> tr_success r" for e
  proof -
    from ran obtain r where e: "e = Ran n args r" "tr_success r" by blast
    have "\<forall>n a r. Ran n a r \<in> set (rs_trace st) \<longrightarrow> find_tool (ctx_of t p) n \<noteq> None"
      using ok unfolding run_ok_def by blast
    then have "find_tool (ctx_of t p) n \<noteq> None" using mem e(1) by blast
    then obtain tool where tool: "find_tool (ctx_of t p) n = Some tool" by blast
    then have "tool \<in> set (pr_tools p)" "tl_name tool = n" by (auto simp: find_tool_def ctx_of_def find_Some_iff)
    then show ?thesis using flagged p tool e by simp
  qed
  then have "length (filter (\<lambda>e. \<exists>r. e = Ran n args r \<and> tr_success r) (rs_trace st))
      \<le> length (filter ((=) (side_effect_sig n args)) (effects (ctx_of t p) (rs_trace st)))"
    by (rule count_effects)
  also have "\<dots> \<le> 1" using ok by (intro distinct_once) (simp add: run_ok_def)
  finally show ?thesis .
qed simp


fun looked_by :: "traced \<Rightarrow> bool" where
  "looked_by (Ran n args r) = (n = ''check_availability'' \<and> tr_success r \<and> tr_availability r \<noteq> None)"
| "looked_by _ = False"

lemma last_offer:
  "fold offers_after tr None = Some a \<Longrightarrow>
     \<exists>xs args r ys. tr = xs @ Ran ''check_availability'' args r # ys \<and> tr_success r \<and> tr_availability r = Some a
       \<and> \<not> list_ex diary_changed_by ys \<and> \<not> list_ex looked_by ys"
proof (induction tr rule: rev_induct)
  case (snoc e tr)
  show ?case
  proof (cases "diary_changed_by e \<or> looked_by e")
    case True
    with snoc.prems obtain args r where "e = Ran ''check_availability'' args r" "tr_success r" "tr_availability r = Some a"
      by (cases e) (auto split: if_splits simp: booking_mutation_tools_def)
    then show ?thesis by (intro exI [of _ tr] exI [of _ args] exI [of _ r] exI [of _ "[]"]) simp
  next
    case False
    then have "offers_after e (fold offers_after tr None) = fold offers_after tr None" by (cases e) auto
    with snoc obtain xs args r ys where "tr = xs @ Ran ''check_availability'' args r # ys" "tr_success r"
      "tr_availability r = Some a" "\<not> list_ex diary_changed_by ys" "\<not> list_ex looked_by ys" by auto
    with False show ?thesis
      by (intro exI [of _ xs] exI [of _ args] exI [of _ r] exI [of _ "ys @ [e]"]) simp
  qed
qed simp

text \<open>
  C16: the chips under a reply come from the last look at the diary: each is one of the slots the last
  successful \<open>check_availability\<close> of this run returned, there are at most eight, and no booking tool succeeded
  after it, so no chip offers a time from before a booking.
\<close>
theorem chips_come_from_the_last_look:
  assumes "agent_run env t w = (Response p, st, w')" "rp_chips p = Some cs"
  shows "length cs \<le> 8
    \<and> (\<exists>xs args r ys a. rs_trace st = xs @ Ran ''check_availability'' args r # ys \<and> tr_success r \<and> tr_availability r = Some a
         \<and> \<not> list_ex diary_changed_by ys \<and> \<not> list_ex looked_by ys
         \<and> (\<forall>c \<in> set cs. \<exists>s \<in> set (ta_slots a).
              c = slot_chip_quick_reply env (fst s) (ta_timezone a) (resolve_bot_language (ti_language t)) (ta_service_name a)))"
proof -
  obtain q where ok: "run_ok (ctx_of t q) (rw_on_record w) (tool_payloads (ti_history t)) st" and r: "reply_ok env (ctx_of t q) st p"
    using agent_reply_ok [OF assms(1)] by blast
  then obtain a where a: "fold offers_after (rs_trace st) None = Some a" and len: "length cs \<le> 8"
    and cs: "set cs \<subseteq> (\<lambda>s. slot_chip_quick_reply env (fst s) (ta_timezone a) (resolve_bot_language (ti_language t)) (ta_service_name a)) ` set (ta_slots a)"
    using assms(2) by (auto simp: reply_ok_def chips_ok_def run_ok_def ctx_of_def)
  then show ?thesis using last_offer [OF a] by blast
qed

lemma last_fact:
  "facts tr = (Some f, False) \<Longrightarrow>
     \<exists>xs e ys g. tr = xs @ e # ys \<and> fact_of e = Some g \<and> (\<forall>y \<in> set ys. fact_of y = None) \<and> af_address g = af_address f"
proof (induction tr rule: rev_induct)
  case Nil
  then show ?case by (simp add: facts_def List.map_filter_simps)
next
  case (snoc e tr)
  show ?case
  proof (cases "fact_of e")
    case None
    with snoc obtain xs x ys g where "tr = xs @ x # ys" "fact_of x = Some g" "\<forall>y \<in> set ys. fact_of y = None" "af_address g = af_address f"
      by (auto simp: facts_snoc)
    with None show ?thesis by (intro exI [of _ xs] exI [of _ x] exI [of _ "ys @ [e]"] exI [of _ g]) auto
  next
    case (Some g)
    then have "af_address g = af_address f"
      using snoc.prems by (auto simp: facts_snoc add_fact_def merge_address_facts_def split: option.splits if_splits prod.splits)
    with Some show ?thesis by (intro exI [of _ tr] exI [of _ e] exI [of _ "[]"] exI [of _ g]) simp
  qed
qed

text \<open>
  C15: a reply states the address that was used. When the tools of a run reported the address they used and
  never contradicted each other, a reply that is not one of the program's own sentences either states that
  address - and none of the other addresses the tools warned of - or is the fixed sentence with it; and the
  address is the one the last tool reported.
\<close>
theorem reply_states_the_address_used:
  assumes "agent_run env t w = (Response p, st, w')" "facts (rs_trace st) = (Some f, False)"
    and "\<not> ships_own_sentence env t (rp_content p)"
  shows "(valid_address_reply (rp_content p) f \<or> rp_content p = address_safe_fallback f)
    \<and> (\<exists>xs e ys g. rs_trace st = xs @ e # ys \<and> fact_of e = Some g \<and> (\<forall>y \<in> set ys. fact_of y = None) \<and> af_address g = af_address f)"
proof -
  obtain q where ok: "run_ok (ctx_of t q) (rw_on_record w) (tool_payloads (ti_history t)) st" and r: "reply_ok env (ctx_of t q) st p"
    using agent_reply_ok [OF assms(1)] by blast
  have "rs_address st = Some f" "\<not> rs_address_conflict st" using ok assms(2) by (auto simp: run_ok_def)
  then show ?thesis using r assms(3) last_fact [OF assms(2)]
    by (auto simp: reply_ok_def own_words_eq reply_guarded_def address_stated_def)
qed

section \<open>A run in full\<close>

text \<open>
  A model that books twice in one answer, calls a person and a tool that throws, and then says so; the
  tools answer at once, and the state of the world counts the model's answers.
\<close>

definition plain_result :: "json_object \<Rightarrow> tool_result" where
  "plain_result d = \<lparr>tr_success = True, tr_data = d, tr_error = None, tr_safe = False, tr_affordance = None,
     tr_fact = None, tr_availability = None\<rparr>"

definition sample_offer :: tool_availability where
  "sample_offer = \<lparr>ta_slots = [(0, 3600000), (7200000, 10800000)], ta_requestable = [], ta_timezone = ''UTC'', ta_service = None,
     ta_service_name = None, ta_location_mode = None, ta_window = None\<rparr>"

definition sample_fact :: address_fact where
  "sample_fact = \<lparr>af_address = ''Kerkstraat 12, 2000 Antwerpen'', af_use = ForAvailability, af_alternatives = []\<rparr>"

definition sample_tool :: "string \<Rightarrow> bool \<Rightarrow> thrown + tool_result \<Rightarrow> nat tool_adapter" where
  "sample_tool n side out = \<lparr>tl_name = n, tl_side_effects = side, tl_needs = [], tl_execute = (\<lambda>_ _ w. (out, w))\<rparr>"

definition sample_error :: thrown where
  "sample_error = \<lparr>th_status = None, th_code = None, th_type = None, th_error_code = None, th_error_type = None,
     th_cause_code = None, th_name = ''QueryFailedError'', th_message = ''password=secret''\<rparr>"

definition sample_tools :: "nat tool_adapter list" where
  "sample_tools =
     [sample_tool ''create_booking'' True (Inr (plain_result [])),
      sample_tool ''escalate_to_human'' True (Inr (plain_result [])),
      sample_tool ''kb_search'' False (Inl sample_error),
      sample_tool ''check_availability'' False (Inr ((plain_result [])\<lparr>tr_availability := Some sample_offer\<rparr>)),
      sample_tool ''list_bookings'' False (Inr ((plain_result [])\<lparr>tr_fact := Some sample_fact\<rparr>))]"

definition call_of :: "string \<Rightarrow> tool_call" where
  "call_of n = \<lparr>tc_id = n, tc_name = n, tc_args = []\<rparr>"

definition sample_env :: "string list \<Rightarrow> string list \<Rightarrow> string \<Rightarrow> nat run_env" where
  "sample_env entitled calls content =
     \<lparr>ev_parsers = \<lparr>tp_parse = (\<lambda>_. None), tp_utc = (\<lambda>_. None), tp_zone = (\<lambda>_. Some utc), tp_local = (\<lambda>_. None)\<rparr>,
      ev_now = (\<lambda>_. 0), ev_link = (\<lambda>_. redis_up),
      ev_prepare = (\<lambda>w. (Inr \<lparr>pr_entitled = entitled, pr_tools = sample_tools, pr_all_auto_book = True, pr_prompt = []\<rparr>, w)),
      ev_exhausted = (\<lambda>r. (Inr False, r)),
      ev_chat = (\<lambda>ms ts r. (Inr (if r = 0 then \<lparr>lr_content = [], lr_calls = map call_of calls, lr_stop = False\<rparr>
                              else \<lparr>lr_content = content, lr_calls = [], lr_stop = True\<rparr>), r + 1)),
      ev_meter = (\<lambda>r. (Inr (), r)), ev_translate = (\<lambda>_ _ r. (None, r)), ev_saves = (\<lambda>_. True),
      ev_format = (\<lambda>_ _ _. ([], [], []))\<rparr>"

definition sample_turn :: turn_input where
  "sample_turn = \<lparr>ti_message = ''ok'', ti_history = [], ti_run = 1, ti_channel = ''widget'', ti_bot_owned = True,
     ti_fallback = [], ti_language = None\<rparr>"

definition sample_world :: "nat run_world" where
  "sample_world = \<lparr>rw_store = empty_store, rw_checked = None, rw_on_record = False, rw_rest = 0\<rparr>"

definition booking_env :: "nat run_env" where
  "booking_env = sample_env [''create_booking''] [''create_booking'', ''create_booking'', ''escalate_to_human'', ''kb_search''] ''I have booked it''"

definition looking_env :: "nat run_env" where
  "looking_env = sample_env [] [''check_availability''] ''ok''"

definition address_env :: "nat run_env" where
  "address_env = sample_env [] [''list_bookings''] ''Kerkstraat 12 Antwerpen''"

definition booking_run :: "agent_result \<times> run_state \<times> nat run_world" where
  "booking_run = agent_run booking_env sample_turn sample_world"

definition looking_run :: "agent_result \<times> run_state \<times> nat run_world" where
  "looking_run = agent_run looking_env sample_turn sample_world"

definition address_run :: "agent_result \<times> run_state \<times> nat run_world" where
  "address_run = agent_run address_env sample_turn sample_world"

fun reply_of :: "agent_result \<Rightarrow> reply option" where
  "reply_of (Response p) = Some p"
| "reply_of _ = None"

lemma booking_run_parts:
  "fst booking_run = Response \<lparr>rp_content = ''I have booked it'', rp_chips = None, rp_affordance = None, rp_offer = None,
      rp_context = Some \<lparr>vc_booking = True, vc_request = True, vc_booking_request = False, vc_price = False\<rparr>, rp_handoff = True\<rparr>
   \<and> rs_trace (fst (snd booking_run)) =
      [Ran ''create_booking'' [] (plain_result []), AlreadyDone ''create_booking'' [], Ran ''escalate_to_human'' [] (plain_result []),
       Threw ''kb_search'' [] ''password=secret'']
   \<and> ToolMsg ''kb_search'' [(''error'', JStr ''The kb_search tool is temporarily unavailable. Do not retry it this turn.'')]
        \<in> set (rs_messages (fst (snd booking_run)))"
  by code_simp

lemma sample_run_eq:
  "fst r = res \<Longrightarrow> agent_run env t w = r \<Longrightarrow> agent_run env t w = (res, fst (snd r), snd (snd r))"
  by (cases r) auto

lemmas booking_run_eq = sample_run_eq [OF conjunct1 [OF booking_run_parts] booking_run_def [symmetric]]

lemma sample_prepares: "fst (ev_prepare (sample_env en cs c) w) = Inr p \<Longrightarrow> pr_entitled p = en \<and> pr_tools p = sample_tools"
  by (auto simp: sample_env_def)

lemma sample_own_sentence: "ships_own_sentence (sample_env en cs c) t x = (x \<in> set own_sentences)"
  by (auto simp: ships_own_sentence_def sample_env_def)


theorem handoff_exactly_when_called_witness:
  "handoff_requested (fst booking_run) \<and> ran_ok ''escalate_to_human'' (rs_trace (fst (snd booking_run)))"
  using handoff_exactly_when_called [OF booking_run_eq] booking_run_parts by simp

theorem side_effect_succeeds_once_witness:
  "length (filter (\<lambda>e. \<exists>r. e = Ran ''create_booking'' [] r \<and> tr_success r) (rs_trace (fst (snd booking_run)))) = 1"
proof -
  have "\<forall>w p. fst (ev_prepare booking_env w) = Inr p
      \<longrightarrow> (\<forall>tool \<in> set (pr_tools p). tl_name tool = ''create_booking'' \<longrightarrow> tl_side_effects tool)"
    using sample_prepares by (fastforce simp: booking_env_def sample_tools_def sample_tool_def)
  then show ?thesis
    using side_effect_succeeds_once [OF booking_run_eq, of "''create_booking''" "[]"] booking_run_parts
    by (simp add: plain_result_def)
qed


lemma looking_run_parts:
  "fst looking_run = Response \<lparr>rp_content = ''ok'', rp_chips = Some (replicate 2 \<lparr>qr_title = [], qr_value = ''Book  at ''\<rparr>),
      rp_affordance = None, rp_offer = Some \<lparr>op_service = None, op_location = None, op_starts = [0, 7200000]\<rparr>,
      rp_context = Some \<lparr>vc_booking = False, vc_request = False, vc_booking_request = False, vc_price = False\<rparr>, rp_handoff = False\<rparr>"
  by code_simp

theorem chips_come_from_the_last_look_witness:
  "\<exists>xs args r ys a. rs_trace (fst (snd looking_run)) = xs @ Ran ''check_availability'' args r # ys \<and> tr_success r
     \<and> tr_availability r = Some a \<and> \<not> list_ex diary_changed_by ys"
  using chips_come_from_the_last_look [OF sample_run_eq [OF looking_run_parts looking_run_def [symmetric]]] by (simp only: reply.simps) blast

lemma address_run_parts:
  "fst address_run = Response \<lparr>rp_content = ''Kerkstraat 12 Antwerpen'', rp_chips = None, rp_affordance = None, rp_offer = None,
      rp_context = Some \<lparr>vc_booking = False, vc_request = False, vc_booking_request = False, vc_price = False\<rparr>, rp_handoff = False\<rparr>
   \<and> rs_trace (fst (snd address_run)) = [Ran ''list_bookings'' [] ((plain_result [])\<lparr>tr_fact := Some sample_fact\<rparr>)]"
  by code_simp

theorem reply_states_the_address_used_witness:
  "valid_address_reply ''Kerkstraat 12 Antwerpen'' sample_fact \<or> ''Kerkstraat 12 Antwerpen'' = address_safe_fallback sample_fact"
proof -
  have "facts (rs_trace (fst (snd address_run))) = (Some sample_fact, False)"
    by (simp add: conjunct2 [OF address_run_parts] facts_def List.map_filter_simps add_fact_def merge_address_facts_def plain_result_def)
  moreover have "\<not> ships_own_sentence address_env sample_turn ''Kerkstraat 12 Antwerpen''"
    unfolding address_env_def sample_own_sentence by code_simp
  ultimately show ?thesis
    using reply_states_the_address_used
      [OF sample_run_eq [OF conjunct1 [OF address_run_parts] address_run_def [symmetric]], of sample_fact] by simp
qed

end
