(* ===== verification/Spec2Isabelle.thy ===== *)
theory Spec2Isabelle
  imports TravelGate Grouping LedgerProps TurnQueue EntitlementProps BillingRuns
    AddressProps GateProps AgentRunProps
begin

text \<open>
  The verified core of the Axentrio platform: the booking engine behind its chat agent, the
  conversation runtime that carries the chat, and the billing that decides what a tenant may use.
  All file names below are under \<open>api/src\<close>.

  \<^bold>\<open>The program.\<close> A tenant runs bots that talk to customers in a widget or on external channels.
  A customer's message passes the inbound guardrails, is coalesced with its neighbours into one
  turn, and is answered by an agent (a language model with tools) unless a human owns the
  conversation. One of the agent's tools is the booking engine: it turns a bot's availability rule
  into bookable slots, refuses slots a field worker cannot drive to, orders the remaining ones so
  that the day's drives stay short, and keeps the ledger of bookings and of captured requests.
  What a tenant may use follows from its tier, its overrides and its own switches; the tier follows
  from its billing accounts, which Stripe's webhooks, the billing service and the dunning sweep write.

  \<^bold>\<open>The theories.\<close> In the order they build on each other:

  \<^item> \<^theory_text>\<open>Prelude\<close>: JavaScript strings, truthiness, optional values and results; generic lemmas.
  \<^item> \<^theory_text>\<open>Zones\<close>: the luxon calls as a record argument; the locales \<open>calendar\<close> and
    \<open>regular_calendar\<close> with their laws, interpreted on UTC, whose arithmetic is written out.
  \<^item> \<^theory_text>\<open>Availability\<close>: \<open>database/entities/AvailabilityRule.ts\<close>; \<open>windowsForDay\<close>, \<open>parseHHmm\<close> and
    \<open>pickOverrideForDate\<close> of \<open>booking/booking-providers/slot-engine.ts\<close>.
  \<^item> \<^theory_text>\<open>SlotEngine\<close>: the rest of \<open>slot-engine.ts\<close>: \<open>computeSlots\<close> with its day walk, caps and
    conflict tests, \<open>isWithinBusinessHours\<close>, \<open>explainEmptyAvailability\<close>.
  \<^item> \<^theory_text>\<open>BookingDates\<close>: \<open>booking-providers/booking-dates.ts\<close> and the window refusals of a requested time.
  \<^item> \<^theory_text>\<open>ChangePolicy\<close>: \<open>booking/customer-change-policy.ts\<close>, \<open>service-timing.ts\<close>, \<open>service-duration.ts\<close>.
  \<^item> \<^theory_text>\<open>Ledger\<close>: the rows of \<open>chatbot_bookings\<close> and the constraints of its migrations;
    \<open>capacity.ts\<close>, \<open>busy.ts\<close>, \<open>dedup.ts\<close>; the write operations of \<open>internal.provider.ts\<close>
    (\<open>createBooking\<close>, \<open>rescheduleBooking\<close>, \<open>acceptRequest\<close>, \<open>cancelBooking\<close>, \<open>declineRequest\<close>,
    the request captures and the rekey of a diary).
  \<^item> \<^theory_text>\<open>LedgerSafety\<close>, \<^theory_text>\<open>LedgerProps\<close>: its invariants over any sequence of these operations.
  \<^item> \<^theory_text>\<open>Requests\<close>: \<open>checkAvailability\<close> and \<open>requestAppointment\<close> of \<open>internal.provider.ts\<close>.
  \<^item> \<^theory_text>\<open>Travel\<close>: \<open>contracts/travel.ts\<close>, with the locale \<open>geo_distance\<close> interpreted on the haversine.
  \<^item> \<^theory_text>\<open>TravelGate\<close>: \<open>booking/travel/travel-gate.ts\<close>, verdicts and drive lookups in their order.
  \<^item> \<^theory_text>\<open>Grouping\<close>: \<open>half-day.ts\<close>, \<open>insertion-scorer.ts\<close>, \<open>score-offer.ts\<close>, \<open>slot-ordering.ts\<close>,
    \<open>apply-grouping.ts\<close> in \<open>booking/travel/\<close>.
  \<^item> \<^theory_text>\<open>Conversation\<close>: \<open>services/session-ownership.ts\<close> and \<open>services/conversation-command.service.ts\<close>.
  \<^item> \<^theory_text>\<open>ConversationProps\<close>: its invariants, the locale \<open>fence\<close> of version counters interpreted on
    the commands, and the refinement of an abstract desk.
  \<^item> \<^theory_text>\<open>Guardrails\<close>: \<open>guardrails/loop-detector.ts\<close>, the Lua script of \<open>guardrails/loop-store.ts\<close> and
    \<open>guardrails/inbound-guardrails.service.ts\<close>.
  \<^item> \<^theory_text>\<open>Turns\<close>: \<open>services/turn-timing.ts\<close>, \<open>unanswered-window.ts\<close>, \<open>session-lock.ts\<close>,
    \<open>turn-coalescer.ts\<close> and the two reply paths of \<open>message-forwarding.service.ts\<close>.
  \<^item> \<^theory_text>\<open>TurnProps\<close>, \<^theory_text>\<open>TurnQueue\<close>: what a turn and the queue guarantee; the locale \<open>lease\<close>
    interpreted on the session lock.
  \<^item> \<^theory_text>\<open>JsRegex\<close>: JavaScript's regular expressions, parsed and matched by backtracking.
  \<^item> \<^theory_text>\<open>ClockTimes\<close>: \<open>agent/clock-times.ts\<close> and \<open>agent/day-part.ts\<close>, how the agent reads times and
    dates in chat text.
  \<^item> \<^theory_text>\<open>AgentConfirm\<close>: \<open>agent/tool-adapter.ts\<close>, \<open>offered-slots-store.ts\<close>, \<open>refused-named-time.ts\<close>,
    \<open>pending-booking-confirmation.ts\<close>: the gates before the agent writes a booking;
    \<^theory_text>\<open>GateProps\<close>: what they promise.
  \<^item> \<^theory_text>\<open>AddressBinding\<close>: \<open>booking/travel/address-binding.ts\<close> and \<open>address-for-turn.ts\<close>, the address
    a conversation is about and the question that may be open about it; \<^theory_text>\<open>AddressProps\<close>: what it
    promises.
  \<^item> \<^theory_text>\<open>Classifier\<close>: \<open>guardrails/classify.ts\<close>, which \<open>with_classifier\<close> plugs into the gate.
  \<^item> \<^theory_text>\<open>OutputClaims\<close>: \<open>guardrails/output-validation.ts\<close>, what a reply may not say.
  \<^item> \<^theory_text>\<open>AgentRun\<close>: the run of the agent, \<open>agent/agent.service.ts\<close>: the loop, the calls of tools and
    what their results change, the guards of a reply, the chips and the result; with it
    \<open>llm/upstream-error.ts\<close>, \<open>booking-providers/availability-checked.ts\<close> and the chips of
    \<open>config/bot-language.ts\<close>; \<^theory_text>\<open>AgentRunProps\<close>: the invariant of a run and what a run promises.
  \<^item> \<^theory_text>\<open>Entitlements\<close>: \<open>billing/plans.ts\<close>, \<open>feature-taxonomy.ts\<close>, \<open>feature-toggles.ts\<close>,
    \<open>entitlements.ts\<close> and the gates of \<open>enforce.ts\<close>; \<^theory_text>\<open>EntitlementProps\<close>: what they promise.
  \<^item> \<^theory_text>\<open>TokenBudget\<close>: \<open>billing/token-budget.service.ts\<close>, one definition per SQL statement, and its
    properties over any sequence of these statements.
  \<^item> \<^theory_text>\<open>StripeEvents\<close>: \<open>billing/types.ts\<close> and the normalisation of webhook events in
    \<open>billing/providers/stripe.ts\<close>.
  \<^item> \<^theory_text>\<open>BillingAccounts\<close>: the rows of \<open>tenant_billing_accounts\<close> with their unique indexes and the
    event handlers of \<open>billing/events.ts\<close>.
  \<^item> \<^theory_text>\<open>BillingService\<close>: the idempotent wrapper of \<open>events.ts\<close>, \<open>webhooks/billing-webhook.routes.ts\<close>,
    \<open>billing/service.ts\<close>, \<open>onboarding-trial.ts\<close>, the checkout and plan changes of \<open>stripe.ts\<close> and
    \<open>dunning.ts\<close>.
  \<^item> \<^theory_text>\<open>BillingProps\<close>, \<^theory_text>\<open>BillingRuns\<close>: the invariant of the accounts, step by step and over runs.

  \<^bold>\<open>How state and operations correspond.\<close> A database table is the list of its rows, a row a record
  with the columns the code reads or writes, an operation a function from the table (or from one
  conversation) to an error or a new table. A transaction that throws leaves no trace. An operation
  that reads before it takes its lock gets the table of that earlier read as a separate argument,
  so nothing is assumed about what happened in between. Commands on one conversation run one after
  another because each locks the session row first; what other workers do while the agent thinks is
  an arbitrary step of the conversation. A billing run interleaves whole transactions in any order,
  and what an operation read before its lock is any earlier state of the accounts; the dunning sweep
  takes its rows in the order of the table. Postgres checks the unique indexes of the accounts row
  by row in the order of the scan, so an update can fail on a row it would still have moved. Redis
  keys are a value with its deadline, and a call sees whether there is a client and whether its read
  and its write go through. A conversation has one address row, which every operation on it locks.
  A run of the agent is a loop of at most ten answers of the model over a \<open>run_state\<close>, which has the
  fields of \<open>RunLoopState\<close> and the trace of the tool calls, and a \<open>run_world\<close>, whatever the arguments
  may change besides: each answer either calls tools, whose results are absorbed in their order, or is
  a reply, which passes the guards in their order. A note to the model that no guard reads is
  reduced to its name, and dashes are left out of the fixed sentences.
  Patterns stand as in the source, with \<open>%\<close> for the backslash; code points above 255 are left out of
  them, and scores of signals are in hundredths. Instants are
  epoch milliseconds as integers; where the database clock matters it is in microseconds. Ids are
  natural numbers, in the order the database gives the uuids; new ids are fresh.

  \<^bold>\<open>What is an argument.\<close> Code outside the repository is an argument of the definitions that use
  it: luxon (a \<open>zone\<close>), the routing service behind \<open>lookup\<close>, the language model (\<open>ev_chat\<close>), the
  Stripe API (a \<open>stripe_api\<close> whose calls may fail) and its configured prices, Postgres' clock and
  Redis' clock, the digest of \<open>node:crypto\<close>, the parser behind \<open>new URL\<close> and the date parsers of
  luxon and JavaScript (\<open>time_parsers\<close>). So are parts of the repository that a modelled part only calls and whose
  answer it must cope with whatever it is: for a run its tools, the preparation of its prompt, the
  metering, the translation of a fixed sentence and the format of a chip; for a turn the agent, the
  output guardrails, the rendering of documents and the escalation keywords.

  \<^bold>\<open>What the theorems show.\<close> The slot engine returns exactly the starts its specification admits and
  every offered start can be booked; over any sequence of operations, held bookings never overlap,
  keep the minimum gap and the caps, and an idempotency key books once. The travel gate refuses
  only what the speed bounds or a plausible route prove unreachable and clears only what is safe;
  grouping only reorders. Every conversation command keeps the shape of a conversation and refines
  an abstract desk; versions fence changes of owner. No message is answered twice, nothing
  unvetted reaches the agent, the classifier's category and severity agree, no reply is committed after ownership moved, no job is dropped while
  a message waits, and the recovery drain ends and forwards each message once. While Redis works,
  every write the agent's gates let through was put to the customer before and agreed to, and the
  call the agent is told to make after a yes is let through; the address of a conversation moves
  only by the customer's pick or by a yes to the question shown, and a booking takes the address
  the agent resolved. Whatever the model writes and the tools answer, a run's reply claims only what
  the run recorded and states the address its tools used, its chips come from the last look at the
  diary, a side effect succeeds once, a person is called exactly when the tool for it succeeded, and
  no raw error reaches the model. The features a tenant
  has never exceed its plan and overrides and are closed under their dependencies. Whatever events
  and operations come, the billing accounts stay consistent, the tier moves only with the primary
  account, an event takes effect once, a tenant gets one trial, and an account that stays unpaid is
  dropped once its grace is over and not before; a period of the token budget sends at most one
  warning.

  \<^bold>\<open>Bounds and fuel.\<close> The day walk of the slot engine has the code's own guard of 400 days; the
  exactness theorem assumes a query within it. The recovery drain has the code's bound of 200
  rounds and is also shown to end by itself. The queue retries twelve times. A run has the code's own bound of
  ten iterations, after which it returns the code's own result. No other definition has fuel; the recursions are structural or have a measure.

  \<^bold>\<open>Integers.\<close> The code's integers are JavaScript numbers far below \<open>2 ^ 53\<close> and are modelled as
  unbounded integers. Distances and durations are reals; IEEE rounding is not modelled.

  \<^bold>\<open>Divergences shown.\<close> A few lemmas exhibit concrete runs in which the code does not do what its
  comments say; they stand at the end of \<^theory_text>\<open>LedgerProps\<close>, \<^theory_text>\<open>TurnQueue\<close>, \<^theory_text>\<open>TokenBudget\<close>,
  \<^theory_text>\<open>BillingRuns\<close>, \<^theory_text>\<open>AddressProps\<close> and in \<^theory_text>\<open>GateProps\<close>.

  \<^bold>\<open>Not modelled.\<close> The HTTP routes, sockets, telemetry and logging (pure I/O); the channels and
  integrations (calls to services); retrieval, the language-model providers, the agent's prompt, its images and its tool adapters
  (text and services), the storage of its trace; the web
  portal and the widget (user interface); the administrator's reset of a conversation; the copy of
  the booking messages; of billing, the caches of entitlements, the texts of its mails, the legal
  invoices and Stripe's portal sessions.
\<close>

end
